(* ===== verification/Prelude.thy ===== *)
theory Prelude
  imports Complex_Main "HOL-Library.Sublist" "HOL-Library.Multiset"
    "HOL-Library.List_Lexorder" "HOL-Library.Char_ord"
begin

text \<open>
  Shared material of the development: the exceptions of the Python programs and the sum type that
  carries them, the Python string operations the sources use (decimal printing and reading,
  \<open>str.split\<close> and \<open>str.join\<close> on one character, \<open>str.count\<close> and \<open>str.split\<close> on a marker), and the
  lemmas on lists and strings that the component theories share.
\<close>

section \<open>Exceptions and results\<close>

text \<open>
  \<open>CommandFailed\<close> is the \<open>RuntimeError\<close> of the harnesses' \<open>call\<close>, with the values its message
  interpolates. \<open>ParserError\<close> is \<open>parser.error\<close>, which exits: like \<open>SystemExit\<close> it is no \<open>Exception\<close>.
\<close>

datatype exn =
    ValueError string
  | TypeError
  | AttributeError
  | KeyError string
  | IndexError
  | OverflowError
  | ZeroDivisionError
  | StopIteration
  | AssertionError string
  | RuntimeError string
  | CommandFailed "string list" int string
  | TimeoutExpired
  | IOFailure string
  | FileNotFoundError string
  | ParserError string
  | SystemExit string

type_synonym 'a res = "exn + 'a"

definition is_Exception :: "exn \<Rightarrow> bool" where
  "is_Exception e = (case e of ParserError m \<Rightarrow> False | SystemExit m \<Rightarrow> False | _ \<Rightarrow> True)"

named_theorems py_simps "equations of the Python library operations"
named_theorems res_simps "evaluation of results"

definition bindR :: "'a res \<Rightarrow> ('a \<Rightarrow> 'b res) \<Rightarrow> 'b res" where
  "bindR m f = (case m of Inl e \<Rightarrow> Inl e | Inr x \<Rightarrow> f x)"

lemma bindR_simps [simp, res_simps]:
  "bindR (Inl e) f = Inl e" "bindR (Inr x) f = f x"
  by (simp_all add: bindR_def)

lemma bindR_InrE [elim!]:
  assumes "bindR m f = Inr y"
  obtains x where "m = Inr x" and "f x = Inr y"
  using assms by (cases m) auto

lemma bindR_cong [fundef_cong]:
  "m = m' \<Longrightarrow> (\<And>x. m' = Inr x \<Longrightarrow> f x = f' x) \<Longrightarrow> bindR m f = bindR m' f'"
  by (cases m') auto

text \<open>Evaluate a list comprehension whose body can raise: left to right, the first exception wins.\<close>

fun mapR :: "('a \<Rightarrow> 'b res) \<Rightarrow> 'a list \<Rightarrow> 'b list res" where
  "mapR f [] = Inr []"
| "mapR f (x # xs) = bindR (f x) (\<lambda>y. bindR (mapR f xs) (\<lambda>ys. Inr (y # ys)))"

lemma mapR_length: "mapR f xs = Inr ys \<Longrightarrow> length ys = length xs"
  by (induction xs arbitrary: ys) auto

lemma mapR_pure: "(\<And>x. x \<in> set xs \<Longrightarrow> f x = Inr (g x)) \<Longrightarrow> mapR f xs = Inr (map g xs)"
  by (induction xs) auto

lemma mapR_nth: "mapR f xs = Inr ys \<Longrightarrow> i < length xs \<Longrightarrow> f (xs ! i) = Inr (ys ! i)"
  by (induction xs arbitrary: ys i) (auto simp: nth_Cons split: nat.splits)

section \<open>Decimal numbers as strings\<close>

definition digit :: "nat \<Rightarrow> char" where
  "digit n = ''0123456789'' ! n"

fun str_nat :: "nat \<Rightarrow> string" where
  "str_nat n = (if n < 10 then [digit n] else str_nat (n div 10) @ [digit (n mod 10)])"

declare str_nat.simps [simp del]

definition str_int :: "int \<Rightarrow> string" where
  "str_int i = (if i < 0 then CHR ''-'' # str_nat (nat (- i)) else str_nat (nat i))"

definition is_digit :: "char \<Rightarrow> bool" where
  "is_digit c \<longleftrightarrow> c \<in> set ''0123456789''"

definition digit_val :: "char \<Rightarrow> nat" where
  "digit_val c = of_char c - 48"

definition nat_of_digits :: "string \<Rightarrow> nat" where
  "nat_of_digits s = foldl (\<lambda>a c. 10 * a + digit_val c) 0 s"

lemma less_10_cases: "n < 10 \<Longrightarrow> n \<in> {0, 1, 2, 3, 4, 5, 6, 7, 8, 9 :: nat}"
  by auto

lemma digit_val_digit [simp]: "n < 10 \<Longrightarrow> digit_val (digit n) = n"
  using less_10_cases [of n] by (auto simp: digit_def digit_val_def)

lemma is_digit_digit [simp]: "n < 10 \<Longrightarrow> is_digit (digit n)"
  using less_10_cases [of n] by (auto simp: digit_def is_digit_def)

lemma is_digit_not [simp]:
  "is_digit c \<Longrightarrow> c \<noteq> CHR '',''" "is_digit c \<Longrightarrow> c \<noteq> CHR ''/''" "is_digit c \<Longrightarrow> c \<noteq> CHR ''-''"
  by (auto simp: is_digit_def)

lemma str_nat_ne [simp]: "str_nat n \<noteq> []"
  by (subst str_nat.simps) simp

lemma str_nat_digits: "c \<in> set (str_nat n) \<Longrightarrow> is_digit c"
proof (induction n rule: str_nat.induct)
  case (1 n)
  show ?case
  proof (cases "n < 10")
    case True
    with "1.prems" show ?thesis by (auto simp: str_nat.simps [of n])
  next
    case False
    with "1" show ?thesis by (auto simp: str_nat.simps [of n])
  qed
qed

lemma str_nat_not [simp]:
  "CHR '','' \<notin> set (str_nat n)" "CHR ''/'' \<notin> set (str_nat n)" "CHR ''-'' \<notin> set (str_nat n)"
  using is_digit_not str_nat_digits by blast+

lemma list_all_str_nat [simp]: "list_all is_digit (str_nat n)"
  by (auto simp: list_all_iff dest: str_nat_digits)

lemma length_str_nat: "n < 10 ^ k \<Longrightarrow> 0 < k \<Longrightarrow> length (str_nat n) \<le> k"
proof (induction n arbitrary: k rule: str_nat.induct)
  case (1 n)
  show ?case
  proof (cases "n < 10")
    case False
    then obtain j where j: "k = Suc j" "0 < j" using "1.prems" by (cases k; cases "k - 1") auto
    then have "length (str_nat (n div 10)) \<le> j" using "1.IH" [OF False] "1.prems"(1) by (simp add: less_mult_imp_div_less mult.commute)
    with False j show ?thesis by (simp add: str_nat.simps [of n])
  qed (use "1.prems" in \<open>simp add: str_nat.simps [of n]\<close>)
qed

lemma nat_of_digits_snoc: "nat_of_digits (s @ [c]) = 10 * nat_of_digits s + digit_val c"
  by (simp add: nat_of_digits_def)

lemma nat_of_digits_str_nat [simp]: "nat_of_digits (str_nat n) = n"
proof (induction n rule: str_nat.induct)
  case (1 n)
  show ?case
  proof (cases "n < 10")
    case True
    then show ?thesis by (simp add: str_nat.simps [of n] nat_of_digits_def)
  next
    case False
    with "1" have "nat_of_digits (str_nat (n div 10)) = n div 10" by simp
    with False show ?thesis by (simp add: str_nat.simps [of n] nat_of_digits_snoc)
  qed
qed

lemma str_nat_inject [simp]: "str_nat m = str_nat n \<longleftrightarrow> m = n"
  by (metis nat_of_digits_str_nat)

text \<open>
  \<open>int(text)\<close> for an optional sign and decimal digits; anything else raises. (Surrounding white
  space and underscores, which \<open>int\<close> also accepts, are not modelled.)
\<close>

definition int_of_string :: "string \<Rightarrow> int res" where
  "int_of_string s =
     (let bad = Inl (ValueError (''invalid literal for int(): '' @ s));
          number = (\<lambda>ds. if ds \<noteq> [] \<and> list_all is_digit ds then Some (int (nat_of_digits ds)) else None)
      in case s of
           [] \<Rightarrow> bad
         | c # ds \<Rightarrow>
             if c = CHR ''-'' then (case number ds of Some n \<Rightarrow> Inr (- n) | None \<Rightarrow> bad)
             else if c = CHR ''+'' then (case number ds of Some n \<Rightarrow> Inr n | None \<Rightarrow> bad)
             else (case number s of Some n \<Rightarrow> Inr n | None \<Rightarrow> bad))"

lemma int_of_string_str_nat [simp]: "int_of_string (str_nat n) = Inr (int n)"
proof -
  obtain c ds where s: "str_nat n = c # ds" by (metis neq_Nil_conv str_nat_ne)
  then have "is_digit c" using str_nat_digits [of c n] by simp
  then have "c \<noteq> CHR ''-''" "c \<noteq> CHR ''+''" by (auto simp: is_digit_def)
  then show ?thesis using list_all_str_nat [of n] nat_of_digits_str_nat [of n]
    by (simp add: int_of_string_def s del: nat_of_digits_str_nat list_all_str_nat)
qed

section \<open>Splitting and joining on a character\<close>

text \<open>\<open>s.split(c)\<close> with a one-character separator, and \<open>c.join(parts)\<close>.\<close>

fun split_on :: "char \<Rightarrow> string \<Rightarrow> string list" where
  "split_on c [] = [[]]"
| "split_on c (x # xs) =
     (if x = c then [] # split_on c xs
      else (case split_on c xs of [] \<Rightarrow> [[x]] | p # ps \<Rightarrow> (x # p) # ps))"

fun join :: "string \<Rightarrow> string list \<Rightarrow> string" where
  "join sep [] = []"
| "join sep [p] = p"
| "join sep (p # q # ps) = p @ sep @ join sep (q # ps)"

lemma split_on_ne [simp]: "split_on c s \<noteq> []"
  by (cases s) (auto split: list.splits)

lemma split_on_none: "c \<notin> set p \<Longrightarrow> split_on c p = [p]"
  by (induction p) auto

lemma split_on_append: "c \<notin> set p \<Longrightarrow> split_on c (p @ c # s) = p # split_on c s"
  by (induction p) auto

lemma split_on_join:
  assumes "ps \<noteq> []" and "\<And>p. p \<in> set ps \<Longrightarrow> c \<notin> set p"
  shows "split_on c (join [c] ps) = ps"
  using assms by (induction "[c]" ps rule: join.induct) (auto simp: split_on_none split_on_append)

lemma join_Cons: "ps \<noteq> [] \<Longrightarrow> join sep (p # ps) = p @ sep @ join sep ps"
  by (cases ps) auto

lemma join_Cons_head: "join sep ((x # p) # ps) = x # join sep (p # ps)"
  by (cases ps) auto

lemma join_split_on: "join [c] (split_on c s) = s"
proof (induction s)
  case (Cons x xs)
  then show ?case
    by (cases "split_on c xs") (auto simp: join_Cons join_Cons_head)
qed simp

section \<open>Searching and replacing a marker\<close>

text \<open>
  \<open>split_once pat s\<close> is the text before and after the leftmost occurrence of \<open>pat\<close>, what
  \<open>s.split(pat, 1)\<close> unpacks; \<open>count_sub\<close> and \<open>split_all\<close> are \<open>s.count(pat)\<close> and \<open>s.split(pat)\<close>, which
  count and cut at non-overlapping occurrences from the left.
\<close>

fun split_once :: "string \<Rightarrow> string \<Rightarrow> (string \<times> string) option" where
  "split_once pat s =
     (if prefix pat s then Some ([], drop (length pat) s)
      else (case s of [] \<Rightarrow> None
            | x # xs \<Rightarrow> map_option (\<lambda>(a, b). (x # a, b)) (split_once pat xs)))"

declare split_once.simps [simp del]

lemma split_once_Some: "split_once pat s = Some (a, b) \<Longrightarrow> s = a @ pat @ b"
proof (induction pat s arbitrary: a rule: split_once.induct)
  case (1 pat s)
  show ?case
  proof (cases "prefix pat s")
    case True
    with "1.prems" show ?thesis by (auto simp: split_once.simps [of pat s] prefix_def)
  next
    case False
    with "1" show ?thesis by (auto simp: split_once.simps [of pat s] split: list.splits)
  qed
qed

lemma split_once_length:
  "split_once pat s = Some (a, b) \<Longrightarrow> length b = length s - length pat - length a"
  using split_once_Some [of pat s a b] by simp

lemma split_once_decreases [termination_simp]:
  "split_once pat s = Some (a, b) \<Longrightarrow> pat \<noteq> [] \<Longrightarrow> length b < length s"
  using split_once_Some [of pat s a b] by (cases pat) auto

function split_all :: "string \<Rightarrow> string \<Rightarrow> string list" where
  "split_all pat s =
     (if pat = [] then [s]
      else (case split_once pat s of None \<Rightarrow> [s] | Some (a, b) \<Rightarrow> a # split_all pat b))"
  by pat_completeness auto
termination
  by (relation "measure (\<lambda>(pat, s). length s)") (auto simp: split_once_decreases)

declare split_all.simps [simp del]

definition count_sub :: "string \<Rightarrow> string \<Rightarrow> nat" where
  "count_sub pat s = length (split_all pat s) - 1"

section \<open>Lines and white space\<close>

definition is_space :: "char \<Rightarrow> bool" where
  "is_space c \<longleftrightarrow> c \<in> {CHR '' '', CHR 0x09, CHR 0x0A, CHR 0x0B, CHR 0x0C, CHR 0x0D,
       CHR 0x1C, CHR 0x1D, CHR 0x1E, CHR 0x1F, CHR 0x85, CHR 0xA0}"

definition strip :: "string \<Rightarrow> string" where
  "strip s = rev (dropWhile is_space (rev (dropWhile is_space s)))"

text \<open>\<open>s.split()\<close>: the words between runs of white space.\<close>

definition words :: "string \<Rightarrow> string list" where
  "words s = filter (\<lambda>w. w \<noteq> []) (split_on CHR '' '' (map (\<lambda>c. if is_space c then CHR '' '' else c) s))"

definition is_linebreak :: "char \<Rightarrow> bool" where
  "is_linebreak c \<longleftrightarrow> c \<in> {CHR 0x0A, CHR 0x0B, CHR 0x0C, CHR 0x0D, CHR 0x1C, CHR 0x1D, CHR 0x1E, CHR 0x85}"

text \<open>\<open>s.splitlines()\<close>; the accumulator holds the current line reversed.\<close>

fun lines_from :: "string \<Rightarrow> string \<Rightarrow> string list" where
  "lines_from acc [] = (if acc = [] then [] else [rev acc])"
| "lines_from acc (c # cs) =
     (if is_linebreak c
      then rev acc # lines_from [] (if c = CHR 0x0D \<and> prefix [CHR 0x0A] cs then tl cs else cs)
      else lines_from (c # acc) cs)"

definition splitlines :: "string \<Rightarrow> string list" where
  "splitlines s = lines_from [] s"

text \<open>\<open>xs[-1]\<close> and \<open>s[-n:]\<close>.\<close>

definition last_item :: "'a list \<Rightarrow> 'a res" where
  "last_item xs = (if xs = [] then Inl IndexError else Inr (last xs))"

definition last_n :: "nat \<Rightarrow> 'a list \<Rightarrow> 'a list" where
  "last_n n s = drop (length s - n) s"

text \<open>\<open>sub in s\<close>.\<close>

definition contains :: "string \<Rightarrow> string \<Rightarrow> bool" where
  "contains sub s = (split_once sub s \<noteq> None)"

end
