(* ===== verification/Floats.thy ===== *)
theory Floats
  imports Prelude
begin

text \<open>
  Python's floating-point numbers. A finite \<open>float\<close> is the real number it denotes, and the result
  of an arithmetic operation is the exact real result rounded by \<open>fl\<close>, which is binary64
  round-to-nearest-even with gradual underflow. Overflow to infinity and NaN are left out: the
  programs handle measured rates, latencies and byte counts far below \<open>2 ^ 1024\<close>.
  \<open>rne\<close> is the built-in \<open>round(x)\<close> (half to even).
\<close>

section \<open>Rounding to an integer, half to even\<close>

definition rne :: "real \<Rightarrow> int" where
  "rne x = (let f = \<lfloor>x\<rfloor>; d = x - of_int f
            in if d < 1 / 2 then f else if d > 1 / 2 then f + 1
               else if even f then f else f + 1)"

lemma rne_of_int [simp]: "rne (of_int n) = n"
  by (simp add: rne_def)

lemma rne_numeral [simp]: "rne (numeral n) = numeral n" "rne 0 = 0" "rne 1 = 1"
  using rne_of_int [of "numeral n"] rne_of_int [of 0] rne_of_int [of 1] by simp_all

lemma rne_range: "\<lfloor>x\<rfloor> \<le> rne x \<and> rne x \<le> \<lfloor>x\<rfloor> + 1"
  by (auto simp: rne_def Let_def)

lemma rne_ge: "of_int n \<le> x \<Longrightarrow> n \<le> rne x"
  using rne_range [of x] le_floor_iff [of n x] by linarith

lemma rne_le: "x \<le> of_int n \<Longrightarrow> rne x \<le> n"
proof (cases "x = of_int n")
  case False
  assume "x \<le> of_int n"
  with False have "\<lfloor>x\<rfloor> < n" by (simp add: floor_less_iff)
  then show ?thesis using rne_range [of x] by simp
qed simp

lemma rne_mono: "x \<le> y \<Longrightarrow> rne x \<le> rne y"
proof (cases "\<lfloor>x\<rfloor> = \<lfloor>y\<rfloor>")
  case True
  assume "x \<le> y"
  with True show ?thesis by (auto simp: rne_def Let_def)
next
  case False
  assume "x \<le> y"
  then have "\<lfloor>x\<rfloor> \<le> \<lfloor>y\<rfloor>" by (rule floor_mono)
  with False have "\<lfloor>x\<rfloor> + 1 \<le> \<lfloor>y\<rfloor>" by simp
  then show ?thesis using rne_range [of x] rne_range [of y] by linarith
qed

lemma rne_error: "\<bar>of_int (rne x) - x\<bar> \<le> 1 / 2"
  unfolding rne_def Let_def by (auto simp: abs_le_iff)

text \<open>Adding a half: the integer above, or, on an odd integer, one too many.\<close>

lemma rne_add_half:
  "rne (x + 1 / 2) = (if x = of_int \<lfloor>x\<rfloor> then (if even \<lfloor>x\<rfloor> then \<lfloor>x\<rfloor> else \<lfloor>x\<rfloor> + 1) else \<lceil>x\<rceil>)"
proof (cases "x = of_int \<lfloor>x\<rfloor>")
  case True
  then have "\<lfloor>x + 1 / 2\<rfloor> = \<lfloor>x\<rfloor>" by (simp add: floor_eq_iff)
  with True show ?thesis by (simp add: rne_def Let_def)
next
  case False
  define f where "f = \<lfloor>x\<rfloor>"
  have le: "of_int f \<le> x" and f2: "x < of_int f + 1" by (simp_all add: f_def)
  from le False have f1: "of_int f < x" unfolding f_def by linarith
  have f3: "\<lceil>x\<rceil> = f + 1" using False by (simp add: f_def ceiling_altdef)
  note f = f1 f2 f3
  have "f \<le> \<lfloor>x + 1 / 2\<rfloor>" "\<lfloor>x + 1 / 2\<rfloor> \<le> f + 1"
    using f by linarith+
  then consider "\<lfloor>x + 1 / 2\<rfloor> = f" | "\<lfloor>x + 1 / 2\<rfloor> = f + 1" by linarith
  then show ?thesis
  proof cases
    case 1
    with f False show ?thesis by (auto simp: rne_def Let_def f_def)
  next
    case 2
    with f False show ?thesis by (auto simp: rne_def Let_def f_def)
  qed
qed

section \<open>Rounding to binary64\<close>

definition flexp :: "real \<Rightarrow> int" where
  "flexp x = max (\<lfloor>log 2 \<bar>x\<bar>\<rfloor> - 52) (- 1074)"

definition ulp :: "real \<Rightarrow> real" where
  "ulp x = 2 powr of_int (flexp x)"

definition fl :: "real \<Rightarrow> real" where
  "fl x = (if x = 0 then 0 else of_int (rne (x / ulp x)) * ulp x)"

lemma ulp_pos [simp]: "0 < ulp x" "ulp x \<noteq> 0"
  by (simp_all add: ulp_def)

lemma fl_0 [simp]: "fl 0 = 0"
  by (simp add: fl_def)

lemma rne_minus: "rne (- x) = - rne x"
proof (cases "x = of_int \<lfloor>x\<rfloor>")
  case True
  then show ?thesis by (metis of_int_minus rne_of_int)
next
  case False
  then have "\<lfloor>- x\<rfloor> = - \<lfloor>x\<rfloor> - 1" by (simp add: floor_minus ceiling_altdef)
  with False show ?thesis by (auto simp: rne_def Let_def)
qed

lemma ulp_minus [simp]: "ulp (- x) = ulp x"
  by (simp add: ulp_def flexp_def)

lemma fl_minus: "fl (- x) = - fl x"
  by (simp add: fl_def rne_minus)

lemma fl_nonneg: "0 \<le> x \<Longrightarrow> 0 \<le> fl x"
proof -
  assume "0 \<le> x"
  then have "0 \<le> x / ulp x" by (simp add: divide_nonneg_pos)
  then have "0 \<le> rne (x / ulp x)" using rne_ge [of 0 "x / ulp x"] by simp
  then show ?thesis by (simp add: fl_def zero_le_mult_iff less_imp_le)
qed

lemma below_binade: "0 < x \<Longrightarrow> x < 2 powr (of_int \<lfloor>log 2 x\<rfloor> + 1)"
proof -
  assume "0 < x"
  then have "x = 2 powr log 2 x" by simp
  also have "\<dots> < 2 powr (of_int \<lfloor>log 2 x\<rfloor> + 1)"
    by (intro powr_less_mono) linarith+
  finally show ?thesis .
qed

lemma above_binade: "0 < x \<Longrightarrow> 2 powr of_int \<lfloor>log 2 x\<rfloor> \<le> x"
proof -
  assume x: "0 < x"
  have "2 powr of_int \<lfloor>log 2 x\<rfloor> \<le> 2 powr log 2 x" by (intro powr_mono) linarith+
  with x show ?thesis by simp
qed

text \<open>A multiple of the unit below a number bounds its rounding; that is all monotonicity needs.\<close>

lemma fl_le_multiple:
  assumes "x \<le> of_int n * ulp x" and "x \<noteq> 0" shows "fl x \<le> of_int n * ulp x"
proof -
  have "x / ulp x \<le> of_int n" using assms by (simp add: field_simps)
  then have "rne (x / ulp x) \<le> n" by (rule rne_le)
  then show ?thesis using assms(2) by (simp add: fl_def)
qed

lemma fl_ge_multiple:
  assumes "of_int n * ulp x \<le> x" and "x \<noteq> 0" shows "of_int n * ulp x \<le> fl x"
proof -
  have "of_int n \<le> x / ulp x" using assms by (simp add: field_simps)
  then have "n \<le> rne (x / ulp x)" by (rule rne_ge)
  then show ?thesis using assms(2) by (simp add: fl_def)
qed

lemma powr_multiple:
  assumes "flexp x \<le> e" shows "2 powr of_int e = of_int (2 ^ nat (e - flexp x)) * ulp x"
proof -
  have "of_int (2 ^ nat (e - flexp x)) = (2 :: real) powr of_int (e - flexp x)"
    using assms powr_realpow [of 2 "nat (e - flexp x)"] by simp
  then show ?thesis by (simp add: ulp_def flip: powr_add)
qed

lemma flexp_mono: "0 < x \<Longrightarrow> x \<le> y \<Longrightarrow> flexp x \<le> flexp y"
proof -
  assume "0 < x" "x \<le> y"
  then have "\<lfloor>log 2 x\<rfloor> \<le> \<lfloor>log 2 y\<rfloor>" by (intro floor_mono) simp
  with \<open>0 < x\<close> \<open>x \<le> y\<close> show ?thesis by (simp add: flexp_def)
qed

lemma fl_mono_pos:
  assumes "0 < x" and "x \<le> y" shows "fl x \<le> fl y"
proof (cases "flexp x = flexp y")
  case True
  then have u: "ulp x = ulp y" by (simp add: ulp_def)
  have "rne (x / ulp x) \<le> rne (y / ulp x)"
    using assms by (intro rne_mono divide_right_mono) (simp_all add: less_imp_le)
  with assms u show ?thesis by (simp add: fl_def)
next
  case False
  let ?e = "\<lfloor>log 2 y\<rfloor>"
  have y: "0 < y" using assms by simp
  have lt: "flexp x < flexp y" using False flexp_mono [OF assms] by simp
  then have e: "flexp y = ?e - 52" "\<lfloor>log 2 x\<rfloor> + 1 \<le> ?e"
    using assms by (auto simp: flexp_def)
  have "x < 2 powr (of_int \<lfloor>log 2 x\<rfloor> + 1)" using below_binade [OF assms(1)] .
  also have "\<dots> \<le> 2 powr of_int ?e" using e(2) by (intro powr_mono) linarith+
  finally have "x \<le> 2 powr of_int ?e" by simp
  then have "fl x \<le> 2 powr of_int ?e"
    using powr_multiple [of x ?e] lt e(1) assms(1) fl_le_multiple [of x "2 ^ nat (?e - flexp x)"]
    by simp
  also have "\<dots> \<le> fl y"
    using powr_multiple [of y ?e] e(1) above_binade [OF y] y
      fl_ge_multiple [of "2 ^ nat (?e - flexp y)" y] by simp
  finally show ?thesis .
qed

lemma fl_mono: "x \<le> y \<Longrightarrow> fl x \<le> fl y"
proof -
  assume xy: "x \<le> y"
  consider "0 < x" | "y < 0" | "x \<le> 0" "0 \<le> y" by linarith
  then show ?thesis
  proof cases
    case 1
    with xy show ?thesis by (rule fl_mono_pos [rotated])
  next
    case 2
    with xy have "fl (- y) \<le> fl (- x)" by (intro fl_mono_pos) auto
    then show ?thesis by (simp add: fl_minus)
  next
    case 3
    then show ?thesis using fl_nonneg [of y] fl_nonneg [of "- x"] by (simp add: fl_minus)
  qed
qed

subsection \<open>Representable numbers\<close>

definition is_float :: "real \<Rightarrow> bool" where
  "is_float x \<longleftrightarrow> fl x = x"

lemma fl_is_float [simp]: "is_float x \<Longrightarrow> fl x = x"
  by (simp add: is_float_def)

text \<open>An integer of at most 53 bits times a power of two not below \<open>2 ^ -1074\<close> is exact.\<close>

lemma fl_multiple:
  assumes k: "flexp x \<le> k" and x: "x = of_int m * 2 powr of_int k"
  shows "fl x = x"
proof (cases "x = 0")
  case False
  have "x = of_int (m * 2 ^ nat (k - flexp x)) * ulp x"
    using powr_multiple [OF k] by (subst x) simp
  then have q: "x / ulp x = of_int (m * 2 ^ nat (k - flexp x))" by (simp add: field_simps)
  then have "of_int (rne (x / ulp x)) = x / ulp x" by (simp only: rne_of_int)
  then show ?thesis using False by (simp add: fl_def)
qed simp

lemma flexp_scaled:
  assumes "\<bar>m\<bar> < 2 ^ 53" and "- 1074 \<le> k" and "m \<noteq> 0"
  shows "flexp (of_int m * 2 powr of_int k) \<le> k"
proof -
  let ?x = "of_int m * 2 powr of_int k :: real"
  have x0: "0 < \<bar>?x\<bar>" using assms(3) by simp
  have "\<bar>?x\<bar> = of_int \<bar>m\<bar> * 2 powr of_int k" by (simp add: abs_mult)
  also have "\<dots> < of_int (2 ^ 53) * 2 powr of_int k"
    using assms(1) by (intro mult_strict_right_mono) (simp_all only: of_int_less_iff, simp)
  also have "\<dots> = 2 powr (53 + of_int k)" by (simp add: powr_add)
  finally have "log 2 \<bar>?x\<bar> < 53 + of_int k" using x0 by (simp add: log_less_iff)
  then have "\<lfloor>log 2 \<bar>?x\<bar>\<rfloor> < 53 + k" by (simp add: floor_less_iff)
  with assms(2) show ?thesis by (simp add: flexp_def)
qed

lemma fl_scaled:
  assumes "\<bar>m\<bar> \<le> 2 ^ 53" and "- 1074 \<le> k"
  shows "is_float (of_int m * 2 powr of_int k)"
proof (cases "\<bar>m\<bar> = 2 ^ 53")
  case True
  then have "even \<bar>m\<bar>" by simp
  then have "even m" by simp
  then obtain n where n: "m = 2 * n" by blast
  with True have "\<bar>n\<bar> < 2 ^ 53" "n \<noteq> 0" by auto
  with assms(2) have "flexp (of_int n * 2 powr of_int (k + 1)) \<le> k + 1"
    by (intro flexp_scaled) auto
  moreover have "of_int m * 2 powr of_int k = (of_int n * 2 powr of_int (k + 1) :: real)"
    by (simp add: n powr_add)
  ultimately show ?thesis by (simp only: is_float_def) (rule fl_multiple, assumption, simp)
next
  case False
  show ?thesis
  proof (cases "m = 0")
    case False
    with \<open>\<bar>m\<bar> \<noteq> 2 ^ 53\<close> assms have "flexp (of_int m * 2 powr of_int k) \<le> k"
      by (intro flexp_scaled) auto
    then show ?thesis by (simp only: is_float_def) (rule fl_multiple, assumption, simp)
  qed (simp add: is_float_def)
qed

lemma is_float_int: "\<bar>m\<bar> \<le> 2 ^ 53 \<Longrightarrow> is_float (of_int m)"
  using fl_scaled [of m 0] by simp

lemma is_float_numeral [simp]:
  "numeral n \<le> (2 ^ 53 :: int) \<Longrightarrow> is_float (numeral n)" "is_float 0" "is_float 1"
  using is_float_int [of "numeral n"] is_float_int [of 0] is_float_int [of 1] by simp_all

lemma rne_ulp_bound: "x \<noteq> 0 \<Longrightarrow> \<bar>rne (x / ulp x)\<bar> \<le> 2 ^ 53"
proof -
  assume x: "x \<noteq> 0"
  have "\<bar>x\<bar> \<le> 2 powr (of_int \<lfloor>log 2 \<bar>x\<bar>\<rfloor> + 1)"
    using below_binade [of "\<bar>x\<bar>"] x by simp
  also have "\<dots> \<le> 2 powr (53 + of_int (flexp x))"
    by (intro powr_mono) (auto simp: flexp_def)
  also have "\<dots> = of_int (2 ^ 53) * ulp x" by (simp add: ulp_def powr_add)
  finally have "\<bar>x / ulp x\<bar> \<le> of_int (2 ^ 53)" by (simp add: field_simps)
  then have "x / ulp x \<le> of_int (2 ^ 53)" "of_int (- (2 ^ 53)) \<le> x / ulp x"
    unfolding of_int_minus by linarith+
  then have "rne (x / ulp x) \<le> 2 ^ 53" "- (2 ^ 53) \<le> rne (x / ulp x)"
    by (auto intro!: rne_le rne_ge simp del: of_int_minus of_int_power)
  then show ?thesis by simp
qed

lemma is_float_fl [simp]: "is_float (fl x)"
proof (cases "x = 0")
  case False
  then have "is_float (of_int (rne (x / ulp x)) * 2 powr of_int (flexp x))"
    by (intro fl_scaled rne_ulp_bound) (auto simp: flexp_def)
  with False show ?thesis by (simp add: fl_def ulp_def)
qed (simp add: is_float_def)

text \<open>Doubling a float and halving an even sum lose nothing.\<close>

lemma is_float_double:
  assumes "is_float x" shows "is_float (2 * x)"
proof (cases "x = 0")
  case False
  have x: "x = of_int (rne (x / ulp x)) * 2 powr of_int (flexp x)"
    using assms False by (simp add: is_float_def fl_def ulp_def)
  have "is_float (of_int (rne (x / ulp x)) * 2 powr of_int (flexp x + 1))"
    using False by (intro fl_scaled rne_ulp_bound) (auto simp: flexp_def)
  moreover have "of_int (rne (x / ulp x)) * 2 powr of_int (flexp x + 1) = 2 * x"
    by (subst (3) x) (simp add: powr_add)
  ultimately show ?thesis by simp
qed simp

end
