(* ===== verification/Json.thy ===== *)
theory Json
  imports Floats
begin

text \<open>
  The values \<open>json.loads\<close> produces, with the Python operations the programs apply to them:
  dictionary lookup, truth value, comparison with a number and equality. An operation that raises in
  Python (ordering a string and a number, \<open>.get\<close> on a value that is no dictionary) raises here.
  A number is a real number: \<open>NaN\<close>, \<open>Infinity\<close> and \<open>-Infinity\<close>, which Python's decoder accepts beyond the standard and which the
  programs never write as a measurement, are left out.
\<close>

datatype json =
    JNull
  | JBool bool
  | JNum real
  | JStr string
  | JArr "json list"
  | JObj "(string \<times> json) list"

type_synonym dict = "(string \<times> json) list"

text \<open>Python's truth value of a JSON value.\<close>

fun truthy :: "json \<Rightarrow> bool" where
  "truthy JNull = False"
| "truthy (JBool b) = b"
| "truthy (JNum x) = (x \<noteq> 0)"
| "truthy (JStr s) = (s \<noteq> [])"
| "truthy (JArr xs) = (xs \<noteq> [])"
| "truthy (JObj d) = (d \<noteq> [])"

text \<open>The number a value is in comparisons: \<open>bool\<close> is a subclass of \<open>int\<close>.\<close>

fun as_num :: "json \<Rightarrow> real option" where
  "as_num (JNum x) = Some x"
| "as_num (JBool b) = Some (if b then 1 else 0)"
| "as_num _ = None"

definition eq_num :: "json \<Rightarrow> real \<Rightarrow> bool" where
  "eq_num j x \<longleftrightarrow> as_num j = Some x"

definition num_of :: "json \<Rightarrow> real res" where
  "num_of j = (case as_num j of None \<Rightarrow> Inl TypeError | Some x \<Rightarrow> Inr x)"

definition dict_of :: "json \<Rightarrow> dict res" where
  "dict_of j = (case j of JObj d \<Rightarrow> Inr d | _ \<Rightarrow> Inl AttributeError)"

text \<open>\<open>d[k]\<close>, \<open>d.get(k, default)\<close> and the truth value of \<open>d.get(k, 0)\<close>.\<close>

definition item :: "dict \<Rightarrow> string \<Rightarrow> json res" where
  "item d k = (case map_of d k of None \<Rightarrow> Inl (KeyError k) | Some v \<Rightarrow> Inr v)"

definition get_or :: "dict \<Rightarrow> string \<Rightarrow> json \<Rightarrow> json" where
  "get_or d k v = (case map_of d k of None \<Rightarrow> v | Some w \<Rightarrow> w)"

definition flag :: "dict \<Rightarrow> string \<Rightarrow> bool" where
  "flag d k \<longleftrightarrow> truthy (get_or d k (JNum 0))"

definition str_is :: "json \<Rightarrow> string \<Rightarrow> bool" where
  "str_is j s \<longleftrightarrow> j = JStr s"

lemma dict_of_Inr [simp]: "dict_of j = Inr d \<longleftrightarrow> j = JObj d"
  by (cases j) (auto simp: dict_of_def)

lemma dict_of_JObj [simp]: "dict_of (JObj d) = Inr d"
  by simp

lemma num_of_simps [simp]: "num_of (JNum x) = Inr x" "num_of (JBool b) = Inr (if b then 1 else 0)"
  by (simp_all add: num_of_def)

lemma item_Inr: "item d k = Inr v \<longleftrightarrow> map_of d k = Some v"
  by (auto simp: item_def split: option.splits)

lemma item_present: "map_of d k = Some v \<Longrightarrow> item d k = Inr v"
  by (simp add: item_def)

lemma get_or_present: "map_of d k = Some v \<Longrightarrow> get_or d k w = v"
  by (simp add: get_or_def)

lemma as_num_0_not_truthy: "as_num j = Some 0 \<Longrightarrow> \<not> truthy j"
  by (cases j rule: as_num.cases) (auto split: if_splits)

lemma as_num_truthy: "as_num j = Some x \<Longrightarrow> x \<noteq> 0 \<Longrightarrow> truthy j"
  by (cases j rule: as_num.cases) (auto split: if_splits)

end
