(* ===== verification/Campaign.thy ===== *)
theory Campaign
  imports Json
begin

text \<open>
  The measurement campaign of \<open>bench/strong/release_campaign.py\<close>: the definition of a group of runs
  (\<open>group\<close>), the runs it must produce (\<open>expected_runs\<close>), the check of the raw results it produced
  (\<open>validate_group\<close>), the command that runs it (\<open>group_command\<close>) and the plan. A run's directory is
  the record of what the check reads from it.
\<close>

section \<open>Groups\<close>

text \<open>
  The dictionary \<open>group\<close> builds. The last three keys are optional: \<open>None\<close> is an absent key.
\<close>

record spec =
  sp_name :: string
  sp_cases :: "string list"
  sp_engines :: "string list"
  sp_reps :: nat
  sp_seconds :: nat
  sp_warmup :: nat
  sp_kind :: string
  sp_cache_mb :: nat
  sp_memory_mb :: nat
  sp_headline :: bool
  sp_flash_mb :: "nat option"
  sp_discard_flash :: "bool option"
  sp_overload_probe :: "bool option"

definition group ::
  "string \<Rightarrow> string \<Rightarrow> string \<Rightarrow> nat \<Rightarrow> nat \<Rightarrow> string \<Rightarrow> nat \<Rightarrow> nat \<Rightarrow> bool \<Rightarrow> nat \<Rightarrow> nat option \<Rightarrow> bool \<Rightarrow> bool \<Rightarrow> spec"
where
  "group name cases engines reps seconds kind cache memory headline warmup flash discard_flash
     overload_probe =
   (let spec = \<lparr>sp_name = name, sp_cases = split_on CHR '','' cases,
                sp_engines = split_on CHR '','' engines, sp_reps = reps, sp_seconds = seconds,
                sp_warmup = warmup, sp_kind = kind, sp_cache_mb = cache, sp_memory_mb = memory,
                sp_headline = headline, sp_flash_mb = None, sp_discard_flash = None,
                sp_overload_probe = None\<rparr>;
        spec = (if flash \<noteq> None then spec\<lparr>sp_flash_mb := flash\<rparr> else spec);
        spec = (if discard_flash then spec\<lparr>sp_discard_flash := Some True\<rparr> else spec);
        spec = (if overload_probe then spec\<lparr>sp_overload_probe := Some True\<rparr> else spec)
    in spec)"

text \<open>\<open>spec.get(key)\<close> of an optional boolean key, as a condition.\<close>

definition opt_flag :: "bool option \<Rightarrow> bool" where
  "opt_flag b \<longleftrightarrow> b = Some True"

text \<open>Groups whose objective is zero origin requests.\<close>

definition FULL_HIT_GROUPS :: "string list" where
  "FULL_HIT_GROUPS = [''primary'', ''ram192'', ''flash384'', ''parity1g-hit'']"

definition ENGINE_IMAGE_KEYS :: "string list" where
  "ENGINE_IMAGE_KEYS = [''redis'', ''valkey'', ''memcached'', ''dragonfly'', ''garnet'', ''kvrocks'']"

type_synonym run_id = "string \<times> string \<times> string"

definition rep_name :: "nat \<Rightarrow> string" where
  "rep_name r = ''r'' @ str_nat r"

definition expected_runs :: "spec \<Rightarrow> run_id list" where
  "expected_runs spec =
     [(c, rep_name r, e). c \<leftarrow> sp_cases spec, r \<leftarrow> [0..<sp_reps spec], e \<leftarrow> sp_engines spec]"

definition plan_runs :: "spec list \<Rightarrow> nat" where
  "plan_runs groups = sum_list (map (\<lambda>g. length (expected_runs g)) groups)"

definition plan_minimum_timed_seconds :: "spec list \<Rightarrow> nat" where
  "plan_minimum_timed_seconds groups =
     sum_list (map (\<lambda>g. length (expected_runs g) * (sp_seconds g + sp_warmup g)) groups)"

section \<open>The check of a run\<close>

text \<open>
  What \<open>validate_group\<close> reads of one run: \<open>result.json\<close> (absent, or what \<open>json.loads\<close> of its text
  returns or raises), \<open>error.txt\<close> and \<open>correctness.json\<close>.
\<close>

record run_dir =
  rd_result :: "json res option"
  rd_error :: "string option"
  rd_correctness :: "json res option"

text \<open>
  The messages, one constructor per format string with the values it interpolates; the label is
  \<open>case/rep/engine\<close>.
\<close>

datatype remark =
    RunError string string
  | CannotRead string string
  | MissingFields string "string list"
  | NoLatencySamples string
  | WrongDuration string json nat
  | FieldNonzero string string json
  | Truncated string real
  | NoProbe string
  | ProbeFailed string
  | DroppedArrivals string json
  | WarmupUnstable string
  | FullHitOrigins string json
  | RepeatedHitOrigins string json

datatype channel = Problem | Observation | Limitation

type_synonym entry = "channel \<times> remark"

definition label :: "run_id \<Rightarrow> string" where
  "label run = (case run of (c, r, e) \<Rightarrow> c @ ''/'' @ r @ ''/'' @ e)"

definition required_common :: "string list" where
  "required_common = [''errors'', ''client_exit_code'', ''elapsed_s'', ''latency_samples'']"

definition required_kv :: "string list" where
  "required_kv =
     [''args'', ''operations'', ''successful_ops_s'', ''hits'', ''origins'', ''latency_ms'',
      ''dropped_arrivals'', ''warmup_stable'', ''server_stats_before'', ''server_stats_after'',
      ''client_cgroup_before'', ''client_cgroup_after'']"

definition required_http :: "string list" where
  "required_http =
     [''measure_seconds'', ''warmup_seconds'', ''warmup_success'', ''warmup_errors'',
      ''successful_objects'', ''objects_s'', ''p50_ms'', ''p95_ms'', ''p99_ms'',
      ''origin_requests_delta'', ''path_containers'', ''origin_container'',
      ''client_cpu_usage_usec'', ''client_memory_peak_bytes'']"

definition is_kv :: "spec \<Rightarrow> bool" where
  "is_kv spec \<longleftrightarrow> sp_kind spec = ''kv''"

definition required :: "spec \<Rightarrow> string list" where
  "required spec = required_common @ (if is_kv spec then required_kv else required_http)"

definition missing_fields :: "spec \<Rightarrow> dict \<Rightarrow> string list" where
  "missing_fields spec d = sort (filter (\<lambda>k. map_of d k = None) (required spec))"

text \<open>\<open>d["args"].get("measure_seconds")\<close> for a KV run, \<open>d["measure_seconds"]\<close> for an HTTP run.\<close>

definition measured_seconds :: "spec \<Rightarrow> dict \<Rightarrow> json res" where
  "measured_seconds spec d =
     (if is_kv spec
      then bindR (item d ''args'') (\<lambda>a. bindR (dict_of a) (\<lambda>a. Inr (get_or a ''measure_seconds'' JNull)))
      else item d ''measure_seconds'')"

text \<open>
  The Go KV client exits 3 for errors or dropped arrivals; with drops only, the exit code is no
  problem. The conjuncts are evaluated left to right, so \<open>dropped_arrivals\<close> is ordered only behind
  the first two.
\<close>

definition drop_only_exit :: "spec \<Rightarrow> dict \<Rightarrow> bool res" where
  "drop_only_exit spec d =
     (if \<not> is_kv spec then Inr False
      else bindR (item d ''client_exit_code'') (\<lambda>code.
        if \<not> eq_num code 3 then Inr False
        else bindR (item d ''dropped_arrivals'') (\<lambda>drops. bindR (num_of drops) (\<lambda>n.
          if \<not> n > 0 then Inr False
          else bindR (item d ''errors'') (\<lambda>errs. Inr (eq_num errs 0))))))"

definition field_problems :: "string \<Rightarrow> bool \<Rightarrow> dict \<Rightarrow> entry list" where
  "field_problems lab drop_only d =
     concat (map (\<lambda>field.
       if field = ''client_exit_code'' \<and> drop_only then []
       else if flag d field then [(Problem, FieldNonzero lab field (get_or d field (JNum 0)))]
       else [])
     [''errors'', ''client_exit_code'', ''warmup_errors''])"

definition probe_problems :: "string \<Rightarrow> string \<Rightarrow> run_dir \<Rightarrow> entry list res" where
  "probe_problems lab engine run =
     (case rd_correctness run of
        None \<Rightarrow> Inr [(Problem, NoProbe lab)]
      | Some probe \<Rightarrow> bindR probe (\<lambda>probe. bindR (dict_of probe) (\<lambda>probe.
          Inr (if \<not> str_is (get_or probe ''basic'' JNull) ''passed''
                  \<or> (prefix ''grpc'' engine \<and> \<not> str_is (get_or probe ''batch_pipeline'' JNull) ''passed'')
               then [(Problem, ProbeFailed lab)] else []))))"

definition kv_notes :: "spec \<Rightarrow> string \<Rightarrow> string \<Rightarrow> dict \<Rightarrow> entry list" where
  "kv_notes spec lab cs d =
     (if flag d ''dropped_arrivals''
      then [(if sp_name spec = ''offered-saturation'' \<or> opt_flag (sp_overload_probe spec)
             then Observation else Limitation,
             DroppedArrivals lab (get_or d ''dropped_arrivals'' (JNum 0)))] else [])
     @ (if \<not> truthy (get_or d ''warmup_stable'' (JBool False)) \<and> \<not> prefix ''cold_'' cs
        then [(if sp_headline spec then Limitation else Observation, WarmupUnstable lab)] else [])
     @ (if sp_name spec \<in> set FULL_HIT_GROUPS \<and> flag d ''origins''
        then [(Limitation, FullHitOrigins lab (get_or d ''origins'' (JNum 0)))] else [])"

definition http_notes :: "spec \<Rightarrow> string \<Rightarrow> dict \<Rightarrow> entry list" where
  "http_notes spec lab d =
     (if sp_name spec = ''http'' \<and> flag d ''origin_requests_delta''
      then [(Limitation, RepeatedHitOrigins lab (get_or d ''origin_requests_delta'' (JNum 0)))]
      else [])"

text \<open>Whether \<open>error.txt\<close> only records dropped arrivals.\<close>

definition error_excused :: "bool \<Rightarrow> dict \<Rightarrow> bool" where
  "error_excused drop_only d \<longleftrightarrow>
     flag d ''dropped_arrivals'' \<and> \<not> flag d ''errors''
     \<and> (\<not> flag d ''client_exit_code'' \<or> drop_only)"

definition error_text_problems :: "string \<Rightarrow> bool \<Rightarrow> dict \<Rightarrow> run_dir \<Rightarrow> entry list" where
  "error_text_problems lab drop_only d run =
     (case rd_error run of
        None \<Rightarrow> []
      | Some text \<Rightarrow> if error_excused drop_only d then [] else [(Problem, RunError lab (strip text))])"

text \<open>The part of the loop body behind the two \<open>continue\<close>s, for a result with every required field.\<close>

definition check_fields :: "spec \<Rightarrow> run_id \<Rightarrow> run_dir \<Rightarrow> dict \<Rightarrow> entry list res" where
  "check_fields spec rid run d =
     (case rid of (cs, rep, engine) \<Rightarrow> let lab = label rid in
      bindR (item d ''latency_samples'') (\<lambda>samples. bindR (num_of samples) (\<lambda>samples.
      bindR (measured_seconds spec d) (\<lambda>secs.
      bindR (drop_only_exit spec d) (\<lambda>drop_only.
      bindR (num_of (get_or d ''elapsed_s'' (JNum 0))) (\<lambda>elapsed.
      bindR (if is_kv spec then probe_problems lab engine run else Inr []) (\<lambda>probe.
      Inr ((if samples \<le> 0 then [(Problem, NoLatencySamples lab)] else [])
           @ (if \<not> eq_num secs (real (sp_seconds spec))
              then [(Problem, WrongDuration lab secs (sp_seconds spec))] else [])
           @ field_problems lab drop_only d
           @ (if elapsed < fl (real (sp_seconds spec) * fl (99 / 100))
              then [(Problem, Truncated lab elapsed)] else [])
           @ probe
           @ (if is_kv spec then kv_notes spec lab cs d else http_notes spec lab d)
           @ error_text_problems lab drop_only d run))))))))"

definition check_run :: "spec \<Rightarrow> run_id \<Rightarrow> run_dir \<Rightarrow> entry list res" where
  "check_run spec rid run =
     (let lab = label rid in
      case rd_result run of
        None \<Rightarrow> Inr [(Problem, RunError lab (case rd_error run of Some t \<Rightarrow> strip t
                                             | None \<Rightarrow> ''missing result.json''))]
      | Some (Inl (ValueError m)) \<Rightarrow> Inr [(Problem, CannotRead lab m)]
      | Some (Inl (IOFailure m)) \<Rightarrow> Inr [(Problem, CannotRead lab m)]
      | Some (Inl e) \<Rightarrow> Inl e
      | Some (Inr j) \<Rightarrow> bindR (dict_of j) (\<lambda>d.
          let missing = missing_fields spec d in
          if missing \<noteq> [] then Inr [(Problem, MissingFields lab missing)]
          else check_fields spec rid run d))"

section \<open>The check of a group\<close>

record validation =
  va_expected_runs :: nat
  va_problems :: "remark list"
  va_observations :: "remark list"
  va_limitations :: "remark list"
  va_valid :: bool
  va_qualified :: bool

definition channel_notes :: "channel \<Rightarrow> entry list \<Rightarrow> remark list" where
  "channel_notes ch es = map snd (filter (\<lambda>e. fst e = ch) es)"

definition validate_group :: "spec \<Rightarrow> (run_id \<Rightarrow> run_dir) \<Rightarrow> validation res" where
  "validate_group spec directory =
     bindR (mapR (\<lambda>rid. check_run spec rid (directory rid)) (expected_runs spec)) (\<lambda>ess.
       let es = concat ess;
           problems = channel_notes Problem es;
           observations = channel_notes Observation es;
           limitations = channel_notes Limitation es
       in Inr \<lparr>va_expected_runs = length (expected_runs spec), va_problems = problems,
               va_observations = observations, va_limitations = limitations,
               va_valid = (problems = []), va_qualified = (problems = [] \<and> limitations = [])\<rparr>)"

section \<open>The command of a group\<close>

text \<open>
  \<open>images\<close> maps a role to the id of its image; a role the campaign did not resolve raises \<open>KeyError\<close>.
  \<open>exe\<close> is \<open>sys.executable\<close>.
\<close>

definition image_id :: "(string \<rightharpoonup> string) \<Rightarrow> string \<Rightarrow> string res" where
  "image_id images role = (case images role of None \<Rightarrow> Inl (KeyError role) | Some i \<Rightarrow> Inr i)"

definition engine_image_options :: "(string \<rightharpoonup> string) \<Rightarrow> string list \<Rightarrow> string list" where
  "engine_image_options images keys =
     concat (map (\<lambda>engine. case images engine of
        Some i \<Rightarrow> [''--'' @ engine @ ''-image'', i] | None \<Rightarrow> []) keys)"

definition group_command :: "string \<Rightarrow> spec \<Rightarrow> (string \<rightharpoonup> string) \<Rightarrow> string \<Rightarrow> string list res" where
  "group_command exe spec images output =
     (let script = (if is_kv spec then ''run_strong.py'' else ''run_http.py'') in
      bindR (image_id images ''grpc'') (\<lambda>grpc.
      bindR (image_id images ''go'') (\<lambda>go.
      let parts = [exe, ''bench/strong/'' @ script, ''--grpc-image'', grpc, ''--go-client-image'', go,
                   ''--cases'', join '','' (sp_cases spec), ''--reps'', str_nat (sp_reps spec),
                   ''--seconds'', str_nat (sp_seconds spec), ''--warmup'', str_nat (sp_warmup spec),
                   ''--output'', output]
      in bindR (image_id images ''python'') (\<lambda>python.
         if is_kv spec
         then Inr (parts
            @ [''--engines'', join '','' (sp_engines spec), ''--cache-mb'', str_nat (sp_cache_mb spec),
               ''--memory-mb'', str_nat (sp_memory_mb spec), ''--correctness-client-image'', python]
            @ (case sp_flash_mb spec of
                 None \<Rightarrow> [] | Some n \<Rightarrow> if n = 0 then [] else [''--flash-mb'', str_nat n])
            @ (if opt_flag (sp_discard_flash spec) then [''--discard-flash-files''] else [])
            @ engine_image_options images ENGINE_IMAGE_KEYS)
         else bindR (image_id images ''nginx'') (\<lambda>nginx.
            Inr (parts @ [''--utility-image'', python, ''--adapter-image'', python,
                          ''--nginx-image'', nginx]))))))"

section \<open>What the check accepts\<close>

text \<open>
  The evidence a run must leave, stated without the check's control flow: a result with every
  required field, at least one latency sample, the configured and the elapsed duration of the group,
  no request or warmup error, a clean exit (or, for a KV run, exit 3 for dropped arrivals alone), a
  correctness probe that passed, and an error file only where arrivals were dropped.
\<close>

definition value_of :: "dict \<Rightarrow> string \<Rightarrow> json" where
  "value_of d k = get_or d k JNull"

definition drops_only :: "spec \<Rightarrow> dict \<Rightarrow> bool" where
  "drops_only spec d \<longleftrightarrow>
     is_kv spec \<and> eq_num (value_of d ''client_exit_code'') 3
     \<and> (\<exists>n>0. as_num (value_of d ''dropped_arrivals'') = Some n) \<and> eq_num (value_of d ''errors'') 0"

definition duration_ok :: "spec \<Rightarrow> dict \<Rightarrow> bool" where
  "duration_ok spec d \<longleftrightarrow>
     (if is_kv spec
      then \<exists>a. value_of d ''args'' = JObj a \<and> eq_num (value_of a ''measure_seconds'') (sp_seconds spec)
      else eq_num (value_of d ''measure_seconds'') (sp_seconds spec))
     \<and> (\<exists>t. as_num (value_of d ''elapsed_s'') = Some t \<and> fl (sp_seconds spec * fl (99 / 100)) \<le> t)"

definition probe_ok :: "string \<Rightarrow> run_dir \<Rightarrow> bool" where
  "probe_ok engine run \<longleftrightarrow>
     (\<exists>p. rd_correctness run = Some (Inr (JObj p)) \<and> value_of p ''basic'' = JStr ''passed''
          \<and> (prefix ''grpc'' engine \<longrightarrow> value_of p ''batch_pipeline'' = JStr ''passed''))"

definition sound_result :: "spec \<Rightarrow> string \<Rightarrow> run_dir \<Rightarrow> dict \<Rightarrow> bool" where
  "sound_result spec engine run d \<longleftrightarrow>
     set (required spec) \<subseteq> fst ` set d
     \<and> (\<exists>n>0. as_num (value_of d ''latency_samples'') = Some n)
     \<and> duration_ok spec d
     \<and> \<not> flag d ''errors'' \<and> \<not> flag d ''warmup_errors''
     \<and> (\<not> flag d ''client_exit_code'' \<or> drops_only spec d)
     \<and> (is_kv spec \<longrightarrow> probe_ok engine run)
     \<and> (rd_error run = None \<or> flag d ''dropped_arrivals'')"

definition sound_evidence :: "spec \<Rightarrow> run_id \<Rightarrow> run_dir \<Rightarrow> bool" where
  "sound_evidence spec rid run \<longleftrightarrow>
     (\<exists>d. rd_result run = Some (Inr (JObj d)) \<and> sound_result spec (snd (snd rid)) run d)"

definition no_problems :: "entry list res \<Rightarrow> bool" where
  "no_problems r \<longleftrightarrow> (\<exists>es. r = Inr es \<and> channel_notes Problem es = [])"

lemma channel_notes_simps [simp]:
  "channel_notes ch [] = []"
  "channel_notes ch (es @ fs) = channel_notes ch es @ channel_notes ch fs"
  "channel_notes ch (e # es) = (if fst e = ch then [snd e] else []) @ channel_notes ch es"
  by (simp_all add: channel_notes_def)

lemma no_problems_simps [simp]:
  "no_problems (Inl e) = False"
  "no_problems (Inr es) \<longleftrightarrow> channel_notes Problem es = []"
  by (auto simp: no_problems_def)

lemma no_problems_bindR: "no_problems (bindR m f) \<longleftrightarrow> (\<exists>x. m = Inr x \<and> no_problems (f x))"
  by (cases m) auto

lemma missing_fields_Nil: "missing_fields spec d = [] \<longleftrightarrow> set (required spec) \<subseteq> fst ` set d"
  by (auto simp: missing_fields_def filter_empty_conv map_of_eq_None_iff
      simp flip: set_empty length_0_conv)

lemma required_item:
  assumes "set (required spec) \<subseteq> fst ` set d" and "k \<in> set (required spec)"
  shows "item d k = Inr (value_of d k)" and "get_or d k v = value_of d k"
    and "flag d k = truthy (value_of d k)"
proof -
  from assms obtain w where "map_of d k = Some w"
    by (metis map_of_eq_None_iff not_None_eq subsetD)
  then show "item d k = Inr (value_of d k)" "get_or d k v = value_of d k"
    "flag d k = truthy (value_of d k)"
    by (simp_all add: item_def value_of_def get_or_def flag_def)
qed

lemma num_of_Inr: "num_of j = Inr x \<longleftrightarrow> as_num j = Some x"
  by (auto simp: num_of_def split: option.splits)

lemma in_required [simp]:
  "''errors'' \<in> set (required spec)" "''client_exit_code'' \<in> set (required spec)"
  "''elapsed_s'' \<in> set (required spec)" "''latency_samples'' \<in> set (required spec)"
  "is_kv spec \<Longrightarrow> ''args'' \<in> set (required spec)"
  "is_kv spec \<Longrightarrow> ''dropped_arrivals'' \<in> set (required spec)"
  "\<not> is_kv spec \<Longrightarrow> ''measure_seconds'' \<in> set (required spec)"
  by (simp_all add: required_def required_common_def required_kv_def required_http_def)

lemma eq_num_truthy: "eq_num j 3 \<Longrightarrow> truthy j" "eq_num j 0 \<Longrightarrow> \<not> truthy j"
  by (auto simp: eq_num_def dest: as_num_truthy as_num_0_not_truthy)

text \<open>The flag of a drop-only exit, and when computing it raises.\<close>

lemma drop_only_exit_eq:
  assumes "set (required spec) \<subseteq> fst ` set d"
  shows "drop_only_exit spec d =
    (if is_kv spec \<and> eq_num (value_of d ''client_exit_code'') 3
     then bindR (num_of (value_of d ''dropped_arrivals''))
            (\<lambda>n. Inr (0 < n \<and> eq_num (value_of d ''errors'') 0))
     else Inr False)"
  using assms by (cases "num_of (value_of d ''dropped_arrivals'')")
    (auto simp: drop_only_exit_def required_item)

lemma drop_only_exit_True:
  assumes "set (required spec) \<subseteq> fst ` set d"
  shows "drop_only_exit spec d = Inr True \<longleftrightarrow> drops_only spec d"
  using assms by (cases "as_num (value_of d ''dropped_arrivals'')")
    (auto simp: drop_only_exit_eq drops_only_def num_of_def)

lemma drop_only_exit_clean:
  assumes "set (required spec) \<subseteq> fst ` set d" and "\<not> flag d ''client_exit_code''"
  shows "drop_only_exit spec d = Inr False"
  using assms by (auto simp: drop_only_exit_eq required_item dest: eq_num_truthy)

lemma field_problems_Nil:
  "channel_notes Problem (field_problems lab b d) = [] \<longleftrightarrow>
     \<not> flag d ''errors'' \<and> \<not> flag d ''warmup_errors'' \<and> (b \<or> \<not> flag d ''client_exit_code'')"
  by (auto simp: field_problems_def)

lemma notes_no_problem [simp]:
  "channel_notes Problem (kv_notes spec lab cs d) = []"
  "channel_notes Problem (http_notes spec lab d) = []"
  by (auto simp: kv_notes_def http_notes_def)

lemma probe_problems_Nil: "no_problems (probe_problems lab engine run) \<longleftrightarrow> probe_ok engine run"
  by (auto simp: probe_problems_def probe_ok_def no_problems_bindR str_is_def value_of_def
      split: option.splits)

lemma error_text_Nil:
  "channel_notes Problem (error_text_problems lab b d run) = [] \<longleftrightarrow>
     rd_error run = None \<or> error_excused b d"
  by (auto simp: error_text_problems_def split: option.splits)

lemma measured_seconds_eq:
  assumes "set (required spec) \<subseteq> fst ` set d"
  shows "(\<exists>j. measured_seconds spec d = Inr j \<and> eq_num j s) \<longleftrightarrow>
    (if is_kv spec then \<exists>a. value_of d ''args'' = JObj a \<and> eq_num (value_of a ''measure_seconds'') s
     else eq_num (value_of d ''measure_seconds'') s)"
proof (cases "is_kv spec")
  case True
  then have "measured_seconds spec d =
      bindR (dict_of (value_of d ''args'')) (\<lambda>a. Inr (value_of a ''measure_seconds''))"
    using required_item(1) [OF assms, of "''args''"] by (simp add: measured_seconds_def value_of_def)
  with True show ?thesis by (cases "value_of d ''args''") (simp_all add: dict_of_def)
next
  case False
  then show ?thesis using required_item(1) [OF assms] by (simp add: measured_seconds_def)
qed

lemma check_fields_sound:
  assumes req: "set (required spec) \<subseteq> fst ` set d"
  shows "no_problems (check_fields spec (cs, rep, engine) run d) \<longleftrightarrow> sound_result spec engine run d"
    (is "?L \<longleftrightarrow> ?R")
proof
  assume ?L
  then obtain b j es where b: "drop_only_exit spec d = Inr b"
    and j: "measured_seconds spec d = Inr j" "eq_num j (sp_seconds spec)"
    and p: "is_kv spec \<longrightarrow> no_problems (probe_problems (label (cs, rep, engine)) engine run)"
    and n: "\<exists>n>0. as_num (value_of d ''latency_samples'') = Some n"
    and t: "\<exists>t. as_num (value_of d ''elapsed_s'') = Some t \<and> fl (sp_seconds spec * fl (99 / 100)) \<le> t"
    and f: "\<not> flag d ''errors'' \<and> \<not> flag d ''warmup_errors'' \<and> (b \<or> \<not> flag d ''client_exit_code'')"
    and e: "rd_error run = None \<or> error_excused b d"
    using req
    by (auto simp: check_fields_def no_problems_bindR required_item num_of_Inr field_problems_Nil
        error_text_Nil Let_def not_le not_less split: if_splits)
  from b f have x: "\<not> flag d ''client_exit_code'' \<or> drops_only spec d"
    using drop_only_exit_True [OF req] by auto
  from j measured_seconds_eq [OF req] t have "duration_ok spec d"
    by (auto simp: duration_ok_def)
  with req n p f x e show ?R
    by (auto simp: sound_result_def probe_problems_Nil error_excused_def)
next
  assume R: ?R
  then obtain j where j: "measured_seconds spec d = Inr j" "eq_num j (sp_seconds spec)"
    using measured_seconds_eq [OF req] by (auto simp: sound_result_def duration_ok_def)
  obtain b where b: "drop_only_exit spec d = Inr b" "b \<or> \<not> flag d ''client_exit_code''"
    using R drop_only_exit_True [OF req] drop_only_exit_clean [OF req]
    by (auto simp: sound_result_def)
  obtain n where n: "num_of (value_of d ''latency_samples'') = Inr n" "0 < n"
    using R by (auto simp: sound_result_def num_of_Inr)
  obtain t where t: "num_of (value_of d ''elapsed_s'') = Inr t"
    "\<not> t < fl (sp_seconds spec * fl (99 / 100))"
    using R by (auto simp: sound_result_def duration_ok_def num_of_Inr)
  obtain ps where ps: "(if is_kv spec then probe_problems (label (cs, rep, engine)) engine run else Inr [])
      = Inr ps" "channel_notes Problem ps = []"
    using R probe_problems_Nil [of "label (cs, rep, engine)" engine run]
    by (cases "is_kv spec") (auto simp: sound_result_def no_problems_def)
  have f: "\<not> flag d ''errors'' \<and> \<not> flag d ''warmup_errors'' \<and> (b \<or> \<not> flag d ''client_exit_code'')"
    and e: "rd_error run = None \<or> error_excused b d"
    using R b(2) by (auto simp: sound_result_def error_excused_def)
  show ?L
    using j b(1) n t ps f e by (simp add: check_fields_def required_item [OF req] field_problems_Nil
        error_text_Nil Let_def)
qed

lemma check_run_sound: "no_problems (check_run spec rid run) \<longleftrightarrow> sound_evidence spec rid run"
proof (cases "\<exists>d. rd_result run = Some (Inr (JObj d))")
  case True
  then obtain d where d: "rd_result run = Some (Inr (JObj d))" by blast
  show ?thesis
  proof (cases "missing_fields spec d = []")
    case True
    then show ?thesis
      using d check_fields_sound [of spec d] by (cases rid)
        (simp add: check_run_def sound_evidence_def missing_fields_Nil)
  next
    case False
    then show ?thesis
      using d by (simp add: check_run_def sound_evidence_def sound_result_def missing_fields_Nil)
  qed
next
  case False
  then show ?thesis
    by (auto simp: check_run_def sound_evidence_def Let_def no_problems_bindR
        split: option.splits sum.splits exn.splits)
qed

lemma concat_Nil: "channel_notes ch (concat ess) = [] \<longleftrightarrow> (\<forall>es \<in> set ess. channel_notes ch es = [])"
  by (induction ess) auto

lemma mapR_no_problems:
  "(\<exists>ess. mapR f xs = Inr ess \<and> (\<forall>es \<in> set ess. channel_notes Problem es = [])) \<longleftrightarrow>
     (\<forall>x \<in> set xs. no_problems (f x))"
proof (induction xs)
  case (Cons x xs)
  show ?case
  proof (cases "f x")
    case (Inr es)
    with Cons show ?thesis by (cases "mapR f xs") auto
  qed simp
qed simp

lemma validate_group_sound:
  "(\<exists>v. validate_group spec directory = Inr v \<and> va_valid v) \<longleftrightarrow>
     list_all (\<lambda>rid. sound_evidence spec rid (directory rid)) (expected_runs spec)"
proof -
  let ?f = "\<lambda>rid. check_run spec rid (directory rid)"
  have "(\<exists>v. validate_group spec directory = Inr v \<and> va_valid v) \<longleftrightarrow>
    (\<exists>ess. mapR ?f (expected_runs spec) = Inr ess \<and> (\<forall>es \<in> set ess. channel_notes Problem es = []))"
    by (cases "mapR ?f (expected_runs spec)")
      (auto simp: validate_group_def Let_def concat_Nil)
  also have "\<dots> \<longleftrightarrow> (\<forall>rid \<in> set (expected_runs spec). no_problems (?f rid))"
    by (rule mapR_no_problems)
  finally show ?thesis by (simp add: check_run_sound list_all_iff)
qed

text \<open>
  C1. The check neither accepts bad evidence nor rejects good evidence: it returns a valid verdict
  exactly when every run the group expects (each case, repetition and engine) left sound evidence.
\<close>

theorem validate_group_correct:
  "(\<exists>v. validate_group spec directory = Inr v \<and> va_valid v) \<longleftrightarrow>
     list_all (\<lambda>rid. sound_evidence spec rid (directory rid)) (expected_runs spec)"
  by (rule validate_group_sound)

lemma validate_group_runs:
  assumes "validate_group spec directory = Inr v" and "rid \<in> set (expected_runs spec)"
  obtains es where "check_run spec rid (directory rid) = Inr es"
    and "set (channel_notes Problem es) \<subseteq> set (va_problems v)"
    and "set (channel_notes Observation es) \<subseteq> set (va_observations v)"
    and "set (channel_notes Limitation es) \<subseteq> set (va_limitations v)"
proof -
  let ?f = "\<lambda>rid. check_run spec rid (directory rid)"
  from assms(1) obtain ess where ess: "mapR ?f (expected_runs spec) = Inr ess"
    and v: "va_problems v = channel_notes Problem (concat ess)"
      "va_observations v = channel_notes Observation (concat ess)"
      "va_limitations v = channel_notes Limitation (concat ess)"
    by (auto simp: validate_group_def Let_def)
  from assms(2) obtain i where i: "i < length (expected_runs spec)" "expected_runs spec ! i = rid"
    by (metis in_set_conv_nth)
  then have "?f rid = Inr (ess ! i)" "ess ! i \<in> set ess"
    using mapR_nth [OF ess] mapR_length [OF ess] by auto
  moreover from this(2) have "set (channel_notes ch (ess ! i)) \<subseteq> set (channel_notes ch (concat ess))" for ch
    by (auto simp: channel_notes_def)
  ultimately show thesis using that [of "ess ! i"] v by simp
qed

lemma validation_verdict:
  "validate_group spec directory = Inr v \<Longrightarrow>
     va_valid v = (va_problems v = [])
     \<and> va_qualified v = (va_problems v = [] \<and> va_limitations v = [])"
  by (auto simp: validate_group_def Let_def)

lemma check_fields_kv_notes:
  assumes "check_fields spec (cs, rep, engine) run d = Inr es" and "is_kv spec"
  shows "set (channel_notes ch (kv_notes spec (label (cs, rep, engine)) cs d)) \<subseteq> set (channel_notes ch es)"
  using assms by (auto simp: check_fields_def Let_def)

text \<open>Whether a group's drops are an observation rather than a limit on its claim.\<close>

definition measures_overload :: "spec \<Rightarrow> bool" where
  "measures_overload spec \<longleftrightarrow> sp_name spec = ''offered-saturation'' \<or> opt_flag (sp_overload_probe spec)"

lemma kv_notes_limitations:
  "channel_notes Limitation (kv_notes spec lab cs d) = [] \<longleftrightarrow>
     (flag d ''dropped_arrivals'' \<longrightarrow> measures_overload spec)
     \<and> (sp_headline spec \<and> \<not> prefix ''cold_'' cs \<longrightarrow> truthy (get_or d ''warmup_stable'' (JBool False)))
     \<and> (sp_name spec \<in> set FULL_HIT_GROUPS \<longrightarrow> \<not> flag d ''origins'')"
  by (auto simp: kv_notes_def measures_overload_def)

text \<open>
  C18. What a qualified KV group guarantees about each run it expects: sound evidence; no dropped
  arrivals unless the group measures overload; a stable warmup if the group is a headline and the
  case is not a cold start; no origin request if the group has the full-hit objective.
\<close>

theorem qualified_group_claims:
  assumes "validate_group spec directory = Inr v" and "va_qualified v" and "is_kv spec"
    and "(cs, rep, engine) \<in> set (expected_runs spec)"
  shows "\<exists>d. rd_result (directory (cs, rep, engine)) = Some (Inr (JObj d))
      \<and> sound_result spec engine (directory (cs, rep, engine)) d
      \<and> (flag d ''dropped_arrivals'' \<longrightarrow> measures_overload spec)
      \<and> (sp_headline spec \<and> \<not> prefix ''cold_'' cs \<longrightarrow> truthy (value_of d ''warmup_stable''))
      \<and> (sp_name spec \<in> set FULL_HIT_GROUPS \<longrightarrow> \<not> flag d ''origins'')"
proof -
  let ?rid = "(cs, rep, engine)" and ?run = "directory (cs, rep, engine)"
  have v: "va_problems v = []" "va_limitations v = []"
    using assms(2) validation_verdict [OF assms(1)] by auto
  obtain es where es: "check_run spec ?rid ?run = Inr es"
    and "channel_notes Problem es = []" and lim: "channel_notes Limitation es = []"
    using validate_group_runs [OF assms(1,4)] v by auto
  then have "sound_evidence spec ?rid ?run" by (simp flip: check_run_sound)
  then obtain d where d: "rd_result ?run = Some (Inr (JObj d))" "sound_result spec engine ?run d"
    by (auto simp: sound_evidence_def)
  then have req: "set (required spec) \<subseteq> fst ` set d" by (simp add: sound_result_def)
  then have "check_fields spec ?rid ?run d = Inr es"
    using es d(1) by (simp add: check_run_def missing_fields_Nil)
  then have "channel_notes Limitation (kv_notes spec (label ?rid) cs d) = []"
    using check_fields_kv_notes [OF _ assms(3), of cs rep engine ?run d es Limitation] lim by simp
  moreover have "get_or d ''warmup_stable'' (JBool False) = value_of d ''warmup_stable''"
    by (rule required_item(2) [OF req]) (simp add: required_def required_kv_def assms(3))
  ultimately show ?thesis using d unfolding kv_notes_limitations by auto
qed

section \<open>The expected runs\<close>

lemma length_expected_runs:
  "length (expected_runs spec) = length (sp_cases spec) * sp_reps spec * length (sp_engines spec)"
  by (simp add: expected_runs_def length_concat comp_def sum_list_triv algebra_simps)

lemma rep_name_inject [simp]: "rep_name m = rep_name n \<longleftrightarrow> m = n"
  by (simp add: rep_name_def)

lemma set_expected_runs:
  "(c, r, e) \<in> set (expected_runs spec) \<longleftrightarrow>
     c \<in> set (sp_cases spec) \<and> (\<exists>k < sp_reps spec. r = rep_name k) \<and> e \<in> set (sp_engines spec)"
  by (fastforce simp: expected_runs_def image_iff)

lemma expected_runs_product:
  "expected_runs spec =
     map (\<lambda>(c, r, e). (c, rep_name r, e))
       (List.product (sp_cases spec) (List.product [0..<sp_reps spec] (sp_engines spec)))"
  by (simp add: expected_runs_def product_concat_map map_concat comp_def)

lemma split_label:
  assumes "CHR ''/'' \<notin> set c" and "CHR ''/'' \<notin> set e"
  shows "split_on CHR ''/'' (label (c, rep_name r, e)) = [c, rep_name r, e]"
proof -
  have "CHR ''/'' \<notin> set (rep_name r)" by (simp add: rep_name_def)
  with assms show ?thesis by (simp add: label_def split_on_append split_on_none)
qed

text \<open>
  A group of distinct cases and engines, whose names hold no slash, expects exactly one run per
  case, repetition and engine, and no two of these runs share a directory \<open>case/repetition/engine\<close>.
\<close>

theorem expected_runs_directories:
  assumes "distinct (sp_cases spec)" and "distinct (sp_engines spec)"
    and "list_all (\<lambda>s. CHR ''/'' \<notin> set s) (sp_cases spec @ sp_engines spec)"
  shows "length (expected_runs spec) = length (sp_cases spec) * sp_reps spec * length (sp_engines spec)
    \<and> distinct (map label (expected_runs spec))"
proof
  let ?P = "List.product (sp_cases spec) (List.product [0..<sp_reps spec] (sp_engines spec))"
  let ?g = "\<lambda>(c, r, e). label (c, rep_name r, e)"
  show "length (expected_runs spec) = length (sp_cases spec) * sp_reps spec * length (sp_engines spec)"
    by (rule length_expected_runs)
  have "inj_on ?g (set ?P)"
  proof (rule inj_onI)
    fix x y assume xy: "x \<in> set ?P" "y \<in> set ?P" and eq: "?g x = ?g y"
    obtain c r e c' r' e' where x: "x = (c, r, e)" and y: "y = (c', r', e')" by (metis surj_pair)
    have "split_on CHR ''/'' (label (c, rep_name r, e)) = split_on CHR ''/'' (label (c', rep_name r', e'))"
      using eq by (simp add: x y)
    then show "x = y" using assms(3) xy by (simp add: x y list_all_iff split_label)
  qed
  moreover have "map label (expected_runs spec) = map ?g ?P"
    by (simp add: expected_runs_product comp_def case_prod_beta)
  moreover have "distinct ?P" using assms(1,2) by (simp add: distinct_product)
  ultimately show "distinct (map label (expected_runs spec))" by (simp only: distinct_map simp_thms)
qed

section \<open>A concrete group and run\<close>

text \<open>One full-hit run of Redis with every required field, used to instantiate the theorems.\<close>

definition sample_spec :: spec where
  "sample_spec = group ''primary'' ''hit_1k_c8'' ''redis'' 1 60 ''kv'' 96 768 True 15 None False False"

definition sample_result :: dict where
  "sample_result =
     [(''errors'', JNum 0), (''client_exit_code'', JNum 0), (''elapsed_s'', JNum 60), (''latency_samples'', JNum 1000),
      (''args'', JObj [(''measure_seconds'', JNum 60)]), (''operations'', JNum 1000), (''successful_ops_s'', JNum 16),
      (''hits'', JNum 1000), (''origins'', JNum 0), (''latency_ms'', JObj []), (''dropped_arrivals'', JNum 0),
      (''warmup_stable'', JBool True), (''server_stats_before'', JObj []), (''server_stats_after'', JObj []),
      (''client_cgroup_before'', JStr []), (''client_cgroup_after'', JStr [])]"

definition sample_run :: run_dir where
  "sample_run = \<lparr>rd_result = Some (Inr (JObj sample_result)), rd_error = None,
     rd_correctness = Some (Inr (JObj [(''basic'', JStr ''passed'')]))\<rparr>"

definition sample_validation :: validation where
  "sample_validation = \<lparr>va_expected_runs = 1, va_problems = [], va_observations = [], va_limitations = [],
     va_valid = True, va_qualified = True\<rparr>"

lemma sample_fields [simp]:
  "sp_name sample_spec = ''primary''" "sp_cases sample_spec = [''hit_1k_c8'']" "sp_engines sample_spec = [''redis'']"
  "sp_reps sample_spec = 1" "sp_seconds sample_spec = 60" "is_kv sample_spec"
  by (simp_all add: sample_spec_def group_def is_kv_def)

lemma sample_runs: "expected_runs sample_spec = [(''hit_1k_c8'', ''r0'', ''redis'')]"
  by (simp add: expected_runs_def rep_name_def str_nat.simps digit_def)

lemma duration_bound: "fl (60 * fl (99 / 100)) \<le> 60"
proof -
  have "fl (99 / 100) \<le> fl 1" by (rule fl_mono) simp
  then have "fl (60 * fl (99 / 100)) \<le> fl 60"
    by (intro fl_mono) (simp add: is_float_numeral [unfolded is_float_def])
  then show ?thesis by (simp add: is_float_numeral [unfolded is_float_def])
qed

lemma sample_lookup:
  "map_of sample_result ''errors'' = Some (JNum 0)"
  "map_of sample_result ''client_exit_code'' = Some (JNum 0)"
  "map_of sample_result ''elapsed_s'' = Some (JNum 60)"
  "map_of sample_result ''latency_samples'' = Some (JNum 1000)"
  "map_of sample_result ''args'' = Some (JObj [(''measure_seconds'', JNum 60)])"
  "map_of sample_result ''operations'' = Some (JNum 1000)"
  "map_of sample_result ''successful_ops_s'' = Some (JNum 16)"
  "map_of sample_result ''hits'' = Some (JNum 1000)"
  "map_of sample_result ''origins'' = Some (JNum 0)"
  "map_of sample_result ''latency_ms'' = Some (JObj [])"
  "map_of sample_result ''dropped_arrivals'' = Some (JNum 0)"
  "map_of sample_result ''warmup_stable'' = Some (JBool True)"
  "map_of sample_result ''server_stats_before'' = Some (JObj [])"
  "map_of sample_result ''server_stats_after'' = Some (JObj [])"
  "map_of sample_result ''client_cgroup_before'' = Some (JStr [])"
  "map_of sample_result ''client_cgroup_after'' = Some (JStr [])"
  "map_of sample_result ''warmup_errors'' = None"
  by (simp_all add: sample_result_def)

lemma sample_missing: "missing_fields sample_spec sample_result = []"
  by (simp add: missing_fields_def required_def required_common_def required_kv_def sample_lookup)

lemma sample_check: "check_run sample_spec (''hit_1k_c8'', ''r0'', ''redis'') sample_run = Inr []"
proof -
  have "drop_only_exit sample_spec sample_result = Inr False"
    by (simp add: drop_only_exit_def item_def sample_lookup eq_num_def)
  moreover have "field_problems lab False sample_result = []" for lab
    by (simp add: field_problems_def flag_def get_or_def sample_lookup)
  moreover have "kv_notes sample_spec lab ''hit_1k_c8'' sample_result = []" for lab
    by (simp add: kv_notes_def flag_def get_or_def sample_lookup)
  moreover have "measured_seconds sample_spec sample_result = Inr (JNum 60)"
    by (simp add: measured_seconds_def item_def sample_lookup get_or_def)
  moreover have "probe_problems lab ''redis'' sample_run = Inr []" for lab
    by (simp add: probe_problems_def sample_run_def get_or_def str_is_def)
  moreover have "error_text_problems lab b sample_result sample_run = []" for lab b
    by (simp add: error_text_problems_def sample_run_def)
  ultimately have "check_fields sample_spec (''hit_1k_c8'', ''r0'', ''redis'') sample_run sample_result = Inr []"
    using duration_bound by (simp add: check_fields_def item_def get_or_def sample_lookup eq_num_def Let_def)
  then show ?thesis by (simp add: check_run_def sample_missing) (simp add: sample_run_def sample_missing)
qed

lemma sample_validate: "validate_group sample_spec (\<lambda>rid. sample_run) = Inr sample_validation"
  by (simp add: validate_group_def sample_runs sample_check sample_validation_def channel_notes_def)

theorem qualified_group_claims_witness:
  "sound_result sample_spec ''redis'' sample_run sample_result \<and> truthy (value_of sample_result ''warmup_stable'')
    \<and> \<not> flag sample_result ''origins''"
proof -
  have "va_qualified sample_validation" by (simp add: sample_validation_def)
  from qualified_group_claims [OF sample_validate this sample_fields(6), of "''hit_1k_c8''" "''r0''" "''redis''"]
  obtain d where "rd_result sample_run = Some (Inr (JObj d))" "sound_result sample_spec ''redis'' sample_run d"
    "sp_headline sample_spec \<and> \<not> prefix ''cold_'' ''hit_1k_c8'' \<longrightarrow> truthy (value_of d ''warmup_stable'')"
    "sp_name sample_spec \<in> set FULL_HIT_GROUPS \<longrightarrow> \<not> flag d ''origins''"
    by (auto simp: sample_runs)
  moreover from this(1) have "d = sample_result" by (simp add: sample_run_def)
  moreover have "sp_headline sample_spec" by (simp add: sample_spec_def group_def)
  ultimately show ?thesis by (simp add: FULL_HIT_GROUPS_def)
qed

theorem expected_runs_directories_witness:
  "length (expected_runs sample_spec) = 1 \<and> distinct (map label (expected_runs sample_spec))"
  using expected_runs_directories [of sample_spec] by simp

end
