(* ===== verification/Campaign_Run.thy ===== *)
theory Campaign_Run
  imports Campaign
begin

text \<open>
  The execution of a campaign, \<open>run\<close> of \<open>release_campaign.py\<close>: a fresh start or a resumption, the loop
  over the groups with its saved progress, and the final verdict. One invocation is a function from
  what is on disk and the world to the list of its actions and the exception it ends with; a crash
  cuts that list anywhere. Reachability over any number of invocations and crashes is an inductive
  predicate.
\<close>

section \<open>The campaign's state\<close>

text \<open>
  The entry of a group in \<open>progress\<close>: the keys \<open>update\<close> adds when the group is complete are \<open>None\<close> while
  it runs. The list \<open>gs_notes\<close> is the message about exit codes that is appended to the problems.
\<close>

record gstatus =
  gs_status :: string
  gs_command :: "string list"
  gs_validation :: "validation option"
  gs_exit_note :: "(int \<times> int) option"
  gs_qualified :: "bool option"
  gs_valid :: "bool option"
  gs_evidence :: "(string \<times> string) list"

record cstate =
  cs_harness :: "(string \<times> string) list"
  cs_groups :: "spec list"
  cs_images :: "(string \<times> (string \<times> string)) list"
  cs_progress :: "(string \<times> gstatus) list"
  cs_qualified :: "bool option"
  cs_valid :: "bool option"

datatype caction =
    MakeRuns
  | MakeResults
  | Save cstate
  | SaveResults cstate
  | Launch string "string list"
  | Summarize string

text \<open>
  The world of one invocation: digests of harness files, images by reference (id, architecture),
  docker's CPU count, and what a group's commands leave behind.
\<close>

record world =
  w_digest :: "string \<Rightarrow> string res"
  w_harness_files :: "string list"
  w_inspect :: "string \<Rightarrow> (string \<times> string) res"
  w_ncpu :: "real res"
  w_code :: "string \<Rightarrow> int"
  w_summary :: "string \<Rightarrow> int"
  w_directory :: "string \<Rightarrow> run_id \<Rightarrow> run_dir"
  w_hashes :: "string \<Rightarrow> (string \<times> string) list"

record campaign_args =
  ca_exe :: string
  ca_grpc_image :: string
  ca_go_client_image :: string
  ca_python_client_image :: string
  ca_inside :: bool
  ca_runs :: string
  ca_resume :: bool

section \<open>The loop over the groups\<close>

definition image_ids :: "(string \<times> (string \<times> string)) list \<Rightarrow> (string \<rightharpoonup> string)" where
  "image_ids images = (\<lambda>k. map_option fst (map_of images k))"

definition running_status :: "string list \<Rightarrow> gstatus" where
  "running_status parts = \<lparr>gs_status = ''running'', gs_command = parts, gs_validation = None,
     gs_exit_note = None, gs_qualified = None, gs_valid = None, gs_evidence = []\<rparr>"

definition complete_status :: "string list \<Rightarrow> validation \<Rightarrow> int \<Rightarrow> int \<Rightarrow> (string \<times> string) list \<Rightarrow> gstatus" where
  "complete_status parts v code summary hashes =
     (let bad = (code \<noteq> 0 \<or> summary \<noteq> 0) in
      \<lparr>gs_status = ''complete'', gs_command = parts, gs_validation = Some v,
       gs_exit_note = (if bad then Some (code, summary) else None),
       gs_qualified = Some (if bad then False else va_qualified v),
       gs_valid = Some (if bad then False else va_valid v), gs_evidence = hashes\<rparr>)"

definition set_progress :: "cstate \<Rightarrow> string \<Rightarrow> gstatus \<Rightarrow> cstate" where
  "set_progress st name s =
     st\<lparr>cs_progress := (if name \<in> fst ` set (cs_progress st)
        then map (\<lambda>(n, t). (n, if n = name then s else t)) (cs_progress st)
        else cs_progress st @ [(name, s)])\<rparr>"

definition run_group :: "world \<Rightarrow> campaign_args \<Rightarrow> cstate \<Rightarrow> spec \<Rightarrow> caction list \<times> cstate res" where
  "run_group w args st spec =
     (let name = sp_name spec in
      if name \<in> fst ` set (cs_progress st) then ([], Inr st)
      else case group_command (ca_exe args) spec (image_ids (cs_images st)) (ca_runs args @ ''/'' @ name) of
        Inl e \<Rightarrow> ([], Inl e)
      | Inr parts \<Rightarrow>
          let st1 = set_progress st name (running_status parts);
              acts = [Save st1, Launch name parts, Summarize name] in
          case validate_group spec (w_directory w name) of
            Inl e \<Rightarrow> (acts, Inl e)
          | Inr v \<Rightarrow>
              let st2 = set_progress st1 name
                    (complete_status parts v (w_code w name) (w_summary w name) (w_hashes w name))
              in (acts @ [Save st2, SaveResults st2], Inr st2))"

fun run_groups :: "world \<Rightarrow> campaign_args \<Rightarrow> cstate \<Rightarrow> spec list \<Rightarrow> caction list \<times> cstate res" where
  "run_groups w args st [] = ([], Inr st)"
| "run_groups w args st (spec # specs) =
     (case run_group w args st spec of
        (acts, Inl e) \<Rightarrow> (acts, Inl e)
      | (acts, Inr st') \<Rightarrow> (case run_groups w args st' specs of (acts', r) \<Rightarrow> (acts @ acts', r)))"

text \<open>\<open>all(s[key] for s in progress.values())\<close>: stops at the first false value, raises on a missing key.\<close>

fun all_recorded :: "string \<Rightarrow> bool option list \<Rightarrow> bool res" where
  "all_recorded key [] = Inr True"
| "all_recorded key (None # bs) = Inl (KeyError key)"
| "all_recorded key (Some b # bs) = (if b then all_recorded key bs else Inr False)"

definition finish_campaign :: "cstate \<Rightarrow> caction list \<times> exn" where
  "finish_campaign st =
     (let ss = map snd (cs_progress st) in
      case all_recorded ''qualified'' (map gs_qualified ss) of
        Inl e \<Rightarrow> ([], e)
      | Inr q \<Rightarrow> (case all_recorded ''valid'' (map gs_valid ss) of
          Inl e \<Rightarrow> ([], e)
        | Inr v \<Rightarrow>
            let st' = st\<lparr>cs_qualified := Some q, cs_valid := Some v\<rparr>
            in ([Save st', SaveResults st'], SystemExit (if v then ''0'' else ''1''))))"

section \<open>Starting and resuming\<close>

record disk =
  dk_runs :: bool
  dk_results :: bool
  dk_state :: "cstate option"

definition changed_files :: "world \<Rightarrow> cstate \<Rightarrow> string list res" where
  "changed_files w st =
     bindR (mapR (\<lambda>(name, digest). bindR (w_digest w name) (\<lambda>d. Inr (if d \<noteq> digest then [name] else [])))
       (cs_harness st)) (\<lambda>xss. Inr (concat xss))"

definition resume_state :: "world \<Rightarrow> campaign_args \<Rightarrow> spec list \<Rightarrow> disk \<Rightarrow> cstate res" where
  "resume_state w args groups dk =
     (case dk_state dk of
        None \<Rightarrow> Inl (IOFailure ''campaign.json'')
      | Some st \<Rightarrow>
          bindR (changed_files w st) (\<lambda>changed.
          if changed \<noteq> [] then Inl (ParserError ''harness changed since start; use a new campaign path'')
          else if cs_groups st \<noteq> groups then Inl (ParserError ''campaign definition changed; use a new output path'')
          else bindR (image_id (image_ids (cs_images st)) ''grpc'') (\<lambda>old.
          bindR (w_inspect w (ca_grpc_image args)) (\<lambda>(i, arch).
          if old \<noteq> i then Inl (ParserError ''runtime image changed; use a new output path'')
          else if \<exists>s \<in> set (cs_progress st). gs_status (snd s) = ''running''
          then Inl (ParserError ''interrupted groups; preserve evidence and investigate before using a new campaign path'')
          else Inr st))))"

definition image_refs :: "campaign_args \<Rightarrow> (string \<times> string) list \<Rightarrow> (string \<times> string) list" where
  "image_refs args comparators =
     [(''grpc'', ca_grpc_image args), (''go'', ca_go_client_image args), (''python'', ca_python_client_image args)]
     @ comparators"

definition fresh_state ::
  "world \<Rightarrow> campaign_args \<Rightarrow> spec list \<Rightarrow> (string \<times> string) list \<Rightarrow> disk \<Rightarrow> caction list \<times> cstate res"
where
  "fresh_state w args groups comparators dk =
     (if dk_runs dk \<or> dk_results dk
      then ([], Inl (ParserError ''output paths already exist; use --resume or new paths, never overwrite evidence''))
      else
        let state =
          bindR (w_ncpu w) (\<lambda>n.
          if n < 8 then Inl (ParserError ''at least 8 Docker CPUs are required'')
          else bindR (mapR (\<lambda>(k, ref). bindR (w_inspect w ref) (\<lambda>i. Inr (k, i))) (image_refs args comparators)) (\<lambda>images.
          bindR (mapR (\<lambda>f. bindR (w_digest w f) (\<lambda>d. Inr (f, d))) (sort (w_harness_files w))) (\<lambda>harness.
          if length (remdups (map (snd \<circ> snd) images)) \<noteq> 1 then Inl (ParserError ''mixed image architectures'')
          else Inr \<lparr>cs_harness = harness, cs_groups = groups, cs_images = images, cs_progress = [],
                    cs_qualified = None, cs_valid = None\<rparr>)))
        in case state of
             Inl e \<Rightarrow> ([], Inl e)
           | Inr st \<Rightarrow> ([MakeRuns, MakeResults, Save st], Inr st))"

definition first_state ::
  "world \<Rightarrow> campaign_args \<Rightarrow> spec list \<Rightarrow> (string \<times> string) list \<Rightarrow> disk \<Rightarrow> caction list \<times> cstate res"
where
  "first_state w args groups comparators dk =
     (if ca_resume args then ([], resume_state w args groups dk)
      else fresh_state w args groups comparators dk)"

definition run_campaign ::
  "world \<Rightarrow> campaign_args \<Rightarrow> spec list \<Rightarrow> (string \<times> string) list \<Rightarrow> disk \<Rightarrow> caction list \<times> exn"
where
  "run_campaign w args groups comparators dk =
     (if ca_grpc_image args = '''' then ([], ParserError ''--grpc-image is required unless --plan is used'')
      else if \<not> ca_inside args
      then ([], ParserError ''campaign output paths must be inside the repository for portable evidence links'')
      else case first_state w args groups comparators dk of
        (acts, Inl e) \<Rightarrow> (acts, e)
      | (acts, Inr st) \<Rightarrow>
          (case run_groups w args st groups of
             (acts', Inl e) \<Rightarrow> (acts @ acts', e)
           | (acts', Inr st') \<Rightarrow>
               (case finish_campaign st' of (acts'', e) \<Rightarrow> (acts @ acts' @ acts'', e))))"

section \<open>Disk and crashes\<close>

definition apply_action :: "disk \<Rightarrow> caction \<Rightarrow> disk" where
  "apply_action dk a =
     (case a of MakeRuns \<Rightarrow> dk\<lparr>dk_runs := True\<rparr> | MakeResults \<Rightarrow> dk\<lparr>dk_results := True\<rparr>
      | Save st \<Rightarrow> dk\<lparr>dk_state := Some st\<rparr> | _ \<Rightarrow> dk)"

definition launches :: "caction list \<Rightarrow> string list" where
  "launches acts = concat (map (\<lambda>a. case a of Launch n p \<Rightarrow> [n] | _ \<Rightarrow> []) acts)"

definition no_disk :: disk where
  "no_disk = \<lparr>dk_runs = False, dk_results = False, dk_state = None\<rparr>"

text \<open>
  The disk and the harness launches so far: one step is one invocation with any arguments and any
  definition of the groups, in any world, that completes a prefix of its actions.
\<close>

inductive campaign_history :: "disk \<Rightarrow> string list \<Rightarrow> bool" where
  start: "campaign_history no_disk []"
| invoke: "campaign_history dk ls \<Longrightarrow> run_campaign w args groups comparators dk = (acts, e) \<Longrightarrow>
     prefix done acts \<Longrightarrow>
     campaign_history (foldl apply_action dk done) (ls @ launches done)"

section \<open>No group is started twice\<close>

definition keys :: "cstate \<Rightarrow> string set" where
  "keys st = fst ` set (cs_progress st)"

text \<open>
  The discipline the actions keep, from the launches \<open>ls\<close> and the saved state \<open>cur\<close> before them: every
  state that is saved records all launches, and a group is launched only once it is in the saved state.
\<close>

fun disciplined :: "string list \<Rightarrow> cstate option \<Rightarrow> caction list \<Rightarrow> bool" where
  "disciplined ls cur [] \<longleftrightarrow> True"
| "disciplined ls cur (Save st # as) \<longleftrightarrow> set ls \<subseteq> keys st \<and> disciplined ls (Some st) as"
| "disciplined ls cur (Launch n p # as) \<longleftrightarrow>
     n \<notin> set ls \<and> (case cur of None \<Rightarrow> False | Some st \<Rightarrow> n \<in> keys st) \<and> disciplined (ls @ [n]) cur as"
| "disciplined ls cur (a # as) \<longleftrightarrow> disciplined ls cur as"

definition saved :: "cstate option \<Rightarrow> caction list \<Rightarrow> cstate option" where
  "saved cur as = foldl (\<lambda>cur a. case a of Save st \<Rightarrow> Some st | _ \<Rightarrow> cur) cur as"

lemma saved_simps [simp]:
  "saved cur [] = cur" "saved cur (Save st # as) = saved (Some st) as"
  "saved cur (Launch n p # as) = saved cur as" "saved cur (SaveResults st # as) = saved cur as"
  "saved cur (MakeRuns # as) = saved cur as" "saved cur (MakeResults # as) = saved cur as"
  "saved cur (Summarize n # as) = saved cur as"
  by (simp_all add: saved_def)

lemma saved_append [simp]: "saved cur (as @ bs) = saved (saved cur as) bs"
  by (simp add: saved_def)

lemma launches_simps [simp]:
  "launches [] = []" "launches (Save st # as) = launches as" "launches (Launch n p # as) = n # launches as"
  "launches (SaveResults st # as) = launches as" "launches (MakeRuns # as) = launches as"
  "launches (MakeResults # as) = launches as" "launches (Summarize n # as) = launches as"
  by (simp_all add: launches_def)

lemma launches_append [simp]: "launches (as @ bs) = launches as @ launches bs"
  by (simp add: launches_def)

lemma disciplined_append:
  "disciplined ls cur (as @ bs) \<longleftrightarrow> disciplined ls cur as \<and> disciplined (ls @ launches as) (saved cur as) bs"
  by (induction ls cur as rule: disciplined.induct) auto

lemma disciplined_distinct: "disciplined ls cur as \<Longrightarrow> distinct ls \<Longrightarrow> distinct (ls @ launches as)"
  by (induction ls cur as rule: disciplined.induct) auto

definition records :: "string list \<Rightarrow> cstate option \<Rightarrow> bool" where
  "records ls cur = (case cur of None \<Rightarrow> ls = [] | Some st \<Rightarrow> set ls \<subseteq> keys st)"

lemma disciplined_records:
  "disciplined ls cur as \<Longrightarrow> records ls cur \<Longrightarrow> records (ls @ launches as) (saved cur as)"
  by (induction ls cur as rule: disciplined.induct) (auto simp: records_def split: option.splits)

lemma keys_set_progress [simp]: "keys (set_progress st n s) = insert n (keys st)"
  by (auto simp: keys_def set_progress_def image_iff split: prod.splits) force+

lemma run_group_disciplined:
  assumes "set ls \<subseteq> keys st" and "run_group w args st spec = (acts, r)"
  shows "disciplined ls (Some st) acts"
    and "r = Inr st' \<Longrightarrow> saved (Some st) acts = Some st' \<and> set (ls @ launches acts) \<subseteq> keys st'"
  using assms
  by (auto simp: run_group_def Let_def keys_def [symmetric] split: if_splits sum.splits)

lemma run_groups_disciplined:
  "set ls \<subseteq> keys st \<Longrightarrow> run_groups w args st specs = (acts, r) \<Longrightarrow>
     disciplined ls (Some st) acts
     \<and> (\<forall>st'. r = Inr st' \<longrightarrow> saved (Some st) acts = Some st' \<and> set (ls @ launches acts) \<subseteq> keys st')"
proof (induction specs arbitrary: ls st acts r)
  case (Cons spec specs)
  obtain as q where g: "run_group w args st spec = (as, q)" by fastforce
  note d = run_group_disciplined [OF Cons.prems(1) g]
  show ?case
  proof (cases q)
    case (Inl e)
    with Cons.prems g d show ?thesis by simp
  next
    case (Inr st')
    obtain bs r' where gs: "run_groups w args st' specs = (bs, r')" by fastforce
    have acts: "acts = as @ bs" "r = r'" using Cons.prems(2) g gs Inr by simp_all
    from d(2) [OF Inr] have s1: "saved (Some st) as = Some st'" "set (ls @ launches as) \<subseteq> keys st'" by blast+
    from Cons.IH [OF s1(2) gs] d(1) show ?thesis
      unfolding acts disciplined_append saved_append launches_append s1(1) append_assoc by blast
  qed
qed simp

lemma finish_disciplined:
  "set ls \<subseteq> keys st \<Longrightarrow> disciplined ls cur (fst (finish_campaign st))"
  by (auto simp: finish_campaign_def Let_def keys_def split: sum.splits)

lemma foldl_disk:
  "dk_state (foldl apply_action dk as) = saved (dk_state dk) as"
  "dk_runs dk \<Longrightarrow> dk_runs (foldl apply_action dk as)"
  by (induction as arbitrary: dk) (auto simp: apply_action_def saved_def split: caction.splits)

text \<open>What every history keeps: launches are distinct and recorded; a saved state implies the run directory.\<close>

definition history_ok :: "disk \<Rightarrow> string list \<Rightarrow> bool" where
  "history_ok dk ls \<longleftrightarrow> distinct ls \<and> records ls (dk_state dk) \<and> (dk_state dk \<noteq> None \<longrightarrow> dk_runs dk)"

lemma resume_state_disk: "resume_state w args groups dk = Inr st \<Longrightarrow> dk_state dk = Some st"
  by (auto simp: resume_state_def split: option.splits if_splits)

lemma first_state_cases:
  assumes "first_state w args groups comparators dk = (acts, Inr st)"
  obtains "acts = []" "dk_state dk = Some st" "resume_state w args groups dk = Inr st"
  | "acts = [MakeRuns, MakeResults, Save st]" "cs_progress st = []" "\<not> dk_runs dk"
  using assms
  by (auto simp: first_state_def fresh_state_def Let_def dest: resume_state_disk split: if_splits sum.splits)

lemma first_state_error: "first_state w args groups comparators dk = (acts, Inl e) \<Longrightarrow> acts = []"
  by (auto simp: first_state_def fresh_state_def Let_def split: if_splits sum.splits)

lemma first_state_disciplined:
  assumes "history_ok dk ls" and "first_state w args groups comparators dk = (acts, Inr st)"
  shows "disciplined ls (dk_state dk) acts \<and> saved (dk_state dk) acts = Some st \<and> launches acts = []
    \<and> set ls \<subseteq> keys st \<and> (dk_runs dk \<or> (\<exists>as. acts = MakeRuns # as))"
  using assms(2)
proof (cases rule: first_state_cases)
  case 1
  with assms(1) show ?thesis by (simp add: history_ok_def records_def)
next
  case 2
  with assms(1) have "dk_state dk = None" by (auto simp: history_ok_def)
  with assms(1) have "ls = []" by (simp add: history_ok_def records_def)
  with 2 show ?thesis by simp
qed

lemma run_campaign_disciplined:
  assumes ok: "history_ok dk ls" and run: "run_campaign w args groups comparators dk = (acts, e)"
  shows "disciplined ls (dk_state dk) acts \<and> (acts = [] \<or> dk_runs dk \<or> (\<exists>as. acts = MakeRuns # as))"
proof -
  obtain as q where f: "first_state w args groups comparators dk = (as, q)" by fastforce
  show ?thesis
  proof (cases "acts = []")
    case False
    then obtain st where q: "q = Inr st"
      using run f first_state_error by (cases q) (auto simp: run_campaign_def split: if_splits)
    obtain bs r where g: "run_groups w args st groups = (bs, r)" by fastforce
    note d0 = first_state_disciplined [OF ok f [unfolded q]]
    then have d1: "disciplined ls (Some st) bs"
      "\<And>st'. r = Inr st' \<Longrightarrow> saved (Some st) bs = Some st' \<and> set (ls @ launches bs) \<subseteq> keys st'"
      using run_groups_disciplined [OF _ g, of ls] by auto
    have "acts = as @ bs @ (case r of Inl e \<Rightarrow> [] | Inr st' \<Rightarrow> fst (finish_campaign st'))"
      using run False f q g
      by (auto simp: run_campaign_def split: if_splits sum.splits prod.splits)
    moreover have "disciplined (ls @ launches bs) (saved (Some st) bs)
        (case r of Inl e \<Rightarrow> [] | Inr st' \<Rightarrow> fst (finish_campaign st'))"
      using d1(2) finish_disciplined [of "ls @ launches bs"] by (cases r) auto
    ultimately show ?thesis using d0 d1(1) by (auto simp: disciplined_append)
  qed simp
qed

lemma history_invariant: "campaign_history dk ls \<Longrightarrow> history_ok dk ls"
proof (induction rule: campaign_history.induct)
  case start
  show ?case by (simp add: history_ok_def no_disk_def records_def)
next
  case (invoke dk ls w args groups comparators acts e ds)
  note d = run_campaign_disciplined [OF invoke.IH invoke.hyps(2)]
  obtain rest where acts: "acts = ds @ rest" using invoke.hyps(3) by (auto simp: prefix_def)
  with d have ds: "disciplined ls (dk_state dk) ds" by (simp add: disciplined_append)
  have "dk_runs (foldl apply_action dk ds)" if "saved (dk_state dk) ds \<noteq> None"
  proof (cases "dk_runs dk")
    case True
    then show ?thesis by (rule foldl_disk)
  next
    case False
    with invoke.IH that have "ds \<noteq> []" by (auto simp: history_ok_def)
    with d False acts obtain as where "ds = MakeRuns # as" by (cases ds) auto
    then show ?thesis by (simp add: foldl_disk apply_action_def)
  qed
  with invoke.IH ds show ?case
    unfolding history_ok_def foldl_disk
    using disciplined_distinct [OF ds] disciplined_records [OF ds] by blast
qed

text \<open>
  C4. No group is measured twice: over any sequence of invocations, fresh or resumed, with any
  arguments and any changes of the world, each cut off anywhere by a crash, the harness of a group is
  started at most once, and every group it was started for is in the saved progress.
\<close>

theorem groups_launched_once:
  assumes "campaign_history dk ls"
  shows "distinct ls \<and> (\<forall>st. dk_state dk = Some st \<longrightarrow> set ls \<subseteq> keys st)"
  using history_invariant [OF assms] by (auto simp: history_ok_def records_def)

text \<open>
  C23. An interrupted group blocks the campaign: while the saved progress has a running group, a
  resumption does nothing at all: it starts no group and writes nothing.
\<close>

theorem interrupted_group_blocks:
  assumes "dk_state dk = Some st" and "s \<in> set (cs_progress st)" and "gs_status (snd s) = ''running''"
    and "ca_resume args"
  shows "fst (run_campaign w args groups comparators dk) = []"
proof -
  have "resume_state w args groups dk \<noteq> Inr st'" for st'
    using assms(1-3) by (auto simp: resume_state_def split: if_splits)
  then obtain e where "resume_state w args groups dk = Inl e" by (metis sum.exhaust_sel)
  with assms(4) show ?thesis by (simp add: run_campaign_def first_state_def)
qed

section \<open>The verdict\<close>

lemma map_of_replace:
  "map_of (map (\<lambda>(m, t). (m, if m = n then s else t)) ps) k =
     (if k = n \<and> map_of ps n \<noteq> None then Some s else map_of ps k)"
proof (induction ps)
  case (Cons p ps)
  then show ?case by (cases p; cases "k = n") (simp_all split: if_splits)
qed simp

lemma map_of_set_progress [simp]:
  "map_of (cs_progress (set_progress st n s)) = (map_of (cs_progress st))(n \<mapsto> s)"
proof
  fix k
  have "n \<in> fst ` set (cs_progress st) \<longleftrightarrow> map_of (cs_progress st) n \<noteq> None"
    by (simp add: map_of_eq_None_iff)
  then show "map_of (cs_progress (set_progress st n s)) k = ((map_of (cs_progress st))(n \<mapsto> s)) k"
    by (simp add: set_progress_def map_of_replace map_add_def split: option.split)
qed

lemma run_group_other:
  "run_group w args st spec = (acts, Inr st') \<Longrightarrow> n \<noteq> sp_name spec \<Longrightarrow>
     map_of (cs_progress st') n = map_of (cs_progress st) n"
  by (auto simp: run_group_def Let_def split: if_splits sum.splits)

lemma run_groups_other:
  "run_groups w args st specs = (acts, Inr st') \<Longrightarrow> n \<notin> sp_name ` set specs \<Longrightarrow>
     map_of (cs_progress st') n = map_of (cs_progress st) n"
  by (induction specs arbitrary: st acts)
    (auto simp: run_group_other split: prod.splits sum.splits)

definition measured_group :: "world \<Rightarrow> spec \<Rightarrow> gstatus \<Rightarrow> bool" where
  "measured_group w spec s \<longleftrightarrow>
     (\<exists>parts v. validate_group spec (w_directory w (sp_name spec)) = Inr v
        \<and> s = complete_status parts v (w_code w (sp_name spec)) (w_summary w (sp_name spec)) (w_hashes w (sp_name spec)))"

lemma run_group_new:
  "run_group w args st spec = (acts, Inr st') \<Longrightarrow> sp_name spec \<notin> keys st \<Longrightarrow>
     \<exists>s. map_of (cs_progress st') (sp_name spec) = Some s \<and> measured_group w spec s"
  by (fastforce simp: run_group_def Let_def keys_def measured_group_def split: if_splits sum.splits)

lemma run_group_keys:
  "run_group w args st spec = (acts, Inr st') \<Longrightarrow> keys st' = insert (sp_name spec) (keys st)"
  by (auto simp: run_group_def Let_def keys_def [symmetric] split: if_splits sum.splits)

lemma run_groups_measured:
  assumes "run_groups w args st specs = (acts, Inr st')" and "distinct (map sp_name specs)"
    and "sp_name ` set specs \<inter> keys st = {}" and "spec \<in> set specs"
  shows "\<exists>s. map_of (cs_progress st') (sp_name spec) = Some s \<and> measured_group w spec s"
  using assms
proof (induction specs arbitrary: st acts)
  case (Cons sp specs)
  obtain as st1 where g: "run_group w args st sp = (as, Inr st1)"
    using Cons.prems(1) by (auto split: prod.splits sum.splits)
  then obtain bs where gs: "run_groups w args st1 specs = (bs, Inr st')"
    using Cons.prems(1) by (auto split: prod.splits)
  show ?case
  proof (cases "spec = sp")
    case True
    then show ?thesis
      using run_group_new [OF g] run_groups_other [OF gs, of "sp_name sp"] Cons.prems(2,3) by auto
  next
    case False
    then show ?thesis
      using Cons.IH [OF gs] run_group_keys [OF g] Cons.prems by auto
  qed
qed simp

lemma all_recorded_True: "all_recorded key bs = Inr True \<Longrightarrow> b \<in> set bs \<Longrightarrow> b = Some True"
  by (induction key bs rule: all_recorded.induct) (auto split: if_splits)

lemma all_recorded_error: "all_recorded key bs = Inl e \<Longrightarrow> e = KeyError key"
  by (induction key bs rule: all_recorded.induct) (auto split: if_splits)

lemma finish_valid:
  assumes "Save st' \<in> set (fst (finish_campaign st))" and "cs_valid st' = Some True"
    and "map_of (cs_progress st) n = Some s"
  shows "gs_valid s = Some True"
proof -
  have "all_recorded ''valid'' (map gs_valid (map snd (cs_progress st))) = Inr True"
    using assms(1,2) by (auto simp: finish_campaign_def Let_def split: sum.splits if_splits)
  moreover have "gs_valid s \<in> set (map gs_valid (map snd (cs_progress st)))"
    using map_of_SomeD [OF assms(3)] by force
  ultimately show ?thesis by (rule all_recorded_True)
qed

lemma run_group_verdict:
  "run_group w args st spec = (acts, r) \<Longrightarrow>
     (Save st' \<in> set acts \<longrightarrow> cs_valid st' = cs_valid st) \<and> (r = Inr st' \<longrightarrow> cs_valid st' = cs_valid st)"
  by (auto simp: run_group_def Let_def set_progress_def split: if_splits sum.splits)

lemma run_groups_verdict:
  "run_groups w args st specs = (acts, r) \<Longrightarrow> Save st' \<in> set acts \<Longrightarrow> cs_valid st' = cs_valid st"
proof (induction specs arbitrary: st acts r)
  case (Cons sp specs)
  obtain as q where g: "run_group w args st sp = (as, q)" by fastforce
  show ?case
  proof (cases q)
    case (Inl e)
    with Cons.prems g show ?thesis using run_group_verdict [OF g, of st'] by simp
  next
    case (Inr st1)
    obtain bs r' where gs: "run_groups w args st1 specs = (bs, r')" by fastforce
    with Cons.prems g Inr have "Save st' \<in> set as \<or> Save st' \<in> set bs" by auto
    then show ?thesis
      using Cons.IH [OF gs] run_group_verdict [OF g] Inr by metis
  qed
qed simp

lemma measured_group_valid:
  assumes "measured_group w spec s" and "gs_valid s = Some True"
  shows "w_code w (sp_name spec) = 0 \<and> w_summary w (sp_name spec) = 0
    \<and> list_all (\<lambda>rid. sound_evidence spec rid (w_directory w (sp_name spec) rid)) (expected_runs spec)"
  using assms validate_group_sound [of spec "w_directory w (sp_name spec)"]
  by (auto simp: measured_group_def complete_status_def Let_def split: if_splits)

text \<open>
  C7. A valid verdict is earned: if a fresh campaign over distinctly named groups records
  \<open>valid: true\<close> (which is what makes it exit with status 0), then for every group the harness and the
  summarizer exited 0 and every expected run left sound evidence.
\<close>

theorem campaign_valid_verdict:
  assumes "Save st \<in> set (fst (run_campaign w args groups comparators dk))" and "cs_valid st = Some True"
    and "\<not> ca_resume args" and "distinct (map sp_name groups)"
  shows "list_all (\<lambda>spec. w_code w (sp_name spec) = 0 \<and> w_summary w (sp_name spec) = 0
    \<and> list_all (\<lambda>rid. sound_evidence spec rid (w_directory w (sp_name spec) rid)) (expected_runs spec)) groups"
proof -
  have "fst (run_campaign w args groups comparators dk) \<noteq> []" using assms(1) by auto
  then obtain as st0 where f: "first_state w args groups comparators dk = (as, Inr st0)"
    by (auto simp: run_campaign_def dest: first_state_error split: if_splits prod.splits sum.splits)
  obtain bs r where g: "run_groups w args st0 groups = (bs, r)" by fastforce
  have st0: "cs_valid st0 = None" "cs_progress st0 = []" and "Save st \<notin> set as \<or> st = st0"
    using f assms(3) by (auto simp: first_state_def fresh_state_def Let_def split: if_splits sum.splits)
  moreover have "Save st \<notin> set bs" using run_groups_verdict [OF g, of st] assms(2) st0 by auto
  moreover have "fst (run_campaign w args groups comparators dk) =
      as @ bs @ (case r of Inl e \<Rightarrow> [] | Inr st' \<Rightarrow> fst (finish_campaign st'))"
    using assms(1) f g by (auto simp: run_campaign_def split: if_splits sum.splits prod.splits)
  ultimately obtain st' where r: "r = Inr st'" and fin: "Save st \<in> set (fst (finish_campaign st'))"
    using assms(1,2) by (cases r) auto
  show ?thesis
    unfolding list_all_iff
  proof
    fix spec assume "spec \<in> set groups"
    then obtain s where s: "map_of (cs_progress st') (sp_name spec) = Some s" "measured_group w spec s"
      using run_groups_measured [OF g [unfolded r] assms(4)] st0 by (auto simp: keys_def)
    from measured_group_valid [OF s(2) finish_valid [OF fin assms(2) s(1)]]
    show "w_code w (sp_name spec) = 0 \<and> w_summary w (sp_name spec) = 0
      \<and> (\<forall>rid \<in> set (expected_runs spec). sound_evidence spec rid (w_directory w (sp_name spec) rid))"
      by (simp add: list_all_iff)
  qed
qed

section \<open>A concrete campaign\<close>

definition sample_world :: world where
  "sample_world = \<lparr>w_digest = (\<lambda>f. Inr ''digest''), w_harness_files = [], w_inspect = (\<lambda>r. Inr (r, ''arm64'')),
     w_ncpu = Inr 8, w_code = (\<lambda>n. 0), w_summary = (\<lambda>n. 0), w_directory = (\<lambda>n rid. sample_run), w_hashes = (\<lambda>n. [])\<rparr>"

definition sample_args :: campaign_args where
  "sample_args = \<lparr>ca_exe = ''python3'', ca_grpc_image = ''grpc:rc'', ca_go_client_image = ''go:rc'',
     ca_python_client_image = ''python:rc'', ca_inside = True, ca_runs = ''runs'', ca_resume = False\<rparr>"

definition sample_state :: cstate where
  "sample_state = \<lparr>cs_harness = [], cs_groups = [sample_spec], cs_images = [(''grpc'', ''grpc:rc'', ''arm64''),
     (''go'', ''go:rc'', ''arm64''), (''python'', ''python:rc'', ''arm64'')], cs_progress = [], cs_qualified = None, cs_valid = None\<rparr>"

lemma sample_first:
  "first_state sample_world sample_args [sample_spec] [] no_disk = ([MakeRuns, MakeResults, Save sample_state], Inr sample_state)"
  by (simp add: first_state_def fresh_state_def sample_world_def sample_args_def no_disk_def image_refs_def
      sample_state_def)

lemma sample_command:
  "\<exists>parts. group_command ''python3'' sample_spec (image_ids (cs_images sample_state)) out = Inr parts"
  by (simp add: group_command_def image_id_def image_ids_def sample_state_def)

lemma sample_campaign:
  "\<exists>parts st1 st2 st3. run_campaign sample_world sample_args [sample_spec] [] no_disk =
     ([MakeRuns, MakeResults, Save sample_state, Save st1, Launch ''primary'' parts, Summarize ''primary'',
       Save st2, SaveResults st2, Save st3, SaveResults st3], SystemExit ''0'') \<and> cs_valid st3 = Some True"
proof -
  obtain parts where p: "group_command ''python3'' sample_spec (image_ids (cs_images sample_state)) ''runs/primary'' = Inr parts"
    using sample_command by blast
  have v: "validate_group sample_spec (w_directory sample_world ''primary'') = Inr sample_validation"
    using sample_validate by (simp add: sample_world_def)
  define st1 where "st1 = set_progress sample_state ''primary'' (running_status parts)"
  define st2 where "st2 = set_progress st1 ''primary'' (complete_status parts sample_validation 0 0 [])"
  have "cs_progress sample_state = []" by (simp add: sample_state_def)
  moreover have "w_code sample_world n = 0 \<and> w_summary sample_world n = 0 \<and> w_hashes sample_world n = []" for n
    by (simp add: sample_world_def)
  ultimately have "run_groups sample_world sample_args sample_state [sample_spec] =
      ([Save st1, Launch ''primary'' parts, Summarize ''primary'', Save st2, SaveResults st2], Inr st2)"
    using p v by (simp add: run_group_def Let_def st1_def st2_def sample_args_def)
  moreover have "finish_campaign st2 = ([Save (st2\<lparr>cs_qualified := Some True, cs_valid := Some True\<rparr>),
      SaveResults (st2\<lparr>cs_qualified := Some True, cs_valid := Some True\<rparr>)], SystemExit ''0'')"
    by (simp add: finish_campaign_def st2_def st1_def set_progress_def sample_state_def complete_status_def
        sample_validation_def Let_def)
  moreover have "ca_grpc_image sample_args \<noteq> [] \<and> ca_inside sample_args" by (simp add: sample_args_def)
  ultimately show ?thesis using sample_first by (auto simp: run_campaign_def)
qed

theorem groups_launched_once_witness:
  "\<exists>dk. campaign_history dk [''primary''] \<and> distinct [''primary''] \<and> (\<exists>st. dk_state dk = Some st \<and> ''primary'' \<in> keys st)"
proof -
  obtain parts st1 rest where run: "run_campaign sample_world sample_args [sample_spec] [] no_disk =
      ([MakeRuns, MakeResults, Save sample_state, Save st1, Launch ''primary'' parts] @ rest, SystemExit ''0'')"
    using sample_campaign by auto
  let ?d = "[MakeRuns, MakeResults, Save sample_state, Save st1, Launch ''primary'' parts]"
  have h: "campaign_history (foldl apply_action no_disk ?d) ([] @ launches ?d)"
    by (rule campaign_history.invoke [OF campaign_history.start run]) simp
  then have "dk_state (foldl apply_action no_disk ?d) = Some st1" by (simp add: foldl_disk del: foldl_Cons)
  with groups_launched_once [OF h] h show ?thesis by auto
qed

theorem interrupted_group_blocks_witness:
  "fst (run_campaign sample_world (sample_args\<lparr>ca_resume := True\<rparr>) [sample_spec] []
     (no_disk\<lparr>dk_state := Some (sample_state\<lparr>cs_progress := [(''primary'', running_status [])]\<rparr>)\<rparr>)) = []"
  by (rule interrupted_group_blocks [where st = "sample_state\<lparr>cs_progress := [(''primary'', running_status [])]\<rparr>"
        and s = "(''primary'', running_status [])"])
    (simp_all add: running_status_def)

theorem campaign_valid_verdict_witness:
  "sound_evidence sample_spec (''hit_1k_c8'', ''r0'', ''redis'') sample_run"
proof -
  obtain st where "Save st \<in> set (fst (run_campaign sample_world sample_args [sample_spec] [] no_disk))"
    and "cs_valid st = Some True"
    using sample_campaign by fastforce
  moreover have "\<not> ca_resume sample_args" "distinct (map sp_name [sample_spec])" by (simp_all add: sample_args_def)
  ultimately have "list_all (\<lambda>spec. w_code sample_world (sp_name spec) = 0 \<and> w_summary sample_world (sp_name spec) = 0
    \<and> list_all (\<lambda>rid. sound_evidence spec rid (w_directory sample_world (sp_name spec) rid)) (expected_runs spec)) [sample_spec]"
    by (rule campaign_valid_verdict)
  then show ?thesis by (simp add: sample_runs sample_world_def)
qed

end
