(* ===== verification/Py_Random.thy ===== *)
theory Py_Random
  imports Prelude
begin

text \<open>
  Python's \<open>random.Random\<close> as a parameter of the model: \<open>seed_rng\<close> makes a generator state from a seed
  and \<open>randbelow n\<close> draws the next number, documented to lie in \<open>0 <= j < n\<close>
  (\<open>randrange(n)\<close> and the draws of \<open>shuffle\<close>).
\<close>

record 's rng =
  seed_rng :: "int \<Rightarrow> 's"
  randbelow :: "nat \<Rightarrow> 's \<Rightarrow> nat \<times> 's"

definition in_range_rng :: "('s, 'm) rng_scheme \<Rightarrow> bool" where
  "in_range_rng g \<longleftrightarrow> (\<forall>n s. 0 < n \<longrightarrow> fst (randbelow g n s) < n)"

text \<open>\<open>[rng.randrange(n) for _ in range(k)]\<close> with the generator's state afterwards.\<close>

fun draws :: "('s, 'm) rng_scheme \<Rightarrow> nat \<Rightarrow> nat \<Rightarrow> 's \<Rightarrow> nat list \<times> 's" where
  "draws g n 0 s = ([], s)"
| "draws g n (Suc k) s =
     (let (j, s) = randbelow g n s; (js, s) = draws g n k s in (j # js, s))"

lemma in_range_rngD: "in_range_rng g \<Longrightarrow> randbelow g n s = (j, s') \<Longrightarrow> 0 < n \<Longrightarrow> j < n"
  unfolding in_range_rng_def by (metis fst_conv)

lemma length_draws [simp]: "length (fst (draws g n k s)) = k"
  by (induction k arbitrary: s) (simp_all add: case_prod_beta)

lemma draws_range: "in_range_rng g \<Longrightarrow> 0 < n \<Longrightarrow> j \<in> set (fst (draws g n k s)) \<Longrightarrow> j < n"
  by (induction k arbitrary: s) (auto simp: case_prod_beta in_range_rng_def)

text \<open>A generator that always draws zero.\<close>

definition zero_rng :: "unit rng" where
  "zero_rng = \<lparr>seed_rng = (\<lambda>seed. ()), randbelow = (\<lambda>n s. (0, s))\<rparr>"

lemma zero_rng_in_range: "in_range_rng zero_rng"
  by (simp add: in_range_rng_def zero_rng_def)

end
