(* ===== verification/Strong_Harness.thy ===== *)
theory Strong_Harness
  imports Campaign Py_Random
begin

text \<open>
  The pure part of the KV harness \<open>bench/strong/run_strong.py\<close>: its tables of images, ports and
  cases, the server arguments of each engine, the docker command that starts a server, the command
  line it accepts, the runs it skips and the schedule it executes.
\<close>

section \<open>Tables\<close>

text \<open>
  A case is (value bytes, objects, concurrency, pattern, workload, operation, preload, origin delay
  in ms, load model, offered rate).
\<close>

type_synonym strong_case =
  "nat \<times> nat \<times> nat \<times> string \<times> string \<times> string \<times> bool \<times> nat \<times> string \<times> nat"

definition IMAGES :: "(string \<times> string) list" where
  "IMAGES =
     [(''redis'', ''redis:8.10.2-alpine''),
      (''valkey'', ''valkey/valkey:9.1.2-alpine''),
      (''memcached'', ''memcached:1.6.45-alpine''),
      (''memcached_extstore'', ''memcached:1.6.45-alpine''),
      (''dragonfly'', ''docker.dragonflydb.io/dragonflydb/dragonfly:v2.0.0''),
      (''dragonfly_tiered'', ''docker.dragonflydb.io/dragonflydb/dragonfly:v2.0.0''),
      (''garnet'', ''ghcr.io/microsoft/garnet:2.1.8''),
      (''garnet_storage'', ''ghcr.io/microsoft/garnet:2.1.8''),
      (''kvrocks'', ''apache/kvrocks:2.17.0'')]"

definition BASE_ENGINES :: "string list" where
  "BASE_ENGINES = [''redis'', ''valkey'', ''memcached'', ''dragonfly'', ''garnet'', ''kvrocks'']"

definition FILE_TIER_ENGINES :: "string list" where
  "FILE_TIER_ENGINES =
     [''grpc_nvm'', ''memcached_extstore'', ''dragonfly_tiered'', ''garnet_storage'', ''kvrocks'']"

definition PORTS :: "(string \<times> nat) list" where
  "PORTS =
     [(''grpc'', 50051), (''memcached'', 11211), (''kvrocks'', 6666), (''redis'', 6379), (''valkey'', 6379), (''dragonfly'', 6379), (''garnet'', 6379)]"

definition CASES :: "(string \<times> strong_case) list" where
  "CASES =
     [(''hit_100b_c8'', (100, 1000, 8, ''uniform'', ''read-only'', ''unary'', True, 0, ''closed'', 0)),
      (''hit_1k_c1'', (1024, 1000, 1, ''uniform'', ''read-only'', ''unary'', True, 0, ''closed'', 0)),
      (''hit_1k_c4'', (1024, 1000, 4, ''uniform'', ''read-only'', ''unary'', True, 0, ''closed'', 0)),
      (''hit_1k_c8'', (1024, 1000, 8, ''uniform'', ''read-only'', ''unary'', True, 0, ''closed'', 0)),
      (''hit_1k_c16'', (1024, 1000, 16, ''uniform'', ''read-only'', ''unary'', True, 0, ''closed'', 0)),
      (''hit_16k_c8'', (16384, 1000, 8, ''uniform'', ''read-only'', ''unary'', True, 0, ''closed'', 0)),
      (''hit_64k_c8'', (65536, 1000, 8, ''uniform'', ''read-only'', ''unary'', True, 0, ''closed'', 0)),
      (''hit_256k_c8'', (262144, 160, 8, ''uniform'', ''read-only'', ''unary'', True, 0, ''closed'', 0)),
      (''hit_1m_c4'', (1048576, 40, 4, ''uniform'', ''read-only'', ''unary'', True, 0, ''closed'', 0)),
      (''hit_1k_c32'', (1024, 1000, 32, ''uniform'', ''read-only'', ''unary'', True, 0, ''closed'', 0)),
      (''hit_1k_c64'', (1024, 1000, 64, ''uniform'', ''read-only'', ''unary'', True, 0, ''closed'', 0)),
      (''readheavy_1k_c8'', (1024, 1000, 8, ''skew'', ''read-heavy'', ''unary'', True, 0, ''closed'', 0)),
      (''mixed_1k_c8'', (1024, 1000, 8, ''skew'', ''mixed'', ''unary'', True, 0, ''closed'', 0)),
      (''mixed_1k_c32'', (1024, 1000, 32, ''skew'', ''mixed'', ''unary'', True, 0, ''closed'', 0)),
      (''batch_get_1k_c8'', (1024, 1000, 8, ''uniform'', ''read-only'', ''batch-get'', True, 0, ''closed'', 0)),
      (''batch_set_1k_c8'', (1024, 1000, 8, ''uniform'', ''read-only'', ''batch-set'', True, 0, ''closed'', 0)),
      (''pipeline_1k_c8'', (1024, 1000, 8, ''uniform'', ''read-only'', ''pipeline'', True, 0, ''closed'', 0)),
      (''origin_uniform_64k_1ms'', (65536, 2048, 8, ''uniform'', ''origin'', ''unary'', True, 1, ''closed'', 0)),
      (''origin_near_64k_5ms'', (65536, 1400, 8, ''uniform'', ''origin'', ''unary'', True, 5, ''closed'', 0)),
      (''origin_uniform_64k_5ms'', (65536, 2048, 8, ''uniform'', ''origin'', ''unary'', True, 5, ''closed'', 0)),
      (''origin_uniform_64k_1gib'', (65536, 20480, 8, ''uniform'', ''origin'', ''unary'', True, 5, ''closed'', 0)),
      (''cold_origin_uniform_64k_5ms'', (65536, 2048, 8, ''uniform'', ''origin'', ''unary'', False, 5, ''closed'', 0)),
      (''origin_uniform_64k_20ms'', (65536, 2048, 8, ''uniform'', ''origin'', ''unary'', True, 20, ''closed'', 0)),
      (''origin_skew_64k_5ms'', (65536, 2048, 8, ''skew'', ''origin'', ''unary'', True, 5, ''closed'', 0)),
      (''origin_shift_64k_5ms'', (65536, 2048, 8, ''hot_shift'', ''origin'', ''unary'', False, 5, ''closed'', 0)),
      (''onepass_64k_5ms'', (65536, 2048, 4, ''one_pass'', ''origin'', ''unary'', False, 5, ''closed'', 0)),
      (''origin_uniform_64k_2gib_c32'', (65536, 32768, 32, ''uniform'', ''origin'', ''unary'', True, 5, ''closed'', 0)),
      (''origin_skew_64k_2gib_c32'', (65536, 32768, 32, ''skew'', ''origin'', ''unary'', True, 5, ''closed'', 0)),
      (''origin_uniform_16k_2gib_c32'', (16384, 131072, 32, ''uniform'', ''origin'', ''unary'', True, 5, ''closed'', 0)),
      (''origin_uniform_64k_6gib_c32'', (65536, 98304, 32, ''uniform'', ''origin'', ''unary'', False, 5, ''closed'', 0)),
      (''offered_1k_20k'', (1024, 1000, 8, ''uniform'', ''read-only'', ''unary'', True, 0, ''offered'', 20000)),
      (''offered_1k_50k'', (1024, 1000, 16, ''uniform'', ''read-only'', ''unary'', True, 0, ''offered'', 50000)),
      (''offered_1k_80k'', (1024, 1000, 16, ''uniform'', ''read-only'', ''unary'', True, 0, ''offered'', 80000)),
      (''offered_1k_120k'', (1024, 1000, 16, ''uniform'', ''read-only'', ''unary'', True, 0, ''offered'', 120000)),
      (''offered_origin_64k_1500'', (65536, 2048, 8, ''uniform'', ''origin'', ''unary'', True, 5, ''offered'', 1500)),
      (''offered_origin_64k_2gib_10k'', (65536, 32768, 64, ''uniform'', ''origin'', ''unary'', True, 5, ''offered'', 10000))]"

lemma ex_bool: "\<exists>x. x" "Ex Not"
  by blast+

lemma CASES_lookup:
  "map_of CASES ''hit_100b_c8'' = Some (100, 1000, 8, ''uniform'', ''read-only'', ''unary'', True, 0, ''closed'', 0)"
  "map_of CASES ''hit_1k_c1'' = Some (1024, 1000, 1, ''uniform'', ''read-only'', ''unary'', True, 0, ''closed'', 0)"
  "map_of CASES ''hit_1k_c4'' = Some (1024, 1000, 4, ''uniform'', ''read-only'', ''unary'', True, 0, ''closed'', 0)"
  "map_of CASES ''hit_1k_c8'' = Some (1024, 1000, 8, ''uniform'', ''read-only'', ''unary'', True, 0, ''closed'', 0)"
  "map_of CASES ''hit_1k_c16'' = Some (1024, 1000, 16, ''uniform'', ''read-only'', ''unary'', True, 0, ''closed'', 0)"
  "map_of CASES ''hit_16k_c8'' = Some (16384, 1000, 8, ''uniform'', ''read-only'', ''unary'', True, 0, ''closed'', 0)"
  "map_of CASES ''hit_64k_c8'' = Some (65536, 1000, 8, ''uniform'', ''read-only'', ''unary'', True, 0, ''closed'', 0)"
  "map_of CASES ''hit_256k_c8'' = Some (262144, 160, 8, ''uniform'', ''read-only'', ''unary'', True, 0, ''closed'', 0)"
  "map_of CASES ''hit_1m_c4'' = Some (1048576, 40, 4, ''uniform'', ''read-only'', ''unary'', True, 0, ''closed'', 0)"
  "map_of CASES ''hit_1k_c32'' = Some (1024, 1000, 32, ''uniform'', ''read-only'', ''unary'', True, 0, ''closed'', 0)"
  "map_of CASES ''hit_1k_c64'' = Some (1024, 1000, 64, ''uniform'', ''read-only'', ''unary'', True, 0, ''closed'', 0)"
  "map_of CASES ''readheavy_1k_c8'' = Some (1024, 1000, 8, ''skew'', ''read-heavy'', ''unary'', True, 0, ''closed'', 0)"
  "map_of CASES ''mixed_1k_c8'' = Some (1024, 1000, 8, ''skew'', ''mixed'', ''unary'', True, 0, ''closed'', 0)"
  "map_of CASES ''mixed_1k_c32'' = Some (1024, 1000, 32, ''skew'', ''mixed'', ''unary'', True, 0, ''closed'', 0)"
  "map_of CASES ''batch_get_1k_c8'' = Some (1024, 1000, 8, ''uniform'', ''read-only'', ''batch-get'', True, 0, ''closed'', 0)"
  "map_of CASES ''batch_set_1k_c8'' = Some (1024, 1000, 8, ''uniform'', ''read-only'', ''batch-set'', True, 0, ''closed'', 0)"
  "map_of CASES ''pipeline_1k_c8'' = Some (1024, 1000, 8, ''uniform'', ''read-only'', ''pipeline'', True, 0, ''closed'', 0)"
  "map_of CASES ''origin_uniform_64k_1ms'' = Some (65536, 2048, 8, ''uniform'', ''origin'', ''unary'', True, 1, ''closed'', 0)"
  "map_of CASES ''origin_near_64k_5ms'' = Some (65536, 1400, 8, ''uniform'', ''origin'', ''unary'', True, 5, ''closed'', 0)"
  "map_of CASES ''origin_uniform_64k_5ms'' = Some (65536, 2048, 8, ''uniform'', ''origin'', ''unary'', True, 5, ''closed'', 0)"
  "map_of CASES ''origin_uniform_64k_1gib'' = Some (65536, 20480, 8, ''uniform'', ''origin'', ''unary'', True, 5, ''closed'', 0)"
  "map_of CASES ''cold_origin_uniform_64k_5ms'' = Some (65536, 2048, 8, ''uniform'', ''origin'', ''unary'', False, 5, ''closed'', 0)"
  "map_of CASES ''origin_uniform_64k_20ms'' = Some (65536, 2048, 8, ''uniform'', ''origin'', ''unary'', True, 20, ''closed'', 0)"
  "map_of CASES ''origin_skew_64k_5ms'' = Some (65536, 2048, 8, ''skew'', ''origin'', ''unary'', True, 5, ''closed'', 0)"
  "map_of CASES ''origin_shift_64k_5ms'' = Some (65536, 2048, 8, ''hot_shift'', ''origin'', ''unary'', False, 5, ''closed'', 0)"
  "map_of CASES ''onepass_64k_5ms'' = Some (65536, 2048, 4, ''one_pass'', ''origin'', ''unary'', False, 5, ''closed'', 0)"
  "map_of CASES ''origin_uniform_64k_2gib_c32'' = Some (65536, 32768, 32, ''uniform'', ''origin'', ''unary'', True, 5, ''closed'', 0)"
  "map_of CASES ''origin_skew_64k_2gib_c32'' = Some (65536, 32768, 32, ''skew'', ''origin'', ''unary'', True, 5, ''closed'', 0)"
  "map_of CASES ''origin_uniform_16k_2gib_c32'' = Some (16384, 131072, 32, ''uniform'', ''origin'', ''unary'', True, 5, ''closed'', 0)"
  "map_of CASES ''origin_uniform_64k_6gib_c32'' = Some (65536, 98304, 32, ''uniform'', ''origin'', ''unary'', False, 5, ''closed'', 0)"
  "map_of CASES ''offered_1k_20k'' = Some (1024, 1000, 8, ''uniform'', ''read-only'', ''unary'', True, 0, ''offered'', 20000)"
  "map_of CASES ''offered_1k_50k'' = Some (1024, 1000, 16, ''uniform'', ''read-only'', ''unary'', True, 0, ''offered'', 50000)"
  "map_of CASES ''offered_1k_80k'' = Some (1024, 1000, 16, ''uniform'', ''read-only'', ''unary'', True, 0, ''offered'', 80000)"
  "map_of CASES ''offered_1k_120k'' = Some (1024, 1000, 16, ''uniform'', ''read-only'', ''unary'', True, 0, ''offered'', 120000)"
  "map_of CASES ''offered_origin_64k_1500'' = Some (65536, 2048, 8, ''uniform'', ''origin'', ''unary'', True, 5, ''offered'', 1500)"
  "map_of CASES ''offered_origin_64k_2gib_10k'' = Some (65536, 32768, 64, ''uniform'', ''origin'', ''unary'', True, 5, ''offered'', 10000)"
  by (simp_all add: CASES_def)

definition case_size :: "strong_case \<Rightarrow> nat" where
  "case_size c = fst c"

definition case_operation :: "strong_case \<Rightarrow> string" where
  "case_operation c = (case c of (s, n, k, p, w, operation, r) \<Rightarrow> operation)"

text \<open>The early returns of \<open>run_once\<close>: combinations the harness leaves out without a trace.\<close>

definition skips :: "string \<Rightarrow> strong_case \<Rightarrow> bool" where
  "skips engine c \<longleftrightarrow>
     (case_operation c = ''pipeline'' \<and> engine \<noteq> ''grpc'')
     \<or> (case_operation c = ''batch-set'' \<and> prefix ''memcached'' engine)
     \<or> (engine = ''memcached_extstore'' \<and> case_size c < 2048)"

section \<open>Server arguments\<close>

text \<open>The part of an engine name before its first underscore, \<open>engine.split("_")[0]\<close>.\<close>

definition base_engine :: "string \<Rightarrow> string" where
  "base_engine engine = hd (split_on CHR ''_'' engine)"

definition server_arguments :: "string \<Rightarrow> int \<Rightarrow> int \<Rightarrow> string list res" where
  "server_arguments engine cache_mb flash_mb =
    (let threads = 4 in
     if prefix ''grpc'' engine then
       Inr ([''--cache_size='' @ str_int (cache_mb * 1048576), ''--metrics_port=0'',
             ''--nvm_reader_threads=4'', ''--nvm_writer_threads=4'']
            @ (if engine = ''grpc_nvm''
               then [''--enable_nvm=true'', ''--enable_io_uring=false'', ''--nvm_path=/data/navy'',
                     ''--nvm_size='' @ str_int (flash_mb * 1048576)] else []))
     else if engine \<in> {''redis'', ''valkey''} then
       Inr [''--save'', '''', ''--appendonly'', ''no'', ''--maxmemory'', str_int (cache_mb * 1048576),
            ''--maxmemory-policy'', ''allkeys-lru'']
     else if prefix ''memcached'' engine then
       Inr ([''-m'', str_int cache_mb, ''-t'', ''4'', ''-I'', ''5m'', ''-U'', ''0'']
            @ (if engine = ''memcached_extstore''
               then [''-o'', ''ext_path=/data/extstore:'' @ str_int flash_mb
                             @ ''m,ext_item_size=2048,ext_wbuf_size=8''] else []))
     else if prefix ''dragonfly'' engine then
       (if cache_mb < 256 * threads
        then Inl (ValueError (''Dragonfly requires >= '' @ str_int (256 * threads)
                   @ '' MiB maxmemory for '' @ str_int threads @ '' threads; got ''
                   @ str_int cache_mb @ '' MiB''))
        else if engine = ''dragonfly_tiered'' \<and> flash_mb < 256 * threads
        then Inl (ValueError (''Dragonfly tiering requires >= '' @ str_int (256 * threads)
                   @ '' MiB of file; got '' @ str_int flash_mb @ '' MiB''))
        else Inr ([''--bind'', ''0.0.0.0'', ''--port'', ''6379'', ''--maxmemory='' @ str_int cache_mb @ ''mb'',
                   ''--cache_mode=true'', ''--proactor_threads='' @ str_int threads,
                   ''--dbfilename='', ''--snapshot_cron='']
                  @ (if engine = ''dragonfly_tiered''
                     then [''--tiered_prefix=/data/dragonfly'',
                           ''--tiered_max_file_size='' @ str_int flash_mb @ ''mb''] else [])))
     else if prefix ''garnet'' engine then
       Inr ([''--port'', ''6379'', ''--bind'', ''0.0.0.0'', ''--memory'', str_int cache_mb @ ''m'',
             ''--index'', ''16m'', ''--no-obj'', ''--checkpointdir'', ''/tmp/garnet-checkpoint'']
            @ (if engine = ''garnet_storage''
               then [''--storage-tier'', ''true'', ''--logdir'', ''/data''] else []))
     else if engine = ''kvrocks'' then
       Inr [''--bind'', ''0.0.0.0'', ''--port'', ''6666'', ''--dir'', ''/data'',
            ''--rocksdb.block_cache_size'', str_int cache_mb, ''--daemonize'', ''no'']
     else Inl (ValueError (''no server arguments defined for '' @ engine)))"

definition known_engines :: "string list" where
  "known_engines = [''grpc'', ''grpc_nvm''] @ map fst IMAGES"

definition dragonfly_fits :: "string \<Rightarrow> int \<Rightarrow> int \<Rightarrow> bool" where
  "dragonfly_fits engine cache_mb flash_mb \<longleftrightarrow>
     \<not> (engine \<in> {''dragonfly'', ''dragonfly_tiered''} \<and> cache_mb < 1024)
     \<and> \<not> (engine = ''dragonfly_tiered'' \<and> flash_mb < 1024)"

lemma server_arguments_Inr:
  assumes "engine \<in> set known_engines"
  shows "(\<exists>args. server_arguments engine cache_mb flash_mb = Inr args) \<longleftrightarrow>
    dragonfly_fits engine cache_mb flash_mb"
proof -
  have "engine \<in> {''grpc'', ''grpc_nvm'', ''redis'', ''valkey'', ''memcached'', ''memcached_extstore'',
      ''dragonfly'', ''dragonfly_tiered'', ''garnet'', ''garnet_storage'', ''kvrocks''}"
    using assms by (simp add: known_engines_def IMAGES_def)
  then show ?thesis
    unfolding insert_iff empty_iff by (elim disjE) (simp_all add: server_arguments_def dragonfly_fits_def)
qed

text \<open>
  Every engine the harness accepts on its command line can be given server arguments, except
  Dragonfly below 1024 MiB of memory and tiered Dragonfly below 1024 MiB of file, which raise.
\<close>

theorem server_arguments_total:
  assumes "engine \<in> set known_engines"
  shows "(\<exists>args. server_arguments engine cache_mb flash_mb = Inr args) \<longleftrightarrow>
    \<not> (engine \<in> {''dragonfly'', ''dragonfly_tiered''} \<and> cache_mb < 1024)
    \<and> \<not> (engine = ''dragonfly_tiered'' \<and> flash_mb < 1024)"
  using server_arguments_Inr [OF assms] by (simp only: dragonfly_fits_def)

theorem server_arguments_total_witness:
  "''dragonfly_tiered'' \<in> set known_engines
   \<and> (\<exists>args. server_arguments ''dragonfly_tiered'' 1024 4096 = Inr args)
   \<and> \<not> (\<exists>args. server_arguments ''dragonfly_tiered'' 1024 512 = Inr args)"
proof -
  have h: "''dragonfly_tiered'' \<in> set known_engines" by (simp add: known_engines_def IMAGES_def)
  show ?thesis
    using h server_arguments_total [OF h, of 1024 4096] server_arguments_total [OF h, of 1024 512]
    by simp
qed

section \<open>The schedule\<close>

text \<open>
  \<open>random.Random(seed).shuffle(xs)\<close>: CPython exchanges \<open>xs[i]\<close> with \<open>xs[j]\<close>, \<open>j = randbelow(i + 1)\<close>,
  for \<open>i\<close> from the last index down to 1. The generator is a parameter.
\<close>

definition swap_at :: "'a list \<Rightarrow> nat \<Rightarrow> nat \<Rightarrow> 'a list" where
  "swap_at xs i j = xs[i := xs ! j, j := xs ! i]"

fun shuffle_from :: "('s, 'm) rng_scheme \<Rightarrow> nat \<Rightarrow> 'a list \<Rightarrow> 's \<Rightarrow> 'a list" where
  "shuffle_from g 0 xs s = xs"
| "shuffle_from g (Suc i) xs s =
     (let (j, s') = randbelow g (Suc i + 1) s in shuffle_from g i (swap_at xs (Suc i) j) s')"

definition shuffle :: "('s, 'm) rng_scheme \<Rightarrow> int \<Rightarrow> 'a list \<Rightarrow> 'a list" where
  "shuffle g seed xs = shuffle_from g (length xs - 1) xs (seed_rng g seed)"

lemma mset_swap_at: "i < length xs \<Longrightarrow> j < length xs \<Longrightarrow> mset (swap_at xs i j) = mset xs"
  by (simp add: swap_at_def mset_swap)

lemma length_swap_at [simp]: "length (swap_at xs i j) = length xs"
  by (simp add: swap_at_def)

lemma mset_shuffle_from:
  "in_range_rng g \<Longrightarrow> i < length xs \<or> xs = [] \<and> i = 0 \<Longrightarrow> mset (shuffle_from g i xs s) = mset xs"
proof (induction g i xs s rule: shuffle_from.induct)
  case (2 g i xs s)
  obtain j s' where j: "randbelow g (Suc i + 1) s = (j, s')" by fastforce
  with "2.prems"(1) have "fst (randbelow g (Suc i + 1) s) < Suc i + 1"
    unfolding in_range_rng_def by blast
  with j "2" show ?case by (simp add: mset_swap_at)
qed simp

lemma mset_shuffle: "in_range_rng g \<Longrightarrow> mset (shuffle g seed xs) = mset xs"
  unfolding shuffle_def by (rule mset_shuffle_from) (cases xs; simp)+

definition order_seed :: "string \<Rightarrow> nat \<Rightarrow> int" where
  "order_seed cs repeat = 20260923 + int repeat * 101 + int (sum_list (map of_char cs))"

definition schedule ::
  "('s, 'm) rng_scheme \<Rightarrow> string list \<Rightarrow> nat \<Rightarrow> string list \<Rightarrow> (string \<times> nat \<times> string) list"
where
  "schedule g cases reps engines =
     [(c, r, e). c \<leftarrow> cases, r \<leftarrow> [0..<reps], e \<leftarrow> shuffle g (order_seed c r) engines]"

lemma mset_concat_map:
  "(\<And>x. x \<in> set xs \<Longrightarrow> mset (f x) = mset (h x)) \<Longrightarrow> mset (concat (map f xs)) = mset (concat (map h xs))"
  by (induction xs) auto

text \<open>
  C13. The harness runs exactly what the campaign check expects: for any generator that draws in
  range, the schedule of a group's cases, repetitions and engines is a permutation of
  \<open>expected_runs\<close>, each run once, only the order of the engines shuffled.
\<close>

theorem schedule_expected_runs:
  assumes "in_range_rng g"
  shows "mset (map (\<lambda>(c, r, e). (c, rep_name r, e))
           (schedule g (sp_cases spec) (sp_reps spec) (sp_engines spec))) = mset (expected_runs spec)"
proof -
  let ?p = "\<lambda>(c, r, e). (c, rep_name r, e)"
  let ?f = "\<lambda>es c r. map (\<lambda>e. (c, rep_name r, e)) (es c r)"
  have "map ?p (schedule g (sp_cases spec) (sp_reps spec) (sp_engines spec)) =
      concat (map (\<lambda>c. concat (map (?f (\<lambda>c r. shuffle g (order_seed c r) (sp_engines spec)) c)
        [0..<sp_reps spec])) (sp_cases spec))"
    by (simp add: schedule_def map_concat comp_def)
  also have "mset \<dots> = mset (concat (map (\<lambda>c. concat (map (?f (\<lambda>c r. sp_engines spec) c)
      [0..<sp_reps spec])) (sp_cases spec)))"
    by (intro mset_concat_map) (simp add: mset_shuffle [OF assms])
  finally show ?thesis by (simp add: expected_runs_def)
qed

theorem schedule_expected_runs_witness:
  "mset (map (\<lambda>(c, r, e). (c, rep_name r, e)) (schedule zero_rng [''hit_1k_c8''] 1 [''redis'']))
     = mset (expected_runs sample_spec)"
  using schedule_expected_runs [OF zero_rng_in_range, of sample_spec] by simp

section \<open>The command line\<close>

text \<open>
  The namespace \<open>argparse\<close> fills for \<open>run_strong.py\<close>. Options are spelled out and each takes the next
  word, except the flag \<open>--discard-flash-files\<close>; the last occurrence of an option wins. A word that
  starts with a dash and is no negative number is not taken as a value.
\<close>

record strong_args =
  sa_grpc_image :: "string option"
  sa_go_client_image :: string
  sa_correctness_client_image :: string
  sa_engine_images :: "string \<rightharpoonup> string"
  sa_engines :: string
  sa_cases :: string
  sa_reps :: int
  sa_seconds :: int
  sa_warmup :: int
  sa_cache_mb :: int
  sa_memory_mb :: int
  sa_flash_mb :: int
  sa_discard_flash_files :: bool
  sa_output :: "string option"

definition strong_defaults :: strong_args where
  "strong_defaults =
     \<lparr>sa_grpc_image = None, sa_go_client_image = ''cachebench-go:rc'',
      sa_correctness_client_image = ''cachelib-investigation-client:local'',
      sa_engine_images = (\<lambda>e. if e \<in> set BASE_ENGINES then map_of IMAGES e else None),
      sa_engines = ''grpc,redis,valkey,memcached'', sa_cases = ''hit_1k_c1,hit_1k_c8'',
      sa_reps = 5, sa_seconds = 60, sa_warmup = 15, sa_cache_mb = 96, sa_memory_mb = 768,
      sa_flash_mb = 512, sa_discard_flash_files = False, sa_output = None\<rparr>"

definition image_option :: "string \<Rightarrow> string" where
  "image_option engine = ''--'' @ engine @ ''-image''"

definition arg_int :: "string \<Rightarrow> int res" where
  "arg_int v = (case int_of_string v of
     Inl e \<Rightarrow> Inl (ParserError (''invalid int value: '' @ v)) | Inr n \<Rightarrow> Inr n)"

definition set_option :: "strong_args \<Rightarrow> string \<Rightarrow> string \<Rightarrow> strong_args res" where
  "set_option a opt v =
     (if opt = ''--grpc-image'' then Inr (a\<lparr>sa_grpc_image := Some v\<rparr>)
      else if opt = ''--go-client-image'' then Inr (a\<lparr>sa_go_client_image := v\<rparr>)
      else if opt = ''--correctness-client-image'' then Inr (a\<lparr>sa_correctness_client_image := v\<rparr>)
      else if opt = ''--engines'' then Inr (a\<lparr>sa_engines := v\<rparr>)
      else if opt = ''--cases'' then Inr (a\<lparr>sa_cases := v\<rparr>)
      else if opt = ''--reps'' then bindR (arg_int v) (\<lambda>n. Inr (a\<lparr>sa_reps := n\<rparr>))
      else if opt = ''--seconds'' then bindR (arg_int v) (\<lambda>n. Inr (a\<lparr>sa_seconds := n\<rparr>))
      else if opt = ''--warmup'' then bindR (arg_int v) (\<lambda>n. Inr (a\<lparr>sa_warmup := n\<rparr>))
      else if opt = ''--cache-mb'' then bindR (arg_int v) (\<lambda>n. Inr (a\<lparr>sa_cache_mb := n\<rparr>))
      else if opt = ''--memory-mb'' then bindR (arg_int v) (\<lambda>n. Inr (a\<lparr>sa_memory_mb := n\<rparr>))
      else if opt = ''--flash-mb'' then bindR (arg_int v) (\<lambda>n. Inr (a\<lparr>sa_flash_mb := n\<rparr>))
      else if opt = ''--output'' then Inr (a\<lparr>sa_output := Some v\<rparr>)
      else (case find (\<lambda>e. opt = image_option e) BASE_ENGINES of
              Some e \<Rightarrow> Inr (a\<lparr>sa_engine_images := (sa_engine_images a)(e \<mapsto> v)\<rparr>)
            | None \<Rightarrow> Inl (ParserError (''unrecognized arguments: '' @ opt))))"

definition option_like :: "string \<Rightarrow> bool" where
  "option_like v \<longleftrightarrow> prefix ''-'' v \<and> tl v \<noteq> [] \<and> \<not> list_all is_digit (tl v)"

fun parse_strong :: "strong_args \<Rightarrow> string list \<Rightarrow> strong_args res" where
  "parse_strong a [] = Inr a"
| "parse_strong a (opt # rest) =
     (if opt = ''--discard-flash-files'' then parse_strong (a\<lparr>sa_discard_flash_files := True\<rparr>) rest
      else (case rest of
              [] \<Rightarrow> Inl (ParserError (opt @ '': expected one argument''))
            | v # rest' \<Rightarrow>
                if option_like v then Inl (ParserError (opt @ '': expected one argument''))
                else bindR (set_option a opt v) (\<lambda>a'. parse_strong a' rest')))"

text \<open>Required options, the variants' images, and the checks of \<open>main\<close> before anything runs.\<close>

definition add_variants :: "strong_args \<Rightarrow> strong_args" where
  "add_variants a =
     a\<lparr>sa_engine_images := (sa_engine_images a)
        (''memcached_extstore'' := sa_engine_images a (base_engine ''memcached_extstore''),
         ''dragonfly_tiered'' := sa_engine_images a (base_engine ''dragonfly_tiered''),
         ''garnet_storage'' := sa_engine_images a (base_engine ''garnet_storage''))\<rparr>"

definition check_strong :: "strong_args \<Rightarrow> (string list \<times> string list) res" where
  "check_strong a =
     (if sa_reps a < 1 \<or> sa_seconds a < 1 \<or> sa_warmup a < 1 \<or> sa_memory_mb a < sa_cache_mb a
      then Inl (ParserError ''invalid duration, repetition count, or memory budget'')
      else let cases = split_on CHR '','' (sa_cases a); engines = split_on CHR '','' (sa_engines a) in
        if \<exists>c \<in> set cases. map_of CASES c = None
        then Inl (ParserError ''unknown case; see CASES in run_strong.py'')
        else if \<exists>e \<in> set engines. e \<notin> set known_engines
        then Inl (ParserError ''unknown engine'')
        else Inr (cases, engines))"

definition strong_cli :: "string list \<Rightarrow> (strong_args \<times> string list \<times> string list) res" where
  "strong_cli argv =
     bindR (parse_strong strong_defaults argv) (\<lambda>a.
       if sa_grpc_image a = None \<or> sa_output a = None
       then Inl (ParserError ''the following arguments are required'')
       else let a = add_variants a in bindR (check_strong a) (\<lambda>(cases, engines). Inr (a, cases, engines)))"

subsection \<open>What the campaign asks for is what the harness gets\<close>

definition launchable :: "spec \<Rightarrow> bool" where
  "launchable spec \<longleftrightarrow>
     1 \<le> sp_reps spec \<and> 1 \<le> sp_seconds spec \<and> 1 \<le> sp_warmup spec
     \<and> sp_cache_mb spec \<le> sp_memory_mb spec
     \<and> sp_cases spec \<noteq> [] \<and> list_all (\<lambda>c. map_of CASES c \<noteq> None) (sp_cases spec)
     \<and> sp_engines spec \<noteq> [] \<and> list_all (\<lambda>e. e \<in> set known_engines) (sp_engines spec)"

definition plain_name :: "string \<Rightarrow> bool" where
  "plain_name n \<longleftrightarrow> n \<noteq> [] \<and> hd n \<noteq> CHR ''-'' \<and> CHR '','' \<notin> set n"

lemma CASES_plain: "list_all (\<lambda>(n, c). plain_name n) CASES"
  by (simp add: CASES_def plain_name_def)

lemma known_engines_plain: "list_all plain_name known_engines"
  by (simp add: known_engines_def IMAGES_def plain_name_def)

lemma launchable_plain:
  "launchable spec \<Longrightarrow> list_all plain_name (sp_cases spec) \<and> list_all plain_name (sp_engines spec)"
  using CASES_plain known_engines_plain
  by (fastforce simp: launchable_def list_all_iff dest: map_of_SomeD)

lemma option_like_plain: "ns \<noteq> [] \<Longrightarrow> list_all plain_name ns \<Longrightarrow> \<not> option_like (join sep ns)"
  by (induction sep ns rule: join.induct)
    (auto simp: option_like_def plain_name_def prefix_def hd_append neq_Nil_conv)

lemma option_like_str_nat [simp]: "\<not> option_like (str_nat n)"
proof
  assume "option_like (str_nat n)"
  then obtain zs where "str_nat n = CHR ''-'' # zs" by (auto simp: option_like_def prefix_def)
  then show False using str_nat_not(3) [of n] by (metis list.set_intros(1))
qed

lemma arg_int_str_nat [simp]: "arg_int (str_nat n) = Inr (int n)"
  by (simp add: arg_int_def)

lemma split_join_plain:
  "ns \<noteq> [] \<Longrightarrow> list_all plain_name ns \<Longrightarrow> split_on CHR '','' (join '','' ns) = ns"
  using split_on_join [of ns "CHR '',''"] by (simp add: list_all_iff plain_name_def)

lemma set_option_image:
  assumes "e \<in> set BASE_ENGINES"
  shows "set_option a (image_option e) v =
    Inr (a\<lparr>sa_engine_images := (sa_engine_images a)(e \<mapsto> v)\<rparr>)" "image_option e \<noteq> ''--discard-flash-files''"
  using assms unfolding BASE_ENGINES_def
  by (auto simp: set_option_def image_option_def BASE_ENGINES_def)

text \<open>The images of the engines, those of \<open>es\<close> the campaign resolved replaced.\<close>

definition with_images ::
  "(string \<rightharpoonup> string) \<Rightarrow> string list \<Rightarrow> (string \<rightharpoonup> string) \<Rightarrow> (string \<rightharpoonup> string)"
where
  "with_images images es base = (\<lambda>e. if e \<in> set es \<and> images e \<noteq> None then images e else base e)"

lemma with_images_Cons:
  "with_images images (e # es) base =
     with_images images es (case images e of None \<Rightarrow> base | Some i \<Rightarrow> base(e \<mapsto> i))"
  by (auto simp: with_images_def fun_eq_iff split: option.splits)

lemma parse_engine_images:
  assumes "set es \<subseteq> set BASE_ENGINES" and "\<And>e i. images e = Some i \<Longrightarrow> \<not> option_like i"
  shows "parse_strong a (engine_image_options images es) =
    Inr (a\<lparr>sa_engine_images := with_images images es (sa_engine_images a)\<rparr>)"
  using assms
proof (induction es arbitrary: a)
  case Nil
  then show ?case by (simp add: engine_image_options_def with_images_def)
next
  case (Cons e es)
  show ?case
  proof (cases "images e")
    case None
    with Cons show ?thesis by (simp add: engine_image_options_def with_images_Cons)
  next
    case (Some i)
    then have "engine_image_options images (e # es) = image_option e # i # engine_image_options images es"
      by (simp add: engine_image_options_def image_option_def)
    with Some Cons show ?thesis by (simp add: set_option_image with_images_Cons)
  qed
qed

lemma parse_base_options:
  assumes "\<not> option_like grpc" "\<not> option_like go" "\<not> option_like cs" "\<not> option_like output"
    "\<not> option_like es" "\<not> option_like py"
  shows "parse_strong a (''--grpc-image'' # grpc # ''--go-client-image'' # go # ''--cases'' # cs
      # ''--reps'' # str_nat reps # ''--seconds'' # str_nat seconds # ''--warmup'' # str_nat warmup
      # ''--output'' # output # ''--engines'' # es # ''--cache-mb'' # str_nat cache
      # ''--memory-mb'' # str_nat memory # ''--correctness-client-image'' # py # rest) =
    parse_strong (a\<lparr>sa_grpc_image := Some grpc, sa_go_client_image := go, sa_cases := cs,
      sa_reps := int reps, sa_seconds := int seconds, sa_warmup := int warmup,
      sa_output := Some output, sa_engines := es, sa_cache_mb := int cache,
      sa_memory_mb := int memory, sa_correctness_client_image := py\<rparr>) rest"
  using assms by (simp add: set_option_def)

text \<open>The options of a group that are present only on request.\<close>

definition flash_options :: "spec \<Rightarrow> string list" where
  "flash_options spec = (case sp_flash_mb spec of None \<Rightarrow> []
     | Some n \<Rightarrow> if n = 0 then [] else [''--flash-mb'', str_nat n])"

definition discard_options :: "spec \<Rightarrow> string list" where
  "discard_options spec = (if opt_flag (sp_discard_flash spec) then [''--discard-flash-files''] else [])"

lemma parse_flash_options:
  "parse_strong a (flash_options spec @ rest) = parse_strong (a\<lparr>sa_flash_mb :=
     (case sp_flash_mb spec of Some n \<Rightarrow> if n = 0 then sa_flash_mb a else int n | None \<Rightarrow> sa_flash_mb a)\<rparr>) rest"
  by (auto simp: flash_options_def set_option_def split: option.splits)

lemma parse_discard_options:
  "parse_strong a (discard_options spec @ rest) = parse_strong (a\<lparr>sa_discard_flash_files :=
     (opt_flag (sp_discard_flash spec) \<or> sa_discard_flash_files a)\<rparr>) rest"
  by (auto simp: discard_options_def)

text \<open>
  C14. The command line the campaign builds for a launchable KV group, parsed by the harness, gives
  back the group: the same cases and engines as lists, durations, repetitions and memory budgets,
  the file budget (512 MiB when the group has none), the discard flag and the resolved images.
\<close>

theorem group_command_roundtrip:
  assumes cmd: "group_command exe spec images output = Inr argv" and kv: "is_kv spec"
    and "launchable spec" and out: "\<not> option_like output"
    and ids: "\<forall>e i. images e = Some i \<longrightarrow> \<not> option_like i"
  shows "\<exists>a. strong_cli (drop 2 argv) = Inr (a, sp_cases spec, sp_engines spec)
    \<and> sa_reps a = int (sp_reps spec) \<and> sa_seconds a = int (sp_seconds spec)
    \<and> sa_warmup a = int (sp_warmup spec) \<and> sa_cache_mb a = int (sp_cache_mb spec)
    \<and> sa_memory_mb a = int (sp_memory_mb spec)
    \<and> sa_flash_mb a = (case sp_flash_mb spec of Some n \<Rightarrow> if n = 0 then 512 else int n | None \<Rightarrow> 512)
    \<and> sa_discard_flash_files a = opt_flag (sp_discard_flash spec)
    \<and> sa_output a = Some output \<and> sa_grpc_image a = images ''grpc''
    \<and> (\<forall>e \<in> set BASE_ENGINES. images e \<noteq> None \<longrightarrow> sa_engine_images a e = images e)"
proof -
  obtain grpc go py where im: "images ''grpc'' = Some grpc" "images ''go'' = Some go"
    "images ''python'' = Some py"
    using cmd kv by (auto simp: group_command_def image_id_def Let_def split: option.splits)
  have plain: "list_all plain_name (sp_cases spec)" "list_all plain_name (sp_engines spec)"
    "sp_cases spec \<noteq> []" "sp_engines spec \<noteq> []"
    using launchable_plain [OF assms(3)] assms(3) by (auto simp: launchable_def)
  have keys: "ENGINE_IMAGE_KEYS = BASE_ENGINES"
    by (simp add: ENGINE_IMAGE_KEYS_def BASE_ENGINES_def)
  have argv: "drop 2 argv = ''--grpc-image'' # grpc # ''--go-client-image'' # go
      # ''--cases'' # join '','' (sp_cases spec) # ''--reps'' # str_nat (sp_reps spec)
      # ''--seconds'' # str_nat (sp_seconds spec) # ''--warmup'' # str_nat (sp_warmup spec)
      # ''--output'' # output # ''--engines'' # join '','' (sp_engines spec)
      # ''--cache-mb'' # str_nat (sp_cache_mb spec) # ''--memory-mb'' # str_nat (sp_memory_mb spec)
      # ''--correctness-client-image'' # py
      # flash_options spec @ discard_options spec @ engine_image_options images BASE_ENGINES"
    using cmd kv im
    by (auto simp: group_command_def image_id_def keys flash_options_def discard_options_def)
  have ids': "\<And>e i. images e = Some i \<Longrightarrow> \<not> option_like i" using ids by blast
  note parsed = parse_base_options [OF ids' [OF im(1)] ids' [OF im(2)]
      option_like_plain [OF plain(3,1)] out option_like_plain [OF plain(4,2)] ids' [OF im(3)]]
  have check: "check_strong (add_variants a) = Inr (sp_cases spec, sp_engines spec)"
    if "sa_cases a = join '','' (sp_cases spec)" "sa_engines a = join '','' (sp_engines spec)"
      "sa_reps a = int (sp_reps spec)" "sa_seconds a = int (sp_seconds spec)"
      "sa_warmup a = int (sp_warmup spec)" "sa_cache_mb a = int (sp_cache_mb spec)"
      "sa_memory_mb a = int (sp_memory_mb spec)" for a
    using that assms(3) plain
    by (fastforce simp: check_strong_def add_variants_def split_join_plain launchable_def list_all_iff
        Let_def)
  have variants: "sa_engine_images (add_variants a) e = sa_engine_images a e"
    if "e \<in> set BASE_ENGINES" for a e
    using that by (auto simp: add_variants_def BASE_ENGINES_def)
  have engine_images: "parse_strong a (engine_image_options images BASE_ENGINES) =
      Inr (a\<lparr>sa_engine_images := with_images images BASE_ENGINES (sa_engine_images a)\<rparr>)" for a
    by (rule parse_engine_images [OF order_refl]) (rule ids')
  show ?thesis
    unfolding strong_cli_def argv parsed parse_flash_options parse_discard_options engine_images
    by (simp add: check im variants with_images_def) (simp add: add_variants_def strong_defaults_def
        split: option.splits)
qed

definition sample_images :: "string \<rightharpoonup> string" where
  "sample_images = [''grpc'' \<mapsto> ''sha256:1'', ''go'' \<mapsto> ''sha256:2'', ''python'' \<mapsto> ''sha256:3'', ''redis'' \<mapsto> ''sha256:4'']"

theorem group_command_roundtrip_witness:
  "\<exists>argv a. group_command ''python3'' sample_spec sample_images ''runs/primary'' = Inr argv
    \<and> strong_cli (drop 2 argv) = Inr (a, [''hit_1k_c8''], [''redis''])
    \<and> sa_engine_images a ''redis'' = Some ''sha256:4''"
proof -
  obtain argv where argv: "group_command ''python3'' sample_spec sample_images ''runs/primary'' = Inr argv"
    by (simp add: group_command_def image_id_def sample_images_def)
  have l: "launchable sample_spec"
    by (simp add: launchable_def CASES_lookup known_engines_def IMAGES_def ex_bool)
      (simp add: sample_spec_def group_def)
  have o: "\<not> option_like ''runs/primary''" by (simp add: option_like_def)
  have i: "\<forall>e i. sample_images e = Some i \<longrightarrow> \<not> option_like i"
    by (auto simp: sample_images_def option_like_def split: if_splits)
  have r: "''redis'' \<in> set BASE_ENGINES" "sample_images ''redis'' = Some ''sha256:4''"
    by (simp_all add: BASE_ENGINES_def sample_images_def)
  obtain a where a: "strong_cli (drop 2 argv) = Inr (a, sp_cases sample_spec, sp_engines sample_spec)"
    "\<forall>e \<in> set BASE_ENGINES. sample_images e \<noteq> None \<longrightarrow> sa_engine_images a e = sample_images e"
    using group_command_roundtrip [OF argv sample_fields(6) l o i] by blast
  have "sa_engine_images a ''redis'' = Some ''sha256:4''" using a(2) r by simp
  with argv a(1) show ?thesis by simp
qed

end
