(* ===== verification/Http_Harness.thy ===== *)
theory Http_Harness
  imports Strong_Harness
begin

text \<open>
  The pure part of the HTTP harness \<open>bench/strong/run_http.py\<close>: its table of cases, the engines a
  case runs and the schedule.
\<close>

text \<open>A case is (object bytes, objects, concurrency, pattern).\<close>

type_synonym http_case = "nat \<times> nat \<times> nat \<times> string"

definition HTTP_CASES :: "(string \<times> http_case) list" where
  "HTTP_CASES =
     [(''repeated_256k_c8'', (262144, 64, 8, ''repeated'')),
      (''repeated_1m_c8'', (1048576, 32, 8, ''repeated'')),
      (''recent_replay_256k_c8'', (262144, 64, 8, ''recent_replay'')),
      (''onepass_256k_c8'', (262144, 64, 8, ''one_pass''))]"

definition http_pattern :: "http_case \<Rightarrow> string" where
  "http_pattern c = (case c of (s, n, k, pattern) \<Rightarrow> pattern)"

text \<open>The list \<open>main\<close> builds for a case, before it is shuffled; an unknown case raises.\<close>

definition http_engines :: "string \<Rightarrow> string list res" where
  "http_engines cs = (case map_of HTTP_CASES cs of
      None \<Rightarrow> Inl (KeyError cs)
    | Some c \<Rightarrow> Inr ([''nginx'', ''grpc_adapter'']
        @ (if http_pattern c = ''one_pass'' then [''origin_direct''] else [])))"

definition http_order_seed :: "string \<Rightarrow> nat \<Rightarrow> int" where
  "http_order_seed cs repeat = 20260923 + int repeat * 17 + int (length cs)"

definition http_schedule ::
  "('s, 'm) rng_scheme \<Rightarrow> string list \<Rightarrow> nat \<Rightarrow> (string \<times> nat \<times> string) list res"
where
  "http_schedule g cases reps =
     bindR (mapR (\<lambda>c. bindR (http_engines c) (\<lambda>es.
        Inr (concat (map (\<lambda>r. map (\<lambda>e. (c, r, e)) (shuffle g (http_order_seed c r) es)) [0..<reps])))) cases)
       (\<lambda>runs. Inr (concat runs))"

text \<open>
  An HTTP group is consistent with the harness when each of its cases exists and runs exactly the
  group's engines: the harness has no option for the engines, the campaign only expects them.
\<close>

definition http_consistent :: "spec \<Rightarrow> bool" where
  "http_consistent spec \<longleftrightarrow>
     list_all (\<lambda>c. case http_engines c of Inr es \<Rightarrow> mset es = mset (sp_engines spec) | Inl e \<Rightarrow> False)
       (sp_cases spec)"

lemma http_consistent_case:
  assumes "http_consistent spec" and "c \<in> set (sp_cases spec)"
  obtains es where "http_engines c = Inr es" and "mset es = mset (sp_engines spec)"
  using assms by (cases "http_engines c") (auto simp: http_consistent_def list_all_iff)

lemma http_schedule_runs:
  assumes "http_consistent spec" and "in_range_rng g"
  obtains runs where "http_schedule g (sp_cases spec) (sp_reps spec) = Inr runs"
    and "mset (map (\<lambda>(c, r, e). (c, rep_name r, e)) runs) = mset (expected_runs spec)"
proof -
  define es where "es c = projr (http_engines c)" for c
  let ?p = "\<lambda>(c, r, e). (c, rep_name r, e)"
  define one where "one c = concat (map (\<lambda>r. map (\<lambda>e. (c, r, e)) (shuffle g (http_order_seed c r) (es c)))
    [0..<sp_reps spec])" for c
  have es: "http_engines c = Inr (es c)" "mset (es c) = mset (sp_engines spec)"
    if "c \<in> set (sp_cases spec)" for c
    by (rule http_consistent_case [OF assms(1) that]; simp add: es_def)+
  have "mapR (\<lambda>c. bindR (http_engines c) (\<lambda>es. Inr (concat (map (\<lambda>r. map (\<lambda>e. (c, r, e))
      (shuffle g (http_order_seed c r) es)) [0..<sp_reps spec])))) (sp_cases spec)
      = Inr (map one (sp_cases spec))"
    by (rule mapR_pure) (simp only: es one_def bindR_simps)
  then have "http_schedule g (sp_cases spec) (sp_reps spec) = Inr (concat (map one (sp_cases spec)))"
    by (simp add: http_schedule_def)
  moreover have "mset (map ?p (one c)) = mset (concat (map (\<lambda>r. map (\<lambda>e. (c, rep_name r, e)) (sp_engines spec))
      [0..<sp_reps spec]))" if "c \<in> set (sp_cases spec)" for c
    unfolding one_def map_concat list.map_comp comp_def using that
    by (intro mset_concat_map) (simp add: mset_shuffle [OF assms(2)] es)
  then have "mset (concat (map (\<lambda>c. map ?p (one c)) (sp_cases spec))) = mset (expected_runs spec)"
    unfolding expected_runs_def by (intro mset_concat_map) simp
  then have "mset (map ?p (concat (map one (sp_cases spec)))) = mset (expected_runs spec)"
    by (simp only: map_concat list.map_comp comp_def)
  ultimately show thesis by (rule that)
qed

end
