(* ===== verification/Campaign_Tables.thy ===== *)
theory Campaign_Tables
  imports Http_Harness
begin

text \<open>
  The two campaigns as data: the groups of \<open>release_campaign.py\<close> and of \<open>landscape_campaign.py\<close>
  (every argument of \<open>group\<close> written out), and what both must satisfy to run to the end and be
  rendered: groups that are launchable, never skipped, and clean up their backing files.
\<close>

section \<open>The release campaign\<close>

definition release_GROUPS :: "spec list" where
  "release_GROUPS =
     [group ''primary'' ''hit_1k_c8''
        ''grpc,redis,valkey,memcached''
        5 60 ''kv'' 96 768 True 15 None False False,
      group ''hybrid'' ''origin_uniform_64k_5ms''
        ''grpc,grpc_nvm,redis,valkey,memcached,memcached_extstore''
        5 60 ''kv'' 96 768 True 15 None False False,
      group ''offered'' ''offered_origin_64k_1500''
        ''grpc,grpc_nvm,redis,memcached_extstore''
        5 60 ''kv'' 96 768 True 15 None False False,
      group ''ram192'' ''origin_uniform_64k_5ms''
        ''grpc,redis,memcached''
        5 60 ''kv'' 192 384 True 15 None False False,
      group ''flash384'' ''origin_uniform_64k_5ms''
        ''grpc_nvm,memcached_extstore''
        5 60 ''kv'' 96 384 True 15 None False False,
      group ''http'' ''repeated_256k_c8''
        ''grpc_adapter,nginx''
        5 60 ''http'' 96 768 True 15 None False False,
      group ''exploratory-kv'' ''hit_100b_c8,hit_16k_c8,hit_64k_c8,hit_256k_c8,hit_1m_c4,hit_1k_c1,hit_1k_c4,hit_1k_c16,readheavy_1k_c8,mixed_1k_c8''
        ''grpc,redis,memcached''
        1 10 ''kv'' 96 768 False 15 None False False,
      group ''batch-get'' ''batch_get_1k_c8''
        ''grpc,redis,memcached''
        2 20 ''kv'' 96 768 False 15 None False False,
      group ''batch-set'' ''batch_set_1k_c8''
        ''grpc,redis''
        2 20 ''kv'' 96 768 False 15 None False False,
      group ''pipeline'' ''pipeline_1k_c8''
        ''grpc''
        2 20 ''kv'' 96 768 False 15 None False False,
      group ''offered-saturation'' ''offered_1k_20k,offered_1k_50k,offered_1k_80k''
        ''grpc,redis''
        1 20 ''kv'' 96 768 False 15 None False False,
      group ''origin-sensitivity'' ''origin_uniform_64k_1ms,origin_uniform_64k_20ms''
        ''grpc,grpc_nvm,redis,memcached_extstore''
        1 10 ''kv'' 96 768 False 15 None False False,
      group ''origin-patterns'' ''origin_near_64k_5ms,origin_skew_64k_5ms,origin_shift_64k_5ms,cold_origin_uniform_64k_5ms,onepass_64k_5ms''
        ''grpc,grpc_nvm,redis,memcached_extstore''
        1 10 ''kv'' 96 768 False 15 None False False,
      group ''http-secondary'' ''recent_replay_256k_c8,repeated_1m_c8''
        ''grpc_adapter,nginx''
        2 30 ''http'' 96 768 False 15 None False False,
      group ''http-onepass'' ''onepass_256k_c8''
        ''grpc_adapter,nginx,origin_direct''
        2 30 ''http'' 96 768 False 15 None False False]"

section \<open>The landscape campaign\<close>

definition landscape_GROUPS :: "spec list" where
  "landscape_GROUPS =
     [group ''primary'' ''hit_1k_c8''
        ''grpc,redis,valkey,memcached,garnet''
        5 60 ''kv'' 96 768 True 15 None False False,
      group ''hybrid'' ''origin_uniform_64k_5ms''
        ''grpc,grpc_nvm,redis,valkey,memcached,memcached_extstore,garnet,garnet_storage,kvrocks''
        5 60 ''kv'' 96 768 True 15 None True False,
      group ''offered'' ''offered_origin_64k_1500''
        ''grpc,grpc_nvm,redis,memcached_extstore,garnet_storage,kvrocks''
        5 60 ''kv'' 96 768 True 15 None True False,
      group ''ram192'' ''origin_uniform_64k_5ms''
        ''grpc,redis,valkey,memcached,garnet''
        5 60 ''kv'' 192 384 True 15 None False False,
      group ''flash384'' ''origin_uniform_64k_5ms''
        ''grpc_nvm,memcached_extstore,garnet_storage,kvrocks''
        5 60 ''kv'' 96 384 True 15 None True False,
      group ''ssd-highvolume'' ''origin_uniform_64k_2gib_c32,origin_skew_64k_2gib_c32''
        ''grpc_nvm,memcached_extstore,garnet_storage,kvrocks,grpc''
        5 60 ''kv'' 256 1024 True 30 (Some 4096) True False,
      group ''ssd-overcapacity'' ''origin_uniform_64k_6gib_c32''
        ''grpc_nvm,memcached_extstore,garnet_storage,kvrocks,grpc''
        3 60 ''kv'' 256 1024 False 60 (Some 4096) True False,
      group ''ssd-small-objects'' ''origin_uniform_16k_2gib_c32''
        ''grpc_nvm,memcached_extstore,garnet_storage,kvrocks,grpc''
        5 60 ''kv'' 256 1024 True 30 (Some 4096) True False,
      group ''ssd-offered'' ''offered_origin_64k_2gib_10k''
        ''grpc_nvm,memcached_extstore,garnet_storage,kvrocks,grpc''
        5 60 ''kv'' 256 1024 False 30 (Some 4096) True True,
      group ''ssd-sustained'' ''origin_uniform_64k_2gib_c32''
        ''grpc_nvm,memcached_extstore,garnet_storage,kvrocks''
        3 300 ''kv'' 256 1024 False 60 (Some 4096) True False,
      group ''parity1g-hit'' ''hit_1k_c8''
        ''grpc,redis,valkey,memcached,dragonfly,garnet''
        5 60 ''kv'' 1024 2048 True 15 None False False,
      group ''parity1g-origin'' ''origin_uniform_64k_1gib''
        ''grpc,redis,valkey,memcached,dragonfly,garnet''
        5 60 ''kv'' 1024 2048 True 15 None False False,
      group ''http'' ''repeated_256k_c8''
        ''grpc_adapter,nginx''
        5 60 ''http'' 96 768 True 15 None False False,
      group ''exploratory-kv'' ''hit_100b_c8,hit_16k_c8,hit_64k_c8,hit_256k_c8,hit_1m_c4,hit_1k_c1,hit_1k_c4,hit_1k_c16,readheavy_1k_c8,mixed_1k_c8''
        ''grpc,redis,valkey,memcached,garnet''
        1 10 ''kv'' 96 768 False 15 None False False,
      group ''stress-kv'' ''hit_1k_c32,hit_1k_c64,mixed_1k_c32''
        ''grpc,redis,valkey,memcached,garnet''
        2 20 ''kv'' 96 768 False 15 None False False,
      group ''batch-get'' ''batch_get_1k_c8''
        ''grpc,redis,valkey,memcached,garnet,kvrocks''
        2 20 ''kv'' 96 768 False 15 None True False,
      group ''batch-set'' ''batch_set_1k_c8''
        ''grpc,redis,valkey,garnet,kvrocks''
        2 20 ''kv'' 96 768 False 15 None True False,
      group ''pipeline'' ''pipeline_1k_c8''
        ''grpc''
        2 20 ''kv'' 96 768 False 15 None False False,
      group ''offered-saturation'' ''offered_1k_20k,offered_1k_50k,offered_1k_80k,offered_1k_120k''
        ''grpc,redis,valkey,garnet''
        1 20 ''kv'' 96 768 False 15 None False False,
      group ''origin-sensitivity'' ''origin_uniform_64k_1ms,origin_uniform_64k_20ms''
        ''grpc,grpc_nvm,memcached_extstore,garnet_storage,kvrocks,redis''
        1 10 ''kv'' 96 768 False 15 None True False,
      group ''origin-patterns'' ''origin_near_64k_5ms,origin_skew_64k_5ms,origin_shift_64k_5ms,cold_origin_uniform_64k_5ms,onepass_64k_5ms''
        ''grpc,grpc_nvm,memcached_extstore,garnet_storage,kvrocks,redis''
        1 10 ''kv'' 96 768 False 15 None True False,
      group ''http-secondary'' ''recent_replay_256k_c8,repeated_1m_c8''
        ''grpc_adapter,nginx''
        2 30 ''http'' 96 768 False 15 None False False,
      group ''http-onepass'' ''onepass_256k_c8''
        ''grpc_adapter,nginx,origin_direct''
        2 30 ''http'' 96 768 False 15 None False False]"

section \<open>The groups run to the end\<close>

text \<open>
  The conditions under which \<open>run_strong.py\<close> measures every run a KV group expects: the group is
  launchable, no combination of case and engine is one the harness leaves out, and each engine gets
  server arguments from the group's budgets.
\<close>

definition group_flash_mb :: "spec \<Rightarrow> int" where
  "group_flash_mb spec =
     (case sp_flash_mb spec of Some n \<Rightarrow> if n = 0 then 512 else int n | None \<Rightarrow> 512)"

definition never_skipped :: "spec \<Rightarrow> bool" where
  "never_skipped spec \<longleftrightarrow>
     list_all (\<lambda>c. case map_of CASES c of
         None \<Rightarrow> False | Some c \<Rightarrow> list_all (\<lambda>e. \<not> skips e c) (sp_engines spec)) (sp_cases spec)"

definition engines_start :: "spec \<Rightarrow> bool" where
  "engines_start spec \<longleftrightarrow>
     list_all (\<lambda>e. case server_arguments e (int (sp_cache_mb spec)) (group_flash_mb spec) of
         Inr args \<Rightarrow> True | Inl e \<Rightarrow> False) (sp_engines spec)"

definition runnable :: "spec \<Rightarrow> bool" where
  "runnable spec \<longleftrightarrow>
     distinct (sp_cases spec) \<and> distinct (sp_engines spec)
     \<and> (if is_kv spec then launchable spec \<and> never_skipped spec \<and> engines_start spec
        else sp_kind spec = ''http'' \<and> http_consistent spec)"

lemma runnable_fits:
  "runnable spec \<longleftrightarrow>
     distinct (sp_cases spec) \<and> distinct (sp_engines spec)
     \<and> (if is_kv spec then launchable spec \<and> never_skipped spec
          \<and> list_all (\<lambda>e. dragonfly_fits e (int (sp_cache_mb spec)) (group_flash_mb spec)) (sp_engines spec)
        else sp_kind spec = ''http'' \<and> http_consistent spec)"
proof -
  have "(case server_arguments e c f of Inr args \<Rightarrow> True | Inl x \<Rightarrow> False) \<longleftrightarrow> dragonfly_fits e c f"
    if "e \<in> set known_engines" for e c f
    using server_arguments_Inr [OF that, of c f] by (cases "server_arguments e c f") auto
  then have "launchable spec \<Longrightarrow> engines_start spec \<longleftrightarrow>
      list_all (\<lambda>e. dragonfly_fits e (int (sp_cache_mb spec)) (group_flash_mb spec)) (sp_engines spec)"
    by (auto simp: launchable_def engines_start_def list_all_iff)
  then show ?thesis by (auto simp: runnable_def)
qed

lemmas table_defs = group_def is_kv_def runnable_fits launchable_def never_skipped_def
  dragonfly_fits_def group_flash_mb_def http_consistent_def http_engines_def http_pattern_def
  HTTP_CASES_def skips_def case_operation_def case_size_def known_engines_def IMAGES_def

lemma release_runnable_1: "list_all runnable (take 5 release_GROUPS)"
  by (simp add: release_GROUPS_def) (simp add: table_defs CASES_lookup ex_bool)

lemma release_runnable_2: "list_all runnable (take 5 (drop 5 release_GROUPS))"
  by (simp add: release_GROUPS_def) (simp add: table_defs CASES_lookup ex_bool)

lemma release_runnable_3: "list_all runnable (drop 10 release_GROUPS)"
  by (simp add: release_GROUPS_def) (simp add: table_defs CASES_lookup ex_bool)

lemma release_runnable: "list_all runnable release_GROUPS"
proof -
  have "release_GROUPS = take 5 release_GROUPS @ take 5 (drop 5 release_GROUPS) @ drop 10 release_GROUPS"
    by (simp add: release_GROUPS_def)
  then show ?thesis
    using release_runnable_1 release_runnable_2 release_runnable_3 by (metis list_all_append)
qed

lemma landscape_runnable_1: "list_all runnable (take 8 landscape_GROUPS)"
  by (simp add: landscape_GROUPS_def) (simp add: table_defs CASES_lookup ex_bool)

lemma landscape_runnable_2: "list_all runnable (take 8 (drop 8 landscape_GROUPS))"
  by (simp add: landscape_GROUPS_def) (simp add: table_defs CASES_lookup ex_bool)

lemma landscape_runnable_3: "list_all runnable (drop 16 landscape_GROUPS)"
  by (simp add: landscape_GROUPS_def) (simp add: table_defs CASES_lookup ex_bool)

lemma landscape_runnable: "list_all runnable landscape_GROUPS"
proof -
  have "landscape_GROUPS = take 8 landscape_GROUPS @ take 8 (drop 8 landscape_GROUPS) @ drop 16 landscape_GROUPS"
    by (simp add: landscape_GROUPS_def)
  then show ?thesis
    using landscape_runnable_1 landscape_runnable_2 landscape_runnable_3 by (metis list_all_append)
qed

lemma http_group_consistent:
  assumes "spec \<in> set (release_GROUPS @ landscape_GROUPS)" and "\<not> is_kv spec"
  shows "http_consistent spec"
  using assms release_runnable landscape_runnable by (auto simp: list_all_iff runnable_def)

text \<open>
  Both campaigns can be executed as defined: in each of the 38 groups the cases and engines are
  distinct; a KV group passes every check of the harness's command line, none of its combinations is
  one the harness silently leaves out, and each of its engines accepts the group's memory and file
  budgets; an HTTP group names exactly the engines its harness runs for each of its cases.
\<close>

theorem campaigns_runnable:
  "list_all runnable release_GROUPS \<and> list_all runnable landscape_GROUPS"
  using release_runnable landscape_runnable by blast

text \<open>
  For the HTTP groups, whose engines the harness chooses itself, the runs the harness schedules
  are a permutation of the runs the campaign's check expects.
\<close>

theorem http_groups_scheduled:
  assumes "spec \<in> set (release_GROUPS @ landscape_GROUPS)" and "\<not> is_kv spec" and "in_range_rng g"
  shows "\<exists>runs. http_schedule g (sp_cases spec) (sp_reps spec) = Inr runs
    \<and> mset (map (\<lambda>(c, r, e). (c, rep_name r, e)) runs) = mset (expected_runs spec)"
  using http_schedule_runs [OF http_group_consistent [OF assms(1,2)] assms(3)] by metis

theorem http_groups_scheduled_witness:
  "\<exists>runs. http_schedule zero_rng [''onepass_256k_c8''] 2 = Inr runs
    \<and> mset (map (\<lambda>(c, r, e). (c, rep_name r, e)) runs) = mset (expected_runs (last release_GROUPS))"
proof -
  have "last release_GROUPS \<in> set (release_GROUPS @ landscape_GROUPS)"
    by (simp add: release_GROUPS_def)
  moreover have "\<not> is_kv (last release_GROUPS)"
    and g: "sp_cases (last release_GROUPS) = [''onepass_256k_c8'']" "sp_reps (last release_GROUPS) = 2"
    by (simp_all add: release_GROUPS_def group_def is_kv_def)
  ultimately show ?thesis
    using http_groups_scheduled [OF _ _ zero_rng_in_range, of "last release_GROUPS"] by simp
qed

text \<open>
  The options a group adds to its recorded definition: the release campaign, recorded before
  they existed, uses none, so its groups still compare equal to their record; in the landscape
  campaign every group with a file-tier engine discards its backing files after measuring them.
\<close>

theorem optional_keys:
  "list_all (\<lambda>spec. sp_flash_mb spec = None \<and> sp_discard_flash spec = None
      \<and> sp_overload_probe spec = None) release_GROUPS
   \<and> list_all (\<lambda>spec. list_all (\<lambda>e. e \<notin> set FILE_TIER_ENGINES) (sp_engines spec)
      \<or> opt_flag (sp_discard_flash spec)) landscape_GROUPS"
  by (simp add: release_GROUPS_def landscape_GROUPS_def group_def opt_flag_def FILE_TIER_ENGINES_def)

end
