(* ===== verification/Effects.thy ===== *)
theory Effects
  imports Json
begin

text \<open>
  Effectful Python code: functions that run processes, write files, sleep and raise. An action maps
  the trace of events so far to a result and the longer trace, or to \<open>None\<close> when it never returns.
  The world outside the program (what a process prints and how it exits, the clock, file system
  errors, random names, the JSON decoder) is the argument \<open>env\<close>; it may depend on the whole trace.
  The theory defines the actions, Python's control structures over them, and predicates with
  composition rules that prove facts about every execution: what an action may do (\<open>emits\<close>), what it
  has done when it returns (\<open>leaves\<close>), and that it returns (\<open>returns\<close>).
\<close>

section \<open>Events and the environment\<close>

datatype outcome = Exited int string string | TimedOut | NotStarted string

text \<open>File contents: text, a JSON document, or \<open>str(exc) + newline\<close>.\<close>

datatype content = Text string | Doc json | Message exn

datatype event =
    Exec "string list" int
  | WriteF string content
  | Mkdir string
  | Chmod string
  | Rmtree string
  | Sleep real
  | Fresh
  | Push string
  | Pop string

type_synonym trace = "event list"

record env =
  respond :: "trace \<Rightarrow> string list \<Rightarrow> outcome"
  clock :: "trace \<Rightarrow> real"
  utc :: "trace \<Rightarrow> string"
  hex :: "trace \<Rightarrow> string"
  failure :: "trace \<Rightarrow> event \<Rightarrow> string option"
  loads :: "string \<Rightarrow> json option"
  files :: "trace \<Rightarrow> string \<Rightarrow> (string \<times> nat \<times> nat) list option"
  resolve :: "string \<Rightarrow> string"

type_synonym 'a act = "trace \<Rightarrow> ('a res \<times> trace) option"

section \<open>Control structures\<close>

definition returnA :: "'a \<Rightarrow> 'a act" where
  "returnA x = (\<lambda>tr. Some (Inr x, tr))"

definition liftA :: "'a res \<Rightarrow> 'a act" where
  "liftA r = (\<lambda>tr. Some (r, tr))"

definition raiseA :: "exn \<Rightarrow> 'a act" where
  "raiseA e = (\<lambda>tr. Some (Inl e, tr))"

definition bindA :: "'a act \<Rightarrow> ('a \<Rightarrow> 'b act) \<Rightarrow> 'b act" where
  "bindA m f = (\<lambda>tr. case m tr of
     None \<Rightarrow> None | Some (Inl e, tr') \<Rightarrow> Some (Inl e, tr') | Some (Inr x, tr') \<Rightarrow> f x tr')"

definition seqA :: "'a act \<Rightarrow> 'b act \<Rightarrow> 'b act" where
  "seqA m n = bindA m (\<lambda>x. n)"

definition whenA :: "bool \<Rightarrow> unit act \<Rightarrow> unit act" where
  "whenA b m = (if b then m else returnA ())"

text \<open>\<open>try: m except Exception as e: h(e)\<close>, \<open>try: m finally: c\<close> and \<open>for x in xs: f(x)\<close>.\<close>

definition catchA :: "'a act \<Rightarrow> (exn \<Rightarrow> 'a act) \<Rightarrow> 'a act" where
  "catchA m h = (\<lambda>tr. case m tr of
     None \<Rightarrow> None
   | Some (Inl e, tr') \<Rightarrow> if is_Exception e then h e tr' else Some (Inl e, tr')
   | Some (Inr x, tr') \<Rightarrow> Some (Inr x, tr'))"

definition finallyA :: "'a act \<Rightarrow> unit act \<Rightarrow> 'a act" where
  "finallyA m c = (\<lambda>tr. case m tr of
     None \<Rightarrow> None
   | Some (r, tr') \<Rightarrow> (case c tr' of
       None \<Rightarrow> None
     | Some (Inl e, tr'') \<Rightarrow> Some (Inl e, tr'')
     | Some (Inr u, tr'') \<Rightarrow> Some (r, tr'')))"

primrec forA :: "'a list \<Rightarrow> ('a \<Rightarrow> unit act) \<Rightarrow> unit act" where
  "forA [] f = returnA ()"
| "forA (x # xs) f = seqA (f x) (forA xs f)"

primrec mapA :: "('a \<Rightarrow> 'b act) \<Rightarrow> 'a list \<Rightarrow> 'b list act" where
  "mapA f [] = returnA []"
| "mapA f (x # xs) = bindA (f x) (\<lambda>y. bindA (mapA f xs) (\<lambda>ys. returnA (y # ys)))"

section \<open>Actions\<close>

definition fileA :: "('e) env_scheme \<Rightarrow> event \<Rightarrow> unit act" where
  "fileA env ev = (\<lambda>tr. case failure env tr ev of
     Some m \<Rightarrow> Some (Inl (IOFailure m), tr) | None \<Rightarrow> Some (Inr (), tr @ [ev]))"

definition writeA :: "('e) env_scheme \<Rightarrow> string \<Rightarrow> content \<Rightarrow> unit act" where
  "writeA env path c = fileA env (WriteF path c)"

definition sleepA :: "real \<Rightarrow> unit act" where
  "sleepA d = (\<lambda>tr. Some (Inr (), tr @ [Sleep d]))"

definition freshA :: "('e) env_scheme \<Rightarrow> string act" where
  "freshA env = (\<lambda>tr. Some (Inr (hex env tr), tr @ [Fresh]))"

text \<open>
  A list local to a function that an exception handler still reads: \<open>xs.append(x)\<close> is the event
  \<open>Push x\<close>, and the list is what was pushed since the function began, at trace length \<open>n\<close>.
\<close>

definition pushA :: "string \<Rightarrow> unit act" where
  "pushA x = (\<lambda>tr. Some (Inr (), tr @ [Push x]))"

fun pushes :: "trace \<Rightarrow> string list" where
  "pushes [] = []"
| "pushes (Push x # es) = x # pushes es"
| "pushes (e # es) = pushes es"

definition pushed :: "nat \<Rightarrow> trace \<Rightarrow> string list" where
  "pushed n tr = pushes (drop n tr)"

lemma pushes_append: "pushes (es @ fs) = pushes es @ pushes fs"
  by (induction es rule: pushes.induct) simp_all

text \<open>
  The list when elements are removed as well: \<open>xs.remove(x)\<close> is the event \<open>Pop x\<close> and takes out the first \<open>x\<close>.
\<close>

definition relist :: "event \<Rightarrow> string list \<Rightarrow> string list" where
  "relist e xs = (case e of Push x \<Rightarrow> xs @ [x] | Pop x \<Rightarrow> remove1 x xs | _ \<Rightarrow> xs)"

definition listed :: "trace \<Rightarrow> string list" where
  "listed es = fold relist es []"

lemma fold_relist_listed: "x \<in> set xs \<union> set (pushes es) \<Longrightarrow> Pop x \<notin> set es \<Longrightarrow> x \<in> set (fold relist es xs)"
  by (induction es arbitrary: xs rule: pushes.induct) (auto simp: relist_def split: event.splits)

text \<open>What was appended and not removed is in the list.\<close>

lemma pushed_listed: "x \<in> set (pushes es) \<Longrightarrow> Pop x \<notin> set es \<Longrightarrow> x \<in> set (listed es)"
  unfolding listed_def by (rule fold_relist_listed) simp_all

definition askA :: "(trace \<Rightarrow> 'a) \<Rightarrow> 'a act" where
  "askA f = (\<lambda>tr. Some (Inr (f tr), tr))"

text \<open>\<open>json.loads(text)\<close>; the decoder is \<open>loads env\<close>, \<open>None\<close> where it raises \<open>JSONDecodeError\<close>.\<close>

definition json_loads :: "('e) env_scheme \<Rightarrow> string \<Rightarrow> json res" where
  "json_loads env s = (case loads env s of None \<Rightarrow> Inl (ValueError ''JSON'') | Some j \<Rightarrow> Inr j)"

type_synonym completed = "int \<times> string \<times> string"

text \<open>
  \<open>subprocess.run(argv, timeout=timeout)\<close> with captured output, and the \<open>check\<close> of the harnesses'
  \<open>call\<close>/\<open>command\<close>, which raises with the last \<open>keep\<close> characters of the output.
\<close>

definition runA :: "('e) env_scheme \<Rightarrow> int \<Rightarrow> string list \<Rightarrow> completed act" where
  "runA env timeout argv = (\<lambda>tr. let tr' = tr @ [Exec argv timeout] in
     case respond env tr argv of
       Exited rc out err \<Rightarrow> Some (Inr (rc, out, err), tr')
     | TimedOut \<Rightarrow> Some (Inl TimeoutExpired, tr')
     | NotStarted m \<Rightarrow> Some (Inl (IOFailure m), tr'))"

definition call_with :: "('e) env_scheme \<Rightarrow> nat \<Rightarrow> bool \<Rightarrow> int \<Rightarrow> string list \<Rightarrow> completed act" where
  "call_with env keep check timeout argv =
     bindA (runA env timeout argv) (\<lambda>(rc, out, err).
       if check \<and> rc \<noteq> 0
       then raiseA (CommandFailed argv rc (last_n keep (if err \<noteq> [] then err else out)))
       else returnA (rc, out, err))"

definition stdout_of :: "completed \<Rightarrow> string" where
  "stdout_of p = fst (snd p)"

definition stderr_of :: "completed \<Rightarrow> string" where
  "stderr_of p = snd (snd p)"

section \<open>What an action may do\<close>

named_theorems emits_intros "which events an action may add"
named_theorems returns_intros "that an action returns"

definition emits :: "(event \<Rightarrow> bool) \<Rightarrow> 'a act \<Rightarrow> bool" where
  "emits P m \<longleftrightarrow> (\<forall>tr r tr'. m tr = Some (r, tr') \<longrightarrow> (\<exists>es. tr' = tr @ es \<and> list_all P es))"

lemma emitsE:
  assumes "emits P m" and "m tr = Some (r, tr')"
  obtains es where "tr' = tr @ es" and "list_all P es"
  using assms unfolding emits_def by blast

lemma emits_weaken: "emits P m \<Longrightarrow> (\<And>e. P e \<Longrightarrow> Q e) \<Longrightarrow> emits Q m"
  unfolding emits_def list_all_iff by blast

lemma emits_pure [emits_intros]:
  "emits P (returnA x)" "emits P (liftA r)" "emits P (raiseA e)" "emits P (askA f)"
  by (simp_all add: emits_def returnA_def liftA_def raiseA_def askA_def)

lemma emits_bindA [emits_intros]:
  assumes "emits P m" and "\<And>x. emits P (f x)"
  shows "emits P (bindA m f)"
  unfolding emits_def
proof (intro allI impI)
  fix tr r tr' assume run: "bindA m f tr = Some (r, tr')"
  then obtain q tr1 where m: "m tr = Some (q, tr1)" by (auto simp: bindA_def split: option.splits)
  then obtain es where es: "tr1 = tr @ es" "list_all P es" by (rule emitsE [OF assms(1)])
  show "\<exists>es. tr' = tr @ es \<and> list_all P es"
  proof (cases q)
    case (Inl e)
    with run m es show ?thesis by (auto simp: bindA_def)
  next
    case (Inr x)
    with run m have "f x tr1 = Some (r, tr')" by (simp add: bindA_def)
    then obtain es' where "tr' = tr1 @ es'" "list_all P es'" by (rule emitsE [OF assms(2)])
    with es show ?thesis by simp
  qed
qed

lemma emits_seqA [emits_intros]: "emits P m \<Longrightarrow> emits P n \<Longrightarrow> emits P (seqA m n)"
  unfolding seqA_def by (rule emits_bindA)

lemma emits_whenA [emits_intros]: "(b \<Longrightarrow> emits P m) \<Longrightarrow> emits P (whenA b m)"
  by (simp add: whenA_def emits_pure)

lemma emits_if [emits_intros]: "(b \<Longrightarrow> emits P m) \<Longrightarrow> (\<not> b \<Longrightarrow> emits P n) \<Longrightarrow> emits P (if b then m else n)"
  by simp

lemma emits_prod [emits_intros]: "(\<And>a b. emits P (f a b)) \<Longrightarrow> emits P (case p of (a, b) \<Rightarrow> f a b)"
  by (cases p) simp

lemma emits_option [emits_intros]:
  "(x = None \<Longrightarrow> emits P m) \<Longrightarrow> (\<And>y. emits P (f y)) \<Longrightarrow> emits P (case x of None \<Rightarrow> m | Some y \<Rightarrow> f y)"
  by (cases x) simp_all

lemma emits_catchA [emits_intros]:
  assumes "emits P m" and "\<And>e. emits P (h e)"
  shows "emits P (catchA m h)"
  unfolding emits_def
proof (intro allI impI)
  fix tr r tr' assume run: "catchA m h tr = Some (r, tr')"
  then obtain q tr1 where m: "m tr = Some (q, tr1)" by (auto simp: catchA_def split: option.splits)
  then obtain es where es: "tr1 = tr @ es" "list_all P es" by (rule emitsE [OF assms(1)])
  show "\<exists>es. tr' = tr @ es \<and> list_all P es"
  proof (cases "\<exists>e. q = Inl e \<and> is_Exception e")
    case True
    then obtain e where "h e tr1 = Some (r, tr')" using run m by (auto simp: catchA_def)
    then obtain es' where "tr' = tr1 @ es'" "list_all P es'" by (rule emitsE [OF assms(2)])
    with es show ?thesis by simp
  next
    case False
    with run m es show ?thesis by (auto simp: catchA_def split: sum.splits)
  qed
qed

lemma emits_finallyA [emits_intros]:
  assumes "emits P m" and "emits P c"
  shows "emits P (finallyA m c)"
  unfolding emits_def
proof (intro allI impI)
  fix tr r tr' assume run: "finallyA m c tr = Some (r, tr')"
  then obtain q tr1 where m: "m tr = Some (q, tr1)" by (auto simp: finallyA_def split: option.splits)
  then obtain es where es: "tr1 = tr @ es" "list_all P es" by (rule emitsE [OF assms(1)])
  from run m obtain q' where "c tr1 = Some (q', tr')"
    by (auto simp: finallyA_def split: option.splits sum.splits)
  then obtain es' where "tr' = tr1 @ es'" "list_all P es'" by (rule emitsE [OF assms(2)])
  with es show "\<exists>es. tr' = tr @ es \<and> list_all P es" by simp
qed

lemma emits_forA [emits_intros]: "(\<And>x. x \<in> set xs \<Longrightarrow> emits P (f x)) \<Longrightarrow> emits P (forA xs f)"
  by (induction xs) (simp_all add: emits_pure emits_seqA)

lemma emits_mapA [emits_intros]: "(\<And>x. x \<in> set xs \<Longrightarrow> emits P (f x)) \<Longrightarrow> emits P (mapA f xs)"
  by (induction xs) (simp_all add: emits_pure emits_bindA)

lemma emits_fileA: "P ev \<Longrightarrow> emits P (fileA env ev)"
  by (auto simp: emits_def fileA_def split: option.splits)

lemma emits_writeA [emits_intros]: "P (WriteF path c) \<Longrightarrow> emits P (writeA env path c)"
  unfolding writeA_def by (rule emits_fileA)

lemma emits_sleepA [emits_intros]: "P (Sleep d) \<Longrightarrow> emits P (sleepA d)"
  by (simp add: emits_def sleepA_def)

lemma emits_pushA [emits_intros]: "P (Push x) \<Longrightarrow> emits P (pushA x)"
  by (simp add: emits_def pushA_def)

lemma emits_freshA [emits_intros]: "P Fresh \<Longrightarrow> emits P (freshA env)"
  by (simp add: emits_def freshA_def)

lemma emits_runA [emits_intros]: "P (Exec argv t) \<Longrightarrow> emits P (runA env t argv)"
  by (auto simp: emits_def runA_def Let_def split: outcome.splits)

lemma emits_call_with [emits_intros]: "P (Exec argv t) \<Longrightarrow> emits P (call_with env keep check t argv)"
  unfolding call_with_def by (intro emits_intros)

section \<open>What an action has done when it returns\<close>

text \<open>On normal return some event satisfying \<open>P\<close> was added.\<close>

definition leaves :: "(event \<Rightarrow> bool) \<Rightarrow> 'a act \<Rightarrow> bool" where
  "leaves P m \<longleftrightarrow> (\<forall>tr x tr'. m tr = Some (Inr x, tr') \<longrightarrow> (\<exists>es. tr' = tr @ es \<and> list_ex P es))"

definition grows :: "'a act \<Rightarrow> bool" where
  "grows m \<longleftrightarrow> emits (\<lambda>e. True) m"

lemma growsE:
  assumes "grows m" and "m tr = Some (r, tr')"
  obtains es where "tr' = tr @ es"
  using assms unfolding grows_def by (rule emitsE)

lemma emits_grows: "emits P m \<Longrightarrow> grows m"
  unfolding grows_def by (erule emits_weaken) simp

lemma leaves_fileA: "P ev \<Longrightarrow> leaves P (fileA env ev)"
  by (auto simp: leaves_def fileA_def split: option.splits)

lemma leaves_writeA: "P (WriteF path c) \<Longrightarrow> leaves P (writeA env path c)"
  unfolding writeA_def by (rule leaves_fileA)

lemma leaves_runA: "P (Exec argv t) \<Longrightarrow> leaves P (runA env t argv)"
  by (auto simp: leaves_def runA_def Let_def split: outcome.splits)

lemma leaves_call_with:
  assumes "P (Exec argv t)" shows "leaves P (call_with env keep check t argv)"
  unfolding leaves_def
proof (intro allI impI)
  fix tr x tr' assume "call_with env keep check t argv tr = Some (Inr x, tr')"
  then have "tr' = tr @ [Exec argv t]"
    by (auto simp: call_with_def bindA_def runA_def Let_def raiseA_def returnA_def
        split: outcome.splits if_splits)
  with assms show "\<exists>es. tr' = tr @ es \<and> list_ex P es" by simp
qed

lemma leaves_bindA_first:
  assumes "leaves P m" and "\<And>x. grows (f x)" shows "leaves P (bindA m f)"
  unfolding leaves_def
proof (intro allI impI)
  fix tr y tr' assume "bindA m f tr = Some (Inr y, tr')"
  then obtain x tr1 where m: "m tr = Some (Inr x, tr1)" and f: "f x tr1 = Some (Inr y, tr')"
    by (auto simp: bindA_def split: option.splits sum.splits)
  from m assms(1) obtain es where "tr1 = tr @ es" "list_ex P es" unfolding leaves_def by blast
  moreover from growsE [OF assms(2) f] obtain es' where "tr' = tr1 @ es'" by blast
  ultimately show "\<exists>es. tr' = tr @ es \<and> list_ex P es" by auto
qed

lemma leaves_bindA_second:
  assumes "grows m" and "\<And>x. leaves P (f x)" shows "leaves P (bindA m f)"
  unfolding leaves_def
proof (intro allI impI)
  fix tr y tr' assume "bindA m f tr = Some (Inr y, tr')"
  then obtain x tr1 where m: "m tr = Some (Inr x, tr1)" and f: "f x tr1 = Some (Inr y, tr')"
    by (auto simp: bindA_def split: option.splits sum.splits)
  from f assms(2) obtain es where "tr' = tr1 @ es" "list_ex P es" unfolding leaves_def by blast
  moreover from growsE [OF assms(1) m] obtain es' where "tr1 = tr @ es'" by blast
  ultimately show "\<exists>es. tr' = tr @ es \<and> list_ex P es" by auto
qed

lemma leaves_seqA_first: "leaves P m \<Longrightarrow> grows n \<Longrightarrow> leaves P (seqA m n)"
  unfolding seqA_def by (rule leaves_bindA_first)

lemma leaves_seqA_second: "grows m \<Longrightarrow> leaves P n \<Longrightarrow> leaves P (seqA m n)"
  unfolding seqA_def by (rule leaves_bindA_second)

lemma leaves_raiseA: "leaves P (raiseA e)"
  by (simp add: leaves_def raiseA_def)

lemma leaves_if: "(b \<Longrightarrow> leaves P m) \<Longrightarrow> (\<not> b \<Longrightarrow> leaves P n) \<Longrightarrow> leaves P (if b then m else n)"
  by simp

lemma leaves_prod: "(\<And>a b. leaves P (f a b)) \<Longrightarrow> leaves P (case p of (a, b) \<Rightarrow> f a b)"
  by (cases p) simp

lemma leaves_forA:
  assumes "x \<in> set xs" and "leaves P (f x)" and "\<And>y. grows (f y)"
  shows "leaves P (forA xs f)"
  using assms(1)
proof (induction xs)
  case (Cons y ys)
  have "grows (forA ys f)" using assms(3) unfolding grows_def by (intro emits_forA)
  then show ?case
    using Cons assms(2,3) by (cases "y = x") (auto intro: leaves_seqA_first leaves_seqA_second)
qed simp

lemma leaves_catchA:
  assumes "leaves P m" "\<And>e. leaves P (h e)" "grows m"
  shows "leaves P (catchA m h)"
  unfolding leaves_def
proof (intro allI impI)
  fix tr y tr' assume run: "catchA m h tr = Some (Inr y, tr')"
  then obtain q tr1 where m: "m tr = Some (q, tr1)" by (auto simp: catchA_def split: option.splits)
  show "\<exists>es. tr' = tr @ es \<and> list_ex P es"
  proof (cases q)
    case (Inl e)
    with run m have "h e tr1 = Some (Inr y, tr')" by (auto simp: catchA_def split: if_splits)
    with assms(2) obtain es where "tr' = tr1 @ es" "list_ex P es" unfolding leaves_def by blast
    moreover from growsE [OF assms(3) m] obtain es' where "tr1 = tr @ es'" by blast
    ultimately show ?thesis by auto
  next
    case (Inr x)
    with run m have "m tr = Some (Inr y, tr')" by (simp add: catchA_def)
    with assms(1) show ?thesis unfolding leaves_def by blast
  qed
qed

lemma leaves_finallyA_first:
  assumes "leaves P m" and "grows c" shows "leaves P (finallyA m c)"
  unfolding leaves_def
proof (intro allI impI)
  fix tr y tr' assume run: "finallyA m c tr = Some (Inr y, tr')"
  then obtain tr1 u where m: "m tr = Some (Inr y, tr1)" and c: "c tr1 = Some (u, tr')"
    by (auto simp: finallyA_def split: option.splits sum.splits)
  from m assms(1) obtain es where "tr1 = tr @ es" "list_ex P es" unfolding leaves_def by blast
  moreover from growsE [OF assms(2) c] obtain es' where "tr' = tr1 @ es'" by blast
  ultimately show "\<exists>es. tr' = tr @ es \<and> list_ex P es" by auto
qed

lemma leaves_finallyA_second:
  assumes "grows m" and "leaves P c" shows "leaves P (finallyA m c)"
  unfolding leaves_def
proof (intro allI impI)
  fix tr y tr' assume run: "finallyA m c tr = Some (Inr y, tr')"
  then obtain tr1 q u where m: "m tr = Some (q, tr1)" and c: "c tr1 = Some (Inr u, tr')"
    by (auto simp: finallyA_def split: option.splits sum.splits)
  from c assms(2) obtain es where "tr' = tr1 @ es" "list_ex P es" unfolding leaves_def by blast
  moreover from growsE [OF assms(1) m] obtain es' where "tr1 = tr @ es'" by blast
  ultimately show "\<exists>es. tr' = tr @ es \<and> list_ex P es" by auto
qed

lemma bindA_InrE:
  assumes "bindA m f tr = Some (Inr y, tr')"
  obtains x tr1 where "m tr = Some (Inr x, tr1)" and "f x tr1 = Some (Inr y, tr')"
  using assms by (auto simp: bindA_def split: option.splits sum.splits)

lemma seqA_InrE:
  assumes "seqA m n tr = Some (Inr y, tr')"
  obtains x tr1 where "m tr = Some (Inr x, tr1)" and "n tr1 = Some (Inr y, tr')"
  using assms unfolding seqA_def by (rule bindA_InrE)

section \<open>That an action returns\<close>

text \<open>\<open>returns\<close>: some result, normal or exceptional. \<open>succeeds\<close>: a normal one.\<close>

definition returns :: "'a act \<Rightarrow> bool" where
  "returns m \<longleftrightarrow> (\<forall>tr. m tr \<noteq> None)"

definition succeeds :: "'a act \<Rightarrow> bool" where
  "succeeds m \<longleftrightarrow> (\<forall>tr. \<exists>x tr'. m tr = Some (Inr x, tr'))"

lemma returnsE:
  assumes "returns m" obtains r tr' where "m tr = Some (r, tr')"
  using assms unfolding returns_def by fastforce

lemma returns_basic [returns_intros]:
  "returns (returnA x)" "returns (liftA r)" "returns (raiseA e)" "returns (askA f)"
  "returns (fileA env ev)" "returns (writeA env p c)" "returns (sleepA d)" "returns (freshA env)"
  "returns (runA env t argv)" "returns (pushA s)"
  by (auto simp: returns_def pushA_def returnA_def liftA_def raiseA_def askA_def writeA_def fileA_def sleepA_def
      freshA_def runA_def Let_def split: option.splits outcome.splits)

lemma returns_bindA [returns_intros]: "returns m \<Longrightarrow> (\<And>x. returns (f x)) \<Longrightarrow> returns (bindA m f)"
  unfolding returns_def bindA_def by (fastforce split: option.splits sum.splits)

lemma returns_seqA [returns_intros]: "returns m \<Longrightarrow> returns n \<Longrightarrow> returns (seqA m n)"
  unfolding seqA_def by (rule returns_bindA)

lemma returns_whenA [returns_intros]: "(b \<Longrightarrow> returns m) \<Longrightarrow> returns (whenA b m)"
  by (simp add: whenA_def returns_basic)

lemma returns_if [returns_intros]: "(b \<Longrightarrow> returns m) \<Longrightarrow> (\<not> b \<Longrightarrow> returns n) \<Longrightarrow> returns (if b then m else n)"
  by simp

lemma returns_prod [returns_intros]: "(\<And>a b. returns (f a b)) \<Longrightarrow> returns (case p of (a, b) \<Rightarrow> f a b)"
  by (cases p) simp

lemma returns_option [returns_intros]:
  "(x = None \<Longrightarrow> returns m) \<Longrightarrow> (\<And>y. returns (f y)) \<Longrightarrow> returns (case x of None \<Rightarrow> m | Some y \<Rightarrow> f y)"
  by (cases x) simp_all

lemma returns_catchA [returns_intros]: "returns m \<Longrightarrow> (\<And>e. returns (h e)) \<Longrightarrow> returns (catchA m h)"
  unfolding returns_def catchA_def by (fastforce split: option.splits sum.splits)

lemma returns_finallyA [returns_intros]: "returns m \<Longrightarrow> returns c \<Longrightarrow> returns (finallyA m c)"
  by (auto simp: returns_def finallyA_def split: option.splits sum.splits prod.splits)
    (metis option.distinct(1))

lemma returns_forA [returns_intros]: "(\<And>x. returns (f x)) \<Longrightarrow> returns (forA xs f)"
  by (induction xs) (simp_all add: returns_basic returns_seqA)

lemma returns_mapA [returns_intros]: "(\<And>x. returns (f x)) \<Longrightarrow> returns (mapA f xs)"
  by (induction xs) (simp_all add: returns_basic returns_bindA)

lemma returns_call_with [returns_intros]: "returns (call_with env keep check t argv)"
  unfolding call_with_def by (intro returns_intros)

lemma succeeds_returnA: "succeeds (returnA x)"
  by (simp add: succeeds_def returnA_def)

lemma succeeds_bindA: "succeeds m \<Longrightarrow> (\<And>x. succeeds (f x)) \<Longrightarrow> succeeds (bindA m f)"
  unfolding succeeds_def bindA_def by (metis (no_types, lifting) case_prod_conv option.simps(5) sum.simps(6))

lemma succeeds_seqA: "succeeds m \<Longrightarrow> succeeds n \<Longrightarrow> succeeds (seqA m n)"
  unfolding seqA_def by (rule succeeds_bindA)

lemma succeeds_whenA: "(b \<Longrightarrow> succeeds m) \<Longrightarrow> succeeds (whenA b m)"
  by (simp add: whenA_def succeeds_returnA)

lemma succeeds_forA: "(\<And>x. x \<in> set xs \<Longrightarrow> succeeds (f x)) \<Longrightarrow> succeeds (forA xs f)"
  by (induction xs) (simp_all add: succeeds_returnA succeeds_seqA)

section \<open>Which exceptions an action raises\<close>

text \<open>
  \<open>ordinary\<close>: only instances of \<open>Exception\<close>, so that \<open>except Exception\<close> catches them all.
\<close>

named_theorems ordinary_intros "that an action raises only instances of Exception"

definition ordinaryR :: "'a res \<Rightarrow> bool" where
  "ordinaryR r \<longleftrightarrow> (\<forall>e. r = Inl e \<longrightarrow> is_Exception e)"

definition ordinary :: "'a act \<Rightarrow> bool" where
  "ordinary m \<longleftrightarrow> (\<forall>tr e tr'. m tr = Some (Inl e, tr') \<longrightarrow> is_Exception e)"

lemma ordinaryR_basic [ordinary_intros]: "ordinaryR (Inr x)" "is_Exception e \<Longrightarrow> ordinaryR (Inl e)"
  by (simp_all add: ordinaryR_def)

lemma ordinaryR_bindR [ordinary_intros]: "ordinaryR m \<Longrightarrow> (\<And>x. ordinaryR (f x)) \<Longrightarrow> ordinaryR (bindR m f)"
  by (cases m) (simp_all add: ordinaryR_def)

lemma ordinaryR_if [ordinary_intros]: "(b \<Longrightarrow> ordinaryR m) \<Longrightarrow> (\<not> b \<Longrightarrow> ordinaryR n) \<Longrightarrow> ordinaryR (if b then m else n)"
  by simp

lemma is_Exception_simps [simp]:
  "is_Exception (ValueError m)" "is_Exception TypeError" "is_Exception AttributeError"
  "is_Exception (KeyError k)" "is_Exception IndexError" "is_Exception StopIteration"
  "is_Exception (RuntimeError m)" "is_Exception (CommandFailed argv rc m)" "is_Exception TimeoutExpired"
  "is_Exception (IOFailure m)" "\<not> is_Exception (ParserError m)" "\<not> is_Exception (SystemExit m)"
  by (simp_all add: is_Exception_def)

lemma ordinaryR_json [ordinary_intros]:
  "ordinaryR (json_loads env s)" "ordinaryR (item d k)" "ordinaryR (dict_of j)" "ordinaryR (last_item xs)"
  "ordinaryR (int_of_string s)"
  by (auto simp: ordinaryR_def json_loads_def item_def dict_of_def last_item_def int_of_string_def Let_def
      split: option.splits json.splits list.splits if_splits)

lemma ordinary_basic [ordinary_intros]:
  "ordinary (returnA x)" "ordinaryR r \<Longrightarrow> ordinary (liftA r)" "is_Exception e \<Longrightarrow> ordinary (raiseA e)"
  "ordinary (askA f)" "ordinary (fileA env ev)" "ordinary (writeA env p c)" "ordinary (sleepA d)"
  "ordinary (freshA env)" "ordinary (runA env t argv)" "ordinary (pushA s)"
  by (auto simp: ordinary_def pushA_def ordinaryR_def returnA_def liftA_def raiseA_def askA_def writeA_def fileA_def
      sleepA_def freshA_def runA_def Let_def split: option.splits outcome.splits)

lemma ordinary_bindA [ordinary_intros]: "ordinary m \<Longrightarrow> (\<And>x. ordinary (f x)) \<Longrightarrow> ordinary (bindA m f)"
  unfolding ordinary_def bindA_def by (fastforce split: option.splits sum.splits)

lemma ordinary_seqA [ordinary_intros]: "ordinary m \<Longrightarrow> ordinary n \<Longrightarrow> ordinary (seqA m n)"
  unfolding seqA_def by (rule ordinary_bindA)

lemma ordinary_whenA [ordinary_intros]: "ordinary m \<Longrightarrow> ordinary (whenA b m)"
  by (simp add: whenA_def ordinary_basic)

lemma ordinary_if [ordinary_intros]: "(b \<Longrightarrow> ordinary m) \<Longrightarrow> (\<not> b \<Longrightarrow> ordinary n) \<Longrightarrow> ordinary (if b then m else n)"
  by simp

lemma ordinary_prod [ordinary_intros]: "(\<And>a b. ordinary (f a b)) \<Longrightarrow> ordinary (case p of (a, b) \<Rightarrow> f a b)"
  by (cases p) simp

lemma ordinary_catchA [ordinary_intros]: "(\<And>e. ordinary (h e)) \<Longrightarrow> ordinary m \<Longrightarrow> ordinary (catchA m h)"
  unfolding ordinary_def catchA_def by (fastforce split: option.splits sum.splits if_splits)

lemma ordinary_call_with [ordinary_intros]: "ordinary (call_with env keep check t argv)"
  unfolding call_with_def by (intro ordinary_intros) simp

text \<open>With such a body, a handler that succeeds and a cleanup that succeeds, nothing escapes.\<close>

lemma succeeds_finally_catch:
  assumes "returns m" "ordinary m" "\<And>e. succeeds (h e)" "succeeds c"
  shows "succeeds (finallyA (catchA m h) c)"
  unfolding succeeds_def
proof
  fix tr
  obtain r tr1 where m: "m tr = Some (r, tr1)" by (rule returnsE [OF assms(1)])
  have "\<exists>x tr2. catchA m h tr = Some (Inr x, tr2)"
  proof (cases r)
    case (Inl e)
    with m assms(2) have "is_Exception e" by (auto simp: ordinary_def)
    with Inl m assms(3) [of e] show ?thesis by (auto simp: catchA_def succeeds_def)
  next
    case (Inr x)
    with m show ?thesis by (simp add: catchA_def)
  qed
  then obtain x tr2 where "catchA m h tr = Some (Inr x, tr2)" by blast
  moreover obtain u tr3 where "c tr2 = Some (Inr u, tr3)" using assms(4) by (auto simp: succeeds_def)
  ultimately show "\<exists>x tr'. finallyA (catchA m h) c tr = Some (Inr x, tr')" by (simp add: finallyA_def)
qed

section \<open>Polling loops\<close>

text \<open>
  A loop whose body returns whether to leave it, or raises; \<open>None\<close> when it runs forever.
\<close>

partial_function (option) repeatA :: "bool act \<Rightarrow> unit act" where
  "repeatA step tr = Option.bind (step tr) (\<lambda>(r, tr'). case r of
     Inl e \<Rightarrow> Some (Inl e, tr')
   | Inr finished \<Rightarrow> if finished then Some (Inr (), tr') else repeatA step tr')"

text \<open>
  The documented behaviour of \<open>time.monotonic\<close> and \<open>time.sleep\<close>: the clock never goes back, and
  sleeping advances it by at least the time slept.
\<close>

definition advancing :: "('e) env_scheme \<Rightarrow> bool" where
  "advancing env \<longleftrightarrow>
     (\<forall>tr e. clock env tr \<le> clock env (tr @ [e])) \<and> (\<forall>tr d. clock env tr + d \<le> clock env (tr @ [Sleep d]))"

lemma advancing_mono: "advancing env \<Longrightarrow> clock env tr \<le> clock env (tr @ es)"
proof (induction es rule: rev_induct)
  case (snoc e es)
  then have "clock env tr \<le> clock env (tr @ es)" by simp
  also have "\<dots> \<le> clock env ((tr @ es) @ [e])" using snoc.prems unfolding advancing_def by blast
  finally show ?case by simp
qed simp

lemma repeatA_step:
  "step tr = Some (Inr False, tr') \<Longrightarrow> repeatA step tr = repeatA step tr'"
  by (subst repeatA.simps) simp

lemma repeatA_stop:
  "step tr = Some (r, tr') \<Longrightarrow> r \<noteq> Inr False \<Longrightarrow>
     repeatA step tr = Some (case r of Inl e \<Rightarrow> Inl e | Inr b \<Rightarrow> Inr (), tr')"
  by (subst repeatA.simps) (cases r; simp)

text \<open>A loop returns if every pass that does not leave it starts before the deadline and takes time.\<close>

lemma returns_repeatA:
  assumes "returns step" and "0 < \<delta>"
    and "\<And>tr tr'. step tr = Some (Inr False, tr') \<Longrightarrow> clk tr < deadline \<and> clk tr + \<delta> \<le> (clk tr' :: real)"
  shows "returns (repeatA step)"
proof -
  have "clk tr + real n * \<delta> \<ge> deadline \<Longrightarrow> repeatA step tr \<noteq> None" for n tr
  proof (induction n arbitrary: tr)
    case 0
    obtain r tr' where s: "step tr = Some (r, tr')" using returnsE [OF assms(1)] by metis
    then have "r \<noteq> Inr False" using assms(3) [of tr tr'] 0 by auto
    with s show ?case by (simp add: repeatA_stop)
  next
    case (Suc n)
    obtain r tr' where s: "step tr = Some (r, tr')" using returnsE [OF assms(1)] by metis
    show ?case
    proof (cases "r = Inr False")
      case True
      then have "clk tr + \<delta> \<le> clk tr'" using assms(3) s by blast
      then have "deadline \<le> clk tr' + real n * \<delta>" using Suc.prems by (simp add: algebra_simps)
      with Suc.IH s True show ?thesis by (simp add: repeatA_step)
    next
      case False
      with s show ?thesis by (simp add: repeatA_stop)
    qed
  qed
  moreover have "\<exists>n. deadline \<le> clk tr + real n * \<delta>" for tr
    using ex_less_of_nat_mult [OF assms(2), of "deadline - clk tr"]
    by (auto intro: less_imp_le simp: algebra_simps)
  ultimately show ?thesis unfolding returns_def by blast
qed

lemma emits_repeatA [emits_intros]:
  assumes "emits P step" shows "emits P (repeatA step)"
proof -
  have run: "emits P step \<longrightarrow> (\<exists>es. snd y = tr @ es \<and> list_all P es)" if "repeatA step tr = Some y" for tr y
  proof (rule repeatA.raw_induct [OF _ that], intro impI)
    fix rep :: "bool act \<Rightarrow> unit act" and step tr y
    assume IH: "\<And>step tr y. rep step tr = Some y \<Longrightarrow> emits P step \<longrightarrow> (\<exists>es. snd y = tr @ es \<and> list_all P es)"
      and body: "Option.bind (step tr) (\<lambda>(r, tr'). case r of Inl e \<Rightarrow> Some (Inl e, tr')
        | Inr finished \<Rightarrow> if finished then Some (Inr (), tr') else rep step tr') = Some y"
      and step: "emits P step"
    then obtain r tr' where s: "step tr = Some (r, tr')" by (auto split: Option.bind_splits)
    then obtain es where es: "tr' = tr @ es" "list_all P es" by (rule emitsE [OF step])
    show "\<exists>es. snd y = tr @ es \<and> list_all P es"
    proof (cases "r = Inr False")
      case True
      with body s have "rep step tr' = Some y" by simp
      with IH step obtain es' where "snd y = tr' @ es'" "list_all P es'" by blast
      with es show ?thesis by auto
    next
      case False
      with body s have "snd y = tr'" by (auto split: sum.splits if_splits)
      with es show ?thesis by auto
    qed
  qed
  show ?thesis using assms run unfolding emits_def by fastforce
qed

lemma ordinary_repeatA [ordinary_intros]:
  assumes "ordinary step" shows "ordinary (repeatA step)"
proof -
  have run: "ordinary step \<longrightarrow> (\<forall>e tr'. y = (Inl e, tr') \<longrightarrow> is_Exception e)" if "repeatA step tr = Some y" for tr y
  proof (rule repeatA.raw_induct [OF _ that], intro impI)
    fix rep :: "bool act \<Rightarrow> unit act" and step tr y
    assume IH: "\<And>step tr y. rep step tr = Some y \<Longrightarrow> ordinary step \<longrightarrow> (\<forall>e tr'. y = (Inl e, tr') \<longrightarrow> is_Exception e)"
      and body: "Option.bind (step tr) (\<lambda>(r, tr'). case r of Inl e \<Rightarrow> Some (Inl e, tr')
        | Inr finished \<Rightarrow> if finished then Some (Inr (), tr') else rep step tr') = Some y"
      and step: "ordinary step"
    then obtain r tr' where s: "step tr = Some (r, tr')" by (auto split: Option.bind_splits)
    show "\<forall>e tr'. y = (Inl e, tr') \<longrightarrow> is_Exception e"
    proof (cases r)
      case (Inl e)
      then have "is_Exception e" "y = (Inl e, tr')" using s body step by (auto simp: ordinary_def)
      then show ?thesis by simp
    next
      case (Inr b)
      with s body have "if b then y = (Inr (), tr') else rep step tr' = Some y" by (cases b) auto
      with step IH [of step tr' y] show ?thesis by (cases b) auto
    qed
  qed
  show ?thesis
    unfolding ordinary_def
  proof (intro allI impI)
    fix tr e tr' assume "repeatA step tr = Some (Inl e, tr')"
    from run [OF this] assms show "is_Exception e" by blast
  qed
qed

section \<open>A concrete environment\<close>

text \<open>Every process exits 0 without output, every file operation works, only sleeping takes time.\<close>

definition slept :: "event \<Rightarrow> real" where
  "slept e = (case e of Sleep d \<Rightarrow> max 0 d | _ \<Rightarrow> 0)"

definition idle_env :: env where
  "idle_env = \<lparr>respond = (\<lambda>tr argv. Exited 0 [] []), clock = (\<lambda>tr. sum_list (map slept tr)),
     utc = (\<lambda>tr. ''2026-09-24T00:00:00+00:00''), hex = (\<lambda>tr. ''0123456789abcdef''),
     failure = (\<lambda>tr ev. None), loads = (\<lambda>s. None), files = (\<lambda>tr p. None), resolve = (\<lambda>p. p)\<rparr>"

lemma slept_nonneg [simp]: "0 \<le> slept e"
  by (cases e) (simp_all add: slept_def)

lemma idle_advancing: "advancing idle_env"
  by (auto simp: advancing_def idle_env_def slept_def split: event.splits)

end
