(* ===== verification/Strong_Run.thy ===== *)
theory Strong_Run
  imports Strong_Harness Effects
begin

text \<open>
  The effectful part of \<open>bench/strong/run_strong.py\<close>: starting a server, waiting for it, driving the
  client, recording the evidence of a run and cleaning up, with every exception path. The theorems
  say that a run always returns, touches only its own containers and its own directory, leaves a
  result or an error, and removes both of its containers.
\<close>

section \<open>Commands\<close>

definition path_join :: "string \<Rightarrow> string \<Rightarrow> string" where
  "path_join a b = a @ ''/'' @ b"

definition call :: "('e) env_scheme \<Rightarrow> bool \<Rightarrow> int \<Rightarrow> string list \<Rightarrow> completed act" where
  "call env check timeout parts = call_with env 1200 check timeout parts"

definition docker :: "('e) env_scheme \<Rightarrow> bool \<Rightarrow> int \<Rightarrow> string list \<Rightarrow> completed act" where
  "docker env check timeout parts = call env check timeout (''docker'' # parts)"

definition image_info :: "('e) env_scheme \<Rightarrow> string \<Rightarrow> json act" where
  "image_info env img =
     bindA (docker env True 300 [''image'', ''inspect'', img, ''--format'', ''{{json .}}'']) (\<lambda>p.
     bindA (liftA (json_loads env (stdout_of p))) (\<lambda>j.
     bindA (liftA (dict_of j)) (\<lambda>data.
     bindA (liftA (item data ''Id'')) (\<lambda>i.
     bindA (liftA (dict_of (get_or data ''Config'' (JObj [])))) (\<lambda>config.
       returnA (JObj [(''id'', i), (''repo_digests'', get_or data ''RepoDigests'' JNull),
                      (''architecture'', get_or data ''Architecture'' JNull),
                      (''labels'', get_or config ''Labels'' JNull)]))))))"

definition cgroup_files :: string where
  "cgroup_files = ''cat /sys/fs/cgroup/cpu.stat /sys/fs/cgroup/memory.current /sys/fs/cgroup/memory.peak /sys/fs/cgroup/io.stat''"

definition cgroup :: "('e) env_scheme \<Rightarrow> string \<Rightarrow> string act" where
  "cgroup env name =
     bindA (docker env False 300 [''exec'', name, ''sh'', ''-c'', cgroup_files]) (\<lambda>p.
       returnA (if fst p = 0 then stdout_of p else ''''))"

text \<open>\<open>json.loads(p.stdout.strip().splitlines()[-1])\<close>\<close>

definition last_line_json :: "('e) env_scheme \<Rightarrow> string \<Rightarrow> json res" where
  "last_line_json env out = bindR (last_item (splitlines (strip out))) (json_loads env)"

definition client_query :: "string \<Rightarrow> string \<Rightarrow> string \<Rightarrow> string \<Rightarrow> nat \<Rightarrow> string \<Rightarrow> string list" where
  "client_query verb network name backend port client_image =
     [''run'', ''--rm'', ''--network'', network, client_image, verb, ''--backend'', backend,
      ''--host'', name, ''--port'', str_nat port]"

definition stats :: "('e) env_scheme \<Rightarrow> string \<Rightarrow> string \<Rightarrow> string \<Rightarrow> nat \<Rightarrow> string \<Rightarrow> json act" where
  "stats env network name backend port client_image =
     bindA (call env False 30 (''docker'' # client_query ''stats'' network name backend port client_image)) (\<lambda>p.
       if fst p \<noteq> 0 then raiseA (RuntimeError (''stats: '' @ last_n 500 (stderr_of p)))
       else liftA (last_line_json env (stdout_of p)))"

definition verify :: "('e) env_scheme \<Rightarrow> string \<Rightarrow> string \<Rightarrow> string \<Rightarrow> nat \<Rightarrow> string \<Rightarrow> json act" where
  "verify env network name backend port client_image =
     bindA (docker env False 40 (client_query ''verify'' network name backend port client_image)) (\<lambda>p.
       if fst p \<noteq> 0 then raiseA (RuntimeError (''correctness: '' @ last_n 800 (stderr_of p)))
       else liftA (last_line_json env (stdout_of p)))"

section \<open>Starting a server\<close>

definition lookup :: "(string \<times> 'a) list \<Rightarrow> string \<Rightarrow> 'a res" where
  "lookup table k = (case map_of table k of None \<Rightarrow> Inl (KeyError k) | Some v \<Rightarrow> Inr v)"

definition server_image :: "strong_args \<Rightarrow> string \<Rightarrow> string res" where
  "server_image args engine =
     (if base_engine engine = ''grpc''
      then (case sa_grpc_image args of None \<Rightarrow> Inl TypeError | Some i \<Rightarrow> Inr i)
      else (case sa_engine_images args engine of None \<Rightarrow> Inl (KeyError engine) | Some i \<Rightarrow> Inr i))"

definition server_backend :: "string \<Rightarrow> string" where
  "server_backend engine =
     (if base_engine engine = ''grpc'' then ''grpc''
      else if base_engine engine = ''memcached'' then ''memcached'' else engine)"

definition server_command ::
  "string \<Rightarrow> string \<Rightarrow> strong_args \<Rightarrow> string list \<Rightarrow> string \<Rightarrow> string list \<Rightarrow> string list"
where
  "server_command name network args mount img extra =
     [''docker'', ''run'', ''-d'', ''--name'', name, ''--network'', network, ''--cpus'', ''4'',
      ''--cpuset-cpus'', ''0-3'', ''--memory'', str_int (sa_memory_mb args) @ ''m'',
      ''--memory-swap'', str_int (sa_memory_mb args) @ ''m''] @ mount @ [img] @ extra"

definition JStrs :: "string list \<Rightarrow> json" where
  "JStrs xs = JArr (map JStr xs)"

definition flash_mount :: "('e) env_scheme \<Rightarrow> string \<Rightarrow> string \<Rightarrow> string list act" where
  "flash_mount env engine directory =
     (let flash = path_join directory ''flash'' in
      if engine \<in> set FILE_TIER_ENGINES
      then seqA (fileA env (Mkdir flash)) (seqA (fileA env (Chmod flash))
             (returnA [''--mount'', ''type=bind,src='' @ resolve env flash @ '',dst=/data'']))
      else returnA [])"

definition setup_server ::
  "('e) env_scheme \<Rightarrow> string \<Rightarrow> string \<Rightarrow> string \<Rightarrow> string \<Rightarrow> strong_args \<Rightarrow> (string \<times> nat) act"
where
  "setup_server env engine name network directory args =
     bindA (liftA (server_image args engine)) (\<lambda>img.
     bindA (liftA (lookup PORTS (base_engine engine))) (\<lambda>port.
     bindA (flash_mount env engine directory) (\<lambda>mount.
     bindA (liftA (server_arguments engine (sa_cache_mb args) (sa_flash_mb args))) (\<lambda>extra.
     let command = server_command name network args mount img extra in
     seqA (writeA env (path_join directory ''server-command.json'') (Doc (JStrs command)))
     (seqA (call env True 300 command)
     (returnA (server_backend engine, port)))))))"

section \<open>The backing file\<close>

definition flash_usage :: "(string \<times> nat \<times> nat) list \<Rightarrow> bool \<Rightarrow> json" where
  "flash_usage entries discard =
     JObj [(''files'', JArr (map (\<lambda>(path, bytes, blocks).
              JObj [(''path'', JStr path), (''logical_bytes'', JNum (real bytes)),
                    (''allocated_bytes'', JNum (real (blocks * 512)))]) entries)),
           (''flash_file_logical_bytes'', JNum (real (sum_list (map (\<lambda>(p, s, b). s) entries)))),
           (''flash_file_allocated_bytes'', JNum (real (sum_list (map (\<lambda>(p, s, b). b * 512) entries)))),
           (''discarded_after_measurement'', JBool discard)]"

text \<open>
  \<open>files env\<close> lists the regular files below a directory as (relative path, size, blocks), \<open>None\<close> when
  it does not exist. \<open>rmtree\<close> ignores errors.
\<close>

definition record_flash_usage :: "('e) env_scheme \<Rightarrow> string \<Rightarrow> bool \<Rightarrow> unit act" where
  "record_flash_usage env directory discard =
     (let flash = path_join directory ''flash'' in
      bindA (askA (\<lambda>tr. files env tr flash)) (\<lambda>listing. case listing of
        None \<Rightarrow> returnA ()
      | Some entries \<Rightarrow>
          seqA (writeA env (path_join directory ''flash-usage.json'')
                 (Doc (flash_usage (sort_key fst entries) discard)))
          (whenA discard (catchA (fileA env (Rmtree flash)) (\<lambda>e. returnA ())))))"

section \<open>Waiting\<close>

definition running_state :: "('e) env_scheme \<Rightarrow> string \<Rightarrow> string act" where
  "running_state env container =
     bindA (docker env False 300 [''inspect'', ''-f'', ''{{.State.Running}}'', container]) (\<lambda>p.
       returnA (strip (stdout_of p)))"

primrec wait_ready ::
  "nat \<Rightarrow> ('e) env_scheme \<Rightarrow> string \<Rightarrow> string \<Rightarrow> string \<Rightarrow> nat \<Rightarrow> string \<Rightarrow> unit act"
where
  "wait_ready 0 env network name backend port img =
     raiseA (RuntimeError ''server did not become ready'')"
| "wait_ready (Suc n) env network name backend port img =
     bindA (running_state env name) (\<lambda>state.
       if state = ''false'' then raiseA (RuntimeError ''server exited before readiness'')
       else bindA (catchA (seqA (stats env network name backend port img) (returnA True))
                    (\<lambda>e. seqA (sleepA 1) (returnA False))) (\<lambda>up.
            if up then returnA () else wait_ready n env network name backend port img))"

text \<open>One pass of the loop that waits for the client's marker.\<close>

definition poll_start :: "('e) env_scheme \<Rightarrow> string \<Rightarrow> real \<Rightarrow> bool act" where
  "poll_start env client deadline =
     bindA (askA (clock env)) (\<lambda>t.
       if \<not> t < deadline then raiseA (RuntimeError ''client never started measurement'')
       else bindA (docker env False 300 [''logs'', client]) (\<lambda>log.
         let logs = stdout_of log @ stderr_of log in
         if contains ''MEASURE_START'' logs then returnA True
         else bindA (running_state env client) (\<lambda>state.
           if state = ''false''
           then raiseA (RuntimeError (''client exited before measurement: '' @ last_n 1200 logs))
           else seqA (sleepA (1 / 4)) (returnA False))))"

section \<open>One run\<close>

definition lower_bool :: "bool \<Rightarrow> string" where
  "lower_bool b = (if b then ''true'' else ''false'')"

definition client_command ::
  "string \<Rightarrow> string \<Rightarrow> strong_args \<Rightarrow> string \<Rightarrow> string \<Rightarrow> nat \<Rightarrow> string \<Rightarrow> nat \<Rightarrow> strong_case \<Rightarrow> string list"
where
  "client_command client network args backend name port case_name repeat c =
     (case c of (bytes, objects, concurrency, pattern, workload, operation, preload, origin_ms, model, offered_rate) \<Rightarrow>
       [''docker'', ''run'', ''-d'', ''--name'', client, ''--network'', network,
        ''--cpus'', ''4'', ''--cpuset-cpus'', ''4-7'', ''--memory'', ''1024m'', ''--memory-swap'', ''1024m'',
        sa_go_client_image args, ''-backend'', backend, ''-address'', name @ '':'' @ str_nat port,
        ''-run-id'', case_name @ ''-r'' @ str_nat repeat, ''-value-bytes'', str_nat bytes,
        ''-objects'', str_nat objects, ''-concurrency'', str_nat concurrency,
        ''-pattern'', pattern, ''-workload'', workload, ''-operation'', operation,
        ''-model'', model, ''-origin-ms'', str_nat origin_ms,
        ''-offered-rate'', str_nat (if offered_rate \<noteq> 0 then offered_rate else 1000),
        ''-batch-size'', ''16'', ''-preload='' @ lower_bool preload,
        ''-warmup-seconds'', (if prefix ''cold_'' case_name then str_nat 0 else str_int (sa_warmup args)),
        ''-measure-seconds'', str_int (sa_seconds args)])"

text \<open>\<open>d[k] = v\<close>: a new key goes to the end.\<close>

definition dict_set :: "dict \<Rightarrow> string \<Rightarrow> json \<Rightarrow> dict" where
  "dict_set d k v = (if k \<in> fst ` set d then map (\<lambda>(k', w). (k', if k' = k then v else w)) d
                     else d @ [(k, v)])"

definition result_line :: "('e) env_scheme \<Rightarrow> string \<Rightarrow> dict res" where
  "result_line env out =
     (case find (prefix ''{'') (rev (splitlines out)) of
        None \<Rightarrow> Inl StopIteration
      | Some line \<Rightarrow> bindR (json_loads env line) (\<lambda>j. case j of JObj d \<Rightarrow> Inr d | _ \<Rightarrow> Inl TypeError))"

definition exit_code_of :: "string \<Rightarrow> int res" where
  "exit_code_of out = (if strip out = '''' then Inr (-1) else int_of_string (strip out))"

definition complete_result :: "dict \<Rightarrow> json \<Rightarrow> json \<Rightarrow> string \<Rightarrow> string \<Rightarrow> int \<Rightarrow> dict" where
  "complete_result d stats_before stats_after before_time after_time code =
     dict_set (dict_set (dict_set (dict_set d ''server_stats_before'' stats_before)
       ''server_stats_after'' stats_after)
       ''server_cgroup_sample_times_utc'' (JStrs [before_time, after_time]))
       ''client_exit_code'' (JNum (real_of_int code))"

text \<open>\<open>result[a] or result[b] or ...\<close> as a condition, and the format \<open>:.0f\<close> of the summary line.\<close>

fun any_item :: "dict \<Rightarrow> string list \<Rightarrow> bool res" where
  "any_item d [] = Inr False"
| "any_item d (k # ks) = bindR (item d k) (\<lambda>v. if truthy v then Inr True else any_item d ks)"

definition formats_f :: "json \<Rightarrow> unit res" where
  "formats_f j = (case j of JNum x \<Rightarrow> Inr () | JBool b \<Rightarrow> Inr ()
     | JStr s \<Rightarrow> Inl (ValueError ''Unknown format code f'') | _ \<Rightarrow> Inl TypeError)"

definition summary_line :: "dict \<Rightarrow> unit res" where
  "summary_line d =
     bindR (item d ''successful_ops_s'') (\<lambda>v. bindR (formats_f v) (\<lambda>u.
     bindR (item d ''hits'') (\<lambda>v. bindR (item d ''errors'') (\<lambda>v.
     bindR (item d ''warmup_stable'') (\<lambda>v. Inr ())))))"

text \<open>The part of the \<open>try\<close> body from the client's marker on.\<close>

definition record_result ::
  "('e) env_scheme \<Rightarrow> string \<Rightarrow> string \<Rightarrow> string \<Rightarrow> string \<Rightarrow> string \<Rightarrow> nat \<Rightarrow> strong_args \<Rightarrow> unit act"
where
  "record_result env network directory name client backend port args =
     (let img = sa_correctness_client_image args; file = path_join directory in
      bindA (askA (utc env)) (\<lambda>before_time.
      bindA (cgroup env name) (\<lambda>before.
      bindA (stats env network name backend port img) (\<lambda>stats_before.
      bindA (docker env False (sa_seconds args + 120) [''wait'', client]) (\<lambda>waited.
      bindA (cgroup env name) (\<lambda>after.
      bindA (stats env network name backend port img) (\<lambda>stats_after.
      bindA (askA (utc env)) (\<lambda>after_time.
      bindA (docker env False 300 [''logs'', client]) (\<lambda>logs.
      seqA (writeA env (file ''client.log'') (Text (stdout_of logs @ stderr_of logs)))
      (bindA (liftA (result_line env (stdout_of logs))) (\<lambda>d.
      bindA (liftA (exit_code_of (stdout_of waited))) (\<lambda>code.
      let result = complete_result d stats_before stats_after before_time after_time code in
      seqA (writeA env (file ''result.json'') (Doc (JObj result)))
      (seqA (writeA env (file ''server-cgroup-before.txt'') (Text before))
      (seqA (writeA env (file ''server-cgroup-after.txt'') (Text after))
      (bindA (docker env True 300 [''inspect'', name]) (\<lambda>inspected.
      seqA (writeA env (file ''server-inspect.json'') (Text (stdout_of inspected)))
      (bindA (liftA (any_item result [''client_exit_code'', ''errors'', ''dropped_arrivals''])) (\<lambda>bad.
      seqA (whenA bad (writeA env (file ''error.txt'')
             (Text (''Client errors, dropped arrivals, or nonzero exit; see result.json.'' @ [CHR 0x0A]))))
      (liftA (summary_line result))))))))))))))))))))"

definition measure_run ::
  "('e) env_scheme \<Rightarrow> string \<Rightarrow> string \<Rightarrow> nat \<Rightarrow> strong_case \<Rightarrow> string \<Rightarrow> string \<Rightarrow> string \<Rightarrow> string \<Rightarrow> strong_args \<Rightarrow> unit act"
where
  "measure_run env engine case_name repeat c network directory name client args =
     (let img = sa_correctness_client_image args; file = path_join directory in
      bindA (setup_server env engine name network directory args) (\<lambda>(backend, port).
      seqA (wait_ready 60 env network name backend port img)
      (bindA (verify env network name backend port img) (\<lambda>probe.
      seqA (writeA env (file ''correctness.json'') (Doc probe))
      (let command = client_command client network args backend name port case_name repeat c in
      seqA (writeA env (file ''client-command.json'') (Doc (JStrs command)))
      (seqA (call env True 300 command)
      (bindA (askA (clock env)) (\<lambda>start.
       let deadline = start + real_of_int (max 240 (sa_seconds args + sa_warmup args + 180)) in
      seqA (repeatA (poll_start env client deadline))
      (record_result env network directory name client backend port args)))))))))"

definition clean_up :: "('e) env_scheme \<Rightarrow> string \<Rightarrow> string \<Rightarrow> string \<Rightarrow> unit act" where
  "clean_up env directory name container =
     bindA (docker env False 300 [''logs'', container]) (\<lambda>logs.
     seqA (whenA (container = name)
            (writeA env (path_join directory ''server.log'') (Text (stdout_of logs @ stderr_of logs))))
     (seqA (docker env False 30 [''stop'', container])
     (seqA (docker env False 30 [''rm'', container]) (returnA ()))))"

definition replace_underscores :: "string \<Rightarrow> string" where
  "replace_underscores s = map (\<lambda>c. if c = CHR ''_'' then CHR ''-'' else c) s"

definition run_directory :: "string \<Rightarrow> string \<Rightarrow> nat \<Rightarrow> string \<Rightarrow> string" where
  "run_directory out_dir case_name repeat engine =
     path_join (path_join (path_join out_dir case_name) (rep_name repeat)) engine"

definition final_cleanup ::
  "('e) env_scheme \<Rightarrow> string \<Rightarrow> string \<Rightarrow> string \<Rightarrow> string \<Rightarrow> strong_args \<Rightarrow> unit act"
where
  "final_cleanup env engine directory name client args =
     seqA (forA [client, name] (clean_up env directory name))
          (whenA (engine \<in> set FILE_TIER_ENGINES)
             (record_flash_usage env directory (sa_discard_flash_files args)))"

definition attempt ::
  "('e) env_scheme \<Rightarrow> string \<Rightarrow> string \<Rightarrow> nat \<Rightarrow> strong_case \<Rightarrow> string \<Rightarrow> string \<Rightarrow> string \<Rightarrow> string \<Rightarrow> strong_args \<Rightarrow> unit act"
where
  "attempt env engine case_name repeat c network directory name client args =
     finallyA
       (catchA (measure_run env engine case_name repeat c network directory name client args)
          (\<lambda>e. writeA env (path_join directory ''error.txt'') (Message e)))
       (final_cleanup env engine directory name client args)"

definition server_name :: "string \<Rightarrow> string \<Rightarrow> string" where
  "server_name engine u = ''cstrong-'' @ replace_underscores engine @ ''-'' @ take 8 u"

definition client_name :: "string \<Rightarrow> string" where
  "client_name u = ''cstrong-client-'' @ take 8 u"

definition run_once ::
  "('e) env_scheme \<Rightarrow> string \<Rightarrow> string \<Rightarrow> nat \<Rightarrow> string \<Rightarrow> string \<Rightarrow> strong_args \<Rightarrow> unit act"
where
  "run_once env engine case_name repeat network out_dir args =
     bindA (liftA (lookup CASES case_name)) (\<lambda>c.
       if skips engine c then returnA ()
       else let directory = run_directory out_dir case_name repeat engine in
         seqA (fileA env (Mkdir directory))
         (bindA (freshA env) (\<lambda>u. bindA (freshA env) (\<lambda>v.
          attempt env engine case_name repeat c network directory (server_name engine u) (client_name v) args))))"

section \<open>A run returns\<close>

lemmas strong_defs = call_def docker_def cgroup_def stats_def verify_def running_state_def

lemma returns_commands [returns_intros]:
  "returns (call env check t parts)" "returns (docker env check t parts)" "returns (cgroup env name)"
  "returns (stats env network name backend port img)" "returns (verify env network name backend port img)"
  "returns (running_state env container)" "returns (record_flash_usage env directory discard)"
  "returns (setup_server env engine name network directory args)"
  "returns (clean_up env directory name container)"
  unfolding strong_defs record_flash_usage_def setup_server_def flash_mount_def clean_up_def Let_def
  by (intro returns_intros)+

lemma returns_wait_ready [returns_intros]: "returns (wait_ready n env network name backend port img)"
  by (induction n) (auto intro!: returns_intros)

lemma returns_record_result [returns_intros]:
  "returns (record_result env network directory name client backend port args)"
  unfolding record_result_def Let_def by (intro returns_intros)

lemma returns_poll_start [returns_intros]: "returns (poll_start env client deadline)"
  unfolding poll_start_def Let_def by (intro returns_intros)

lemma grows_commands:
  "grows (call env check t parts)" "grows (docker env check t parts)" "grows (running_state env container)"
  unfolding grows_def strong_defs by (intro emits_intros TrueI)+

lemma poll_start_continues:
  assumes "poll_start env client deadline tr = Some (Inr False, tr')"
  obtains es where "tr' = tr @ es @ [Sleep (1 / 4)]" and "clock env tr < deadline"
proof -
  from assms have t: "clock env tr < deadline"
    by (auto simp: poll_start_def bindA_def askA_def raiseA_def split: if_splits)
  then obtain log tr1 state tr2
    where log: "docker env False 300 [''logs'', client] tr = Some (Inr log, tr1)"
    and state: "running_state env client tr1 = Some (Inr state, tr2)"
    and tr': "tr' = tr2 @ [Sleep (1 / 4)]"
    using assms unfolding poll_start_def Let_def
    by (auto elim!: bindA_InrE seqA_InrE simp: askA_def returnA_def raiseA_def sleepA_def split: if_splits)
  from growsE [OF grows_commands(2) log] growsE [OF grows_commands(3) state]
  obtain es es' where "tr2 = tr @ es @ es'" by (metis append.assoc)
  with tr' t that [of "es @ es'"] show thesis by simp
qed

lemma returns_await:
  assumes "advancing env" shows "returns (repeatA (poll_start env client deadline))"
proof (rule returns_repeatA [where \<delta> = "1 / 4" and clk = "clock env" and deadline = deadline])
  fix tr tr' assume "poll_start env client deadline tr = Some (Inr False, tr')"
  then obtain es where tr': "tr' = tr @ es @ [Sleep (1 / 4)]" and t: "clock env tr < deadline"
    by (rule poll_start_continues)
  have "clock env tr \<le> clock env (tr @ es)" using assms by (rule advancing_mono)
  also have "\<dots> + 1 / 4 \<le> clock env ((tr @ es) @ [Sleep (1 / 4)])"
    using assms unfolding advancing_def by blast
  finally show "clock env tr < deadline \<and> clock env tr + 1 / 4 \<le> clock env tr'" using t tr' by simp
qed (simp_all add: returns_intros)

lemma returns_run_once:
  assumes "advancing env" shows "returns (run_once env engine case_name repeat network out_dir args)"
  unfolding run_once_def attempt_def final_cleanup_def measure_run_def Let_def
  by (intro returns_intros returns_await assms)

section \<open>A run touches only what it owns\<close>

text \<open>
  The commands and files of one run: docker subcommands on its two containers, containers started
  under these names or removed on exit, on its network; files in its own directory.
\<close>

definition owned_command :: "string \<Rightarrow> string \<Rightarrow> string \<Rightarrow> string list \<Rightarrow> bool" where
  "owned_command name client network argv \<longleftrightarrow>
     (case argv of
        d # verb # rest \<Rightarrow> d = ''docker'' \<and>
          (if verb \<in> {''stop'', ''rm'', ''logs'', ''wait''} then rest = [name] \<or> rest = [client]
           else if verb = ''exec'' then take 1 rest = [name]
           else if verb = ''inspect'' then rest \<noteq> [] \<and> last rest \<in> {name, client}
           else verb = ''run'' \<and>
             (take 3 rest = [''--rm'', ''--network'', network]
              \<or> take 5 rest = [''-d'', ''--name'', name, ''--network'', network]
              \<or> take 5 rest = [''-d'', ''--name'', client, ''--network'', network]))
      | _ \<Rightarrow> False)"

definition owned :: "string \<Rightarrow> string \<Rightarrow> string \<Rightarrow> string \<Rightarrow> event \<Rightarrow> bool" where
  "owned name client network directory ev =
     (case ev of
        Exec argv t \<Rightarrow> owned_command name client network argv
      | WriteF path c \<Rightarrow> prefix (directory @ ''/'') path
      | Mkdir path \<Rightarrow> path = directory \<or> path = path_join directory ''flash''
      | Chmod path \<Rightarrow> path = path_join directory ''flash''
      | Rmtree path \<Rightarrow> path = path_join directory ''flash''
      | _ \<Rightarrow> True)"

lemmas owned_defs = owned_def owned_command_def client_query_def server_command_def path_join_def

lemma owned_simple [simp]:
  "owned name client network directory (Sleep d)" "owned name client network directory Fresh"
  "owned name client network directory (WriteF (path_join directory f) c)"
  by (simp_all add: owned_defs)

lemma emits_owned_commands [emits_intros]:
  assumes "c \<in> {name, client}"
  shows "emits (owned name client network directory) (docker env check t [''logs'', c])"
    "emits (owned name client network directory) (docker env check t [''stop'', c])"
    "emits (owned name client network directory) (docker env check t [''rm'', c])"
    "emits (owned name client network directory) (docker env check t [''wait'', c])"
    "emits (owned name client network directory) (docker env check t [''inspect'', c])"
    "emits (owned name client network directory) (running_state env c)"
    "emits (owned name client network directory) (clean_up env directory name c)"
  using assms unfolding strong_defs clean_up_def Let_def
  by (auto intro!: emits_intros simp: owned_defs)

lemma emits_owned_queries [emits_intros]:
  "emits (owned name client network directory) (cgroup env name)"
  "emits (owned name client network directory) (stats env network name backend port img)"
  "emits (owned name client network directory) (verify env network name backend port img)"
  "emits (owned name client network directory) (record_flash_usage env directory discard)"
  "emits (owned name client network directory) (setup_server env engine name network directory args)"
  unfolding strong_defs record_flash_usage_def setup_server_def flash_mount_def Let_def
  by (auto intro!: emits_intros emits_fileA simp: owned_defs)

lemma emits_owned_wait_ready [emits_intros]:
  "emits (owned name client network directory) (wait_ready n env network name backend port img)"
  by (induction n) (auto intro!: emits_intros)

lemma emits_owned_record_result [emits_intros]:
  "emits (owned name client network directory) (record_result env network directory name client backend port args)"
  unfolding record_result_def Let_def by (auto intro!: emits_intros)

lemma emits_owned_poll_start [emits_intros]:
  "emits (owned name client network directory) (poll_start env client deadline)"
  unfolding poll_start_def Let_def by (auto intro!: emits_intros)

lemma client_command_shape:
  "\<exists>rest. client_command client network args backend name port case_name repeat c =
     [''docker'', ''run'', ''-d'', ''--name'', client, ''--network'', network] @ rest"
  by (simp add: client_command_def split: prod.splits)

lemma emits_owned_client [emits_intros]:
  "emits (owned name client network directory)
     (call env check t (client_command client network args backend name port case_name repeat c))"
proof -
  obtain rest where "client_command client network args backend name port case_name repeat c =
     [''docker'', ''run'', ''-d'', ''--name'', client, ''--network'', network] @ rest"
    using client_command_shape by blast
  then show ?thesis unfolding call_def by (intro emits_intros) (simp add: owned_defs)
qed

lemma emits_owned_measure_run [emits_intros]:
  "emits (owned name client network directory)
     (measure_run env engine case_name repeat c network directory name client args)"
  unfolding measure_run_def Let_def by (auto intro!: emits_intros)

lemma emits_owned_final_cleanup [emits_intros]:
  "emits (owned name client network directory) (final_cleanup env engine directory name client args)"
  unfolding final_cleanup_def by (auto intro!: emits_intros)

lemma emits_owned_attempt:
  "emits (owned name client network directory)
     (attempt env engine case_name repeat c network directory name client args)"
  unfolding attempt_def by (auto intro!: emits_intros)

section \<open>A run leaves evidence and removes its containers\<close>

text \<open>
  What the cleanup relies on: file operations work, and \<open>docker logs\<close>, \<open>docker stop\<close> and \<open>docker rm\<close>
  come back before their timeout, with whatever exit code.
\<close>

definition quiet_cleanup :: "('e) env_scheme \<Rightarrow> bool" where
  "quiet_cleanup env \<longleftrightarrow>
     (\<forall>tr ev. failure env tr ev = None)
     \<and> (\<forall>tr verb c. verb \<in> {''logs'', ''stop'', ''rm''} \<longrightarrow>
          (\<exists>rc out err. respond env tr [''docker'', verb, c] = Exited rc out err))"

lemma quiet_docker:
  assumes "quiet_cleanup env" and "verb \<in> {''logs'', ''stop'', ''rm''}"
  shows "succeeds (docker env False t [verb, c])"
  unfolding succeeds_def
proof
  fix tr
  obtain rc out err where "respond env tr [''docker'', verb, c] = Exited rc out err"
    using assms unfolding quiet_cleanup_def by blast
  then show "\<exists>x tr'. docker env False t [verb, c] tr = Some (Inr x, tr')"
    by (simp add: strong_defs call_with_def bindA_def runA_def returnA_def Let_def)
qed

lemma quiet_file: "quiet_cleanup env \<Longrightarrow> succeeds (fileA env ev)" "quiet_cleanup env \<Longrightarrow> succeeds (writeA env p c)"
  by (simp_all add: quiet_cleanup_def succeeds_def writeA_def fileA_def)

lemma succeeds_clean_up: "quiet_cleanup env \<Longrightarrow> succeeds (clean_up env directory name c)"
  unfolding clean_up_def
  by (intro succeeds_bindA succeeds_seqA succeeds_whenA succeeds_returnA quiet_docker quiet_file) auto

lemma succeeds_record_flash: "quiet_cleanup env \<Longrightarrow> succeeds (record_flash_usage env directory discard)"
  unfolding succeeds_def record_flash_usage_def
  by (auto simp: quiet_cleanup_def bindA_def seqA_def askA_def writeA_def fileA_def returnA_def whenA_def
      catchA_def Let_def split: option.splits)

lemma succeeds_final_cleanup: "quiet_cleanup env \<Longrightarrow> succeeds (final_cleanup env engine directory name client args)"
  unfolding final_cleanup_def
  by (intro succeeds_seqA succeeds_forA succeeds_clean_up succeeds_whenA succeeds_record_flash)

lemma grows_clean_up: "grows (clean_up env directory name c)"
  unfolding grows_def clean_up_def strong_defs by (intro emits_intros TrueI)

lemma grows_strong:
  "grows (cgroup env name)" "grows (stats env network name backend port img)"
  "grows (liftA r)" "grows (askA f)" "grows (writeA env p c)" "grows (returnA x)" "grows (whenA b (writeA env p c))"
  "grows (verify env network name backend port img)" "grows (setup_server env engine name network directory args)"
  "grows (record_flash_usage env directory discard)"
  unfolding grows_def strong_defs setup_server_def flash_mount_def record_flash_usage_def Let_def
  by (intro emits_intros emits_fileA TrueI)+

lemma grows_wait: "grows (wait_ready n env network name backend port img)"
    "grows (repeatA (poll_start env client deadline))"
  using emits_grows [OF emits_owned_wait_ready] emits_grows [OF emits_repeatA [OF emits_owned_poll_start]]
  by blast+

lemma grows_bindA: "grows m \<Longrightarrow> (\<And>x. grows (f x)) \<Longrightarrow> grows (bindA m f)"
  "grows m \<Longrightarrow> grows n \<Longrightarrow> grows (seqA m n)"
  unfolding grows_def by (intro emits_intros; assumption)+

lemmas grows_all = grows_commands grows_strong grows_wait grows_bindA

lemma leaves_docker: "P (Exec (''docker'' # parts) t) \<Longrightarrow> leaves P (docker env check t parts)"
  unfolding docker_def call_def by (rule leaves_call_with)

lemma leaves_clean_up:
  "leaves (\<lambda>e. e = Exec [''docker'', ''stop'', c] 30) (clean_up env directory name c)"
  "leaves (\<lambda>e. e = Exec [''docker'', ''rm'', c] 30) (clean_up env directory name c)"
  unfolding clean_up_def
  by (rule leaves_bindA_second leaves_seqA_second leaves_seqA_first leaves_docker grows_all refl)+

lemma leaves_result:
  "leaves (\<lambda>e. \<exists>c. e = WriteF (path_join directory ''result.json'') c)
     (record_result env network directory name client backend port args)"
  unfolding record_result_def Let_def
  apply (rule leaves_bindA_second, rule grows_all)+
  apply (rule leaves_seqA_second, rule grows_all)
  apply (rule leaves_bindA_second, rule grows_all)+
  apply (rule leaves_seqA_first, rule leaves_writeA, blast)
  apply (intro grows_all)
  done

lemma ordinaryR_server_arguments [ordinary_intros]: "ordinaryR (server_arguments engine c f)"
  by (simp add: server_arguments_def ordinaryR_def Let_def)

lemma ordinaryR_any_item [ordinary_intros]: "ordinaryR (any_item d ks)"
  by (induction ks) (auto intro!: ordinary_intros)

lemma ordinaryR_strong [ordinary_intros]:
  "ordinaryR (server_image args engine)" "ordinaryR (lookup table k)" "ordinaryR (last_line_json env out)"
  "ordinaryR (result_line env out)" "ordinaryR (exit_code_of out)" "ordinaryR (formats_f j)"
  unfolding server_image_def lookup_def last_line_json_def result_line_def exit_code_of_def formats_f_def
  by (auto intro!: ordinary_intros split: option.splits json.splits)

lemma ordinaryR_summary_line [ordinary_intros]: "ordinaryR (summary_line d)"
  unfolding summary_line_def by (intro ordinary_intros)

lemma ordinary_commands [ordinary_intros]:
  "ordinary (call env check t parts)" "ordinary (docker env check t parts)" "ordinary (cgroup env name)"
  "ordinary (stats env network name backend port img)" "ordinary (verify env network name backend port img)"
  "ordinary (running_state env container)"
  "ordinary (setup_server env engine name network directory args)"
  unfolding strong_defs setup_server_def flash_mount_def Let_def
  by (intro ordinary_intros; simp)+

lemma ordinary_measure [ordinary_intros]:
  "ordinary (wait_ready n env network name backend port img)"
  "ordinary (poll_start env client deadline)"
  "ordinary (record_result env network directory name client backend port args)"
  subgoal by (induction n) (auto intro!: ordinary_intros)
  subgoal unfolding poll_start_def Let_def by (intro ordinary_intros) simp_all
  subgoal unfolding record_result_def Let_def by (intro ordinary_intros)
  done

lemma ordinary_measure_run: "ordinary (measure_run env engine case_name repeat c network directory name client args)"
  unfolding measure_run_def Let_def by (intro ordinary_intros)

lemma returns_measure_run:
  "advancing env \<Longrightarrow> returns (measure_run env engine case_name repeat c network directory name client args)"
  unfolding measure_run_def Let_def by (intro returns_intros returns_await)

definition evidence :: "string \<Rightarrow> event \<Rightarrow> bool" where
  "evidence directory ev \<longleftrightarrow>
     (case ev of WriteF path c \<Rightarrow> path \<in> {path_join directory ''result.json'', path_join directory ''error.txt''}
      | _ \<Rightarrow> False)"

lemma leaves_weaken: "leaves P m \<Longrightarrow> (\<And>e. P e \<Longrightarrow> Q e) \<Longrightarrow> leaves Q m"
  unfolding leaves_def list_ex_iff by blast

lemmas grows_attempt_parts = emits_grows [OF emits_owned_measure_run] emits_grows [OF emits_owned_final_cleanup]

lemma leaves_measure_run:
  "leaves (evidence directory) (measure_run env engine case_name repeat c network directory name client args)"
proof -
  have "leaves (evidence directory) (record_result env network directory name client backend port args)"
    for backend port
    by (rule leaves_weaken [OF leaves_result]) (auto simp: evidence_def)
  then show ?thesis
    unfolding measure_run_def Let_def
    by (intro leaves_bindA_second leaves_seqA_second leaves_prod grows_all)
qed

lemma leaves_final_cleanup:
  assumes "x \<in> {name, client}"
  shows "leaves (\<lambda>e. e = Exec [''docker'', ''stop'', x] 30) (final_cleanup env engine directory name client args)"
    "leaves (\<lambda>e. e = Exec [''docker'', ''rm'', x] 30) (final_cleanup env engine directory name client args)"
proof -
  have "grows (whenA b (record_flash_usage env directory d))" for b d
    by (simp add: whenA_def grows_strong)
  with assms show
    "leaves (\<lambda>e. e = Exec [''docker'', ''stop'', x] 30) (final_cleanup env engine directory name client args)"
    "leaves (\<lambda>e. e = Exec [''docker'', ''rm'', x] 30) (final_cleanup env engine directory name client args)"
    unfolding final_cleanup_def
    by (auto intro!: leaves_seqA_first leaves_forA [where x = x] leaves_clean_up grows_clean_up simp del: forA.simps)
qed

lemma leaves_attempt:
  "leaves (evidence directory) (attempt env engine case_name repeat c network directory name client args)"
  unfolding attempt_def
  by (intro leaves_finallyA_first leaves_catchA leaves_measure_run leaves_writeA grows_attempt_parts)
    (simp add: evidence_def)

lemma leaves_attempt_removed:
  assumes "x \<in> {name, client}"
  shows "leaves (\<lambda>e. e = Exec [''docker'', ''stop'', x] 30)
      (attempt env engine case_name repeat c network directory name client args)"
    "leaves (\<lambda>e. e = Exec [''docker'', ''rm'', x] 30)
      (attempt env engine case_name repeat c network directory name client args)"
proof -
  have "grows (catchA (measure_run env engine case_name repeat c network directory name client args)
      (\<lambda>e. writeA env (path_join directory ''error.txt'') (Message e)))"
    unfolding grows_def by (intro emits_intros grows_attempt_parts(1) [unfolded grows_def] TrueI)
  note g = leaves_finallyA_second [OF this]
  show "leaves (\<lambda>e. e = Exec [''docker'', ''stop'', x] 30)
      (attempt env engine case_name repeat c network directory name client args)"
    "leaves (\<lambda>e. e = Exec [''docker'', ''rm'', x] 30)
      (attempt env engine case_name repeat c network directory name client args)"
    unfolding attempt_def by (rule g [OF leaves_final_cleanup(1) [OF assms]], rule g [OF leaves_final_cleanup(2) [OF assms]])
qed

lemma succeeds_attempt:
  assumes "advancing env" "quiet_cleanup env"
  shows "succeeds (attempt env engine case_name repeat c network directory name client args)"
  unfolding attempt_def
  by (intro succeeds_finally_catch returns_measure_run ordinary_measure_run quiet_file
      succeeds_final_cleanup assms)

lemma names_prefix: "prefix ''cstrong-'' (server_name engine u)" "prefix ''cstrong-client-'' (client_name u)"
  by (simp_all add: server_name_def client_name_def)

lemma run_once_attempt:
  fixes tr engine case_name repeat out_dir
  defines "dir \<equiv> run_directory out_dir case_name repeat engine"
  assumes "map_of CASES case_name = Some c" and "\<not> skips engine c" and "failure env tr (Mkdir dir) = None"
  shows "run_once env engine case_name repeat network out_dir args tr =
    attempt env engine case_name repeat c network dir (server_name engine (hex env (tr @ [Mkdir dir])))
      (client_name (hex env (tr @ [Mkdir dir, Fresh]))) args (tr @ [Mkdir dir, Fresh, Fresh])"
  using assms(2-) unfolding dir_def
  by (simp add: run_once_def lookup_def bindA_def seqA_def liftA_def fileA_def freshA_def Let_def)

lemma run_once_early:
  assumes "map_of CASES case_name = None \<or> (\<exists>c. map_of CASES case_name = Some c \<and> skips engine c)
    \<or> failure env tr (Mkdir (run_directory out_dir case_name repeat engine)) \<noteq> None"
  shows "\<exists>r. run_once env engine case_name repeat network out_dir args tr = Some (r, tr)"
  using assms
  by (auto simp: run_once_def lookup_def bindA_def seqA_def liftA_def fileA_def returnA_def Let_def
      split: option.splits)

text \<open>
  A run of the KV harness always comes back: whatever the containers do, \<open>run_once\<close> returns or
  raises, provided the monotonic clock advances while the program sleeps.
\<close>

theorem run_once_returns:
  assumes "advancing env"
  shows "\<exists>r tr'. run_once env engine case_name repeat network out_dir args tr = Some (r, tr')"
  by (rule returnsE [OF returns_run_once [OF assms]]) blast

theorem run_once_returns_witness:
  "\<exists>r tr'. run_once idle_env ''grpc'' ''hit_1k_c8'' 0 ''cstrong-net'' ''out'' strong_defaults [] = Some (r, tr')"
  using run_once_returns [OF idle_advancing] by blast

lemma run_once_events:
  assumes "run_once env engine case_name repeat network out_dir args tr = Some (r, tr')"
  shows "\<exists>name client es. tr' = tr @ es \<and> prefix ''cstrong-'' name \<and> prefix ''cstrong-client-'' client
    \<and> list_all (owned name client network (run_directory out_dir case_name repeat engine)) es"
proof (cases "\<exists>r. run_once env engine case_name repeat network out_dir args tr = Some (r, tr)")
  case True
  with assms have "tr' = tr @ []" by auto
  then show ?thesis using names_prefix by fastforce
next
  case False
  let ?dir = "run_directory out_dir case_name repeat engine"
  from False run_once_early obtain c where c: "map_of CASES case_name = Some c" "\<not> skips engine c"
    "failure env tr (Mkdir ?dir) = None"
    by (metis option.exhaust)
  let ?n = "server_name engine (hex env (tr @ [Mkdir ?dir]))"
  let ?k = "client_name (hex env (tr @ [Mkdir ?dir, Fresh]))"
  have "attempt env engine case_name repeat c network ?dir ?n ?k args (tr @ [Mkdir ?dir, Fresh, Fresh]) = Some (r, tr')"
    using assms run_once_attempt [OF c] by simp
  then obtain es where "tr' = (tr @ [Mkdir ?dir, Fresh, Fresh]) @ es" "list_all (owned ?n ?k network ?dir) es"
    by (rule emitsE [OF emits_owned_attempt])
  then show ?thesis
    by (intro exI [of _ ?n] exI [of _ ?k] exI [of _ "[Mkdir ?dir, Fresh, Fresh] @ es"])
      (simp add: names_prefix owned_def)
qed

text \<open>
  A run touches only what it owns. Every event of \<open>run_once\<close>, whatever the environment does and
  however the run ends, is a docker command on one of the two containers it named, a container it
  starts under these names or with \<open>--rm\<close> on the given network, or a file operation inside its own
  directory: no other container is stopped or removed, nothing is pruned.
\<close>

theorem run_once_owned:
  assumes "run_once env engine case_name repeat network out_dir args tr = Some (r, tr')"
  shows "\<exists>name client es. tr' = tr @ es \<and> prefix ''cstrong-'' name \<and> prefix ''cstrong-client-'' client
    \<and> list_all (owned name client network (run_directory out_dir case_name repeat engine)) es"
  using assms by (rule run_once_events)

theorem run_once_owned_witness:
  "\<exists>r tr' name client. run_once idle_env ''redis'' ''hit_1k_c8'' 0 ''cstrong-net'' ''out'' strong_defaults [] = Some (r, tr')
     \<and> list_all (owned name client ''cstrong-net'' (run_directory ''out'' ''hit_1k_c8'' 0 ''redis'')) tr'"
proof -
  obtain r tr' where run:
    "run_once idle_env ''redis'' ''hit_1k_c8'' 0 ''cstrong-net'' ''out'' strong_defaults [] = Some (r, tr')"
    by (rule returnsE [OF returns_run_once [OF idle_advancing]])
  from run_once_owned [OF this] run show ?thesis by auto
qed

text \<open>
  C2. A run that is not skipped leaves evidence and cleans up: if file operations work and docker's
  logs, stop and rm come back in time, \<open>run_once\<close> returns normally, a \<open>result.json\<close> or an \<open>error.txt\<close>
  was written in its directory, and both of its containers, the server and the client under the names made of the
  engine and the two identifiers drawn for the run, were stopped and removed, whatever failed in between.
\<close>

theorem run_once_evidence_and_cleanup:
  assumes "advancing env" and "quiet_cleanup env"
    and "map_of CASES case_name = Some c" and "\<not> skips engine c"
    and "dir = run_directory out_dir case_name repeat engine"
    and "server = server_name engine (hex env (tr @ [Mkdir dir]))" and "client = client_name (hex env (tr @ [Mkdir dir, Fresh]))"
  shows "\<exists>es. run_once env engine case_name repeat network out_dir args tr = Some (Inr (), tr @ [Mkdir dir, Fresh, Fresh] @ es)
    \<and> list_ex (evidence dir) es
    \<and> Exec [''docker'', ''stop'', server] 30 \<in> set es \<and> Exec [''docker'', ''rm'', server] 30 \<in> set es
    \<and> Exec [''docker'', ''stop'', client] 30 \<in> set es \<and> Exec [''docker'', ''rm'', client] 30 \<in> set es"
proof -
  define tr1 where "tr1 = tr @ [Mkdir dir, Fresh, Fresh]"
  have "failure env tr (Mkdir dir) = None" using assms(2) by (simp add: quiet_cleanup_def)
  then have run: "run_once env engine case_name repeat network out_dir args tr =
       attempt env engine case_name repeat c network dir server client args tr1"
    using run_once_attempt [OF assms(3,4)] by (simp add: assms(5-) tr1_def)
  obtain u tr' where a: "attempt env engine case_name repeat c network dir server client args tr1 = Some (Inr u, tr')"
    using succeeds_attempt [OF assms(1,2)] unfolding succeeds_def by blast
  obtain es where es: "tr' = tr1 @ es" "list_ex (evidence dir) es"
    using leaves_attempt a unfolding leaves_def by blast
  have "Exec [''docker'', verb, x] 30 \<in> set es" if "verb \<in> {''stop'', ''rm''}" "x \<in> {server, client}" for verb x
    using leaves_attempt_removed [OF that(2), of env engine case_name repeat c network dir args] that(1) a es(1)
    unfolding leaves_def list_ex_iff by fastforce
  with run a es show ?thesis by (intro exI [of _ es]) (simp add: tr1_def)
qed

lemma idle_quiet: "quiet_cleanup idle_env"
  by (simp add: quiet_cleanup_def idle_env_def)

theorem run_once_evidence_and_cleanup_witness:
  "\<exists>es. run_once idle_env ''grpc_nvm'' ''origin_uniform_64k_5ms'' 2 ''cstrong-net'' ''out'' strong_defaults [] = Some (Inr (), es)
   \<and> list_ex (evidence ''out/origin_uniform_64k_5ms/r2/grpc_nvm'') es
   \<and> (\<exists>u v. Exec [''docker'', ''rm'', ''cstrong-grpc-nvm-'' @ u] 30 \<in> set es \<and> Exec [''docker'', ''rm'', ''cstrong-client-'' @ v] 30 \<in> set es)"
proof -
  let ?c = "(65536, 2048, 8, ''uniform'', ''origin'', ''unary'', True, 5, ''closed'', 0) :: strong_case"
  have "map_of CASES ''origin_uniform_64k_5ms'' = Some ?c" by (simp add: CASES_lookup)
  moreover have "\<not> skips ''grpc_nvm'' ?c" by (simp add: skips_def case_operation_def)
  moreover have "''out/origin_uniform_64k_5ms/r2/grpc_nvm'' = run_directory ''out'' ''origin_uniform_64k_5ms'' 2 ''grpc_nvm''"
    by (simp add: run_directory_def path_join_def rep_name_def str_nat.simps digit_def)
  ultimately obtain es where es: "run_once idle_env ''grpc_nvm'' ''origin_uniform_64k_5ms'' 2 ''cstrong-net'' ''out'' strong_defaults []
      = Some (Inr (), [] @ [Mkdir ''out/origin_uniform_64k_5ms/r2/grpc_nvm'', Fresh, Fresh] @ es)"
      "list_ex (evidence ''out/origin_uniform_64k_5ms/r2/grpc_nvm'') es"
      "\<exists>u v. Exec [''docker'', ''rm'', server_name ''grpc_nvm'' u] 30 \<in> set es \<and> Exec [''docker'', ''rm'', client_name v] 30 \<in> set es"
    using run_once_evidence_and_cleanup [OF idle_advancing idle_quiet _ _ _ refl refl] by metis
  have "server_name ''grpc_nvm'' u = ''cstrong-grpc-nvm-'' @ take 8 u" "client_name u = ''cstrong-client-'' @ take 8 u" for u
    by (simp_all add: server_name_def client_name_def replace_underscores_def)
  with es show ?thesis by auto
qed

text \<open>
  C40. The limit of the cleanup: it handles the client first, and a \<open>docker stop\<close> of the client that runs
  into its 30 s timeout raises out of the \<open>finally\<close> block. The server is then neither stopped nor
  removed, its log and its backing file are not recorded, and the exception leaves \<open>run_once\<close>.
\<close>

theorem cleanup_timeout_abandons_server:
  assumes "respond env tr [''docker'', ''logs'', client] = Exited rc out err"
    and "respond env (tr @ [Exec [''docker'', ''logs'', client] 300]) [''docker'', ''stop'', client] = TimedOut"
    and "client \<noteq> name"
  shows "final_cleanup env engine directory name client args tr =
    Some (Inl TimeoutExpired, tr @ [Exec [''docker'', ''logs'', client] 300, Exec [''docker'', ''stop'', client] 30])"
  using assms
  by (simp add: final_cleanup_def clean_up_def strong_defs call_with_def bindA_def seqA_def whenA_def
      runA_def returnA_def Let_def)

text \<open>An environment in which \<open>docker stop\<close> hangs.\<close>

definition hanging_env :: env where
  "hanging_env = idle_env\<lparr>respond := (\<lambda>tr argv. if take 2 argv = [''docker'', ''stop''] then TimedOut else Exited 0 [] [])\<rparr>"

theorem cleanup_timeout_abandons_server_witness:
  "final_cleanup hanging_env ''grpc_nvm'' ''out'' ''cstrong-grpc-nvm-1'' ''cstrong-client-2'' strong_defaults [] =
    Some (Inl TimeoutExpired, [Exec [''docker'', ''logs'', ''cstrong-client-2''] 300,
      Exec [''docker'', ''stop'', ''cstrong-client-2''] 30])"
  using cleanup_timeout_abandons_server [of hanging_env "[]" "''cstrong-client-2''" 0 "[]" "[]" "''cstrong-grpc-nvm-1''"
      "''grpc_nvm''" "''out''" strong_defaults]
  by (simp add: hanging_env_def idle_env_def)

section \<open>The harness\<close>

text \<open>
  The manifest and the loop over the schedule. \<open>host\<close> is \<open>platform.platform()\<close> and
  \<open>platform.machine()\<close>, \<open>digest\<close> the hash of the runtime sources or the error of reading them.
\<close>

definition opt_str :: "string option \<Rightarrow> json" where
  "opt_str x = (case x of None \<Rightarrow> JNull | Some s \<Rightarrow> JStr s)"

definition configuration :: "strong_args \<Rightarrow> json" where
  "configuration a =
     JObj ([(''grpc_image'', opt_str (sa_grpc_image a)), (''go_client_image'', JStr (sa_go_client_image a)),
       (''correctness_client_image'', JStr (sa_correctness_client_image a))]
       @ map (\<lambda>e. (e @ ''_image'', opt_str (sa_engine_images a e))) BASE_ENGINES
       @ [(''engines'', JStr (sa_engines a)), (''cases'', JStr (sa_cases a)),
       (''reps'', JNum (of_int (sa_reps a))), (''seconds'', JNum (of_int (sa_seconds a))),
       (''warmup'', JNum (of_int (sa_warmup a))), (''cache_mb'', JNum (of_int (sa_cache_mb a))),
       (''memory_mb'', JNum (of_int (sa_memory_mb a))), (''flash_mb'', JNum (of_int (sa_flash_mb a))),
       (''discard_flash_files'', JBool (sa_discard_flash_files a)), (''output'', opt_str (sa_output a)),
       (''engine_images'', JObj (map (\<lambda>e. (e, opt_str (sa_engine_images a e)))
          (BASE_ENGINES @ [''memcached_extstore'', ''dragonfly_tiered'', ''garnet_storage''])))])"

definition safe_keys :: "string list" where
  "safe_keys = [''Architecture'', ''CgroupVersion'', ''Driver'', ''KernelVersion'', ''MemTotal'', ''NCPU'',
                ''OperatingSystem'', ''ServerVersion'']"

text \<open>\<open>int(info.get("NCPU", 0))\<close>\<close>

definition ncpu :: "dict \<Rightarrow> int res" where
  "ncpu info = (case get_or info ''NCPU'' (JNum 0) of
      JNum x \<Rightarrow> Inr (if x \<ge> 0 then \<lfloor>x\<rfloor> else \<lceil>x\<rceil>) | JBool b \<Rightarrow> Inr (if b then 1 else 0)
    | JStr s \<Rightarrow> int_of_string s | _ \<Rightarrow> Inl TypeError)"

definition write_manifest ::
  "('e) env_scheme \<Rightarrow> string \<times> string \<Rightarrow> string res \<Rightarrow> strong_args \<Rightarrow> string \<Rightarrow> string list
    \<Rightarrow> (string \<times> nat \<times> string) list \<Rightarrow> dict \<Rightarrow> unit act"
where
  "write_manifest env host digest args output engines runs info =
     bindA (liftA digest) (\<lambda>digest.
     bindA (askA (utc env)) (\<lambda>now.
     bindA (call env True 300 [''git'', ''rev-parse'', ''HEAD'']) (\<lambda>commit.
     bindA (call env True 300 [''git'', ''status'', ''--short'', ''--untracked-files=normal'']) (\<lambda>status.
     bindA (mapA (\<lambda>e. bindA (liftA (server_image args e)) (image_info env)) engines) (\<lambda>infos.
     bindA (image_info env (sa_go_client_image args)) (\<lambda>go.
     bindA (image_info env (sa_correctness_client_image args)) (\<lambda>python.
     writeA env (path_join output ''manifest.json'') (Doc (JObj
       [(''utc'', JStr now), (''host'', JStr (fst host)), (''host_arch'', JStr (snd host)),
        (''docker'', JObj (map (\<lambda>k. (k, get_or info k JNull)) safe_keys)),
        (''git_commit'', JStr (strip (stdout_of commit))), (''git_status'', JStr (stdout_of status)),
        (''runtime_source_sha256'', JStr digest), (''configuration'', configuration args),
        (''images'', JObj (zip engines infos)), (''go_client_image'', go),
        (''correctness_client_image'', python),
        (''schedule'', JArr (map (\<lambda>(c, r, e). JArr [JStr c, JNum (real r), JStr e]) runs)),
        (''host_ports_published'', JBool False)])))))))))"

definition run_schedule ::
  "('e) env_scheme \<Rightarrow> string \<Rightarrow> string \<Rightarrow> strong_args \<Rightarrow> (string \<times> nat \<times> string) list \<Rightarrow> unit act"
where
  "run_schedule env network output args runs =
     finallyA (forA runs (\<lambda>(c, r, e). run_once env e c r network output args))
       (seqA (docker env False 300 [''network'', ''rm'', network]) (returnA ()))"

definition strong_main ::
  "('e) env_scheme \<Rightarrow> ('s, 'm) rng_scheme \<Rightarrow> string \<times> string \<Rightarrow> string res \<Rightarrow> string list \<Rightarrow> unit act"
where
  "strong_main env g host digest argv =
     bindA (liftA (strong_cli argv)) (\<lambda>(args, cases, engines).
     let output = the (sa_output args); runs = schedule g cases (nat (sa_reps args)) engines in
     seqA (fileA env (Mkdir output))
     (bindA (docker env True 300 [''info'', ''--format'', ''{{json .}}'']) (\<lambda>p.
     bindA (liftA (bindR (json_loads env (stdout_of p)) dict_of)) (\<lambda>info.
     bindA (liftA (ncpu info)) (\<lambda>n.
     if n < 8
     then raiseA (ParserError ''strong harness requires at least 8 Docker CPUs for disjoint server/client cpusets'')
     else seqA (write_manifest env host digest args output engines runs info)
     (bindA (freshA env) (\<lambda>u. let network = ''cstrong-'' @ take 10 u in
     seqA (docker env True 300 [''network'', ''create'', ''--internal'', network])
     (run_schedule env network output args runs))))))))"

lemma run_once_leaves:
  assumes "map_of CASES c = Some k" and "\<not> skips e k"
  shows "leaves (evidence (run_directory output c r e)) (run_once env e c r network output args)"
  unfolding leaves_def
proof (intro allI impI)
  let ?dir = "run_directory output c r e"
  fix tr x tr' assume run: "run_once env e c r network output args tr = Some (Inr x, tr')"
  then have f: "failure env tr (Mkdir ?dir) = None"
    using assms by (auto simp: run_once_def lookup_def bindA_def seqA_def liftA_def fileA_def Let_def
        split: option.splits)
  from run [unfolded run_once_attempt [OF assms f]] leaves_attempt
  obtain es where "tr' = (tr @ [Mkdir ?dir, Fresh, Fresh]) @ es" "list_ex (evidence ?dir) es"
    unfolding leaves_def by blast
  then show "\<exists>es. tr' = tr @ es \<and> list_ex (evidence ?dir) es"
    by (intro exI [of _ "[Mkdir ?dir, Fresh, Fresh] @ es"]) simp
qed

lemma grows_run_once: "grows (run_once env e c r network output args)"
  unfolding grows_def emits_def using run_once_events by (fastforce simp: list_all_iff)

text \<open>Whether \<open>run_once\<close> measures a scheduled run rather than leaving it out.\<close>

definition measured :: "string \<times> nat \<times> string \<Rightarrow> bool" where
  "measured run = (case run of (c, r, e) \<Rightarrow>
     (case map_of CASES c of None \<Rightarrow> False | Some k \<Rightarrow> \<not> skips e k))"

definition has_evidence :: "string \<Rightarrow> trace \<Rightarrow> string \<times> nat \<times> string \<Rightarrow> bool" where
  "has_evidence output es run = (case run of (c, r, e) \<Rightarrow> list_ex (evidence (run_directory output c r e)) es)"

lemma succeeds_run_once:
  assumes "advancing env" "quiet_cleanup env" "map_of CASES c \<noteq> None"
  shows "succeeds (run_once env e c r network output args)"
  unfolding succeeds_def
proof
  fix tr
  obtain k where k: "map_of CASES c = Some k" using assms(3) by blast
  have f: "failure env tr (Mkdir (run_directory output c r e)) = None"
    using assms(2) by (simp add: quiet_cleanup_def)
  show "\<exists>x tr'. run_once env e c r network output args tr = Some (Inr x, tr')"
  proof (cases "skips e k")
    case True
    with k show ?thesis by (simp add: run_once_def lookup_def bindA_def liftA_def returnA_def)
  next
    case False
    then show ?thesis
      using run_once_attempt [OF k False f] succeeds_attempt [OF assms(1,2)] by (simp add: succeeds_def)
  qed
qed

lemma leaves_schedule:
  assumes "run \<in> set runs" and "measured run"
  shows "leaves (\<lambda>ev. has_evidence output [ev] run) (forA runs (\<lambda>(c, r, e). run_once env e c r network output args))"
proof (rule leaves_forA [OF assms(1)])
  obtain c r e where run: "run = (c, r, e)" by (cases run)
  with assms(2) obtain k where "map_of CASES c = Some k" "\<not> skips e k"
    by (auto simp: measured_def split: option.splits)
  then show "leaves (\<lambda>ev. has_evidence output [ev] run) (case run of (c, r, e) \<Rightarrow> run_once env e c r network output args)"
    using run_once_leaves [of c k e "output" r env network args] by (simp add: run has_evidence_def)
qed (auto simp: grows_run_once split: prod.splits)

lemma has_evidence_ex: "list_ex (\<lambda>ev. has_evidence output [ev] run) es \<Longrightarrow> has_evidence output es run"
  by (auto simp: has_evidence_def list_ex_iff split: prod.splits)

lemma docker_events: "docker env check t parts tr = Some (r, tr') \<Longrightarrow> tr' = tr @ [Exec (''docker'' # parts) t]"
  by (auto simp: strong_defs call_with_def bindA_def runA_def raiseA_def returnA_def Let_def
      split: outcome.splits if_splits)

lemma run_schedule_complete:
  assumes "advancing env" "quiet_cleanup env" "\<And>c r e. (c, r, e) \<in> set runs \<Longrightarrow> map_of CASES c \<noteq> None"
  obtains r es where "run_schedule env network output args runs tr = Some (r, tr @ es)"
    and "\<And>run. run \<in> set runs \<Longrightarrow> measured run \<Longrightarrow> has_evidence output es run"
    and "Exec [''docker'', ''network'', ''rm'', network] 300 \<in> set es"
proof -
  let ?body = "forA runs (\<lambda>(c, r, e). run_once env e c r network output args)"
  have "succeeds ?body"
    by (rule succeeds_forA) (use assms(3) in \<open>auto intro!: succeeds_run_once [OF assms(1,2)]\<close>)
  then obtain tr1 where body: "?body tr = Some (Inr (), tr1)" by (auto simp: succeeds_def)
  have "grows ?body" unfolding grows_def
    by (rule emits_forA) (auto simp: grows_run_once [unfolded grows_def] split: prod.splits)
  from growsE [OF this body] obtain es where es: "tr1 = tr @ es" .
  have ev: "has_evidence output es run" if "run \<in> set runs" "measured run" for run
    using leaves_schedule [OF that] body es has_evidence_ex unfolding leaves_def by blast
  obtain q tr2 where net: "docker env False 300 [''network'', ''rm'', network] tr1 = Some (q, tr2)"
    by (rule returnsE [OF returns_commands(2)])
  then have tr2: "tr2 = tr @ es @ [Exec [''docker'', ''network'', ''rm'', network] 300]"
    using docker_events es by fastforce
  have "\<exists>r. run_schedule env network output args runs tr = Some (r, tr2)"
    using body net by (cases q) (simp_all add: run_schedule_def finallyA_def seqA_def bindA_def returnA_def)
  then show thesis
    using that [of _ "es @ [Exec [''docker'', ''network'', ''rm'', network] 300]"] tr2 ev
    by (auto simp: has_evidence_def split: prod.splits)
qed

text \<open>
  One failing run never costs another: the loop over the schedule comes back; every scheduled run
  that the harness measures has a \<open>result.json\<close> or an \<open>error.txt\<close> in its directory, and the network of
  the campaign is removed at the end.
\<close>

theorem schedule_leaves_evidence:
  assumes "advancing env" "quiet_cleanup env" and "list_all (\<lambda>(c, r, e). map_of CASES c \<noteq> None) runs"
  shows "\<exists>r es. run_schedule env network output args runs tr = Some (r, tr @ es)
    \<and> list_all (\<lambda>run. measured run \<longrightarrow> has_evidence output es run) runs
    \<and> Exec [''docker'', ''network'', ''rm'', network] 300 \<in> set es"
  by (rule run_schedule_complete [OF assms(1,2), of runs network "output" args tr])
    (use assms(3) in \<open>auto simp: list_all_iff\<close>)

theorem schedule_leaves_evidence_witness:
  "\<exists>r es. run_schedule idle_env ''cstrong-net'' ''out'' strong_defaults
       [(''hit_1k_c8'', 0, ''redis''), (''pipeline_1k_c8'', 0, ''grpc'')] [] = Some (r, es)
    \<and> has_evidence ''out'' es (''pipeline_1k_c8'', 0, ''grpc'')"
proof -
  have "measured (''pipeline_1k_c8'', 0, ''grpc'')"
    by (simp add: measured_def CASES_lookup skips_def case_operation_def)
  moreover have "list_all (\<lambda>(c, r, e). map_of CASES c \<noteq> None)
      [(''hit_1k_c8'', 0, ''redis''), (''pipeline_1k_c8'', 0, ''grpc'')]"
    by (simp add: CASES_lookup) blast
  ultimately show ?thesis
    using schedule_leaves_evidence [OF idle_advancing idle_quiet, of
      "[(''hit_1k_c8'', 0, ''redis''), (''pipeline_1k_c8'', 0, ''grpc'')]" "''cstrong-net''" "''out''" strong_defaults "[]"]
    by auto
qed

end
