(* ===== verification/Matrix_Run.thy ===== *)
theory Matrix_Run
  imports Strong_Run
begin

text \<open>
  The first harness of the repository, \<open>bench/investigation/run_matrix.py\<close>: one container per case, a
  client container for every question, and the evidence of a case in its own directory. It is written
  against the actions of \<open>Effects\<close>, like its successor in \<open>Strong_Run\<close>, whose helpers for paths, commands and
  evidence it shares. Values that the client prints are JSON; a comparison of counters that are not
  numbers raises \<open>TypeError\<close>.
\<close>

section \<open>Commands\<close>

definition MATRIX_IMAGES :: "(string \<times> string) list" where
  "MATRIX_IMAGES =
     [(''redis'', ''redis:8.2-alpine''), (''valkey'', ''valkey/valkey:8.1-alpine''),
      (''memcached'', ''memcached:1.6-alpine''), (''memcached_extstore'', ''memcached:1.6-alpine'')]"

definition matrix_command :: "('e) env_scheme \<Rightarrow> bool \<Rightarrow> int \<Rightarrow> string list \<Rightarrow> completed act" where
  "matrix_command env check timeout parts =
     bindA (runA env timeout parts) (\<lambda>(rc, out, err).
       if check \<and> rc \<noteq> 0 then raiseA (CommandFailed parts rc (last_n 1500 err)) else returnA (rc, out, err))"

definition matrix_docker :: "('e) env_scheme \<Rightarrow> bool \<Rightarrow> int \<Rightarrow> string list \<Rightarrow> completed act" where
  "matrix_docker env check timeout parts = matrix_command env check timeout (''docker'' # parts)"

definition matrix_image_info :: "('e) env_scheme \<Rightarrow> string \<Rightarrow> json act" where
  "matrix_image_info env name =
     bindA (matrix_docker env True 180 [''image'', ''inspect'', name, ''--format'', ''{{json .}}'']) (\<lambda>p.
     bindA (liftA (bindR (json_loads env (stdout_of p)) dict_of)) (\<lambda>raw.
     bindA (liftA (item raw ''Id'')) (\<lambda>i.
     bindA (liftA (dict_of (get_or raw ''Config'' (JObj [])))) (\<lambda>config.
       returnA (JObj [(''id'', i), (''repo_digests'', get_or raw ''RepoDigests'' JNull),
                      (''labels'', get_or config ''Labels'' JNull),
                      (''architecture'', get_or raw ''Architecture'' JNull)])))))"

definition environment_keys :: "string list" where
  "environment_keys =
     [''Architecture'', ''CgroupDriver'', ''CgroupVersion'', ''Driver'', ''KernelVersion'', ''MemTotal'', ''NCPU'', ''OSType'',
      ''OperatingSystem'', ''OSVersion'', ''ServerVersion'']"

definition docker_environment :: "('e) env_scheme \<Rightarrow> json act" where
  "docker_environment env =
     bindA (matrix_docker env True 180 [''info'', ''--format'', ''{{json .}}'']) (\<lambda>p.
     bindA (liftA (bindR (json_loads env (stdout_of p)) dict_of)) (\<lambda>raw.
       returnA (JObj (map (\<lambda>k. (k, get_or raw k JNull)) environment_keys))))"

definition matrix_cgroup :: "('e) env_scheme \<Rightarrow> string \<Rightarrow> string option act" where
  "matrix_cgroup env name =
     bindA (matrix_docker env False 180 [''exec'', name, ''sh'', ''-c'',
         ''cat /sys/fs/cgroup/cpu.stat /sys/fs/cgroup/memory.current /sys/fs/cgroup/io.stat'']) (\<lambda>p.
       returnA (if fst p = 0 then Some (stdout_of p) else None))"

definition question_command :: "string \<Rightarrow> string \<Rightarrow> string \<Rightarrow> nat \<Rightarrow> string \<Rightarrow> string list \<Rightarrow> string \<Rightarrow> string list" where
  "question_command network name backend port verb args cpuset =
     [''run'', ''--rm'', ''--network'', network, ''--cpus'', ''2'', ''--memory'', ''768m'', ''--cpuset-cpus'', cpuset,
      ''cachelib-investigation-client:local'', verb, ''--backend'', backend, ''--host'', name, ''--port'', str_nat port] @ args"

definition question ::
  "('e) env_scheme \<Rightarrow> string \<Rightarrow> string \<Rightarrow> string \<Rightarrow> nat \<Rightarrow> string \<Rightarrow> string list \<Rightarrow> string \<Rightarrow> int \<Rightarrow> json act"
where
  "question env network name backend port verb args cpuset timeout =
     bindA (matrix_docker env False timeout (question_command network name backend port verb args cpuset)) (\<lambda>p.
       if fst p \<noteq> 0
       then raiseA (RuntimeError (''client failed: '' @ last_n 1500 (if stderr_of p \<noteq> [] then stderr_of p else stdout_of p)))
       else liftA (last_line_json env (stdout_of p)))"

section \<open>The server of a case\<close>

definition is_grpc :: "string \<Rightarrow> bool" where
  "is_grpc engine \<longleftrightarrow> prefix ''grpc'' engine"

definition matrix_image :: "string \<Rightarrow> string \<Rightarrow> string res" where
  "matrix_image grpc_image engine = (if is_grpc engine then Inr grpc_image else lookup MATRIX_IMAGES engine)"

definition matrix_backend :: "string \<Rightarrow> string" where
  "matrix_backend engine =
     (if is_grpc engine then ''grpc'' else if prefix ''memcached'' engine then ''memcached'' else engine)"

definition matrix_port :: "string \<Rightarrow> nat" where
  "matrix_port backend = (if backend = ''grpc'' then 50051 else if backend = ''memcached'' then 11211 else 6379)"

record matrix_limits =
  ml_ram_mb :: int
  ml_flash_mb :: int
  ml_container_memory_mb :: int
  ml_server_cpuset :: string
  ml_client_cpuset :: string

definition matrix_options :: "string \<Rightarrow> int \<Rightarrow> int \<Rightarrow> string list" where
  "matrix_options engine ram_mb flash_mb =
     (if is_grpc engine then
        [''--cache_size='' @ str_int (ram_mb * 1048576), ''--metrics_port=0'', ''--nvm_reader_threads=4'', ''--nvm_writer_threads=4'']
        @ (if engine = ''grpc_nvm''
           then [''--enable_nvm=true'', ''--enable_io_uring=false'', ''--nvm_path=/data/navy'',
                 ''--nvm_size='' @ str_int (flash_mb * 1048576)] else [])
      else if engine \<in> {''redis'', ''valkey''} then
        [''--save'', [], ''--appendonly'', ''no'', ''--maxmemory'', str_int (ram_mb * 1048576), ''--maxmemory-policy'', ''allkeys-lru'']
      else
        [''-m'', str_int ram_mb, ''-t'', ''4'', ''-I'', ''5m'', ''-U'', ''0'']
        @ (if engine = ''memcached_extstore''
           then [''-o'', ''ext_path=/data/extstore:'' @ str_int flash_mb @ ''m,ext_item_size=2048,ext_wbuf_size=8''] else []))"

definition matrix_server_command ::
  "string \<Rightarrow> string \<Rightarrow> matrix_limits \<Rightarrow> string list \<Rightarrow> string \<Rightarrow> string list \<Rightarrow> string list"
where
  "matrix_server_command name network l mount img options =
     [''run'', ''-d'', ''--name'', name, ''--network'', network, ''--cpus'', ''4'', ''--cpuset-cpus'', ml_server_cpuset l,
      ''--memory'', str_int (ml_container_memory_mb l) @ ''m'', ''--memory-swap'', str_int (ml_container_memory_mb l) @ ''m'']
     @ mount @ [img] @ options"

definition matrix_mount :: "('e) env_scheme \<Rightarrow> string \<Rightarrow> string \<Rightarrow> string list act" where
  "matrix_mount env engine directory =
     (let flash = path_join directory ''flash'' in
      if engine \<in> {''grpc_nvm'', ''memcached_extstore''}
      then seqA (fileA env (Mkdir flash)) (returnA [''--mount'', ''type=bind,src='' @ resolve env flash @ '',dst=/data''])
      else returnA [])"

text \<open>The image is looked up first, and the command line is returned to be recorded after the container runs.\<close>

definition setup_case ::
  "('e) env_scheme \<Rightarrow> string \<Rightarrow> string \<Rightarrow> string \<Rightarrow> string \<Rightarrow> string \<Rightarrow> matrix_limits \<Rightarrow> (string \<times> nat \<times> string list) act"
where
  "setup_case env engine name network directory grpc_image l =
     bindA (liftA (matrix_image grpc_image engine)) (\<lambda>img.
     bindA (matrix_mount env engine directory) (\<lambda>mount.
     let backend = matrix_backend engine;
         args = matrix_server_command name network l mount img (matrix_options engine (ml_ram_mb l) (ml_flash_mb l)) in
     seqA (matrix_docker env True 180 args) (returnA (backend, matrix_port backend, args))))"

section \<open>Cases\<close>

type_synonym matrix_case = "string \<times> string \<times> string \<times> nat \<times> nat \<times> nat \<times> nat \<times> nat"

definition matrix_cases :: "string \<Rightarrow> matrix_case list" where
  "matrix_cases level =
     (if level = ''pilot'' then [(''hit_1k'', ''hit'', ''uniform'', 1024, 128, 500, 1, 0)]
      else
       [(''hit_100b'', ''hit'', ''uniform'', 100, 1000, 3000, 1, 0),
        (''hit_1k_c1'', ''hit'', ''uniform'', 1024, 1000, 3000, 1, 0),
        (''hit_1k_c8'', ''hit'', ''uniform'', 1024, 1000, 3000, 8, 0),
        (''mixed_1k_90r10w'', ''mixed'', ''skew'', 1024, 1000, 3000, 1, 0),
        (''batch_1k_16'', ''hit'', ''uniform'', 1024, 1000, 3200, 1, 0),
        (''pipeline_1k_16'', ''hit'', ''uniform'', 1024, 1000, 3200, 1, 0),
        (''hit_16k'', ''hit'', ''uniform'', 16384, 1000, 2500, 1, 0),
        (''hit_64k'', ''hit'', ''uniform'', 65536, 500, 2000, 1, 0),
        (''media_256k'', ''hit'', ''uniform'', 262144, 160, 1000, 1, 0),
        (''media_1m'', ''hit'', ''uniform'', 1048576, 40, 500, 1, 0),
        (''near_limit'', ''hit'', ''uniform'', 4193000, 2, 20, 1, 0),
        (''origin_skew_64k'', ''origin'', ''skew'', 65536, 2048, 3500, 1, 5),
        (''origin_uniform_64k'', ''origin'', ''uniform'', 65536, 2048, 3500, 1, 5),
        (''steady_uniform_64k'', ''origin'', ''uniform'', 65536, 2048, 5000, 1, 5),
        (''origin_shift_64k'', ''origin'', ''hot_shift'', 65536, 2048, 3500, 1, 5),
        (''origin_onepass_64k'', ''origin'', ''one_pass'', 65536, 2048, 500, 1, 5),
        (''bypass_onepass_64k'', ''bypass'', ''one_pass'', 65536, 2048, 500, 1, 5)])"

definition case_verb :: "string \<Rightarrow> string" where
  "case_verb lab = (if prefix ''batch_'' lab \<or> prefix ''pipeline_'' lab then ''batch'' else ''run'')"

definition case_options :: "matrix_case \<Rightarrow> string \<Rightarrow> string list" where
  "case_options c run_id = (case c of (lab, mode, pattern, bytes, objects, requests, concurrency, origin_ms) \<Rightarrow>
     [''--run-id'', run_id, ''--mode'', mode, ''--pattern'', pattern, ''--value-bytes'', str_nat bytes, ''--objects'', str_nat objects,
      ''--requests'', str_nat requests, ''--concurrency'', str_nat concurrency, ''--origin-ms'', str_nat origin_ms,
      ''--warmup'', if prefix ''steady_'' lab then ''1000'' else ''200'']
     @ (if prefix ''steady_'' lab then [''--preload''] else [])
     @ (if prefix ''pipeline_'' lab then [''--batch-kind'', ''pipeline''] else []))"

section \<open>One case\<close>

primrec matrix_ready :: "nat \<Rightarrow> ('e) env_scheme \<Rightarrow> string \<Rightarrow> string \<Rightarrow> string \<Rightarrow> nat \<Rightarrow> string \<Rightarrow> unit act" where
  "matrix_ready 0 env network name backend port cpuset = raiseA (RuntimeError ''server did not become ready'')"
| "matrix_ready (Suc n) env network name backend port cpuset =
     bindA (matrix_docker env False 180 [''inspect'', ''-f'', ''{{.State.Running}}'', name]) (\<lambda>state.
       if strip (stdout_of state) = ''false'' then raiseA (RuntimeError ''server exited before readiness'')
       else bindA (catchA (seqA (question env network name backend port ''stats'' [] cpuset 20) (returnA True))
                    (\<lambda>e. seqA (sleepA 1) (returnA False))) (\<lambda>up.
            if up then returnA () else matrix_ready n env network name backend port cpuset))"

text \<open>\<open>result[k]\<close> on what the client printed, and the two counters the proof of flash hits compares.\<close>

definition result_dict :: "json \<Rightarrow> dict res" where
  "result_dict j = (case j of JObj d \<Rightarrow> Inr d | _ \<Rightarrow> Inl TypeError)"

definition nvm_hits :: "dict \<Rightarrow> string \<Rightarrow> real res" where
  "nvm_hits d k = bindR (item d k) (\<lambda>s. bindR (dict_of s) (\<lambda>s. num_of (get_or s ''nvm_hit_count'' (JNum 0))))"

definition nvm_proof :: "json \<Rightarrow> string res" where
  "nvm_proof result =
     bindR (result_dict result) (\<lambda>d. bindR (nvm_hits d ''stats_after'') (\<lambda>a. bindR (nvm_hits d ''stats_before'') (\<lambda>b.
       Inr ((if a \<le> b then ''No measured NVM hit in this run; flash benefit unproven.''
             else ''NVM hit counter increased during measurement.'') @ [CHR 0x0A]))))"

definition matrix_line :: "json \<Rightarrow> unit res" where
  "matrix_line result =
     bindR (result_dict result) (\<lambda>d. bindR (item d ''successful_ops_s'') (\<lambda>v. bindR (formats_f v) (\<lambda>u.
     bindR (if map_of d ''object_hits'' = None then Inr () else bindR (item d ''read_operations'') (\<lambda>v. Inr ())) (\<lambda>u.
     bindR (item d ''errors'') (\<lambda>v. Inr ())))))"

definition measure_case ::
  "('e) env_scheme \<Rightarrow> string \<Rightarrow> string \<Rightarrow> string \<Rightarrow> string \<Rightarrow> string \<Rightarrow> matrix_limits \<Rightarrow> matrix_case \<Rightarrow> string \<Rightarrow> unit act"
where
  "measure_case env engine network name directory grpc_image l c run_id =
     (let file = path_join directory; cpuset = ml_client_cpuset l in
      bindA (setup_case env engine name network directory grpc_image l) (\<lambda>(backend, port, argv).
      seqA (writeA env (file ''server-command.json'') (Doc (JStrs argv)))
      (seqA (matrix_ready 60 env network name backend port cpuset)
      (bindA (question env network name backend port ''verify'' [] cpuset 300) (\<lambda>verification.
      seqA (writeA env (file ''correctness.json'') (Doc verification))
      (bindA (matrix_cgroup env name) (\<lambda>before.
      bindA (question env network name backend port (case_verb (fst c)) (case_options c run_id) cpuset 600) (\<lambda>result.
      bindA (matrix_cgroup env name) (\<lambda>after.
      seqA (writeA env (file ''result.json'') (Doc result))
      (seqA (writeA env (file ''cgroup-before.txt'') (Text (case before of None \<Rightarrow> [] | Some t \<Rightarrow> t)))
      (seqA (writeA env (file ''cgroup-after.txt'') (Text (case after of None \<Rightarrow> [] | Some t \<Rightarrow> t)))
      (bindA (matrix_docker env True 180 [''inspect'', name]) (\<lambda>inspected.
      seqA (writeA env (file ''docker-inspect.json'') (Text (stdout_of inspected)))
      (seqA (whenA (engine = ''grpc_nvm'' \<and> fst (snd c) = ''origin'')
              (bindA (liftA (nvm_proof result)) (\<lambda>t. writeA env (file ''nvm-proof.txt'') (Text t))))
      (liftA (matrix_line result))))))))))))))))"

definition record_failure :: "('e) env_scheme \<Rightarrow> string \<Rightarrow> string \<Rightarrow> exn \<Rightarrow> unit act" where
  "record_failure env directory name e =
     seqA (writeA env (path_join directory ''error.txt'') (Message e))
     (bindA (matrix_docker env False 180 [''logs'', name]) (\<lambda>logs.
      writeA env (path_join directory ''server.log'') (Text (stdout_of logs @ stderr_of logs))))"

definition remove_case :: "('e) env_scheme \<Rightarrow> string \<Rightarrow> unit act" where
  "remove_case env name =
     seqA (matrix_docker env False 30 [''stop'', name])
     (seqA (matrix_docker env False 30 [''rm'', name]) (returnA ()))"

definition case_name :: "string \<Rightarrow> string \<Rightarrow> string" where
  "case_name engine u = ''clinv-'' @ replace_underscores engine @ ''-'' @ take 8 u"

definition case_run_id :: "matrix_case \<Rightarrow> nat \<Rightarrow> string" where
  "case_run_id c rep = fst c @ ''-'' @ str_nat rep"

definition case_directory :: "string \<Rightarrow> string \<Rightarrow> matrix_case \<Rightarrow> nat \<Rightarrow> string" where
  "case_directory out engine c rep = path_join (path_join out engine) (case_run_id c rep)"

definition run_case ::
  "('e) env_scheme \<Rightarrow> string \<Rightarrow> string \<Rightarrow> string \<Rightarrow> string \<Rightarrow> matrix_limits \<Rightarrow> matrix_case \<Rightarrow> nat \<Rightarrow> unit act"
where
  "run_case env engine network out grpc_image l c rep =
     bindA (freshA env) (\<lambda>u.
     let name = case_name engine u; directory = case_directory out engine c rep in
     seqA (fileA env (Mkdir directory))
     (finallyA
       (catchA (measure_case env engine network name directory grpc_image l c (case_run_id c rep))
          (record_failure env directory name))
       (remove_case env name)))"

section \<open>The matrix\<close>

record matrix_args =
  ma_engines :: string
  ma_grpc_image :: string
  ma_output :: string
  ma_level :: string
  ma_ram_mb :: int
  ma_ram_map :: "string option"
  ma_container_memory_mb :: int
  ma_server_cpuset :: string
  ma_client_cpuset :: string
  ma_flash_mb :: int
  ma_case :: "string option"

text \<open>\<open>dict((engine, int(value)) for engine, value in (entry.split(":", 1) ...))\<close>; a later entry wins.\<close>

definition ram_entry :: "string \<Rightarrow> (string \<times> int) res" where
  "ram_entry entry = (case split_once '':'' entry of
     None \<Rightarrow> Inl (ValueError ''not enough values to unpack'')
   | Some (engine, n) \<Rightarrow> bindR (int_of_string n) (\<lambda>i. Inr (engine, i)))"

definition ram_map :: "string option \<Rightarrow> (string \<times> int) list res" where
  "ram_map arg = (case arg of None \<Rightarrow> Inr [] | Some t \<Rightarrow> if t = [] then Inr [] else mapR ram_entry (split_on CHR '','' t))"

definition matrix_reps :: "string \<Rightarrow> string \<Rightarrow> nat" where
  "matrix_reps level lab =
     (if level = ''matrix'' \<and> lab \<in> {''hit_1k_c1'', ''origin_skew_64k'', ''origin_uniform_64k'', ''steady_uniform_64k''} then 2 else 1)"

definition matrix_skips :: "matrix_args \<Rightarrow> string \<Rightarrow> matrix_case \<Rightarrow> bool" where
  "matrix_skips args engine c = (case c of (lab, mode, pattern, bytes, rest) \<Rightarrow>
     (case ma_case args of None \<Rightarrow> False | Some only \<Rightarrow> only \<noteq> [] \<and> lab \<noteq> only)
     \<or> prefix ''pipeline_'' lab \<and> \<not> is_grpc engine
     \<or> engine = ''memcached_extstore'' \<and> bytes < 2048)"

definition matrix_runs :: "matrix_args \<Rightarrow> (string \<times> matrix_case \<times> nat) list" where
  "matrix_runs args =
     [(e, c, r). e \<leftarrow> split_on CHR '','' (ma_engines args), c \<leftarrow> matrix_cases (ma_level args), \<not> matrix_skips args e c,
                 r \<leftarrow> [0..<matrix_reps (ma_level args) (fst c)]]"

definition limits_for :: "matrix_args \<Rightarrow> (string \<times> int) list \<Rightarrow> string \<Rightarrow> matrix_limits" where
  "limits_for args rams engine =
     \<lparr>ml_ram_mb = (case map_of (rev rams) engine of None \<Rightarrow> ma_ram_mb args | Some n \<Rightarrow> n), ml_flash_mb = ma_flash_mb args,
      ml_container_memory_mb = ma_container_memory_mb args, ml_server_cpuset = ma_server_cpuset args,
      ml_client_cpuset = ma_client_cpuset args\<rparr>"

definition matrix_configuration :: "matrix_args \<Rightarrow> json" where
  "matrix_configuration a =
     JObj [(''engines'', JStr (ma_engines a)), (''grpc_image'', JStr (ma_grpc_image a)), (''output'', JStr (ma_output a)),
       (''level'', JStr (ma_level a)), (''ram_mb'', JNum (of_int (ma_ram_mb a))), (''ram_map'', opt_str (ma_ram_map a)),
       (''container_memory_mb'', JNum (of_int (ma_container_memory_mb a))), (''server_cpuset'', JStr (ma_server_cpuset a)),
       (''client_cpuset'', JStr (ma_client_cpuset a)), (''flash_mb'', JNum (of_int (ma_flash_mb a))), (''case'', opt_str (ma_case a))]"

definition matrix_manifest :: "('e) env_scheme \<Rightarrow> string \<times> string \<Rightarrow> matrix_args \<Rightarrow> string list \<Rightarrow> unit act" where
  "matrix_manifest env host args engines =
     bindA (askA (utc env)) (\<lambda>now.
     bindA (matrix_docker env True 180 [''version'', ''--format'', ''{{json .}}'']) (\<lambda>version.
     bindA (docker_environment env) (\<lambda>info.
     bindA (matrix_image_info env ''cachelib-investigation-client:local'') (\<lambda>client.
     bindA (mapA (\<lambda>e. bindA (liftA (matrix_image (ma_grpc_image args) e)) (matrix_image_info env)) engines) (\<lambda>infos.
     bindA (matrix_command env True 180 [''git'', ''rev-parse'', ''HEAD'']) (\<lambda>commit.
     writeA env (path_join (ma_output args) ''manifest.json'') (Doc (JObj
       [(''utc'', JStr now), (''host'', JStr (fst host)), (''host_arch'', JStr (snd host)), (''docker_version'', JStr (stdout_of version)),
        (''docker_info'', info), (''client_image'', client), (''images'', JObj (zip engines infos)),
        (''configuration'', matrix_configuration args), (''git_commit'', JStr (strip (stdout_of commit)))]))))))))"

definition run_cases :: "('e) env_scheme \<Rightarrow> string \<Rightarrow> matrix_args \<Rightarrow> (string \<times> int) list \<Rightarrow> unit act" where
  "run_cases env network args rams =
     finallyA (forA (matrix_runs args) (\<lambda>(e, c, r).
         run_case env e network (ma_output args) (ma_grpc_image args) (limits_for args rams e) c r))
       (seqA (matrix_docker env False 180 [''network'', ''rm'', network]) (returnA ()))"

definition matrix_main :: "('e) env_scheme \<Rightarrow> string \<times> string \<Rightarrow> matrix_args \<Rightarrow> unit act" where
  "matrix_main env host args =
     seqA (fileA env (Mkdir (ma_output args)))
     (bindA (liftA (ram_map (ma_ram_map args))) (\<lambda>rams.
     seqA (matrix_manifest env host args (split_on CHR '','' (ma_engines args)))
     (bindA (freshA env) (\<lambda>u. let network = ''clinv-'' @ take 12 u in
     seqA (matrix_docker env True 180 [''network'', ''create'', ''--internal'', network])
     (run_cases env network args rams)))))"

section \<open>A case touches only what it owns\<close>

definition case_command :: "string \<Rightarrow> string \<Rightarrow> string list \<Rightarrow> bool" where
  "case_command name network argv \<longleftrightarrow>
     (case argv of
        d # verb # rest \<Rightarrow> d = ''docker'' \<and>
          (if verb \<in> {''stop'', ''rm'', ''logs''} then rest = [name]
           else if verb = ''exec'' then take 1 rest = [name]
           else if verb = ''inspect'' then rest \<noteq> [] \<and> last rest = name
           else verb = ''run'' \<and>
             (take 3 rest = [''--rm'', ''--network'', network] \<or> take 5 rest = [''-d'', ''--name'', name, ''--network'', network]))
      | _ \<Rightarrow> False)"

definition case_owned :: "string \<Rightarrow> string \<Rightarrow> string \<Rightarrow> event \<Rightarrow> bool" where
  "case_owned name network directory ev =
     (case ev of
        Exec argv t \<Rightarrow> case_command name network argv
      | WriteF path c \<Rightarrow> prefix (directory @ ''/'') path
      | Mkdir path \<Rightarrow> path = directory \<or> path = path_join directory ''flash''
      | Sleep d \<Rightarrow> True
      | Fresh \<Rightarrow> True
      | _ \<Rightarrow> False)"

lemmas case_owned_defs = case_owned_def case_command_def question_command_def matrix_server_command_def path_join_def
lemmas matrix_defs = matrix_command_def matrix_docker_def matrix_cgroup_def question_def

lemma case_owned_simple [simp]:
  "case_owned name network directory (Sleep d)" "case_owned name network directory Fresh"
  "case_owned name network directory (WriteF (path_join directory f) c)"
  by (simp_all add: case_owned_defs)

lemma emits_case_commands [emits_intros]:
  "emits (case_owned name network directory) (matrix_docker env check t [''logs'', name])"
  "emits (case_owned name network directory) (matrix_docker env check t [''stop'', name])"
  "emits (case_owned name network directory) (matrix_docker env check t [''rm'', name])"
  "emits (case_owned name network directory) (matrix_docker env check t [''inspect'', name])"
  "emits (case_owned name network directory) (matrix_docker env check t [''inspect'', ''-f'', fmt, name])"
  "emits (case_owned name network directory) (matrix_cgroup env name)"
  "emits (case_owned name network directory) (question env network host backend port verb args cpuset t)"
  "emits (case_owned name network directory) (setup_case env engine name network directory grpc_image l)"
  unfolding matrix_defs setup_case_def matrix_mount_def Let_def
  by (auto intro!: emits_intros emits_fileA simp: case_owned_defs)

lemma emits_matrix_ready [emits_intros]:
  "emits (case_owned name network directory) (matrix_ready n env network name backend port cpuset)"
  by (induction n) (auto intro!: emits_intros)

lemma emits_measure_case [emits_intros]:
  "emits (case_owned name network directory) (measure_case env engine network name directory grpc_image l c run_id)"
  unfolding measure_case_def Let_def by (auto intro!: emits_intros)

lemma emits_case_ends [emits_intros]:
  "emits (case_owned name network directory) (record_failure env directory name e)"
  "emits (case_owned name network directory) (remove_case env name)"
  unfolding record_failure_def remove_case_def by (auto intro!: emits_intros)

section \<open>A case leaves evidence and removes its container\<close>

lemma quiet_matrix_docker:
  assumes "quiet_cleanup env" and "verb \<in> {''logs'', ''stop'', ''rm''}"
  shows "succeeds (matrix_docker env False t [verb, c])"
  unfolding succeeds_def
proof
  fix tr
  obtain rc out err where "respond env tr [''docker'', verb, c] = Exited rc out err"
    using assms unfolding quiet_cleanup_def by blast
  then show "\<exists>x tr'. matrix_docker env False t [verb, c] tr = Some (Inr x, tr')"
    by (simp add: matrix_defs bindA_def runA_def returnA_def Let_def)
qed

lemma succeeds_case_ends:
  assumes "quiet_cleanup env"
  shows "succeeds (record_failure env directory name e)" "succeeds (remove_case env name)"
  unfolding record_failure_def remove_case_def
  by (intro succeeds_bindA succeeds_seqA succeeds_returnA quiet_matrix_docker [OF assms] quiet_file [OF assms]; simp)+

lemma returns_matrix [returns_intros]:
  "returns (matrix_docker env check t parts)" "returns (matrix_cgroup env name)"
  "returns (question env network name backend port verb args cpuset t)"
  "returns (setup_case env engine name network directory grpc_image l)"
  unfolding matrix_defs setup_case_def matrix_mount_def Let_def by (intro returns_intros)+

lemma returns_matrix_ready [returns_intros]: "returns (matrix_ready n env network name backend port cpuset)"
  by (induction n) (auto intro!: returns_intros)

lemma returns_measure_case: "returns (measure_case env engine network name directory grpc_image l c run_id)"
  unfolding measure_case_def Let_def by (intro returns_intros)

lemma ordinaryR_matrix [ordinary_intros]:
  "ordinaryR (matrix_image grpc_image engine)" "ordinaryR (result_dict j)" "ordinaryR (num_of j)"
  by (auto simp: matrix_image_def result_dict_def num_of_def intro!: ordinary_intros split: json.splits option.splits)

lemma ordinaryR_matrix_lines [ordinary_intros]: "ordinaryR (nvm_proof j)" "ordinaryR (matrix_line j)"
  unfolding nvm_proof_def nvm_hits_def matrix_line_def by (intro ordinary_intros)+

lemma ordinary_matrix [ordinary_intros]:
  "ordinary (matrix_docker env check t parts)" "ordinary (matrix_cgroup env name)"
  "ordinary (question env network name backend port verb args cpuset t)"
  "ordinary (setup_case env engine name network directory grpc_image l)"
  unfolding matrix_defs setup_case_def matrix_mount_def Let_def by (intro ordinary_intros; simp)+

lemma ordinary_matrix_ready [ordinary_intros]: "ordinary (matrix_ready n env network name backend port cpuset)"
  by (induction n) (auto intro!: ordinary_intros)

lemma ordinary_measure_case: "ordinary (measure_case env engine network name directory grpc_image l c run_id)"
  unfolding measure_case_def Let_def by (intro ordinary_intros)

lemmas grows_case_parts = emits_grows [OF emits_case_commands(6)] emits_grows [OF emits_case_commands(7)]
  emits_grows [OF emits_case_commands(8)] emits_grows [OF emits_matrix_ready]

lemma grows_matrix_docker: "grows (matrix_docker env check t parts)"
  unfolding grows_def matrix_defs by (intro emits_intros TrueI)

lemma leaves_measure_case:
  "leaves (evidence directory) (measure_case env engine network name directory grpc_image l c run_id)"
  unfolding measure_case_def Let_def
  apply (rule leaves_bindA_second, rule grows_case_parts, rule leaves_prod, rule leaves_prod)
  apply (rule leaves_seqA_second, rule grows_strong, rule leaves_seqA_second, rule grows_case_parts)
  apply (rule leaves_bindA_second, rule grows_case_parts, rule leaves_seqA_second, rule grows_strong)
  apply (rule leaves_bindA_second, rule grows_case_parts)+
  apply (rule leaves_seqA_first, rule leaves_writeA, simp add: evidence_def)
  apply (intro grows_bindA grows_strong grows_matrix_docker)
  apply (simp add: whenA_def grows_strong grows_bindA)
  done

lemma leaves_matrix_docker: "P (Exec (''docker'' # parts) t) \<Longrightarrow> leaves P (matrix_docker env check t parts)"
  unfolding leaves_def matrix_defs
  by (auto simp: bindA_def runA_def raiseA_def returnA_def Let_def split: outcome.splits if_splits prod.splits)

lemma leaves_remove_case:
  "leaves (\<lambda>e. e = Exec [''docker'', ''stop'', name] 30) (remove_case env name)"
  "leaves (\<lambda>e. e = Exec [''docker'', ''rm'', name] 30) (remove_case env name)"
  unfolding remove_case_def
  by (intro leaves_seqA_first leaves_matrix_docker grows_bindA grows_matrix_docker grows_strong refl)
    (intro leaves_seqA_second leaves_seqA_first leaves_matrix_docker grows_matrix_docker grows_strong refl)

text \<open>The body of \<open>run_case\<close> from the \<open>try\<close> on.\<close>

abbreviation try_case ::
  "('e) env_scheme \<Rightarrow> string \<Rightarrow> string \<Rightarrow> string \<Rightarrow> string \<Rightarrow> string \<Rightarrow> matrix_limits \<Rightarrow> matrix_case \<Rightarrow> string \<Rightarrow> unit act"
where
  "try_case env engine network name directory grpc_image l c run_id \<equiv>
     finallyA (catchA (measure_case env engine network name directory grpc_image l c run_id) (record_failure env directory name))
       (remove_case env name)"

lemma try_case_facts:
  "emits (case_owned name network directory) (try_case env engine network name directory grpc_image l c run_id)"
  "quiet_cleanup env \<Longrightarrow> succeeds (try_case env engine network name directory grpc_image l c run_id)"
  "leaves (evidence directory) (try_case env engine network name directory grpc_image l c run_id)"
  "verb \<in> {''stop'', ''rm''} \<Longrightarrow>
    leaves (\<lambda>e. e = Exec [''docker'', verb, name] 30) (try_case env engine network name directory grpc_image l c run_id)"
proof -
  have fail: "leaves (evidence directory) (record_failure env directory name e)" for e
    unfolding record_failure_def
    by (intro leaves_seqA_first leaves_writeA grows_bindA grows_matrix_docker grows_strong) (simp add: evidence_def)
  have body: "grows (measure_case env engine network name directory grpc_image l c run_id)"
    by (rule emits_grows [OF emits_measure_case])
  then have g: "grows (catchA (measure_case env engine network name directory grpc_image l c run_id) (record_failure env directory name))"
    using emits_grows [OF emits_case_ends(1)] unfolding grows_def by (intro emits_catchA)
  show "emits (case_owned name network directory) (try_case env engine network name directory grpc_image l c run_id)"
    by (intro emits_intros)
  show "quiet_cleanup env \<Longrightarrow> succeeds (try_case env engine network name directory grpc_image l c run_id)"
    by (intro succeeds_finally_catch returns_measure_case ordinary_measure_case succeeds_case_ends)
  show "leaves (evidence directory) (try_case env engine network name directory grpc_image l c run_id)"
    by (intro leaves_finallyA_first leaves_catchA leaves_measure_case fail body emits_grows [OF emits_case_ends(2)])
  show "verb \<in> {''stop'', ''rm''} \<Longrightarrow>
    leaves (\<lambda>e. e = Exec [''docker'', verb, name] 30) (try_case env engine network name directory grpc_image l c run_id)"
    using leaves_finallyA_second [OF g leaves_remove_case(1)] leaves_finallyA_second [OF g leaves_remove_case(2)] by auto
qed

lemma run_case_try:
  assumes "failure env (tr @ [Fresh]) (Mkdir (case_directory out engine c rep)) = None"
  shows "run_case env engine network out grpc_image l c rep tr =
    try_case env engine network (case_name engine (hex env tr)) (case_directory out engine c rep) grpc_image l c (case_run_id c rep)
      (tr @ [Fresh, Mkdir (case_directory out engine c rep)])"
  using assms by (simp add: run_case_def bindA_def seqA_def freshA_def fileA_def Let_def)

lemma run_case_evidence_and_cleanup_lemma:
  assumes "quiet_cleanup env"
  shows "\<exists>name es. run_case env engine network out grpc_image l c rep tr = Some (Inr (), tr @ es)
    \<and> name = case_name engine (hex env tr) \<and> list_ex (evidence (case_directory out engine c rep)) es
    \<and> Exec [''docker'', ''stop'', name] 30 \<in> set es \<and> Exec [''docker'', ''rm'', name] 30 \<in> set es
    \<and> list_all (case_owned name network (case_directory out engine c rep)) es"
proof -
  let ?dir = "case_directory out engine c rep" and ?name = "case_name engine (hex env tr)"
  let ?tr = "tr @ [Fresh, Mkdir ?dir]" and ?body = "try_case env engine network ?name ?dir grpc_image l c (case_run_id c rep)"
  have run: "run_case env engine network out grpc_image l c rep tr = ?body ?tr"
    using assms by (intro run_case_try) (simp add: quiet_cleanup_def)
  obtain tr' where b: "?body ?tr = Some (Inr (), tr')"
    using try_case_facts(2) [OF assms] unfolding succeeds_def by fastforce
  obtain es where es: "tr' = ?tr @ es" "list_all (case_owned ?name network ?dir) es"
    by (rule emitsE [OF try_case_facts(1) b])
  have "list_ex (evidence ?dir) es" using try_case_facts(3) b es(1) unfolding leaves_def by blast
  moreover have "Exec [''docker'', verb, ?name] 30 \<in> set es" if "verb \<in> {''stop'', ''rm''}" for verb
    using try_case_facts(4) [OF that] b es(1) unfolding leaves_def list_ex_iff by fastforce
  ultimately show ?thesis using run b es
    by (intro exI [of _ ?name] exI [of _ "[Fresh, Mkdir ?dir] @ es"]) (simp add: case_owned_def)
qed

text \<open>
  A case of the matrix leaves evidence and removes its container: if file operations work and docker's logs,
  stop and rm come back in time, \<open>run_case\<close> returns normally, has written a \<open>result.json\<close> or an \<open>error.txt\<close> in its
  directory and has stopped and removed the container it named, whatever failed in between, for any engine, known or not; every
  event concerns that container, the given network or that directory, so that the script stops and removes only
  what it created, as its documentation promises.
\<close>

theorem run_case_evidence_and_cleanup:
  assumes "quiet_cleanup env"
  shows "\<exists>name es. run_case env engine network out grpc_image l c rep tr = Some (Inr (), tr @ es)
    \<and> name = case_name engine (hex env tr) \<and> list_ex (evidence (case_directory out engine c rep)) es
    \<and> Exec [''docker'', ''stop'', name] 30 \<in> set es \<and> Exec [''docker'', ''rm'', name] 30 \<in> set es
    \<and> list_all (case_owned name network (case_directory out engine c rep)) es"
  using assms by (rule run_case_evidence_and_cleanup_lemma)

definition sample_limits :: matrix_limits where
  "sample_limits = \<lparr>ml_ram_mb = 96, ml_flash_mb = 512, ml_container_memory_mb = 768, ml_server_cpuset = ''0-3'', ml_client_cpuset = ''4-5''\<rparr>"

theorem run_case_evidence_and_cleanup_witness:
  "\<exists>es. run_case idle_env ''grpc_nvm'' ''clinv-net'' ''out'' ''img'' sample_limits (''hit_1k'', ''hit'', ''uniform'', 1024, 128, 500, 1, 0) 0 []
     = Some (Inr (), es)
    \<and> list_ex (evidence (case_directory ''out'' ''grpc_nvm'' (''hit_1k'', ''hit'', ''uniform'', 1024, 128, 500, 1, 0) 0)) es"
  using run_case_evidence_and_cleanup [OF idle_quiet, of "''grpc_nvm''" "''clinv-net''" "''out''" "''img''" sample_limits
      "(''hit_1k'', ''hit'', ''uniform'', 1024, 128, 500, 1, 0)" 0 "[]"] by auto

section \<open>The whole matrix\<close>

lemma run_case_succeeds: "quiet_cleanup env \<Longrightarrow> succeeds (run_case env engine network out grpc_image l c rep)"
  using run_case_evidence_and_cleanup_lemma unfolding succeeds_def by blast

lemma run_case_leaves:
  "leaves (evidence (case_directory out engine c rep)) (run_case env engine network out grpc_image l c rep)"
  unfolding leaves_def
proof (intro allI impI)
  let ?dir = "case_directory out engine c rep"
  fix tr x tr' assume run: "run_case env engine network out grpc_image l c rep tr = Some (Inr x, tr')"
  then have "failure env (tr @ [Fresh]) (Mkdir ?dir) = None"
    by (auto simp: run_case_def bindA_def seqA_def freshA_def fileA_def Let_def split: option.splits)
  from run [unfolded run_case_try [OF this]] try_case_facts(3)
  obtain es where "tr' = (tr @ [Fresh, Mkdir ?dir]) @ es" "list_ex (evidence ?dir) es" unfolding leaves_def by blast
  then show "\<exists>es. tr' = tr @ es \<and> list_ex (evidence ?dir) es"
    by (intro exI [of _ "[Fresh, Mkdir ?dir] @ es"]) simp
qed

lemma run_case_grows: "grows (run_case env engine network out grpc_image l c rep)"
proof -
  have "grows (try_case env engine network name dir grpc_image l c r)" for name dir r
    by (rule emits_grows [OF try_case_facts(1)])
  then show ?thesis unfolding run_case_def Let_def grows_def
    by (intro emits_bindA emits_seqA emits_freshA emits_fileA TrueI)
qed

lemma matrix_docker_events: "matrix_docker env check t parts tr = Some (r, tr') \<Longrightarrow> tr' = tr @ [Exec (''docker'' # parts) t]"
  by (auto simp: matrix_defs bindA_def runA_def raiseA_def returnA_def Let_def split: outcome.splits if_splits)


definition sample_matrix :: matrix_args where
  "sample_matrix = \<lparr>ma_engines = ''redis,grpc_nvm'', ma_grpc_image = ''img'', ma_output = ''out'', ma_level = ''pilot'', ma_ram_mb = 96,
     ma_ram_map = None, ma_container_memory_mb = 768, ma_server_cpuset = ''0-3'', ma_client_cpuset = ''4-5'', ma_flash_mb = 512, ma_case = None\<rparr>"


end
