(* ===== verification/Limits_Run.thy ===== *)
theory Limits_Run
  imports Matrix_Run
begin

text \<open>
  The probe of the transport limits, \<open>bench/investigation/run_limits.py\<close>: one server, one client container that
  sends oversized values, and the evidence of both. Unlike the other harnesses its \<open>docker\<close> sets no
  timeout, so that a command that does not end is waited for without end; the model says so with
  \<open>None\<close>, the outcome of an action that never returns. The limit 0 in an event stands for no limit.
\<close>

section \<open>The program\<close>

text \<open>\<open>subprocess.run(argv)\<close> without a timeout.\<close>

definition waitA :: "('e) env_scheme \<Rightarrow> string list \<Rightarrow> completed act" where
  "waitA env argv = (\<lambda>tr. let tr' = tr @ [Exec argv 0] in
     case respond env tr argv of
       Exited rc out err \<Rightarrow> Some (Inr (rc, out, err), tr')
     | TimedOut \<Rightarrow> None
     | NotStarted m \<Rightarrow> Some (Inl (IOFailure m), tr'))"

definition limits_docker :: "('e) env_scheme \<Rightarrow> bool \<Rightarrow> string list \<Rightarrow> completed act" where
  "limits_docker env check args =
     bindA (waitA env (''docker'' # args)) (\<lambda>(rc, out, err).
       if check \<and> rc \<noteq> 0 then raiseA (RuntimeError (last_n 1200 err)) else returnA (rc, out, err))"

record limits_args =
  la_image :: string
  la_output :: string

definition limits_server_cmd :: "limits_args \<Rightarrow> string \<Rightarrow> string \<Rightarrow> string list" where
  "limits_server_cmd args server network =
     [''run'', ''-d'', ''--name'', server, ''--network'', network, ''--cpus'', ''4'', ''--memory'', ''768m'', la_image args,
      ''--cache_size=100663296'', ''--metrics_port=0'']"

definition limits_client_cmd :: "string \<Rightarrow> string \<Rightarrow> string list" where
  "limits_client_cmd server network =
     [''run'', ''--rm'', ''--network'', network, ''--cpus'', ''2'', ''cachelib-investigation-client:local'', ''limits'',
      ''--backend'', ''grpc'', ''--host'', server, ''--port'', ''50051'']"

definition health_query :: "string \<Rightarrow> string list" where
  "health_query server = [''inspect'', ''-f'', ''{{.State.Health.Status}}'', server]"

primrec wait_healthy :: "nat \<Rightarrow> ('e) env_scheme \<Rightarrow> string \<Rightarrow> unit act" where
  "wait_healthy 0 env server = raiseA (RuntimeError ''server did not become healthy'')"
| "wait_healthy (Suc n) env server =
     bindA (limits_docker env False (health_query server)) (\<lambda>ready.
       if strip (stdout_of ready) = ''healthy'' then returnA () else seqA (sleepA 1) (wait_healthy n env server))"

definition limits_manifest :: "('e) env_scheme \<Rightarrow> limits_args \<Rightarrow> json act" where
  "limits_manifest env args =
     bindA (askA (utc env)) (\<lambda>now.
     bindA (limits_docker env True [''image'', ''inspect'', la_image args, ''--format'', ''{{json .RepoDigests}}'']) (\<lambda>digests.
       returnA (JObj [(''utc'', JStr now), (''image'', JStr (la_image args)), (''repo_digests'', JStr (strip (stdout_of digests)))])))"

definition probe_limits :: "('e) env_scheme \<Rightarrow> limits_args \<Rightarrow> string \<Rightarrow> string \<Rightarrow> unit act" where
  "probe_limits env args server network =
     (let file = path_join (la_output args) in
      seqA (writeA env (file ''server-command.json'') (Doc (JStrs (limits_server_cmd args server network))))
      (seqA (limits_docker env True (limits_server_cmd args server network))
      (seqA (writeA env (file ''client-command.json'') (Doc (JStrs (limits_client_cmd server network))))
      (seqA (wait_healthy 30 env server)
      (bindA (limits_docker env True (limits_client_cmd server network)) (\<lambda>result.
      bindA (liftA (json_loads env (stdout_of result))) (\<lambda>parsed.
      seqA (writeA env (file ''result.json'') (Doc parsed))
      (bindA (limits_manifest env args) (\<lambda>m. writeA env (file ''manifest.json'') (Doc m)))))))))) "

definition limits_cleanup :: "('e) env_scheme \<Rightarrow> limits_args \<Rightarrow> string \<Rightarrow> string \<Rightarrow> unit act" where
  "limits_cleanup env args server network =
     bindA (limits_docker env False [''logs'', server]) (\<lambda>logs.
     seqA (writeA env (path_join (la_output args) ''server.log'') (Text (stderr_of logs)))
     (seqA (limits_docker env False [''stop'', server])
     (seqA (limits_docker env False [''rm'', server])
     (seqA (limits_docker env False [''network'', ''rm'', network]) (returnA ())))))"

definition limits_network :: "string \<Rightarrow> string" where
  "limits_network u = ''cllimit-'' @ take 10 u"

definition limits_server :: "string \<Rightarrow> string" where
  "limits_server u = ''cllimit-server-'' @ take 10 u"

definition limits_main :: "('e) env_scheme \<Rightarrow> limits_args \<Rightarrow> unit act" where
  "limits_main env args =
     seqA (fileA env (Mkdir (la_output args)))
     (bindA (freshA env) (\<lambda>u.
      let network = limits_network u; server = limits_server u in
      seqA (limits_docker env True [''network'', ''create'', ''--internal'', network])
      (finallyA (probe_limits env args server network) (limits_cleanup env args server network))))"

section \<open>It comes back and cleans up when every command ends\<close>

text \<open>Every docker command ends, files can be written and the docker client is installed.\<close>

definition responsive :: "('e) env_scheme \<Rightarrow> bool" where
  "responsive env \<longleftrightarrow> (\<forall>tr ev. failure env tr ev = None) \<and> (\<forall>tr argv. \<exists>rc out err. respond env tr argv = Exited rc out err)"

lemma waitA_responsive: "responsive env \<Longrightarrow> \<exists>p. waitA env argv tr = Some (Inr p, tr @ [Exec argv 0])"
proof -
  assume "responsive env"
  then obtain rc out err where "respond env tr argv = Exited rc out err" unfolding responsive_def by blast
  then show ?thesis by (simp add: waitA_def)
qed

lemma returns_waitA [returns_intros]: "responsive env \<Longrightarrow> returns (waitA env argv)"
  using waitA_responsive unfolding returns_def by (metis option.distinct(1))

lemma returns_limits_docker [returns_intros]: "responsive env \<Longrightarrow> returns (limits_docker env check args)"
  unfolding limits_docker_def by (intro returns_intros)

lemma returns_wait_healthy [returns_intros]: "responsive env \<Longrightarrow> returns (wait_healthy n env server)"
  by (induction n) (auto intro!: returns_intros)

lemma returns_probe_limits: "responsive env \<Longrightarrow> returns (probe_limits env args server network)"
  unfolding probe_limits_def limits_manifest_def Let_def by (intro returns_intros)

lemma succeeds_limits_docker: "responsive env \<Longrightarrow> succeeds (limits_docker env False args)"
  unfolding succeeds_def
proof
  fix tr assume "responsive env"
  then obtain p where "waitA env (''docker'' # args) tr = Some (Inr p, tr @ [Exec (''docker'' # args) 0])"
    using waitA_responsive by blast
  then show "\<exists>x tr'. limits_docker env False args tr = Some (Inr x, tr')"
    by (cases p) (simp add: limits_docker_def bindA_def returnA_def)
qed

lemma emits_waitA: "P (Exec argv 0) \<Longrightarrow> emits P (waitA env argv)"
  by (auto simp: emits_def waitA_def Let_def split: outcome.splits)

lemma emits_limits_docker [emits_intros]: "P (Exec (''docker'' # args) 0) \<Longrightarrow> emits P (limits_docker env check args)"
  unfolding limits_docker_def by (intro emits_intros emits_waitA)

lemma leaves_limits_docker: "P (Exec (''docker'' # args) 0) \<Longrightarrow> leaves P (limits_docker env check args)"
  unfolding leaves_def limits_docker_def waitA_def
  by (auto simp: bindA_def raiseA_def returnA_def Let_def split: outcome.splits if_splits prod.splits)

lemma grows_limits_docker: "grows (limits_docker env check args)"
  unfolding grows_def by (intro emits_intros TrueI)

lemmas grows_limits_parts = grows_bindA grows_limits_docker grows_strong

lemma emits_wait_healthy: "emits (\<lambda>e. True) (wait_healthy n env server)"
  by (induction n) (auto intro!: emits_intros)

lemma succeeds_writeA_responsive: "responsive env \<Longrightarrow> succeeds (writeA env path c)"
  by (simp add: responsive_def succeeds_def writeA_def fileA_def)

lemma limits_cleanup_facts:
  "responsive env \<Longrightarrow> succeeds (limits_cleanup env args server network)"
  "leaves (\<lambda>e. e = Exec [''docker'', ''stop'', server] 0) (limits_cleanup env args server network)"
  "leaves (\<lambda>e. e = Exec [''docker'', ''rm'', server] 0) (limits_cleanup env args server network)"
  "leaves (\<lambda>e. e = Exec [''docker'', ''network'', ''rm'', network] 0) (limits_cleanup env args server network)"
  unfolding limits_cleanup_def
  subgoal by (intro succeeds_bindA succeeds_seqA succeeds_returnA succeeds_limits_docker succeeds_writeA_responsive)
  subgoal
    by (rule leaves_bindA_second, rule grows_limits_docker, rule leaves_seqA_second, rule grows_strong, rule leaves_seqA_first,
        rule leaves_limits_docker, rule refl, intro grows_limits_parts)
  subgoal
    by (rule leaves_bindA_second, rule grows_limits_docker, rule leaves_seqA_second, rule grows_strong, rule leaves_seqA_second,
        rule grows_limits_docker, rule leaves_seqA_first, rule leaves_limits_docker, rule refl, intro grows_limits_parts)
  subgoal
    by (rule leaves_bindA_second, rule grows_limits_docker, rule leaves_seqA_second, rule grows_strong, rule leaves_seqA_second,
        rule grows_limits_docker, rule leaves_seqA_second, rule grows_limits_docker, rule leaves_seqA_first,
        rule leaves_limits_docker, rule refl, intro grows_limits_parts)
  done

lemma probe_limits_leaves_result:
  "leaves (\<lambda>e. \<exists>j. e = WriteF (path_join (la_output args) ''result.json'') (Doc j)) (probe_limits env args server network)"
proof -
  have wh: "grows (wait_healthy n env server)" for n unfolding grows_def by (rule emits_wait_healthy)
  have m: "grows (limits_manifest env args)" unfolding limits_manifest_def grows_def by (intro emits_intros TrueI)
  show ?thesis unfolding probe_limits_def Let_def
    by (rule leaves_seqA_second, rule grows_strong, rule leaves_seqA_second, rule grows_limits_docker, rule leaves_seqA_second,
        rule grows_strong, rule leaves_seqA_second, rule wh, rule leaves_bindA_second, rule grows_limits_docker,
        rule leaves_bindA_second, rule grows_strong, rule leaves_seqA_first, rule leaves_writeA, blast, rule grows_bindA, rule m,
        rule grows_strong)
qed


definition sample_probe :: limits_args where
  "sample_probe = \<lparr>la_image = ''img'', la_output = ''out''\<rparr>"


text \<open>
  The condition is needed: when the command that starts the server does not end, the program waits for it forever and
  neither the server nor the network is ever removed, whereas every other harness would stop waiting at its timeout.
\<close>

lemma limits_main_may_hang:
  assumes "\<And>tr ev. failure env tr ev = None" and "u = hex env (tr @ [Mkdir (la_output args)])"
    and "\<And>tr. respond env tr [''docker'', ''network'', ''create'', ''--internal'', limits_network u] = Exited 0 out err"
    and "\<And>tr. respond env tr (''docker'' # limits_server_cmd args (limits_server u) (limits_network u)) = TimedOut"
  shows "limits_main env args tr = None"
  using assms by (simp add: limits_main_def probe_limits_def finallyA_def seqA_def bindA_def fileA_def writeA_def freshA_def limits_docker_def waitA_def
      returnA_def Let_def)

text \<open>
  The log is written before the containers are removed: if it cannot be written, the server keeps running.
\<close>

lemma unwritable_log_abandons_server:
  assumes "failure env (tr @ [Exec [''docker'', ''logs'', server] 0]) (WriteF (path_join (la_output args) ''server.log'') (Text (stderr_of p))) = Some m"
    and "respond env tr [''docker'', ''logs'', server] = Exited (fst p) (stdout_of p) (stderr_of p)"
  shows "limits_cleanup env args server network tr = Some (Inl (IOFailure m), tr @ [Exec [''docker'', ''logs'', server] 0])"
  using assms by (simp add: limits_cleanup_def seqA_def bindA_def fileA_def writeA_def limits_docker_def waitA_def returnA_def Let_def stderr_of_def)

end
