(* ===== verification/Http_Run.thy ===== *)
theory Http_Run
  imports Http_Harness Strong_Run
begin

text \<open>
  The effectful part of \<open>bench/strong/run_http.py\<close>: the containers of an HTTP run, the wait for the
  target and for the client, the recorded result and the cleanup, which follows the list \<open>active\<close> of
  containers whose start was confirmed.
\<close>

section \<open>Commands\<close>

definition http_command :: "('e) env_scheme \<Rightarrow> bool \<Rightarrow> int \<Rightarrow> string list \<Rightarrow> completed act" where
  "http_command env check timeout parts = call_with env 1000 check timeout parts"

definition http_docker :: "('e) env_scheme \<Rightarrow> bool \<Rightarrow> int \<Rightarrow> string list \<Rightarrow> completed act" where
  "http_docker env check timeout parts = http_command env check timeout (''docker'' # parts)"

definition http_image_info :: "('e) env_scheme \<Rightarrow> string \<Rightarrow> json act" where
  "http_image_info env img =
     bindA (http_docker env True 180 [''image'', ''inspect'', img, ''--format'', ''{{json .}}'']) (\<lambda>p.
     bindA (liftA (bindR (json_loads env (stdout_of p)) dict_of)) (\<lambda>info.
     bindA (liftA (item info ''Id'')) (\<lambda>i.
     bindA (liftA (dict_of (get_or info ''Config'' (JObj [])))) (\<lambda>config.
       returnA (JObj [(''id'', i), (''repo_digests'', get_or info ''RepoDigests'' (JArr [])),
                      (''architecture'', get_or info ''Architecture'' JNull),
                      (''labels'', get_or config ''Labels'' JNull)])))))"

definition http_cgroup :: "('e) env_scheme \<Rightarrow> string \<Rightarrow> string act" where
  "http_cgroup env name =
     bindA (http_docker env False 180 [''exec'', name, ''sh'', ''-c'', cgroup_files]) (\<lambda>p.
       returnA (if fst p = 0 then stdout_of p else ''''))"

definition start_command ::
  "string \<Rightarrow> string \<Rightarrow> string \<Rightarrow> nat \<Rightarrow> nat \<Rightarrow> string \<Rightarrow> string list \<Rightarrow> string \<Rightarrow> string option \<Rightarrow> string list \<Rightarrow> string list"
where
  "start_command network name alias cpu memory img extra cpuset entry docker_options =
     [''docker'', ''run'', ''-d'', ''--name'', name, ''--network'', network, ''--network-alias'', alias,
      ''--cpus'', str_nat cpu, ''--cpuset-cpus'', cpuset,
      ''--memory'', str_nat memory @ ''m'', ''--memory-swap'', str_nat memory @ ''m'']
     @ (case entry of None \<Rightarrow> [] | Some e \<Rightarrow> [''--entrypoint'', e]) @ docker_options @ img # extra"

definition start ::
  "('e) env_scheme \<Rightarrow> string \<Rightarrow> string \<Rightarrow> string \<Rightarrow> string \<Rightarrow> nat \<Rightarrow> nat \<Rightarrow> string \<Rightarrow> string list \<Rightarrow> string
    \<Rightarrow> string option \<Rightarrow> string list \<Rightarrow> unit act"
where
  "start env directory network name alias cpu memory img extra cpuset entry docker_options =
     (let args = start_command network name alias cpu memory img extra cpuset entry docker_options in
      seqA (writeA env (path_join directory (name @ ''.command.json'')) (Doc (JStrs args)))
      (seqA (http_command env True 180 args) (returnA ())))"

primrec ready :: "nat \<Rightarrow> ('e) env_scheme \<Rightarrow> string \<Rightarrow> string \<Rightarrow> string \<Rightarrow> unit act" where
  "ready 0 env network host utility_image = raiseA (RuntimeError ''HTTP target never became ready'')"
| "ready (Suc n) env network host utility_image =
     bindA (http_docker env False 12
       [''run'', ''--rm'', ''--network'', network, ''--entrypoint'', ''python'', utility_image, ''-c'',
        ''import urllib.request; r=urllib.request.urlopen('' @ [CHR 0x27] @ ''http://'' @ host
          @ '':8080/obj/100/0'' @ [CHR 0x27] @ '',timeout=2); assert r.status==200'']) (\<lambda>p.
       if fst p = 0 then returnA ()
       else seqA (sleepA 1) (ready n env network host utility_image))"

section \<open>One run\<close>

record http_args =
  ha_grpc_image :: string
  ha_go_client_image :: string
  ha_utility_image :: string
  ha_nginx_image :: string
  ha_output :: string
  ha_cases :: string
  ha_reps :: int
  ha_seconds :: int
  ha_warmup :: int
  ha_nginx_config :: string
  ha_adapter_source :: string
  ha_adapter_image :: string

definition start_path ::
  "('e) env_scheme \<Rightarrow> http_args \<Rightarrow> string \<Rightarrow> string \<Rightarrow> string \<Rightarrow> string \<Rightarrow> string \<Rightarrow> unit act"
where
  "start_path env args directory network engine target cache =
     (if engine = ''nginx'' then
        let cache_dir = path_join directory ''cache-files'' in
        seqA (fileA env (Mkdir cache_dir)) (seqA (fileA env (Chmod cache_dir))
        (seqA (start env directory network target ''target'' 2 768 (ha_nginx_image args) [] ''0-1'' None
                [''--mount'', ''type=bind,src='' @ resolve env (ha_nginx_config args) @ '',dst=/etc/nginx/nginx.conf,readonly'',
                 ''--mount'', ''type=bind,src='' @ resolve env cache_dir @ '',dst=/data/cache''])
        (pushA target)))
      else if engine = ''grpc_adapter'' then
        seqA (start env directory network cache ''cache'' 1 384 (ha_grpc_image args)
                [''--cache_size=100663296'', ''--metrics_port=0''] ''0-1'' None [])
        (seqA (pushA cache)
        (seqA (start env directory network target ''target'' 1 384 (ha_adapter_image args)
                [''/work/http_service_strong.py'', ''adapter''] ''0-1'' (Some ''python'') [])
        (pushA target)))
      else returnA ())"

definition http_client_command ::
  "http_args \<Rightarrow> string \<Rightarrow> string \<Rightarrow> string \<Rightarrow> http_case \<Rightarrow> string list"
where
  "http_client_command args client network target_host c =
     (case c of (bytes, objects, concurrency, pattern) \<Rightarrow>
       [''docker'', ''run'', ''-d'', ''--name'', client, ''--network'', network, ''--cpus'', ''4'',
        ''--cpuset-cpus'', ''2-5'', ''--memory'', ''1024m'', ''--memory-swap'', ''1024m'',
        ''--entrypoint'', ''/usr/local/bin/httpbench'', ha_go_client_image args,
        ''-target'', target_host, ''-origin'', ''origin'', ''-size'', str_nat bytes,
        ''-objects'', str_nat objects, ''-concurrency'', str_nat concurrency, ''-pattern'', pattern,
        ''-warmup-seconds'', str_int (ha_warmup args), ''-measure-seconds'', str_int (ha_seconds args)])"

definition http_poll_start :: "('e) env_scheme \<Rightarrow> string \<Rightarrow> real \<Rightarrow> bool act" where
  "http_poll_start env client deadline =
     bindA (askA (clock env)) (\<lambda>t.
       if \<not> t < deadline then raiseA (RuntimeError ''no MEASURE_START marker'')
       else bindA (http_docker env False 180 [''logs'', client]) (\<lambda>logs.
         let combined = stdout_of logs @ stderr_of logs in
         if contains ''MEASURE_START'' combined then returnA True
         else bindA (http_docker env True 180 [''inspect'', ''-f'', ''{{.State.Running}}'', client]) (\<lambda>state.
           if strip (stdout_of state) = ''false''
           then raiseA (RuntimeError (''client stopped before measurement: '' @ last_n 1000 combined))
           else seqA (sleepA (3 / 10)) (returnA False))))"

definition http_result :: "dict \<Rightarrow> int \<Rightarrow> string \<Rightarrow> string \<Rightarrow> string list \<Rightarrow> string \<Rightarrow> dict" where
  "http_result d code before_at after_at active origin =
     dict_set (dict_set (dict_set (dict_set d ''client_exit_code'' (JNum (real_of_int code)))
       ''cgroup_sample_times_utc'' (JStrs [before_at, after_at]))
       ''path_containers'' (JStrs (butlast active)))
       ''origin_container'' (JStr origin)"

definition http_summary_line :: "dict \<Rightarrow> unit res" where
  "http_summary_line d =
     bindR (item d ''objects_s'') (\<lambda>v. bindR (formats_f v) (\<lambda>u.
     bindR (item d ''origin_requests_delta'') (\<lambda>v. bindR (item d ''errors'') (\<lambda>v. Inr ()))))"

definition http_record_result ::
  "('e) env_scheme \<Rightarrow> nat \<Rightarrow> http_args \<Rightarrow> string \<Rightarrow> string \<Rightarrow> string \<Rightarrow> unit act"
where
  "http_record_result env n args directory client origin =
     (let file = path_join directory in
      bindA (askA (pushed n)) (\<lambda>active. let parts = active @ [origin] in
      bindA (mapA (http_cgroup env) parts) (\<lambda>before.
      bindA (askA (utc env)) (\<lambda>before_at.
      bindA (http_docker env True (ha_seconds args + 120) [''wait'', client]) (\<lambda>waited.
      bindA (liftA (int_of_string (strip (stdout_of waited)))) (\<lambda>code.
      bindA (mapA (http_cgroup env) parts) (\<lambda>after.
      bindA (askA (utc env)) (\<lambda>after_at.
      bindA (http_docker env True 180 [''logs'', client]) (\<lambda>logs.
      seqA (writeA env (file ''client.log'') (Text (stdout_of logs @ stderr_of logs)))
      (bindA (liftA (result_line env (stdout_of logs))) (\<lambda>d.
      let result = http_result d code before_at after_at active origin in
      seqA (writeA env (file ''result.json'') (Doc (JObj result)))
      (seqA (forA (zip parts (zip before after)) (\<lambda>(part, b, a).
         seqA (writeA env (file (part @ ''.cgroup-before.txt'')) (Text b))
              (writeA env (file (part @ ''.cgroup-after.txt'')) (Text a))))
      (bindA (liftA (if code \<noteq> 0 then Inr True else any_item result [''errors''])) (\<lambda>bad.
      seqA (whenA bad (writeA env (file ''error.txt'')
             (Text (''HTTP client error or nonzero exit'' @ [CHR 0x0A]))))
      (liftA (http_summary_line result))))))))))))))))"

definition http_measure ::
  "('e) env_scheme \<Rightarrow> nat \<Rightarrow> http_args \<Rightarrow> string \<Rightarrow> string \<Rightarrow> http_case \<Rightarrow> string \<Rightarrow> string \<Rightarrow> string \<Rightarrow> string \<Rightarrow> string \<Rightarrow> unit act"
where
  "http_measure env n args directory network c engine target cache client origin =
     (let target_host = (if engine = ''origin_direct'' then ''origin'' else ''target'');
          cmd = http_client_command args client network target_host c in
      seqA (start_path env args directory network engine target cache)
      (seqA (ready 60 env network target_host (ha_utility_image args))
      (seqA (writeA env (path_join directory ''client.command.json'') (Doc (JStrs cmd)))
      (seqA (http_command env True 180 cmd)
      (seqA (pushA client)
      (bindA (askA (clock env)) (\<lambda>t.
       let deadline = t + real_of_int (ha_warmup args) + 180 in
      seqA (repeatA (http_poll_start env client deadline))
      (http_record_result env n args directory client origin))))))))"

definition http_clean_up :: "('e) env_scheme \<Rightarrow> string \<Rightarrow> string \<Rightarrow> string \<Rightarrow> unit act" where
  "http_clean_up env directory client part =
     bindA (http_docker env False 180 [''logs'', part]) (\<lambda>logs.
     seqA (whenA (part \<noteq> client)
            (writeA env (path_join directory (part @ ''.log'')) (Text (stdout_of logs @ stderr_of logs))))
     (seqA (http_docker env False 30 [''stop'', part])
     (seqA (http_docker env False 30 [''rm'', part]) (returnA ()))))"

definition origin_name :: "string \<Rightarrow> string" where
  "origin_name network = ''cm-origin-'' @ last_n 8 network"

definition http_attempt ::
  "('e) env_scheme \<Rightarrow> nat \<Rightarrow> http_args \<Rightarrow> string \<Rightarrow> string \<Rightarrow> http_case \<Rightarrow> string \<Rightarrow> string \<Rightarrow> unit act"
where
  "http_attempt env n args directory network c engine tag =
     (let target = ''cm-'' @ engine @ ''-'' @ tag; cache = ''cm-cache-'' @ tag;
          client = ''cm-client-'' @ tag; origin = origin_name network in
      finallyA
        (catchA (http_measure env n args directory network c engine target cache client origin)
           (\<lambda>e. writeA env (path_join directory ''error.txt'') (Message e)))
        (bindA (askA (pushed n)) (\<lambda>active. forA (rev active) (http_clean_up env directory client))))"

definition run_one ::
  "('e) env_scheme \<Rightarrow> http_args \<Rightarrow> string \<Rightarrow> string \<Rightarrow> string \<Rightarrow> nat \<Rightarrow> string \<Rightarrow> unit act"
where
  "run_one env args out_dir network case_name repeat engine =
     bindA (liftA (lookup HTTP_CASES case_name)) (\<lambda>c.
     let directory = run_directory out_dir case_name repeat engine in
     seqA (fileA env (Mkdir directory))
     (bindA (freshA env) (\<lambda>u.
      bindA (askA length) (\<lambda>n. http_attempt env n args directory network c engine (take 8 u)))))"

section \<open>The harness\<close>

text \<open>
  The loop of \<open>main\<close> with the shared origin container; a case's engines are shuffled per repetition.
\<close>

definition http_run_schedule ::
  "('e) env_scheme \<Rightarrow> ('s, 'm) rng_scheme \<Rightarrow> http_args \<Rightarrow> string \<Rightarrow> string list \<Rightarrow> unit act"
where
  "http_run_schedule env g args network cases =
     (let origin = origin_name network in
      finallyA
        (seqA (start env (ha_output args) network origin ''origin'' 2 512 (ha_utility_image args)
                [''/work/http_service_strong.py'', ''origin''] ''6-7'' (Some ''python'') [])
        (forA cases (\<lambda>c. forA [0..<nat (ha_reps args)] (\<lambda>r.
           bindA (liftA (http_engines c)) (\<lambda>es.
             forA (shuffle g (http_order_seed c r) es) (\<lambda>e. run_one env args (ha_output args) network c r e))))))
        (seqA (http_docker env False 30 [''stop'', origin])
        (seqA (http_docker env False 30 [''rm'', origin])
        (seqA (http_docker env False 180 [''network'', ''rm'', network]) (returnA ())))))"

text \<open>
  The checks and the network of \<open>main\<close> around that loop. \<open>read_bytes\<close> and \<open>sha256\<close> read and hash a
  file; \<open>manifest\<close> stands for the manifest's contents, collected by commands that only read.
\<close>

definition http_main ::
  "('e) env_scheme \<Rightarrow> ('s, 'm) rng_scheme \<Rightarrow> (string \<Rightarrow> string res) \<Rightarrow> (string \<Rightarrow> string) \<Rightarrow> json act \<Rightarrow> http_args \<Rightarrow> unit act"
where
  "http_main env g read_bytes sha256 manifest args =
     (let cases = split_on CHR '','' (ha_cases args); output_dir = ha_output args;
          nginx_copy = path_join output_dir ''nginx-config.evaluated.conf'' in
      if \<exists>c \<in> set cases. map_of HTTP_CASES c = None then raiseA (ParserError ''unknown case'')
      else seqA (fileA env (Mkdir output_dir))
      (bindA (liftA (read_bytes (ha_nginx_config args))) (\<lambda>nginx.
      seqA (writeA env nginx_copy (Text nginx))
      (bindA (liftA (read_bytes (ha_adapter_source args))) (\<lambda>adapter.
      bindA (http_docker env True 180 [''run'', ''--rm'', ''--entrypoint'', ''sha256sum'', ha_adapter_image args,
               ''/work/http_service_strong.py'']) (\<lambda>p.
      bindA (liftA (case words (stdout_of p) of w # ws \<Rightarrow> Inr w | [] \<Rightarrow> Inl IndexError)) (\<lambda>digest.
      if digest \<noteq> sha256 adapter
      then raiseA (ParserError ''HTTP adapter client image is stale; rebuild bench/investigation/Dockerfile.client'')
      else bindA (http_docker env True 180 [''info'', ''--format'', ''{{json .}}'']) (\<lambda>p.
      bindA (liftA (bindR (json_loads env (stdout_of p)) dict_of)) (\<lambda>info.
      bindA (liftA (ncpu info)) (\<lambda>n.
      if n < 8
      then raiseA (ParserError ''HTTP harness requires at least 8 Docker CPUs for disjoint cache/client/origin cpusets'')
      else bindA manifest (\<lambda>m.
      seqA (writeA env (path_join output_dir ''manifest.json'') (Doc m))
      (bindA (freshA env) (\<lambda>u. let network = ''cm-'' @ take 8 u in
      seqA (http_docker env True 180 [''network'', ''create'', ''--internal'', network])
      (http_run_schedule env g (args\<lparr>ha_nginx_config := nginx_copy\<rparr>) network cases))))))))))))))"

section \<open>Runs return, leave evidence and clean up\<close>

lemmas http_defs = http_command_def http_docker_def http_cgroup_def

lemma returns_http [returns_intros]:
  "returns (http_command env check t parts)" "returns (http_docker env check t parts)"
  "returns (http_cgroup env name)" "returns (start env d network name alias cpu memory img extra cpuset entry opts)"
  "returns (start_path env args directory network engine target cache)"
  "returns (http_clean_up env directory client part)" "returns (http_poll_start env client deadline)"
  "returns (http_record_result env n args directory client origin)"
  unfolding http_defs start_def start_path_def http_clean_up_def http_poll_start_def http_record_result_def Let_def
  by (intro returns_intros)+

lemma returns_ready [returns_intros]: "returns (ready n env network host img)"
  by (induction n) (auto intro!: returns_intros)

lemma grows_http_docker: "grows (http_docker env check t parts)"
  unfolding grows_def http_defs by (intro emits_intros TrueI)

lemma http_poll_continues:
  assumes "http_poll_start env client deadline tr = Some (Inr False, tr')"
  obtains es where "tr' = tr @ es @ [Sleep (3 / 10)]" and "clock env tr < deadline"
proof -
  from assms have t: "clock env tr < deadline"
    by (auto simp: http_poll_start_def bindA_def askA_def raiseA_def split: if_splits)
  then obtain log tr1 state tr2
    where log: "http_docker env False 180 [''logs'', client] tr = Some (Inr log, tr1)"
    and state: "http_docker env True 180 [''inspect'', ''-f'', ''{{.State.Running}}'', client] tr1 = Some (Inr state, tr2)"
    and tr': "tr' = tr2 @ [Sleep (3 / 10)]"
    using assms unfolding http_poll_start_def Let_def
    by (auto elim!: bindA_InrE seqA_InrE simp: askA_def returnA_def raiseA_def sleepA_def split: if_splits)
  from growsE [OF grows_http_docker log] growsE [OF grows_http_docker state]
  obtain es es' where "tr2 = tr @ es @ es'" by (metis append.assoc)
  with tr' t that [of "es @ es'"] show thesis by simp
qed

lemma returns_http_await:
  assumes "advancing env" shows "returns (repeatA (http_poll_start env client deadline))"
proof (rule returns_repeatA [where \<delta> = "3 / 10" and clk = "clock env" and deadline = deadline])
  fix tr tr' assume "http_poll_start env client deadline tr = Some (Inr False, tr')"
  then obtain es where tr': "tr' = tr @ es @ [Sleep (3 / 10)]" and t: "clock env tr < deadline"
    by (rule http_poll_continues)
  have "clock env tr \<le> clock env (tr @ es)" using assms by (rule advancing_mono)
  also have "\<dots> + 3 / 10 \<le> clock env ((tr @ es) @ [Sleep (3 / 10)])"
    using assms unfolding advancing_def by blast
  finally show "clock env tr < deadline \<and> clock env tr + 3 / 10 \<le> clock env tr'" using t tr' by simp
qed (simp_all add: returns_intros)

lemma returns_http_measure [returns_intros]:
  "advancing env \<Longrightarrow> returns (http_measure env n args directory network c engine target cache client origin)"
  unfolding http_measure_def Let_def by (intro returns_intros returns_http_await)

lemma returns_run_one:
  "advancing env \<Longrightarrow> returns (run_one env args out_dir network case_name repeat engine)"
  unfolding run_one_def http_attempt_def Let_def by (intro returns_intros)

lemma ordinary_http [ordinary_intros]:
  "ordinary (http_command env check t parts)" "ordinary (http_docker env check t parts)"
  "ordinary (http_cgroup env name)" "ordinary (start env d network name alias cpu memory img extra cpuset entry opts)"
  "ordinary (start_path env args directory network engine target cache)"
  unfolding http_defs start_def start_path_def Let_def
  by (intro ordinary_intros; simp)+

lemma ordinary_forA [ordinary_intros]: "(\<And>x. ordinary (f x)) \<Longrightarrow> ordinary (forA xs f)"
  by (induction xs) (auto intro!: ordinary_intros)

lemma ordinary_mapA [ordinary_intros]: "(\<And>x. ordinary (f x)) \<Longrightarrow> ordinary (mapA f xs)"
  by (induction xs) (auto intro!: ordinary_intros)

lemma ordinary_http_measure [ordinary_intros]:
  "ordinary (ready n env network host img)" "ordinary (http_poll_start env client deadline)"
  "ordinary (http_record_result env n args directory client origin)"
  subgoal by (induction n) (auto intro!: ordinary_intros)
  subgoal unfolding http_poll_start_def Let_def by (intro ordinary_intros) simp_all
  subgoal unfolding http_record_result_def http_summary_line_def Let_def by (intro ordinary_intros)
  done

lemma ordinary_http_measure_all:
  "ordinary (http_measure env n args directory network c engine target cache client origin)"
  unfolding http_measure_def Let_def by (intro ordinary_intros)

lemma quiet_http_docker:
  assumes "quiet_cleanup env" and "verb \<in> {''logs'', ''stop'', ''rm''}"
  shows "succeeds (http_docker env False t [verb, c])"
  unfolding succeeds_def
proof
  fix tr
  obtain rc out err where "respond env tr [''docker'', verb, c] = Exited rc out err"
    using assms unfolding quiet_cleanup_def by blast
  then show "\<exists>x tr'. http_docker env False t [verb, c] tr = Some (Inr x, tr')"
    by (simp add: http_defs call_with_def bindA_def runA_def returnA_def Let_def)
qed

lemma succeeds_http_clean_up: "quiet_cleanup env \<Longrightarrow> succeeds (http_clean_up env directory client part)"
  unfolding http_clean_up_def
  by (intro succeeds_bindA succeeds_seqA succeeds_whenA succeeds_returnA quiet_http_docker quiet_file) auto

definition no_push :: "event \<Rightarrow> bool" where
  "no_push e = (case e of Push x \<Rightarrow> False | _ \<Rightarrow> True)"

lemma pushes_none: "list_all no_push es \<Longrightarrow> pushes es = []"
  by (induction es rule: pushes.induct) (simp_all add: no_push_def)

lemma emits_http_clean_up: "emits no_push (http_clean_up env directory client part)"
  unfolding http_clean_up_def http_defs by (intro emits_intros) (simp_all add: no_push_def)

lemma leaves_http_docker: "P (Exec (''docker'' # parts) t) \<Longrightarrow> leaves P (http_docker env check t parts)"
  unfolding http_defs by (rule leaves_call_with)

lemma leaves_http_clean_up:
  "leaves (\<lambda>e. e = Exec [''docker'', ''stop'', part] 30) (http_clean_up env directory client part)"
  "leaves (\<lambda>e. e = Exec [''docker'', ''rm'', part] 30) (http_clean_up env directory client part)"
  unfolding http_clean_up_def
  by (rule leaves_bindA_second leaves_seqA_second leaves_seqA_first leaves_http_docker grows_http_docker
      grows_all refl)+

lemma grows_http_parts:
  "grows (start_path env args directory network engine target cache)" "grows (ready k env network host img)"
  "grows (http_command env check t parts)" "grows (pushA x)" "grows (http_cgroup env name)"
  "grows (mapA (http_cgroup env) xs)" "grows (http_docker env check t parts)"
  "grows (repeatA (http_poll_start env client deadline))"
  "grows (forA ys (\<lambda>(part, b, a). seqA (writeA env (file1 part) (Text b)) (writeA env (file2 part) (Text a))))"
proof -
  show "grows (ready k env network host img)"
    unfolding grows_def by (induction k) (auto simp: http_defs intro!: emits_intros)
qed (unfold grows_def start_path_def start_def http_defs http_poll_start_def Let_def;
    intro emits_intros emits_fileA TrueI; simp)+

lemma leaves_http_record:
  "leaves (evidence directory) (http_record_result env n args directory client origin)"
  unfolding http_record_result_def Let_def
  apply (rule leaves_bindA_second, rule grows_all grows_http_parts)+
  apply (rule leaves_seqA_second, rule grows_all)
  apply (rule leaves_bindA_second, rule grows_all)
  apply (rule leaves_seqA_first, rule leaves_writeA, simp add: evidence_def)
  apply (intro grows_all grows_http_parts)
  done

lemma leaves_http_measure:
  "leaves (evidence directory) (http_measure env n args directory network c engine target cache client origin)"
  unfolding http_measure_def Let_def
  by (intro leaves_bindA_second leaves_seqA_second leaves_http_record grows_all grows_http_parts)

text \<open>The cleanup of a list of containers: every one is stopped and removed, and none is pushed.\<close>

lemma http_clean_up_all:
  assumes "quiet_cleanup env"
  obtains es where "forA xs (http_clean_up env directory client) tr = Some (Inr (), tr @ es)"
    and "pushes es = []"
    and "\<And>x. x \<in> set xs \<Longrightarrow> Exec [''docker'', ''stop'', x] 30 \<in> set es \<and> Exec [''docker'', ''rm'', x] 30 \<in> set es"
proof -
  let ?m = "forA xs (http_clean_up env directory client)"
  have "succeeds ?m" by (intro succeeds_forA succeeds_http_clean_up assms)
  then obtain tr' where run: "?m tr = Some (Inr (), tr')" unfolding succeeds_def by auto
  have "emits no_push ?m" by (intro emits_forA emits_http_clean_up)
  from emitsE [OF this run] obtain es where es: "tr' = tr @ es" "list_all no_push es" .
  have g: "grows (http_clean_up env directory client y)" for y by (rule emits_grows [OF emits_http_clean_up])
  have "Exec [''docker'', ''stop'', x] 30 \<in> set es \<and> Exec [''docker'', ''rm'', x] 30 \<in> set es" if "x \<in> set xs" for x
    using leaves_forA [OF that leaves_http_clean_up(1) g] leaves_forA [OF that leaves_http_clean_up(2) g] run es(1)
    unfolding leaves_def list_ex_iff by fastforce
  with run es(1) pushes_none [OF es(2)] show thesis by (intro that) simp_all
qed

lemma http_attempt_evidence:
  assumes "advancing env" "quiet_cleanup env"
  obtains es where "http_attempt env (length tr) args directory network c engine tag tr = Some (Inr (), tr @ es)"
    and "list_ex (evidence directory) es"
    and "\<And>x. x \<in> set (pushes es) \<Longrightarrow> Exec [''docker'', ''stop'', x] 30 \<in> set es \<and> Exec [''docker'', ''rm'', x] 30 \<in> set es"
proof -
  let ?client = "''cm-client-'' @ tag"
  let ?m = "http_measure env (length tr) args directory network c engine (''cm-'' @ engine @ ''-'' @ tag)
    (''cm-cache-'' @ tag) ?client (origin_name network)"
  let ?attempt = "catchA ?m (\<lambda>e. writeA env (path_join directory ''error.txt'') (Message e))"
  have gm: "grows ?m" unfolding http_measure_def http_record_result_def Let_def
    by (intro grows_all grows_http_parts)
  have lv: "leaves (evidence directory) ?attempt"
    by (intro leaves_catchA leaves_http_measure leaves_writeA gm) (simp add: evidence_def)
  have "succeeds (finallyA ?attempt (returnA ()))"
    by (intro succeeds_finally_catch returns_http_measure ordinary_http_measure_all quiet_file succeeds_returnA assms)
  then obtain tr1 where t: "?attempt tr = Some (Inr (), tr1)"
    unfolding succeeds_def finallyA_def returnA_def by (fastforce split: option.splits sum.splits)
  then obtain es1 where es1: "tr1 = tr @ es1" "list_ex (evidence directory) es1"
    using lv unfolding leaves_def by blast
  obtain es2 where es2: "forA (rev (pushes es1)) (http_clean_up env directory ?client) tr1 = Some (Inr (), tr1 @ es2)"
    "pushes es2 = []"
    "\<And>x. x \<in> set (rev (pushes es1)) \<Longrightarrow> Exec [''docker'', ''stop'', x] 30 \<in> set es2 \<and> Exec [''docker'', ''rm'', x] 30 \<in> set es2"
    by (rule http_clean_up_all [OF assms(2), of "rev (pushes es1)" directory ?client tr1]) blast
  have "http_attempt env (length tr) args directory network c engine tag tr = Some (Inr (), tr @ es1 @ es2)"
    using t es1(1) es2(1)
    by (simp add: http_attempt_def finallyA_def bindA_def askA_def pushed_def Let_def del: forA.simps)
  with es1(2) es2(2,3) show thesis by (intro that [of "es1 @ es2"]) (auto simp: pushes_append)
qed


definition http_defaults :: http_args where
  "http_defaults = \<lparr>ha_grpc_image = ''grpc:rc'', ha_go_client_image = ''cachebench-go:rc'',
     ha_utility_image = ''cachelib-investigation-client:local'', ha_nginx_image = ''nginx:1.30.5-alpine'',
     ha_output = ''out'', ha_cases = ''repeated_256k_c8'', ha_reps = 5, ha_seconds = 60, ha_warmup = 15,
     ha_nginx_config = ''bench/strong/nginx.conf'', ha_adapter_source = ''bench/strong/http_service.py'',
     ha_adapter_image = ''cachelib-investigation-client:local''\<rparr>"


definition nginx_command :: "('e) env_scheme \<Rightarrow> http_args \<Rightarrow> string \<Rightarrow> string \<Rightarrow> string \<Rightarrow> string list" where
  "nginx_command env args directory network tag =
     start_command network (''cm-nginx-'' @ tag) ''target'' 2 768 (ha_nginx_image args) [] ''0-1'' None
       [''--mount'', ''type=bind,src='' @ resolve env (ha_nginx_config args) @ '',dst=/etc/nginx/nginx.conf,readonly'',
        ''--mount'', ''type=bind,src='' @ resolve env (path_join directory ''cache-files'') @ '',dst=/data/cache'']"

text \<open>
  The limit of that cleanup: a container is recorded only after its \<open>docker run\<close> was confirmed. If
  the command that starts the nginx container times out, the run ends with exactly the events below:
  the container, which docker may well have created, is neither stopped nor removed.
\<close>

theorem unconfirmed_container_is_not_removed:
  assumes "\<And>tr ev. failure env tr ev = None"
    and "\<And>tr. respond env tr (nginx_command env args directory network tag) = TimedOut"
  shows "http_attempt env (length tr) args directory network c ''nginx'' tag tr =
    Some (Inr (), tr @ [Mkdir (path_join directory ''cache-files''), Chmod (path_join directory ''cache-files''),
      WriteF (path_join directory (''cm-nginx-'' @ tag @ ''.command.json''))
        (Doc (JStrs (nginx_command env args directory network tag))),
      Exec (nginx_command env args directory network tag) 180,
      WriteF (path_join directory ''error.txt'') (Message TimeoutExpired)])"
  using assms unfolding nginx_command_def
  by (simp add: http_attempt_def http_measure_def start_path_def start_def http_defs call_with_def finallyA_def
      catchA_def bindA_def seqA_def fileA_def writeA_def runA_def askA_def pushed_def returnA_def Let_def)

definition dead_env :: env where
  "dead_env = idle_env\<lparr>respond := (\<lambda>tr argv. TimedOut)\<rparr>"

theorem unconfirmed_container_is_not_removed_witness:
  "\<exists>e1 e2 e3 e4 e5. http_attempt dead_env 0 http_defaults ''d'' ''cm-n'' (262144, 64, 8, ''repeated'') ''nginx'' ''t'' [] =
     Some (Inr (), [e1, e2, e3, e4, e5])
   \<and> Exec [''docker'', ''rm'', ''cm-nginx-t''] 30 \<notin> set [e1, e2, e3, e4, e5]"
  using unconfirmed_container_is_not_removed [of dead_env http_defaults "''d''" "''cm-n''" "''t''" "[]"
      "(262144, 64, 8, ''repeated'')"]
  by (simp add: dead_env_def idle_env_def nginx_command_def start_command_def)

end
