(* ===== verification/Investigation_Http.thy ===== *)
theory Investigation_Http
  imports Matrix_Run Http_Run
begin

text \<open>
  The first HTTP harness, \<open>bench/investigation/run_http.py\<close>: an origin, and then in turn an NGINX cache and the gRPC
  adapter with its cache server, each measured by the four cases of one client. The list \<open>containers\<close>, to
  which \<open>start\<close> appends and from which a backend's containers are removed when it is done, is read off the trace
  (\<open>listed\<close>), because the \<open>finally\<close> block reads it after an exception.
\<close>

section \<open>Commands\<close>

definition media_cmd :: "('e) env_scheme \<Rightarrow> bool \<Rightarrow> int \<Rightarrow> string list \<Rightarrow> completed act" where
  "media_cmd env check timeout parts =
     bindA (runA env timeout parts) (\<lambda>(rc, out, err).
       if check \<and> rc \<noteq> 0 then raiseA (CommandFailed parts rc (last_n 1200 err)) else returnA (rc, out, err))"

definition media_docker :: "('e) env_scheme \<Rightarrow> bool \<Rightarrow> int \<Rightarrow> string list \<Rightarrow> completed act" where
  "media_docker env check timeout args = media_cmd env check timeout (''docker'' # args)"

definition memory_bytes :: "('e) env_scheme \<Rightarrow> string \<Rightarrow> int option act" where
  "memory_bytes env name =
     bindA (media_docker env False 120 [''exec'', name, ''cat'', ''/sys/fs/cgroup/memory.current'']) (\<lambda>result.
       if fst result = 0 then bindA (liftA (int_of_string (strip (stdout_of result)))) (\<lambda>n. returnA (Some n)) else returnA None)"

record media_args =
  mh_grpc_image :: string
  mh_output :: string
  mh_equal_budget :: bool

definition media_start :: "('e) env_scheme \<Rightarrow> string \<Rightarrow> string \<Rightarrow> string \<Rightarrow> string list \<Rightarrow> unit act" where
  "media_start env out network name parts =
     (let args = [''run'', ''-d'', ''--name'', name, ''--network'', network] @ parts in
      seqA (writeA env (path_join out (name @ ''.server-command.json'')) (Doc (JStrs (''docker'' # args))))
      (seqA (media_docker env True 120 args) (pushA name)))"

section \<open>The containers of a backend\<close>

definition CLIENT_LOCAL :: string where
  "CLIENT_LOCAL = ''cachelib-investigation-client:local''"

definition if_equal :: "media_args \<Rightarrow> string list \<Rightarrow> string list" where
  "if_equal args parts = (if mh_equal_budget args then parts else [])"

definition origin_parts :: "media_args \<Rightarrow> string list" where
  "origin_parts args =
     [''--network-alias'', ''origin'', ''--cpus'', ''2'', ''--memory'', ''512m''] @ if_equal args [''--cpuset-cpus'', ''6-7'']
     @ [''--entrypoint'', ''python'', CLIENT_LOCAL, ''/work/http_service.py'', ''origin'']"

text \<open>\<open>conf\<close> is the resolved path of \<open>nginx.conf\<close> beside the script.\<close>

definition nginx_parts :: "media_args \<Rightarrow> string \<Rightarrow> string \<Rightarrow> string list" where
  "nginx_parts args conf disk =
     [''--network-alias'', ''target'', ''--cpus'', ''2'', ''--memory'', ''768m'']
     @ if_equal args [''--memory-swap'', ''768m'', ''--cpuset-cpus'', ''0-1'']
     @ [''--mount'', ''type=bind,src='' @ conf @ '',dst=/etc/nginx/nginx.conf,readonly'',
        ''--mount'', ''type=bind,src='' @ disk @ '',dst=/data/cache'', ''nginx:1.29-alpine'']"

definition half_budget :: "media_args \<Rightarrow> string \<Rightarrow> string list" where
  "half_budget args cpus =
     [''--cpus'', if mh_equal_budget args then ''1'' else cpus, ''--memory'', if mh_equal_budget args then ''384m'' else ''768m'']
     @ if_equal args [''--memory-swap'', ''384m'', ''--cpuset-cpus'', ''0-1'']"

definition cache_parts :: "media_args \<Rightarrow> string list" where
  "cache_parts args =
     [''--network-alias'', ''cache''] @ half_budget args ''4'' @ [mh_grpc_image args, ''--cache_size=100663296'', ''--metrics_port=0'']"

definition adapter_parts :: "media_args \<Rightarrow> string list" where
  "adapter_parts args =
     [''--network-alias'', ''target''] @ half_budget args ''2''
     @ [''--entrypoint'', ''python'', CLIENT_LOCAL, ''/work/http_service.py'', ''adapter'']"

definition origin_container :: "string \<Rightarrow> string" where
  "origin_container network = ''clhttp-origin-'' @ last_n 10 network"

definition cache_container :: "string \<Rightarrow> string" where
  "cache_container network = ''clhttp-cache-'' @ last_n 10 network"

definition target_container :: "string \<Rightarrow> string \<Rightarrow> string" where
  "target_container network backend = (if backend = ''nginx'' then ''clhttp-nginx-'' else ''clhttp-adapter-'') @ last_n 10 network"

text \<open>The containers on the path of a backend, as the measurement of their memory and the cleanup go over them.\<close>

definition backend_containers :: "string \<Rightarrow> string \<Rightarrow> string list" where
  "backend_containers network backend =
     target_container network backend # (if backend = ''nginx'' then [] else [cache_container network])"

definition start_backend :: "('e) env_scheme \<Rightarrow> string \<Rightarrow> media_args \<Rightarrow> string \<Rightarrow> string \<Rightarrow> unit act" where
  "start_backend env conf args network backend =
     (let out = mh_output args in
      if backend = ''nginx'' then
        let disk = path_join out ''nginx-cache'' in
        seqA (fileA env (Mkdir disk))
        (media_start env out network (target_container network backend) (nginx_parts args conf (resolve env disk)))
      else
        seqA (media_start env out network (cache_container network) (cache_parts args))
        (media_start env out network (target_container network backend) (adapter_parts args)))"

definition ready_probe :: "string \<Rightarrow> string list" where
  "ready_probe network =
     [''run'', ''--rm'', ''--network'', network, ''--entrypoint'', ''python'', CLIENT_LOCAL, ''-c'',
      ''import urllib.request; print(urllib.request.urlopen('' @ [CHR 0x27] @ ''http://target:8080/obj/100/0'' @ [CHR 0x27] @ '',timeout=2).status)'']"

text \<open>\<open>err\<close> is the standard error of the last probe, which the exception quotes.\<close>

primrec await_target :: "nat \<Rightarrow> ('e) env_scheme \<Rightarrow> string \<Rightarrow> string \<Rightarrow> string \<Rightarrow> unit act" where
  "await_target 0 env network backend err =
     raiseA (RuntimeError (backend @ '' never became ready: '' @ last_n 500 err))"
| "await_target (Suc n) env network backend err =
     bindA (media_docker env False 15 (ready_probe network)) (\<lambda>p0.
       if fst p0 = 0 then returnA () else seqA (sleepA 1) (await_target n env network backend (stderr_of p0)))"

section \<open>The cases\<close>

type_synonym media_case = "nat \<times> nat \<times> nat \<times> nat \<times> string"

definition MEDIA_CASES :: "media_case list" where
  "MEDIA_CASES =
     [(262144, 64, 400, 1, ''repeated''), (262144, 64, 400, 8, ''repeated''), (1048576, 32, 250, 1, ''repeated''),
      (262144, 64, 150, 1, ''one_pass'')]"

definition media_label :: "string \<Rightarrow> media_case \<Rightarrow> string" where
  "media_label backend c = (case c of (bytes, objects, requests, concurrency, pattern) \<Rightarrow>
     backend @ ''-'' @ str_nat bytes @ ''-'' @ str_nat concurrency @ ''-'' @ pattern)"

definition media_client_parts :: "media_args \<Rightarrow> string \<Rightarrow> media_case \<Rightarrow> string list" where
  "media_client_parts args network c = (case c of (bytes, objects, requests, concurrency, pattern) \<Rightarrow>
     [''run'', ''--rm'', ''--network'', network, ''--cpus'', ''2'', ''--memory'', ''768m''] @ if_equal args [''--cpuset-cpus'', ''4-5'']
     @ [''--entrypoint'', ''python'', CLIENT_LOCAL, ''/work/http_client.py'', ''--host'', ''target'', ''--size'', str_nat bytes,
        ''--objects'', str_nat objects, ''--requests'', str_nat requests, ''--concurrency'', str_nat concurrency, ''--pattern'', pattern])"

text \<open>\<open>r["cache_path_memory_after_bytes"] = sum(memory_bytes(part) or 0 ...)\<close>; only a dictionary takes the assignment.\<close>

definition with_memory :: "('e) env_scheme \<Rightarrow> media_args \<Rightarrow> string list \<Rightarrow> json \<Rightarrow> json act" where
  "with_memory env args parts r =
     (if \<not> mh_equal_budget args then returnA r
      else bindA (mapA (memory_bytes env) parts) (\<lambda>ns. case r of
          JObj d \<Rightarrow> returnA (JObj (dict_set d ''cache_path_memory_after_bytes''
                      (JNum (of_int (sum_list (map (\<lambda>n. case n of None \<Rightarrow> 0 | Some i \<Rightarrow> i) ns))))))
        | _ \<Rightarrow> raiseA TypeError))"

definition media_line :: "json \<Rightarrow> unit res" where
  "media_line r =
     bindR (result_dict r) (\<lambda>d. bindR (item d ''ops_s'') (\<lambda>v. bindR (formats_f v) (\<lambda>u.
     bindR (item d ''origin_requests_delta'') (\<lambda>v. bindR (item d ''errors'') (\<lambda>v. Inr ())))))"

definition media_run :: "('e) env_scheme \<Rightarrow> media_args \<Rightarrow> string \<Rightarrow> string \<Rightarrow> media_case \<Rightarrow> unit act" where
  "media_run env args network backend c =
     (let file = (\<lambda>ending. path_join (mh_output args) (media_label backend c @ ending)); parts = media_client_parts args network c in
      seqA (writeA env (file ''.command.json'') (Doc (JStrs parts)))
      (bindA (media_docker env False 180 parts) (\<lambda>result.
       if fst result \<noteq> 0 then writeA env (file ''.error.txt'') (Text (stderr_of result))
       else bindA (liftA (json_loads env (stdout_of result))) (\<lambda>r.
            bindA (with_memory env args (backend_containers network backend) r) (\<lambda>r.
            seqA (writeA env (file ''.json'') (Doc r)) (liftA (media_line r)))))))"

section \<open>The program\<close>

text \<open>\<open>containers.remove(name)\<close>, with \<open>n\<close> the length of the trace at which the list was created.\<close>

definition unlistA :: "nat \<Rightarrow> string \<Rightarrow> unit act" where
  "unlistA n name = (\<lambda>tr. if name \<in> set (listed (drop n tr)) then Some (Inr (), tr @ [Pop name])
     else Some (Inl (ValueError ''list.remove(x): x not in list''), tr))"

definition media_remove :: "('e) env_scheme \<Rightarrow> string \<Rightarrow> unit act" where
  "media_remove env name =
     seqA (media_docker env False 120 [''stop'', name]) (seqA (media_docker env False 120 [''rm'', name]) (returnA ()))"

definition media_backend :: "('e) env_scheme \<Rightarrow> nat \<Rightarrow> string \<Rightarrow> media_args \<Rightarrow> string \<Rightarrow> string \<Rightarrow> unit act" where
  "media_backend env n conf args network backend =
     seqA (start_backend env conf args network backend)
     (seqA (await_target 40 env network backend [])
     (seqA (forA MEDIA_CASES (media_run env args network backend))
     (forA (backend_containers network backend) (\<lambda>name. seqA (media_remove env name) (unlistA n name)))))"

definition budget_text :: "media_args \<Rightarrow> real \<Rightarrow> string \<Rightarrow> json" where
  "budget_text args equal other = (if mh_equal_budget args then JNum equal else JStr other)"

definition inspect_image :: "('e) env_scheme \<Rightarrow> string \<Rightarrow> string \<Rightarrow> json act" where
  "inspect_image env img format =
     bindA (media_docker env True 120 [''image'', ''inspect'', img, ''--format'', format]) (\<lambda>p. returnA (JStr (strip (stdout_of p))))"

definition media_manifest :: "('e) env_scheme \<Rightarrow> string \<Rightarrow> media_args \<Rightarrow> string \<Rightarrow> unit act" where
  "media_manifest env host args network =
     bindA (askA (utc env)) (\<lambda>now.
     bindA (inspect_image env CLIENT_LOCAL ''{{.Id}}'') (\<lambda>client.
     bindA (inspect_image env ''nginx:1.29-alpine'' ''{{.Id}}'') (\<lambda>nginx.
     bindA (inspect_image env (mh_grpc_image args) ''{{json .RepoDigests}}'') (\<lambda>cachelib.
       writeA env (path_join (mh_output args) ''manifest.json'') (Doc (JObj
         [(''utc'', JStr now), (''host'', JStr host), (''network'', JStr network), (''grpc_image'', JStr (mh_grpc_image args)),
          (''client_image'', client), (''nginx_image'', nginx), (''cachelib_image'', cachelib), (''origin_assumption_ms'', JNum 5),
          (''host_ports_published'', JBool False), (''equal_combined_cache_budget'', JBool (mh_equal_budget args)),
          (''cache_path_cpu_quota'', budget_text args 2 ''nginx:2, adapter:2 + grpc:4''),
          (''cache_path_memory_mib'', budget_text args 768 ''nginx:768, adapter:768 + grpc:768'')]))))))"

definition media_body :: "('e) env_scheme \<Rightarrow> nat \<Rightarrow> string \<Rightarrow> string \<Rightarrow> media_args \<Rightarrow> string \<Rightarrow> unit act" where
  "media_body env n host conf args network =
     seqA (media_start env (mh_output args) network (origin_container network) (origin_parts args))
     (seqA (media_manifest env host args network)
     (forA [''nginx'', ''grpc_adapter''] (media_backend env n conf args network)))"

definition media_cleanup :: "('e) env_scheme \<Rightarrow> nat \<Rightarrow> string \<Rightarrow> unit act" where
  "media_cleanup env n network =
     bindA (askA (\<lambda>tr. listed (drop n tr))) (\<lambda>containers.
     seqA (forA (rev containers) (media_remove env))
     (seqA (media_docker env False 120 [''network'', ''rm'', network]) (returnA ())))"

text \<open>\<open>host\<close> is \<open>platform.platform()\<close>.\<close>

definition media_main :: "('e) env_scheme \<Rightarrow> string \<Rightarrow> string \<Rightarrow> media_args \<Rightarrow> unit act" where
  "media_main env host conf args =
     seqA (fileA env (Mkdir (mh_output args)))
     (bindA (freshA env) (\<lambda>u.
      let network = ''clhttp-'' @ take 10 u in
      seqA (media_docker env True 120 [''network'', ''create'', ''--internal'', network])
      (bindA (askA length) (\<lambda>n.
       finallyA (media_body env n host conf args network) (media_cleanup env n network)))))"

section \<open>Properties of what an action adds to the trace\<close>

text \<open>
  \<open>emits\<close> speaks of single events. Here a removal from the list must be justified by other events of the same
  stretch of the trace, so the property is one of lists of events; all it takes for the control structures
  to preserve it is that it holds of no events and is kept by concatenation.
\<close>

definition adds :: "(trace \<Rightarrow> bool) \<Rightarrow> 'a act \<Rightarrow> bool" where
  "adds Q m \<longleftrightarrow> (\<forall>tr r tr'. m tr = Some (r, tr') \<longrightarrow> (\<exists>es. tr' = tr @ es \<and> Q es))"

lemma addsE:
  assumes "adds Q m" and "m tr = Some (r, tr')"
  obtains es where "tr' = tr @ es" and "Q es"
  using assms unfolding adds_def by blast

lemma emits_adds: "emits P m \<Longrightarrow> (\<And>es. list_all P es \<Longrightarrow> Q es) \<Longrightarrow> adds Q m"
  unfolding emits_def adds_def by blast

locale trace_property =
  fixes Q :: "trace \<Rightarrow> bool"
  assumes none: "Q []" and concatenation: "Q es \<Longrightarrow> Q fs \<Longrightarrow> Q (es @ fs)"
begin

lemma adds_bindA:
  assumes "adds Q m" and "\<And>x. adds Q (f x)" shows "adds Q (bindA m f)"
  unfolding adds_def
proof (intro allI impI)
  fix tr r tr' assume run: "bindA m f tr = Some (r, tr')"
  then obtain q tr1 where m: "m tr = Some (q, tr1)" by (auto simp: bindA_def split: option.splits)
  then obtain es where es: "tr1 = tr @ es" "Q es" by (rule addsE [OF assms(1)])
  show "\<exists>es. tr' = tr @ es \<and> Q es"
  proof (cases q)
    case (Inl e)
    with run m es show ?thesis by (auto simp: bindA_def)
  next
    case (Inr x)
    with run m have "f x tr1 = Some (r, tr')" by (simp add: bindA_def)
    then obtain es' where "tr' = tr1 @ es'" "Q es'" by (rule addsE [OF assms(2)])
    with es concatenation show ?thesis by fastforce
  qed
qed

lemma adds_seqA: "adds Q m \<Longrightarrow> adds Q n \<Longrightarrow> adds Q (seqA m n)"
  unfolding seqA_def by (rule adds_bindA)

lemma adds_returnA: "adds Q (returnA x)"
  using none by (simp add: adds_def returnA_def)

lemma adds_forA: "(\<And>x. x \<in> set xs \<Longrightarrow> adds Q (f x)) \<Longrightarrow> adds Q (forA xs f)"
  by (induction xs) (simp_all add: adds_returnA adds_seqA)

end

section \<open>Nothing is left behind\<close>

text \<open>A container leaves the list only after it was stopped and removed.\<close>

definition justified :: "trace \<Rightarrow> bool" where
  "justified es \<longleftrightarrow> (\<forall>x. Pop x \<in> set es \<longrightarrow> Exec [''docker'', ''stop'', x] 120 \<in> set es \<and> Exec [''docker'', ''rm'', x] 120 \<in> set es)"

interpretation justified: trace_property justified
  by unfold_locales (auto simp: justified_def)

definition no_pop :: "event \<Rightarrow> bool" where
  "no_pop e = (case e of Pop x \<Rightarrow> False | _ \<Rightarrow> True)"

lemma no_pop_simps [simp]:
  "no_pop (Exec argv t)" "no_pop (WriteF p c)" "no_pop (Mkdir p)" "no_pop (Sleep d)" "no_pop (Push x)" "no_pop Fresh"
  by (simp_all add: no_pop_def)

lemma no_pop_justified: "list_all no_pop es \<Longrightarrow> justified es"
  by (auto simp: justified_def list_all_iff no_pop_def)

lemmas media_defs = media_docker_def media_cmd_def

lemma emits_media [emits_intros]: "P (Exec (''docker'' # parts) t) \<Longrightarrow> emits P (media_docker env check t parts)"
  unfolding media_defs by (intro emits_intros)

lemma emits_with_memory: "emits no_pop (with_memory env args parts r)"
  by (cases r) (simp_all add: with_memory_def memory_bytes_def emits_intros)

lemma emits_await_target: "emits no_pop (await_target n env network backend err)"
  by (induction n arbitrary: err) (simp_all add: emits_intros)

lemma emits_media_parts:
  "emits no_pop (media_start env out network name parts)" "emits no_pop (start_backend env conf args network backend)"
  "emits no_pop (media_run env args network backend c)" "emits no_pop (media_manifest env host args network)"
  "emits no_pop (media_remove env name)"
  unfolding media_start_def start_backend_def media_run_def media_manifest_def inspect_image_def media_remove_def Let_def
  by (intro emits_intros emits_fileA emits_with_memory; simp)+

lemma media_docker_events: "media_docker env check t parts tr = Some (r, tr') \<Longrightarrow> tr' = tr @ [Exec (''docker'' # parts) t]"
  by (auto simp: media_defs bindA_def runA_def raiseA_def returnA_def Let_def split: outcome.splits if_splits)

lemma leaves_media_docker: "P (Exec (''docker'' # parts) t) \<Longrightarrow> leaves P (media_docker env check t parts)"
  unfolding leaves_def using media_docker_events by fastforce

lemma grows_media_docker: "grows (media_docker env check t parts)"
  unfolding grows_def by (intro emits_intros TrueI)

lemma leaves_media_remove:
  "leaves (\<lambda>e. e = Exec [''docker'', ''stop'', name] 120) (media_remove env name)"
  "leaves (\<lambda>e. e = Exec [''docker'', ''rm'', name] 120) (media_remove env name)"
  unfolding media_remove_def
  by (intro leaves_seqA_first leaves_media_docker grows_bindA grows_media_docker grows_strong refl)
    (intro leaves_seqA_second leaves_seqA_first leaves_media_docker grows_media_docker grows_strong refl)

lemma adds_remove_unlist: "adds justified (seqA (media_remove env name) (unlistA n name))"
  unfolding adds_def
proof (intro allI impI)
  fix tr r tr' assume run: "seqA (media_remove env name) (unlistA n name) tr = Some (r, tr')"
  then obtain q tr1 where m: "media_remove env name tr = Some (q, tr1)" by (auto simp: seqA_def bindA_def split: option.splits)
  from emitsE [OF emits_media_parts(5) m] obtain es where es: "tr1 = tr @ es" "list_all no_pop es" .
  show "\<exists>es. tr' = tr @ es \<and> justified es"
  proof (cases "tr' = tr1")
    case True
    with es no_pop_justified show ?thesis by blast
  next
    case False
    then have q: "\<exists>x. q = Inr x" and tr': "tr' = tr1 @ [Pop name]"
      using run m by (auto simp: seqA_def bindA_def unlistA_def split: sum.splits if_splits)
    then have "Exec [''docker'', ''stop'', name] 120 \<in> set es" "Exec [''docker'', ''rm'', name] 120 \<in> set es"
      using leaves_media_remove [of name env] m es(1) unfolding leaves_def list_ex_iff by fastforce+
    then have "justified (es @ [Pop name])" using no_pop_justified [OF es(2)] by (auto simp: justified_def)
    then show ?thesis using tr' es(1) by auto
  qed
qed

lemma adds_unpopped: "emits no_pop m \<Longrightarrow> adds justified m"
  by (rule emits_adds [OF _ no_pop_justified])

lemma adds_media_body: "adds justified (media_body env n host conf args network)"
  unfolding media_body_def media_backend_def
  by (rule adds_remove_unlist justified.adds_forA adds_unpopped [OF emits_media_parts(1)] adds_unpopped [OF emits_media_parts(2)]
      adds_unpopped [OF emits_media_parts(3)] adds_unpopped [OF emits_media_parts(4)] adds_unpopped [OF emits_await_target]
      justified.adds_seqA)+

lemma returns_media [returns_intros]: "returns (media_docker env check t parts)"
  unfolding media_defs by (intro returns_intros)

lemma returns_unlistA [returns_intros]: "returns (unlistA n name)"
  by (simp add: returns_def unlistA_def)

lemma returns_media_run [returns_intros]: "returns (media_run env args network backend c)"
proof -
  have "returns (with_memory env args parts r)" for parts r
    by (cases r) (simp_all add: with_memory_def memory_bytes_def returns_intros)
  then show ?thesis unfolding media_run_def Let_def by (intro returns_intros)
qed

lemma returns_media_body: "returns (media_body env n host conf args network)"
proof -
  have "returns (await_target k env network backend err)" for k backend err
    by (induction k arbitrary: err) (simp_all add: returns_intros)
  then show ?thesis
    unfolding media_body_def media_backend_def start_backend_def media_start_def media_manifest_def inspect_image_def media_remove_def Let_def
    by (intro returns_intros)
qed

lemma succeeds_media_remove: "quiet_cleanup env \<Longrightarrow> succeeds (media_remove env name)"
proof -
  assume q: "quiet_cleanup env"
  have "succeeds (media_docker env False 120 [verb, name])" if v: "verb \<in> {''logs'', ''stop'', ''rm''}" for verb
    unfolding succeeds_def
  proof
    fix tr
    obtain rc out err where "respond env tr [''docker'', verb, name] = Exited rc out err"
      using q v unfolding quiet_cleanup_def by blast
    then show "\<exists>x tr'. media_docker env False 120 [verb, name] tr = Some (Inr x, tr')"
      by (simp add: media_defs bindA_def runA_def returnA_def Let_def)
  qed
  then show ?thesis unfolding media_remove_def by (intro succeeds_seqA succeeds_returnA) auto
qed

text \<open>The \<open>finally\<close> block: every container still in the list is stopped and removed, and then the network is removed.\<close>

lemma media_cleanup_all:
  assumes "quiet_cleanup env"
  obtains r es where "media_cleanup env n network tr = Some (r, tr @ es)" and "pushes es = []"
    and "Exec [''docker'', ''network'', ''rm'', network] 120 \<in> set es"
    and "\<And>x. x \<in> set (listed (drop n tr)) \<Longrightarrow> Exec [''docker'', ''stop'', x] 120 \<in> set es \<and> Exec [''docker'', ''rm'', x] 120 \<in> set es"
    and "r = Inr () \<or> (\<exists>e. r = Inl e)"
proof -
  let ?xs = "rev (listed (drop n tr))"
  let ?m = "forA ?xs (media_remove env)"
  have "succeeds ?m" by (intro succeeds_forA succeeds_media_remove assms)
  then obtain tr1 where run: "?m tr = Some (Inr (), tr1)" unfolding succeeds_def by auto
  have np: "emits no_push (media_remove env y)" for y
    unfolding media_remove_def by (intro emits_intros) (simp_all add: no_push_def)
  have "emits no_push ?m" by (intro emits_forA np)
  from emitsE [OF this run] obtain es where es: "tr1 = tr @ es" "list_all no_push es" .
  have g: "grows (media_remove env y)" for y by (rule emits_grows [OF np])
  have gone: "Exec [''docker'', ''stop'', x] 120 \<in> set es \<and> Exec [''docker'', ''rm'', x] 120 \<in> set es" if "x \<in> set ?xs" for x
    using leaves_forA [OF that leaves_media_remove(1) g] leaves_forA [OF that leaves_media_remove(2) g] run es(1)
    unfolding leaves_def list_ex_iff by fastforce
  obtain q tr2 where net: "media_docker env False 120 [''network'', ''rm'', network] tr1 = Some (q, tr2)"
    by (rule returnsE [OF returns_media])
  then have tr2: "tr2 = tr @ es @ [Exec [''docker'', ''network'', ''rm'', network] 120]" using media_docker_events es(1) by fastforce
  obtain r where "media_cleanup env n network tr = Some (r, tr2)" "r = Inr () \<or> (\<exists>e. r = Inl e)"
    using run net by (cases q) (simp_all add: media_cleanup_def bindA_def seqA_def askA_def returnA_def)
  then show thesis using that [of r "es @ [Exec [''docker'', ''network'', ''rm'', network] 120]"] gone tr2 pushes_none [OF es(2)]
    by (auto simp: pushes_append)
qed

text \<open>The evidence of one case: the client's result, or what it wrote to its standard error.\<close>

definition media_evidence :: "media_args \<Rightarrow> string \<Rightarrow> media_case \<Rightarrow> event \<Rightarrow> bool" where
  "media_evidence args backend c e \<longleftrightarrow>
     (\<exists>x. e = WriteF (path_join (mh_output args) (media_label backend c @ ''.json'')) (Doc x))
     \<or> (\<exists>x. e = WriteF (path_join (mh_output args) (media_label backend c @ ''.error.txt'')) (Text x))"

lemma leaves_media_run: "leaves (media_evidence args backend c) (media_run env args network backend c)"
  unfolding media_run_def Let_def
  apply (rule leaves_seqA_second, rule grows_strong, rule leaves_bindA_second, rule grows_media_docker, rule leaves_if)
   apply (rule leaves_writeA, simp add: media_evidence_def)
  apply (rule leaves_bindA_second, rule grows_strong, rule leaves_bindA_second, rule emits_grows [OF emits_with_memory])
  apply (rule leaves_seqA_first, rule leaves_writeA, simp add: media_evidence_def, rule grows_strong)
  done

lemma grows_forA: "(\<And>x. grows (f x)) \<Longrightarrow> grows (forA xs f)"
  unfolding grows_def by (intro emits_forA)

lemma grows_unlistA: "grows (unlistA n name)"
  by (auto simp: grows_def emits_def unlistA_def)

lemma leaves_media_body:
  assumes "backend \<in> {''nginx'', ''grpc_adapter''}" and "c \<in> set MEDIA_CASES"
  shows "leaves (media_evidence args backend c) (media_body env n host conf args network)"
proof -
  have g: "grows (media_backend env n conf args network b)" for b
    unfolding media_backend_def
    by (intro grows_bindA grows_forA grows_unlistA emits_grows [OF emits_media_parts(2)] emits_grows [OF emits_await_target]
        emits_grows [OF emits_media_parts(3)] emits_grows [OF emits_media_parts(5)])
  have r: "leaves (media_evidence args backend c) (forA MEDIA_CASES (media_run env args network backend))"
    by (rule leaves_forA [OF assms(2) leaves_media_run emits_grows [OF emits_media_parts(3)]])
  have "grows (forA (backend_containers network backend) (\<lambda>name. seqA (media_remove env name) (unlistA n name)))"
    by (intro grows_forA grows_bindA grows_unlistA emits_grows [OF emits_media_parts(5)])
  then have "leaves (media_evidence args backend c) (media_backend env n conf args network backend)"
    unfolding media_backend_def
    by (intro leaves_seqA_second [OF emits_grows [OF emits_media_parts(2)]] leaves_seqA_second [OF emits_grows [OF emits_await_target]]
        leaves_seqA_first r)
  then have "leaves (media_evidence args backend c) (forA [''nginx'', ''grpc_adapter''] (media_backend env n conf args network))"
    using assms(1) by (intro leaves_forA [where x = backend] g) auto
  then show ?thesis unfolding media_body_def
    by (intro leaves_seqA_second [OF emits_grows [OF emits_media_parts(1)]] leaves_seqA_second [OF emits_grows [OF emits_media_parts(4)]])
qed

lemma media_main_lemma:
  assumes "quiet_cleanup env" and "network = ''clhttp-'' @ take 10 (hex env (tr @ [Mkdir (mh_output args)]))"
    and "respond env (tr @ [Mkdir (mh_output args), Fresh]) [''docker'', ''network'', ''create'', ''--internal'', network] = Exited 0 out err"
  shows "\<exists>r es. media_main env host conf args tr = Some (r, tr @ es)
    \<and> (\<forall>x \<in> set (pushes es). Exec [''docker'', ''stop'', x] 120 \<in> set es \<and> Exec [''docker'', ''rm'', x] 120 \<in> set es)
    \<and> Exec [''docker'', ''network'', ''rm'', network] 120 \<in> set es
    \<and> (r = Inr () \<longrightarrow> (\<forall>backend \<in> {''nginx'', ''grpc_adapter''}. \<forall>c \<in> set MEDIA_CASES. list_ex (media_evidence args backend c) es))"
proof -
  let ?start = "[Mkdir (mh_output args), Fresh, Exec [''docker'', ''network'', ''create'', ''--internal'', network] 120]"
  define tr0 where "tr0 = tr @ ?start"
  let ?n = "length tr0"
  let ?body = "media_body env ?n host conf args network" and ?cleanup = "media_cleanup env ?n network"
  have f: "failure env tr (Mkdir (mh_output args)) = None" using assms(1) by (simp add: quiet_cleanup_def)
  have run: "media_main env host conf args tr = finallyA ?body ?cleanup tr0"
    using f assms(2,3) by (simp add: media_main_def tr0_def seqA_def bindA_def fileA_def freshA_def media_defs runA_def returnA_def askA_def Let_def)
  obtain r tr1 where b: "?body tr0 = Some (r, tr1)" by (rule returnsE [OF returns_media_body])
  from addsE [OF adds_media_body b] obtain es1 where es1: "tr1 = tr0 @ es1" "justified es1" .
  obtain q es2 where c: "?cleanup tr1 = Some (q, tr1 @ es2)" "pushes es2 = []" "Exec [''docker'', ''network'', ''rm'', network] 120 \<in> set es2"
      "\<And>x. x \<in> set (listed es1) \<Longrightarrow> Exec [''docker'', ''stop'', x] 120 \<in> set es2 \<and> Exec [''docker'', ''rm'', x] 120 \<in> set es2"
    using media_cleanup_all [OF assms(1), of ?n network tr1] es1(1) by (metis append_eq_conv_conj)
  define es where "es = ?start @ es1 @ es2"
  have "\<exists>r'. media_main env host conf args tr = Some (r', tr @ es) \<and> (r' = Inr () \<longrightarrow> r = Inr ())"
    using run b c(1) es1(1) by (cases q) (simp_all add: finallyA_def tr0_def es_def)
  then obtain r' where m: "media_main env host conf args tr = Some (r', tr @ es)" "r' = Inr () \<longrightarrow> r = Inr ()" by blast
  have "Exec [''docker'', ''stop'', x] 120 \<in> set es \<and> Exec [''docker'', ''rm'', x] 120 \<in> set es" if "x \<in> set (pushes es)" for x
  proof (cases "Pop x \<in> set es1")
    case True
    with es1(2) show ?thesis by (auto simp: justified_def es_def)
  next
    case False
    have "x \<in> set (pushes es1)" using that c(2) by (simp add: es_def pushes_append)
    from c(4) [OF pushed_listed [OF this False]] show ?thesis by (auto simp: es_def)
  qed
  moreover have "list_ex (media_evidence args backend cs) es"
    if "r' = Inr ()" "backend \<in> {''nginx'', ''grpc_adapter''}" "cs \<in> set MEDIA_CASES" for backend cs
  proof -
    have "r = Inr ()" using m(2) that(1) by blast
    then have "list_ex (media_evidence args backend cs) es1"
      using leaves_media_body [OF that(2,3)] b es1(1) unfolding leaves_def by blast
    then show ?thesis by (simp add: es_def)
  qed
  ultimately show ?thesis using m(1) c(3) by (intro exI [of _ r'] exI [of _ es]) (auto simp: es_def)
qed


definition sample_media :: media_args where
  "sample_media = \<lparr>mh_grpc_image = ''img'', mh_output = ''out'', mh_equal_budget = True\<rparr>"


end
