(* ===== verification/Blocks.thy ===== *)
theory Blocks
  imports Prelude
begin

text \<open>
  The generated blocks of \<open>bench/render.py\<close>: \<open>MARKER.sub\<close> finds the blocks between a BEGIN and the
  next END marker of the same name and replaces their bodies. The main law is that a second rendering
  overwrites the first one: it depends neither on the bodies that were there nor on anything the first
  rendering put there, and leaves the text between the blocks alone.
\<close>

section \<open>The regular expression\<close>

definition begin_text :: string where
  "begin_text = ''<!-- BEGIN GENERATED: ''"

definition close_text :: string where
  "close_text = '' -->''"

definition end_marker :: "string \<Rightarrow> string" where
  "end_marker name = ''<!-- END GENERATED: '' @ name @ '' -->''"

definition name_char :: "char \<Rightarrow> bool" where
  "name_char c \<longleftrightarrow> c \<in> set ''abcdefghijklmnopqrstuvwxyz-''"

record block =
  bl_name :: string
  bl_newline :: string
  bl_rest :: string

text \<open>
  The match of \<open>MARKER\<close> at the start of a text: the name is the run of name characters (the blank after
  it is not one), the newline is taken if it is there, and the body is the shortest one, up to the first END
  marker of this name.
\<close>

definition open_marker :: "string \<Rightarrow> (string \<times> string) option" where
  "open_marker src =
     (if prefix begin_text src then
        let t = drop (length begin_text) src; name = takeWhile name_char t; t' = dropWhile name_char t in
        if name \<noteq> [] \<and> prefix close_text t' then Some (name, drop (length close_text) t') else None
      else None)"

definition newline_of :: "string \<Rightarrow> string" where
  "newline_of t = (if prefix [CHR 0x0A] t then [CHR 0x0A] else [])"

definition match_marker :: "string \<Rightarrow> block option" where
  "match_marker src =
     (case open_marker src of None \<Rightarrow> None
      | Some (name, t) \<Rightarrow>
          (case split_once (end_marker name) (drop (length (newline_of t)) t) of None \<Rightarrow> None
           | Some (body, rest) \<Rightarrow> Some \<lparr>bl_name = name, bl_newline = newline_of t, bl_rest = rest\<rparr>))"

definition begin_marker :: "string \<Rightarrow> string" where
  "begin_marker name = begin_text @ name @ close_text"

lemma open_marker_Some:
  "open_marker src = Some (name, t) \<longleftrightarrow> src = begin_marker name @ t \<and> name \<noteq> [] \<and> list_all name_char name"
proof
  assume "open_marker src = Some (name, t)"
  then have a: "prefix begin_text src" "name = takeWhile name_char (drop (length begin_text) src)" "name \<noteq> []"
      "prefix close_text (dropWhile name_char (drop (length begin_text) src))"
      "t = drop (length close_text) (dropWhile name_char (drop (length begin_text) src))"
    by (auto simp: open_marker_def Let_def split: if_splits)
  then have "src = begin_text @ drop (length begin_text) src"
    by (auto simp: prefix_def)
  also have "drop (length begin_text) src = name @ dropWhile name_char (drop (length begin_text) src)"
    using a(2) by simp
  also have "dropWhile name_char (drop (length begin_text) src) = close_text @ t"
    using a(4,5) by (auto simp: prefix_def)
  finally show "src = begin_marker name @ t \<and> name \<noteq> [] \<and> list_all name_char name"
    using a(2,3) by (auto simp: begin_marker_def list_all_iff dest: set_takeWhileD)
next
  assume a: "src = begin_marker name @ t \<and> name \<noteq> [] \<and> list_all name_char name"
  have "\<not> name_char CHR '' ''" by (simp add: name_char_def)
  then have "takeWhile name_char (close_text @ t) = []" "dropWhile name_char (close_text @ t) = close_text @ t"
    by (simp_all add: close_text_def)
  moreover have "\<And>c. c \<in> set name \<Longrightarrow> name_char c" using a by (simp add: list_all_iff)
  ultimately have "takeWhile name_char (name @ close_text @ t) = name" "dropWhile name_char (name @ close_text @ t) = close_text @ t"
    by (simp_all add: takeWhile_append2 dropWhile_append2)
  with a show "open_marker src = Some (name, t)"
    by (simp add: open_marker_def begin_marker_def Let_def)
qed

lemma match_marker_Some:
  assumes "match_marker src = Some b"
  obtains body where "src = begin_marker (bl_name b) @ bl_newline b @ body @ end_marker (bl_name b) @ bl_rest b"
    and "bl_name b \<noteq> []" and "list_all name_char (bl_name b)" and "bl_newline b \<in> {[], [CHR 0x0A]}"
proof -
  obtain name t body rest where a: "open_marker src = Some (name, t)"
      "split_once (end_marker name) (drop (length (newline_of t)) t) = Some (body, rest)"
      "b = \<lparr>bl_name = name, bl_newline = newline_of t, bl_rest = rest\<rparr>"
    using assms by (auto simp: match_marker_def split: option.splits)
  have "t = newline_of t @ drop (length (newline_of t)) t" by (auto simp: newline_of_def prefix_def)
  with split_once_Some [OF a(2)] have t: "t = newline_of t @ body @ end_marker name @ rest" by simp
  show thesis
  proof (rule that)
    show "src = begin_marker (bl_name b) @ bl_newline b @ body @ end_marker (bl_name b) @ bl_rest b"
      using a(1,3) t by (simp add: open_marker_Some)
  qed (use a(1,3) in \<open>simp_all add: open_marker_Some newline_of_def\<close>)
qed

lemma match_marker_shorter [termination_simp]: "match_marker src = Some b \<Longrightarrow> length (bl_rest b) < length src"
  by (elim match_marker_Some) (simp add: end_marker_def)

section \<open>Substitution\<close>

text \<open>
  \<open>MARKER.sub\<close>: blocks from left to right, every other character unchanged. \<open>block_names\<close> is the list
  \<open>seen\<close>.
\<close>

function sub_text :: "(string \<Rightarrow> string) \<Rightarrow> string \<Rightarrow> string" where
  "sub_text r src =
     (case match_marker src of
        Some b \<Rightarrow> begin_marker (bl_name b) @ bl_newline b @ r (bl_name b) @ bl_newline b
          @ end_marker (bl_name b) @ sub_text r (bl_rest b)
      | None \<Rightarrow> (case src of [] \<Rightarrow> [] | c # cs \<Rightarrow> c # sub_text r cs))"
  by pat_completeness auto
termination
  by (relation "measure (\<lambda>(r, src). length src)") (auto simp: match_marker_shorter)

function block_names :: "string \<Rightarrow> string list" where
  "block_names src =
     (case match_marker src of
        Some b \<Rightarrow> bl_name b # block_names (bl_rest b)
      | None \<Rightarrow> (case src of [] \<Rightarrow> [] | c # cs \<Rightarrow> block_names cs))"
  by pat_completeness auto
termination
  by (relation "measure length") (auto simp: match_marker_shorter)

declare sub_text.simps [simp del] block_names.simps [simp del]

definition apply_blocks :: "string \<Rightarrow> (string \<times> string) list \<Rightarrow> string \<Rightarrow> string res" where
  "apply_blocks src rendered path =
     (case find (\<lambda>n. map_of rendered n = None) (block_names src) of
        Some n \<Rightarrow> Inl (SystemExit (path @ '': unknown generated block '' @ n))
      | None \<Rightarrow>
          if block_names src = [] then Inl (SystemExit (path @ '': no GENERATED markers found''))
          else Inr (sub_text (\<lambda>n. the (map_of rendered n)) src))"

lemma match_marker_Nil [simp]: "match_marker [] = None"
  by (simp add: match_marker_def open_marker_def begin_text_def)

lemma sub_text_None:
  "match_marker (c # cs) = None \<Longrightarrow> sub_text r (c # cs) = c # sub_text r cs"
  "sub_text r [] = []"
  by (simp_all add: sub_text.simps [of r "c # cs"] sub_text.simps [of r "[]"])

lemma block_names_None:
  "match_marker (c # cs) = None \<Longrightarrow> block_names (c # cs) = block_names cs"
  "block_names [] = []"
  by (simp_all add: block_names.simps [of "c # cs"] block_names.simps [of "[]"])

lemma sub_text_Some:
  "match_marker src = Some b \<Longrightarrow>
     sub_text r src = begin_marker (bl_name b) @ bl_newline b @ r (bl_name b) @ bl_newline b
          @ end_marker (bl_name b) @ sub_text r (bl_rest b)"
  "match_marker src = Some b \<Longrightarrow> block_names src = bl_name b # block_names (bl_rest b)"
  by (simp_all add: sub_text.simps [of r src] block_names.simps [of src])

text \<open>Induction over the blocks of a src.\<close>

lemma block_induct [case_names Nil Char Block]:
  assumes "P []"
    and "\<And>c cs. match_marker (c # cs) = None \<Longrightarrow> P cs \<Longrightarrow> P (c # cs)"
    and "\<And>src b. match_marker src = Some b \<Longrightarrow> P (bl_rest b) \<Longrightarrow> P src"
  shows "P src"
proof (induction src rule: length_induct)
  case (1 src)
  show ?case
  proof (cases "match_marker src")
    case None
    with 1 assms(1,2) show ?thesis by (cases src) auto
  next
    case (Some b)
    with 1 match_marker_shorter show ?thesis by (blast intro: assms(3))
  qed
qed

section \<open>Occurrences of a marker\<close>

text \<open>Every marker starts with the only \<open><\<close> in it.\<close>

abbreviation lt :: char where
  "lt \<equiv> CHR ''<''"

definition end_tail :: "string \<Rightarrow> string" where
  "end_tail name = ''!-- END GENERATED: '' @ name @ '' -->''"

definition begin_tail :: "string \<Rightarrow> string" where
  "begin_tail name = ''!-- BEGIN GENERATED: '' @ name @ '' -->''"

lemma marker_heads: "end_marker name = lt # end_tail name" "begin_marker name = lt # begin_tail name"
  by (simp_all add: end_marker_def end_tail_def begin_marker_def begin_tail_def begin_text_def close_text_def)

lemma name_free: "list_all name_char name \<Longrightarrow> lt \<notin> set name"
proof -
  have "\<not> name_char lt" by (simp add: name_char_def)
  then show "list_all name_char name \<Longrightarrow> lt \<notin> set name" unfolding list_all_iff by blast
qed

lemma tails_free: "lt \<notin> set name \<Longrightarrow> lt \<notin> set (end_tail name)" "lt \<notin> set name \<Longrightarrow> lt \<notin> set (begin_tail name)"
  by (simp_all add: end_tail_def begin_tail_def)

lemma end_not_begin: "\<not> prefix (end_tail n) (begin_tail m @ t)"
  by (simp add: end_tail_def begin_tail_def)

lemma sublist_skip: "lt \<notin> set a \<Longrightarrow> sublist (lt # e) (a @ t) \<longleftrightarrow> sublist (lt # e) t"
  by (induction a) (auto simp: sublist_Cons_right)

lemma split_once_None: "split_once pat s = None \<longleftrightarrow> \<not> sublist pat s"
proof (induction pat s rule: split_once.induct)
  case (1 pat s)
  show ?case
  proof (cases "prefix pat s")
    case True
    then show ?thesis by (simp add: split_once.simps [of pat s] prefix_imp_sublist)
  next
    case False
    then have "split_once pat s = (case s of [] \<Rightarrow> None
        | x # xs \<Rightarrow> map_option (\<lambda>(a, b). (x # a, b)) (split_once pat xs))"
      by (subst split_once.simps) simp
    with 1 False show ?thesis by (cases s) (simp_all add: sublist_Cons_right)
  qed
qed

lemma split_once_free: "lt \<notin> set a \<Longrightarrow> split_once (lt # e) (a @ lt # e @ t) = Some (a, t)"
proof (induction a)
  case Nil
  then show ?case by (simp add: split_once.simps [of "lt # e"])
next
  case (Cons x a)
  then show ?case by (subst split_once.simps) auto
qed

lemma match_marker_head: "c \<noteq> lt \<Longrightarrow> match_marker (c # cs) = None" "lt \<noteq> c \<Longrightarrow> match_marker (c # cs) = None"
  by (auto simp add: match_marker_def open_marker_def begin_text_def)

section \<open>Rendering twice\<close>

lemma sub_text_free: "lt \<notin> set h \<Longrightarrow> sub_text r (h @ t) = h @ sub_text r t"
  by (induction h) (simp_all add: sub_text_None match_marker_head)

lemma sub_text_takeWhile: "takeWhile (\<lambda>c. c \<noteq> lt) (sub_text r s) = takeWhile (\<lambda>c. c \<noteq> lt) s"
proof (induction s rule: block_induct)
  case (Block s b)
  then show ?case using sub_text_Some(1) [OF Block(1)] by (elim match_marker_Some) (simp add: marker_heads)
qed (simp_all add: sub_text_None)

lemma prefix_takeWhile: "lt \<notin> set p \<Longrightarrow> prefix p s \<longleftrightarrow> prefix p (takeWhile (\<lambda>c. c \<noteq> lt) s)"
proof (induction s arbitrary: p)
  case (Cons c s)
  then show ?case by (cases p) auto
qed simp

lemma prefix_sub_text: "lt \<notin> set p \<Longrightarrow> prefix p (sub_text r s) \<longleftrightarrow> prefix p s"
  using prefix_takeWhile sub_text_takeWhile by metis

text \<open>The rendered bodies: no \<open><\<close> in them, and none starts with a newline.\<close>

definition plain_bodies :: "(string \<Rightarrow> string) \<Rightarrow> string \<Rightarrow> bool" where
  "plain_bodies r s \<longleftrightarrow> (\<forall>n \<in> set (block_names s). lt \<notin> set (r n) \<and> \<not> prefix [CHR 0x0A] (r n))"

lemma plain_bodies_simps:
  "match_marker (c # cs) = None \<Longrightarrow> plain_bodies r (c # cs) = plain_bodies r cs"
  "match_marker s = Some b \<Longrightarrow> plain_bodies r s \<longleftrightarrow>
     lt \<notin> set (r (bl_name b)) \<and> \<not> prefix [CHR 0x0A] (r (bl_name b)) \<and> plain_bodies r (bl_rest b)"
  by (auto simp: plain_bodies_def block_names_None sub_text_Some(2))

lemma plain_bodies_free: "lt \<notin> set h \<Longrightarrow> plain_bodies r (h @ t) = plain_bodies r t"
  by (induction h) (simp_all add: plain_bodies_simps match_marker_head)

lemma end_marker_kept:
  assumes "lt \<notin> set n"
  shows "plain_bodies r s \<Longrightarrow> sublist (end_marker n) (sub_text r s) \<Longrightarrow> sublist (end_marker n) s"
proof (induction s rule: block_induct)
  case Nil
  then show ?case by (simp add: sub_text_None)
next
  case (Char c cs)
  then show ?case using prefix_sub_text [OF tails_free(1) [OF assms], of r cs]
    by (auto simp: plain_bodies_simps sub_text_None sublist_Cons_right marker_heads)
next
  case (Block s b)
  obtain body where s: "s = begin_marker (bl_name b) @ bl_newline b @ body @ end_marker (bl_name b) @ bl_rest b"
    and m: "list_all name_char (bl_name b)" and nl: "bl_newline b \<in> {[], [CHR 0x0A]}"
    using match_marker_Some [OF Block(1)] by metis
  let ?m = "bl_name b"
  note f = tails_free [OF name_free [OF m]]
  have r: "lt \<notin> set (r ?m)" "plain_bodies r (bl_rest b)" using Block.prems(1) plain_bodies_simps(2) [OF Block(1)] by simp_all
  have skip: "lt \<notin> set (begin_tail ?m @ bl_newline b @ r ?m @ bl_newline b)" using f r nl by auto
  have "sublist (end_marker n) (lt # (begin_tail ?m @ bl_newline b @ r ?m @ bl_newline b) @ end_marker ?m @ sub_text r (bl_rest b))"
    using Block.prems(2) by (simp add: sub_text_Some(1) [OF Block(1)] marker_heads)
  then have "sublist (end_marker n) (end_marker ?m @ sub_text r (bl_rest b))"
    using end_not_begin sublist_skip [OF skip] by (auto simp: sublist_Cons_right marker_heads)
  then have "prefix (end_tail n) (end_tail ?m @ sub_text r (bl_rest b)) \<or> sublist (end_marker n) (sub_text r (bl_rest b))"
    using sublist_skip [OF f(1)] by (simp add: sublist_Cons_right marker_heads)
  then have "prefix (end_tail n) (end_tail ?m @ bl_rest b) \<or> sublist (end_marker n) (bl_rest b)"
    using prefix_sub_text [OF tails_free(1) [OF assms], of r "end_tail ?m @ bl_rest b"] Block.IH [OF r(2)]
    by (auto simp: sub_text_free [OF f(1)])
  then have "sublist (end_marker n) (end_marker ?m @ bl_rest b)"
    by (auto simp: sublist_Cons_right marker_heads sublist_append)
  then show ?case by (subst s) (simp add: sublist_append)
qed

lemma no_match_kept:
  assumes "match_marker (c # cs) = None" and "plain_bodies r cs"
  shows "match_marker (c # sub_text r cs) = None"
proof (rule ccontr)
  assume "match_marker (c # sub_text r cs) \<noteq> None"
  then obtain name t where o: "open_marker (c # sub_text r cs) = Some (name, t)" and
      e: "split_once (end_marker name) (drop (length (newline_of t)) t) \<noteq> None"
    by (auto simp: match_marker_def split: option.splits)
  from o have n: "c = lt" "sub_text r cs = begin_tail name @ t" "name \<noteq> []" "list_all name_char name"
    by (simp_all add: open_marker_Some marker_heads)
  note f = name_free [OF n(4)] tails_free [OF name_free [OF n(4)]]
  have "prefix (begin_tail name) cs" using prefix_sub_text [OF f(3), of r cs] n(2) by (simp add: prefix_def)
  then obtain t0 where t0: "cs = begin_tail name @ t0" by (auto simp: prefix_def)
  then have t: "t = sub_text r t0" using n(2) sub_text_free [OF f(3), of r t0] by simp
  have "plain_bodies r t0" using assms(2) plain_bodies_free [OF f(3)] by (simp add: t0)
  moreover have "sublist (end_marker name) t"
    using e sublist_order.order_trans [OF _ sublist_drop] by (auto simp: split_once_None)
  ultimately have "sublist (end_marker name) t0" using end_marker_kept [OF f(1)] t by blast
  then have "sublist (end_marker name) (drop (length (newline_of t0)) t0)"
    using sublist_skip [of "newline_of t0" "end_tail name" "drop (length (newline_of t0)) t0"]
    by (auto simp: newline_of_def marker_heads prefix_def)
  moreover have "open_marker (c # cs) = Some (name, t0)" using n t0 by (simp add: open_marker_Some marker_heads)
  ultimately show False using assms(1) by (auto simp: match_marker_def split_once_None split: option.splits)
qed

lemma match_kept:
  assumes "match_marker s = Some b" and "lt \<notin> set body" and "\<not> prefix [CHR 0x0A] body"
  shows "match_marker (begin_marker (bl_name b) @ bl_newline b @ body @ bl_newline b @ end_marker (bl_name b) @ t)
    = Some \<lparr>bl_name = bl_name b, bl_newline = bl_newline b, bl_rest = t\<rparr>"
proof -
  have m: "bl_name b \<noteq> []" "list_all name_char (bl_name b)" and nl: "bl_newline b \<in> {[], [CHR 0x0A]}"
    using match_marker_Some [OF assms(1)] by metis+
  let ?t = "bl_newline b @ body @ bl_newline b @ end_marker (bl_name b) @ t"
  have o: "open_marker (begin_marker (bl_name b) @ ?t) = Some (bl_name b, ?t)" using m by (simp add: open_marker_Some)
  have w: "newline_of ?t = bl_newline b" using nl assms(3) by (cases body) (auto simp: newline_of_def marker_heads)
  have "lt \<notin> set (body @ bl_newline b)" using nl assms(2) by auto
  from split_once_free [OF this] have "split_once (end_marker (bl_name b)) (body @ bl_newline b @ end_marker (bl_name b) @ t)
      = Some (body @ bl_newline b, t)" by (simp add: marker_heads)
  then show ?thesis unfolding match_marker_def o by (simp add: w)
qed

lemma sub_text_overwrites:
  assumes "plain_bodies r s"
  shows "sub_text r' (sub_text r s) = sub_text r' s" and "block_names (sub_text r s) = block_names s"
proof -
  have "sub_text r' (sub_text r s) = sub_text r' s \<and> block_names (sub_text r s) = block_names s"
    using assms
  proof (induction s rule: block_induct)
    case Nil
    then show ?case by (simp add: sub_text_None)
  next
    case (Char c cs)
    then have "plain_bodies r cs" by (simp add: plain_bodies_simps)
    with Char no_match_kept [OF Char(1)] show ?case by (simp add: sub_text_None block_names_None)
  next
    case (Block s b)
    then have p: "lt \<notin> set (r (bl_name b))" "\<not> prefix [CHR 0x0A] (r (bl_name b))" "plain_bodies r (bl_rest b)"
      by (simp_all add: plain_bodies_simps(2))
    note k = match_kept [OF Block(1) p(1,2), of "sub_text r (bl_rest b)"]
    show ?case using Block.IH [OF p(3)] sub_text_Some [OF Block(1)] sub_text_Some [OF k] by simp
  qed
  then show "sub_text r' (sub_text r s) = sub_text r' s" "block_names (sub_text r s) = block_names s" by simp_all
qed

section \<open>Rendering the files\<close>

text \<open>
  The loop of \<open>main\<close> over the target files: the texts as a map from names, the blocks that \<open>blocks(data)\<close>
  rendered, and the names collected as stale. In check mode nothing is written.
\<close>

type_synonym texts = "string \<rightharpoonup> string"

definition TARGETS :: "string list" where
  "TARGETS = [''BENCHMARKS.md'', ''README.md'']"

fun render_targets :: "bool \<Rightarrow> (string \<times> string) list \<Rightarrow> string list \<Rightarrow> texts \<Rightarrow> string list res \<times> texts" where
  "render_targets check rendered [] fs = (Inr [], fs)"
| "render_targets check rendered (name # names) fs =
     (case fs name of
        None \<Rightarrow> (Inl (FileNotFoundError name), fs)
      | Some before \<Rightarrow>
          (case apply_blocks before rendered name of
             Inl e \<Rightarrow> (Inl e, fs)
           | Inr after \<Rightarrow>
               if before = after then render_targets check rendered names fs
               else if check then
                 (case render_targets check rendered names fs of
                    (Inr stale, fs') \<Rightarrow> (Inr (name # stale), fs') | (Inl e, fs') \<Rightarrow> (Inl e, fs'))
               else render_targets check rendered names (fs(name \<mapsto> after))))"

text \<open>The exit status: 1 in check mode with a stale file, else 0.\<close>

definition render_files :: "bool \<Rightarrow> (string \<times> string) list res \<Rightarrow> texts \<Rightarrow> int res \<times> texts" where
  "render_files check rendered fs =
     (case rendered of Inl e \<Rightarrow> (Inl e, fs)
      | Inr blocks \<Rightarrow>
          (case render_targets check blocks TARGETS fs of
             (Inl e, fs') \<Rightarrow> (Inl e, fs')
           | (Inr stale, fs') \<Rightarrow> (Inr (if check \<and> stale \<noteq> [] then 1 else 0), fs')))"

definition plain_rendering :: "(string \<times> string) list \<Rightarrow> bool" where
  "plain_rendering rendered \<longleftrightarrow> (\<forall>(n, body) \<in> set rendered. lt \<notin> set body \<and> \<not> prefix [CHR 0x0A] body)"

lemma apply_blocks_Inr:
  "apply_blocks s rendered path = Inr out \<longleftrightarrow>
     (\<forall>n \<in> set (block_names s). map_of rendered n \<noteq> None) \<and> block_names s \<noteq> []
     \<and> out = sub_text (\<lambda>n. the (map_of rendered n)) s"
  by (auto simp: apply_blocks_def find_None_iff find_Some_iff split: option.splits)

lemma apply_blocks_twice:
  assumes "plain_rendering rendered" and "apply_blocks s rendered path = Inr out"
  shows "apply_blocks out rendered' path = apply_blocks s rendered' path"
proof -
  let ?r = "\<lambda>n. the (map_of rendered n)"
  have k: "\<forall>n \<in> set (block_names s). map_of rendered n \<noteq> None" and o: "out = sub_text ?r s"
    using assms(2) by (simp_all add: apply_blocks_Inr)
  have "lt \<notin> set (?r n) \<and> \<not> prefix [CHR 0x0A] (?r n)" if "n \<in> set (block_names s)" for n
    using assms(1) k that map_of_SomeD [of rendered n] by (fastforce simp: plain_rendering_def)
  then have "plain_bodies ?r s" by (simp add: plain_bodies_def)
  from sub_text_overwrites [OF this] show ?thesis unfolding apply_blocks_def o by (simp split: option.split)
qed

text \<open>
  A rendering replaces the one before: after a first rendering with plain bodies (no \<open><\<close>, no leading
  newline), rendering any other values gives what it would have given on the original
  text, errors included. Nothing outside the blocks is lost or duplicated, whatever their bodies and however often a
  document is rendered; in particular rendering the same values again changes nothing.
\<close>

theorem rendering_overwrites:
  assumes "plain_rendering rendered" and "apply_blocks s rendered path = Inr out"
  shows "apply_blocks out rendered' path = apply_blocks s rendered' path"
  using assms by (rule apply_blocks_twice)

lemma apply_blocks_idem:
  "plain_rendering rendered \<Longrightarrow> apply_blocks s rendered path = Inr out \<Longrightarrow> apply_blocks out rendered path = Inr out"
  using apply_blocks_twice [of rendered s path out rendered] by simp

definition current :: "(string \<times> string) list \<Rightarrow> texts \<Rightarrow> string \<Rightarrow> bool" where
  "current rendered fs name \<longleftrightarrow> (\<exists>s. fs name = Some s \<and> apply_blocks s rendered name = Inr s)"

lemma render_targets_current:
  "list_all (current rendered fs) names \<Longrightarrow> render_targets check rendered names fs = (Inr [], fs)"
  by (induction names) (auto simp: current_def)

lemma check_writes_nothing: "snd (render_targets True rendered names fs) = fs"
  by (induction names) (auto split: option.splits sum.splits prod.splits simp: prod_eq_iff)

lemma render_targets_other: "name \<notin> set names \<Longrightarrow> snd (render_targets check rendered names fs) name = fs name"
  by (induction names arbitrary: fs) (auto split: option.splits sum.splits prod.splits, (metis snd_conv)+)

lemma render_targets_writes:
  assumes "plain_rendering rendered"
  shows "render_targets False rendered names fs = (Inr stale, fs') \<Longrightarrow> distinct names \<Longrightarrow> list_all (current rendered fs') names"
proof (induction names arbitrary: fs)
  case (Cons name names)
  from Cons.prems(1) obtain s out where s: "fs name = Some s" "apply_blocks s rendered name = Inr out"
    by (auto split: option.splits sum.splits)
  let ?fs = "if s = out then fs else fs(name \<mapsto> out)"
  have r: "render_targets False rendered names ?fs = (Inr stale, fs')" using Cons.prems(1) s by (simp split: if_splits)
  then have "fs' name = ?fs name" using render_targets_other [of name names False rendered ?fs] Cons.prems(2) by simp
  then have "fs' name = Some out" using s by simp
  then have "current rendered fs' name" using apply_blocks_idem [OF assms s(2)] by (simp add: current_def)
  with Cons.IH [OF r] Cons.prems(2) show ?case by simp
qed simp

lemma render_files_again:
  assumes "plain_rendering blocks" and "render_files False (Inr blocks) fs = (Inr code, fs')"
  shows "code = 0 \<and> render_files True (Inr blocks) fs' = (Inr 0, fs') \<and> render_files False (Inr blocks) fs' = (Inr 0, fs')"
proof -
  obtain stale where t: "render_targets False blocks TARGETS fs = (Inr stale, fs')" "code = 0"
    using assms(2) by (auto simp: render_files_def split: sum.splits prod.splits)
  have "distinct TARGETS" by (simp add: TARGETS_def)
  from render_targets_writes [OF assms(1) t(1) this] have "list_all (current blocks fs') TARGETS" .
  from render_targets_current [OF this] t(2) show ?thesis by (simp add: render_files_def)
qed

section \<open>An example document\<close>

definition sample_document_text :: string where
  "sample_document_text = ''<!-- BEGIN GENERATED: a -->old<!-- END GENERATED: a --> tail''"

definition sample_rendering :: "(string \<times> string) list" where
  "sample_rendering = [(''a'', ''new'')]"

lemma sample_match:
  "match_marker (''<!-- BEGIN GENERATED: a -->'' @ body @ ''<!-- END GENERATED: a --> tail'')
     = Some \<lparr>bl_name = ''a'', bl_newline = [], bl_rest = '' tail''\<rparr>"
  if "body \<in> {''old'', ''new''}"
  using that by (auto simp: match_marker_def open_marker_def begin_text_def close_text_def name_char_def newline_of_def
      end_marker_def split_once.simps)

lemma sample_tail: "sub_text r '' tail'' = '' tail''" "block_names '' tail'' = []"
  using sub_text_free [of "'' tail''" r "[]"] by (simp_all add: sub_text_None block_names_None match_marker_head)

lemma sample_apply:
  "apply_blocks sample_document_text sample_rendering path
     = Inr ''<!-- BEGIN GENERATED: a -->new<!-- END GENERATED: a --> tail''"
proof -
  have "match_marker sample_document_text = Some \<lparr>bl_name = ''a'', bl_newline = [], bl_rest = '' tail''\<rparr>"
    using sample_match [of "''old''"] by (simp add: sample_document_text_def)
  from sub_text_Some [OF this] show ?thesis
    by (simp add: apply_blocks_def sample_rendering_def sample_tail begin_marker_def begin_text_def close_text_def
        end_marker_def)
qed

lemma sample_plain: "plain_rendering sample_rendering"
  by (simp add: plain_rendering_def sample_rendering_def)

theorem rendering_overwrites_witness:
  "apply_blocks ''<!-- BEGIN GENERATED: a -->new<!-- END GENERATED: a --> tail'' sample_rendering ''README.md''
     = Inr ''<!-- BEGIN GENERATED: a -->new<!-- END GENERATED: a --> tail''"
  using rendering_overwrites [OF sample_plain sample_apply] sample_apply by metis

end
