(* ===== verification/Statistics.thy ===== *)
theory Statistics
  imports Floats
begin

text \<open>
  The statistics of the reports: the interpolating \<open>quantile\<close> of the Python clients
  (\<open>investigation/client.py\<close>, \<open>investigation/http_client.py\<close>), the rank percentile \<open>pct\<close> of
  \<open>bench/report.py\<close> and \<open>statistics.median\<close>, all in binary64. The locale \<open>location\<close> is what a report
  relies on, that such a number lies between the smallest and the largest sample; every one of these
  routines is an instance of it.
\<close>

section \<open>Interpolation in binary64\<close>

lemma float_multiple:
  assumes "is_float x"
  obtains m where "x = of_int m * ulp x" and "\<bar>m\<bar> \<le> 2 ^ 53"
proof (cases "x = 0")
  case True
  then show thesis using that [of 0] by simp
next
  case False
  then have "x = of_int (rne (x / ulp x)) * ulp x" using assms by (simp add: is_float_def fl_def)
  then show thesis using that rne_ulp_bound [OF False] by blast
qed

lemma float_below_one:
  assumes "is_float t" and "t < 1" shows "t \<le> 1 - 2 powr - 53"
proof (cases "t < 1 / 2")
  case True
  have "(2 :: real) powr - 53 \<le> 2 powr - 1" by (intro powr_mono) simp_all
  then have "(2 :: real) powr - 53 \<le> 1 / 2" by (simp add: powr_minus_divide)
  with True show ?thesis by linarith
next
  case False
  then have l: "- 1 \<le> log 2 t" "log 2 t < 0" using assms(2) by (auto simp: le_log_iff powr_minus_divide)
  then have "\<lfloor>log 2 t\<rfloor> = - 1" by linarith
  then have u: "ulp t = 2 powr - 53" using False by (simp add: ulp_def flexp_def)
  obtain m where m: "t = of_int m * ulp t" using float_multiple [OF assms(1)] by metis
  have "of_int m * 2 powr - 53 < (1 :: real)" using m u assms(2) by simp
  then have "of_int m < (2 :: real) powr 53" by (simp add: powr_minus field_simps)
  then have "real_of_int m < real_of_int (2 ^ 53)" by simp
  then have "m \<le> 2 ^ 53 - 1" by (simp only: of_int_less_iff)
  then have "real_of_int m \<le> real_of_int (2 ^ 53 - 1)" by (simp only: of_int_le_iff)
  then have "of_int m \<le> (2 ^ 53 - 1 :: real)" by simp
  then have "of_int m * 2 powr - 53 \<le> (2 ^ 53 - 1) * (2 :: real) powr - 53"
    by (intro mult_right_mono) simp_all
  also have "\<dots> = 1 - 2 powr - 53" by (simp add: left_diff_distrib powr_minus powr_numeral)
  finally show ?thesis using m u by simp
qed

lemma is_float_frac:
  assumes "is_float x" and "0 \<le> x" shows "is_float (x - of_int \<lfloor>x\<rfloor>)"
proof -
  obtain m where m: "x = of_int m * ulp x" and b: "\<bar>m\<bar> \<le> 2 ^ 53" by (rule float_multiple [OF assms(1)])
  show ?thesis
  proof (cases "0 \<le> flexp x")
    case True
    then have "ulp x = of_int (2 ^ nat (flexp x))"
      unfolding ulp_def using powr_realpow [of 2 "nat (flexp x)"] by simp
    with m have "x = of_int (m * 2 ^ nat (flexp x))" by simp
    then have "x - of_int \<lfloor>x\<rfloor> = 0" by (metis diff_self floor_of_int)
    then show ?thesis by simp
  next
    case False
    define j where "j = nat (- flexp x)"
    have "of_int (2 ^ j) = (2 :: real) powr - of_int (flexp x)"
      using False powr_realpow [of 2 j] by (simp add: j_def)
    then have "of_int (2 ^ j) * ulp x = 2 powr (- of_int (flexp x) + of_int (flexp x))"
      unfolding ulp_def by (simp only: powr_add)
    then have u: "1 = of_int (2 ^ j) * ulp x" by simp
    define k where "k = m - \<lfloor>x\<rfloor> * 2 ^ j"
    have x: "x - of_int \<lfloor>x\<rfloor> = of_int k * ulp x"
    proof -
      have "of_int \<lfloor>x\<rfloor> = of_int (\<lfloor>x\<rfloor> * 2 ^ j) * ulp x" using u by simp
      then show ?thesis using m by (simp add: k_def left_diff_distrib)
    qed
    then have "0 \<le> of_int k * ulp x" by (metis diff_ge_0_iff_ge of_int_floor_le)
    then have "0 \<le> k" using ulp_pos(1) [of x] by (auto simp: zero_le_mult_iff)
    moreover have "k \<le> m" using assms(2) by (simp add: k_def)
    ultimately have "\<bar>k\<bar> \<le> 2 ^ 53" using b by simp
    then have "is_float (of_int k * 2 powr of_int (flexp x))" by (intro fl_scaled) (simp_all add: flexp_def)
    with x show ?thesis by (simp add: ulp_def)
  qed
qed

text \<open>A multiple of \<open>2 ^ -1074\<close>: every float is one, and so is every difference of floats.\<close>

lemma float_grid: "is_float x \<Longrightarrow> \<exists>m. x = of_int m * 2 powr - 1074"
proof -
  assume "is_float x"
  then obtain m where m: "x = of_int m * ulp x" using float_multiple by metis
  have "- 1074 \<le> flexp x" by (simp add: flexp_def)
  then have "of_int (2 ^ nat (flexp x + 1074)) = (2 :: real) powr (of_int (flexp x) + 1074)"
    using powr_realpow [of 2 "nat (flexp x + 1074)"] by simp
  then have "of_int (2 ^ nat (flexp x + 1074)) * 2 powr - 1074 = (2 :: real) powr (of_int (flexp x) + 1074 + - 1074)"
    by (simp only: powr_add)
  then have "ulp x = of_int (2 ^ nat (flexp x + 1074)) * 2 powr - 1074" by (simp add: ulp_def)
  with m have "x = of_int (m * 2 ^ nat (flexp x + 1074)) * 2 powr - 1074" by simp
  then show ?thesis by blast
qed

text \<open>If a difference of floats is rounded up, any fraction below one of it stays below the exact one.\<close>

lemma fraction_below_difference:
  assumes a: "is_float a" and b: "is_float b" and up: "b - a < fl (b - a)" and r: "0 < b - a"
    and t: "0 \<le> t" "t \<le> 1 - 2 powr - 53"
  shows "fl (fl (b - a) * t) \<le> b - a"
proof -
  define r where "r = b - a"
  define u where "u = ulp r"
  define m where "m = rne (r / u)"
  have u0: "0 < u" by (simp add: u_def)
  have d: "fl r = of_int m * u" using r by (simp add: fl_def r_def u_def m_def)
  with up have "r < of_int m * u" by (simp add: r_def)
  then have mq: "r / u < of_int m" using u0 by (simp add: field_simps)
  have "of_int m - r / u \<le> 1 / 2" using rne_error [of "r / u"] unfolding m_def by linarith
  then have low: "of_int (m - 1) * u \<le> r" using u0 by (simp add: field_simps)
  have "\<exists>k. r = of_int k * 2 powr - 1074"
    using float_grid [OF a] float_grid [OF b] by (metis r_def left_diff_distrib of_int_diff)
  then obtain k where k: "r = of_int k * 2 powr - 1074" by blast
  have "flexp r \<noteq> - 1074"
  proof
    assume "flexp r = - 1074"
    then have "r / u = of_int k" using k by (simp add: u_def ulp_def)
    with mq show False by (simp add: m_def)
  qed
  then have e: "flexp r = \<lfloor>log 2 r\<rfloor> - 52" using r by (simp add: flexp_def r_def)
  have "2 powr of_int \<lfloor>log 2 r\<rfloor> \<le> r" using above_binade r by (simp add: r_def)
  moreover have bin: "2 powr of_int \<lfloor>log 2 r\<rfloor> = of_int (2 ^ 52) * u"
    using powr_multiple [of r "\<lfloor>log 2 r\<rfloor>"] e by (simp add: u_def)
  ultimately have "of_int (2 ^ 52) \<le> r / u" using u0 by (simp add: field_simps)
  from le_less_trans [OF this mq] have "2 ^ 52 < m" by (simp only: of_int_less_iff)
  then have "2 ^ 52 \<le> m - 1" by simp
  then have m52: "(2 ^ 52 :: real) \<le> of_int (m - 1)" by (metis of_int_le_iff of_int_numeral of_int_power)
  define y where "y = fl r * t"
  have "fl r * t \<le> fl r * (1 - 2 powr - 53)" using t fl_nonneg [of r] r by (intro mult_left_mono) (simp_all add: r_def)
  also have "\<dots> = (of_int m - of_int m * 2 powr - 53) * u" by (simp add: d algebra_simps)
  also have "\<dots> < (of_int m - 1 / 2) * u"
  proof (rule mult_strict_right_mono [OF _ u0])
    have "of_int (2 ^ 52) * (2 :: real) powr - 53 = 1 / 2" by (simp add: powr_minus powr_numeral)
    moreover have "of_int (2 ^ 52) * (2 :: real) powr - 53 < of_int m * 2 powr - 53"
      using m52 by (intro mult_strict_right_mono) simp_all
    ultimately show "of_int m - of_int m * 2 powr - 53 < of_int m - 1 / (2 :: real)" by linarith
  qed
  finally have y: "y < (of_int m - 1 / 2) * u" by (simp add: y_def)
  have "fl y \<le> of_int (m - 1) * u"
  proof (cases "y < of_int (2 ^ 52) * u")
    case True
    have "fl y \<le> fl (of_int (2 ^ 52) * u)" using True by (intro fl_mono) simp
    also have "\<dots> = of_int (2 ^ 52) * u"
      using fl_scaled [of "2 ^ 52" "flexp r"] by (simp add: u_def ulp_def flexp_def)
    also have "\<dots> \<le> of_int (m - 1) * u" using m52 u0 by (intro mult_right_mono) simp_all
    finally show ?thesis .
  next
    case False
    then have y0: "0 < y" using u0 by (smt (verit) mult_pos_pos of_int_0_less_iff zero_less_power)
    have "y < 2 powr (of_int \<lfloor>log 2 r\<rfloor> + 1)"
    proof -
      have "m \<le> 2 ^ 53" using rne_ulp_bound [of r] r by (simp add: m_def u_def r_def)
      then have "of_int m \<le> (2 ^ 53 :: real)" by (metis of_int_le_iff of_int_numeral of_int_power)
      then have "(of_int m - 1 / 2) * u < of_int (2 ^ 53) * u"
        using u0 by (intro mult_strict_right_mono) simp_all
      also have "\<dots> = 2 powr (of_int \<lfloor>log 2 r\<rfloor> + 1)" using bin by (simp add: powr_add)
      finally show ?thesis using y by simp
    qed
    moreover have "2 powr of_int \<lfloor>log 2 r\<rfloor> \<le> y" using False bin by simp
    ultimately have "\<lfloor>log 2 y\<rfloor> = \<lfloor>log 2 r\<rfloor>" using y0
      by (intro floor_unique) (simp_all add: le_log_iff log_less_iff)
    then have uy: "ulp y = u" using e y0 by (simp add: u_def ulp_def flexp_def)
    have "y / u < of_int m - 1 / 2" using y u0 by (simp add: field_simps)
    then have "rne (y / u) \<le> m - 1" using rne_error [of "y / u"] by linarith
    then have "of_int (rne (y / u)) * u \<le> of_int (m - 1) * u" using u0 by (intro mult_right_mono) simp_all
    then show ?thesis using y0 uy by (simp add: fl_def)
  qed
  with low show ?thesis by (simp add: y_def r_def)
qed

lemma lerp_bounds:
  assumes a: "is_float a" and b: "is_float b" and ab: "a \<le> b" and t: "0 \<le> t" "t < 1" "is_float t"
  shows "a \<le> fl (a + fl (fl (b - a) * t))" and "fl (a + fl (fl (b - a) * t)) \<le> b"
proof -
  have t1: "t \<le> 1 - 2 powr - 53" using t by (intro float_below_one)
  have d0: "0 \<le> fl (b - a)" using ab by (intro fl_nonneg) simp
  have "0 \<le> fl (fl (b - a) * t)" by (rule fl_nonneg, rule mult_nonneg_nonneg, rule d0, rule t(1))
  then have "fl a \<le> fl (a + fl (fl (b - a) * t))" by (intro fl_mono) simp
  then show "a \<le> fl (a + fl (fl (b - a) * t))" using a by simp
  have "fl (fl (b - a) * t) \<le> b - a"
  proof (cases "b - a < fl (b - a)")
    case True
    then have "0 < b - a" using ab by (cases "b = a") simp_all
    then show ?thesis using fraction_below_difference [OF a b True] t t1 by blast
  next
    case False
    have "fl (b - a) * t \<le> fl (b - a)" using d0 t by (simp add: mult_left_le)
    then have "fl (fl (b - a) * t) \<le> fl (fl (b - a))" by (rule fl_mono)
    with False show ?thesis by simp
  qed
  then have "fl (a + fl (fl (b - a) * t)) \<le> fl b" by (intro fl_mono) simp
  then show "fl (a + fl (fl (b - a) * t)) \<le> b" using b by simp
qed

section \<open>The routines\<close>

text \<open>\<open>xs[i]\<close> with an integer index, counted from the end when it is negative.\<close>

definition py_at :: "'a list \<Rightarrow> int \<Rightarrow> 'a res" where
  "py_at xs i =
     (if 0 \<le> i \<and> i < int (length xs) then Inr (xs ! nat i)
      else if - int (length xs) \<le> i \<and> i < 0 then Inr (xs ! nat (int (length xs) + i))
      else Inl IndexError)"

lemma py_at_nat [simp]: "i < length xs \<Longrightarrow> py_at xs (int i) = Inr (xs ! i)"
  by (simp add: py_at_def)

lemma py_at_nonneg: "0 \<le> i \<Longrightarrow> i < int (length xs) \<Longrightarrow> py_at xs i = Inr (xs ! nat i)"
  by (simp add: py_at_def)

lemma py_at_set: "py_at xs i = Inr x \<Longrightarrow> x \<in> set xs"
  by (auto simp: py_at_def split: if_splits)

text \<open>\<open>s[lo] + (s[min(lo + 1, len(s) - 1)] - s[lo]) * (x - lo)\<close> with \<open>x = (len(s) - 1) * q\<close>, \<open>lo = floor(x)\<close>.\<close>

definition interpolate :: "real list \<Rightarrow> real \<Rightarrow> real res" where
  "interpolate s q =
     (let x = fl (of_int (int (length s) - 1) * q); lo = \<lfloor>x\<rfloor> in
      bindR (py_at s lo) (\<lambda>a.
      bindR (py_at s (min (lo + 1) (int (length s) - 1))) (\<lambda>b.
      Inr (fl (a + fl (fl (b - a) * fl (x - of_int lo)))))))"

definition quantile :: "real list \<Rightarrow> real \<Rightarrow> real option res" where
  "quantile values q =
     (if values = [] then Inr None else bindR (interpolate (sort values) q) (\<lambda>v. Inr (Some v)))"

definition http_quantile :: "real list \<Rightarrow> real \<Rightarrow> real res" where
  "http_quantile items q = interpolate (sort items) q"

text \<open>\<open>pct\<close> of \<open>report.py\<close>, on the sorted latencies.\<close>

definition pct_index :: "nat \<Rightarrow> real \<Rightarrow> int" where
  "pct_index n p = min (int n - 1) (rne (fl (fl (fl (p / 100) * of_nat n) + 1 / 2)) - 1)"

definition pct :: "real list \<Rightarrow> real \<Rightarrow> real res" where
  "pct lat p = py_at lat (pct_index (length lat) p)"

text \<open>\<open>statistics.median\<close>; \<open>StatisticsError\<close> is a \<open>ValueError\<close>.\<close>

definition py_median :: "real list \<Rightarrow> real res" where
  "py_median data =
     (let s = sort data; n = length s in
      if n = 0 then Inl (ValueError ''no median for empty data'')
      else if odd n then py_at s (int (n div 2))
      else bindR (py_at s (int (n div 2) - 1)) (\<lambda>a. bindR (py_at s (int (n div 2))) (\<lambda>b. Inr (fl (fl (a + b) / 2)))))"

section \<open>Positions of the interpolating quantile\<close>

definition position :: "nat \<Rightarrow> real \<Rightarrow> real" where
  "position n q = fl (of_int (int n - 1) * q)"

lemma position_bounds:
  assumes "0 < n" and "n \<le> 2 ^ 53" and "0 \<le> q" and "q \<le> 1"
  shows "0 \<le> position n q" and "position n q \<le> of_int (int n - 1)"
proof -
  show "0 \<le> position n q" unfolding position_def using assms by (intro fl_nonneg mult_nonneg_nonneg) simp_all
  have "of_int (int n - 1) * q \<le> of_int (int n - 1)" using assms by (intro mult_left_le) simp_all
  then have "position n q \<le> fl (of_int (int n - 1))" unfolding position_def by (rule fl_mono)
  also have "is_float (of_int (int n - 1))" using assms by (intro is_float_int) simp
  then have "fl (of_int (int n - 1)) = of_int (int n - 1)" by simp
  finally show "position n q \<le> of_int (int n - 1)" .
qed

lemma position_mono: "0 < n \<Longrightarrow> q \<le> q' \<Longrightarrow> position n q \<le> position n q'"
  unfolding position_def by (intro fl_mono mult_left_mono) simp_all

text \<open>The two samples a quantile lies between, and the quantile as a number.\<close>

definition lower :: "real list \<Rightarrow> real \<Rightarrow> nat" where
  "lower s q = nat \<lfloor>position (length s) q\<rfloor>"

definition upper :: "real list \<Rightarrow> real \<Rightarrow> nat" where
  "upper s q = min (lower s q + 1) (length s - 1)"

definition lerp :: "real \<Rightarrow> real \<Rightarrow> real \<Rightarrow> real" where
  "lerp a b t = fl (a + fl (fl (b - a) * t))"

definition quantile_at :: "real list \<Rightarrow> real \<Rightarrow> real" where
  "quantile_at s q = lerp (s ! lower s q) (s ! upper s q) (frac (position (length s) q))"

lemma lower_bound:
  assumes "s \<noteq> []" and "length s \<le> 2 ^ 53" and "0 \<le> q" and "q \<le> 1"
  shows "lower s q < length s" and "int (lower s q) = \<lfloor>position (length s) q\<rfloor>"
proof -
  have n: "0 < length s" using assms(1) by simp
  note p = position_bounds [OF n assms(2-4)]
  have f: "0 \<le> \<lfloor>position (length s) q\<rfloor>" using p(1) by simp
  have "\<lfloor>position (length s) q\<rfloor> \<le> int (length s) - 1" using p(2) by linarith
  with f n show "lower s q < length s" unfolding lower_def by linarith
  show "int (lower s q) = \<lfloor>position (length s) q\<rfloor>" using f by (simp add: lower_def)
qed

lemma frac_position:
  assumes "s \<noteq> []" and "length s \<le> 2 ^ 53" and "0 \<le> q" and "q \<le> 1"
  shows "is_float (frac (position (length s) q))"
  unfolding frac_def using assms position_bounds(1) [of "length s" q]
  by (intro is_float_frac) (simp_all add: position_def)

lemma interpolate_eq:
  assumes "s \<noteq> []" and "length s \<le> 2 ^ 53" and "0 \<le> q" and "q \<le> 1"
  shows "interpolate s q = Inr (quantile_at s q)"
proof -
  note l = lower_bound [OF assms]
  have n: "0 < length s" using assms(1) by simp
  have a: "py_at s \<lfloor>position (length s) q\<rfloor> = Inr (s ! lower s q)"
    using l by (metis py_at_nat)
  have "int (upper s q) = min (\<lfloor>position (length s) q\<rfloor> + 1) (int (length s) - 1)"
    unfolding upper_def l(2) [symmetric] using n by linarith
  moreover have "upper s q < length s" using n unfolding upper_def by linarith
  ultimately have b: "py_at s (min (\<lfloor>position (length s) q\<rfloor> + 1) (int (length s) - 1)) = Inr (s ! upper s q)"
    by (metis py_at_nat)
  have "fl (position (length s) q - of_int \<lfloor>position (length s) q\<rfloor>) = frac (position (length s) q)"
    using frac_position [OF assms] by (simp add: frac_def)
  with a b show ?thesis
    unfolding interpolate_def Let_def quantile_at_def lerp_def position_def by simp
qed

lemma lerp_between:
  assumes "is_float a" and "is_float b" and "a \<le> b" and "is_float (frac x)"
  shows "a \<le> lerp a b (frac x)" and "lerp a b (frac x) \<le> b"
  unfolding lerp_def using assms lerp_bounds [of a b "frac x"] by (simp_all add: frac_lt_1)

lemma lerp_mono:
  assumes "a \<le> b" and "t \<le> t'" shows "lerp a b t \<le> lerp a b t'"
proof -
  have "0 \<le> fl (b - a)" using assms(1) by (intro fl_nonneg) simp
  then have "fl (b - a) * t \<le> fl (b - a) * t'" using assms(2) by (rule mult_left_mono [rotated])
  then show ?thesis unfolding lerp_def by (intro fl_mono add_left_mono)
qed

lemma quantile_at_bounds:
  assumes "sorted s" and "list_all is_float s" and "s \<noteq> []" and "length s \<le> 2 ^ 53" and "0 \<le> q" and "q \<le> 1"
  shows "s ! lower s q \<le> quantile_at s q" and "quantile_at s q \<le> s ! upper s q"
proof -
  note l = lower_bound [OF assms(3-6)]
  have u: "upper s q < length s" "lower s q \<le> upper s q" using assms(3) l(1) by (auto simp: upper_def)
  have f: "is_float (s ! lower s q)" "is_float (s ! upper s q)" using assms(2) l(1) u(1) by (auto simp: list_all_length)
  have le: "s ! lower s q \<le> s ! upper s q" using assms(1) u by (intro sorted_nth_mono)
  show "s ! lower s q \<le> quantile_at s q" "quantile_at s q \<le> s ! upper s q"
    unfolding quantile_at_def using lerp_between [OF f le frac_position [OF assms(3-6)]] by simp_all
qed

lemma quantile_at_mono:
  assumes s: "sorted s" "list_all is_float s" "s \<noteq> []" "length s \<le> 2 ^ 53" and q: "0 \<le> q" "q \<le> q'" "q' \<le> 1"
  shows "quantile_at s q \<le> quantile_at s q'"
proof -
  have q1: "q \<le> 1" and q0: "0 \<le> q'" using q by simp_all
  have x: "position (length s) q \<le> position (length s) q'" using s(3) q(2) by (intro position_mono) simp_all
  then have "\<lfloor>position (length s) q\<rfloor> \<le> \<lfloor>position (length s) q'\<rfloor>" by (rule floor_mono)
  then have l: "lower s q \<le> lower s q'" by (simp add: lower_def nat_mono)
  show ?thesis
  proof (cases "lower s q = lower s q'")
    case True
    then have "\<lfloor>position (length s) q\<rfloor> = \<lfloor>position (length s) q'\<rfloor>"
      using lower_bound(2) [OF s(3,4) q(1) q1] lower_bound(2) [OF s(3,4) q0 q(3)] by simp
    with x have "frac (position (length s) q) \<le> frac (position (length s) q')" by (simp add: frac_def)
    moreover have "upper s q = upper s q'" using True by (simp add: upper_def)
    moreover have "s ! lower s q' \<le> s ! upper s q'"
      using quantile_at_bounds [OF s q0 q(3)] by simp
    ultimately show ?thesis unfolding quantile_at_def using True by (simp add: lerp_mono)
  next
    case False
    with l have "upper s q \<le> lower s q'" by (simp add: upper_def)
    then have "s ! upper s q \<le> s ! lower s q'"
      using s(1) lower_bound(1) [OF s(3,4) q0 q(3)] by (intro sorted_nth_mono)
    with quantile_at_bounds(2) [OF s q(1) q1] quantile_at_bounds(1) [OF s q0 q(3)] show ?thesis by linarith
  qed
qed

section \<open>Percentiles by rank and medians\<close>

lemma rne_index:
  assumes "0 \<le> x" shows "- 1 \<le> rne (fl (x + 1 / 2)) - 1"
proof -
  have "0 \<le> fl (x + 1 / 2)" using assms by (intro fl_nonneg) simp
  then have "0 \<le> rne (fl (x + 1 / 2))" using rne_ge [of 0] by simp
  then show ?thesis by simp
qed

lemma pct_index_range:
  assumes "0 < n" and "0 \<le> p" shows "- 1 \<le> pct_index n p" and "pct_index n p \<le> int n - 1"
proof -
  have "0 \<le> fl (fl (p / 100) * of_nat n)" using assms by (intro fl_nonneg mult_nonneg_nonneg) simp_all
  from rne_index [OF this] show "- 1 \<le> pct_index n p" using assms(1) by (simp add: pct_index_def)
qed (simp add: pct_index_def)

lemma pct_index_mono: "p \<le> p' \<Longrightarrow> pct_index n p \<le> pct_index n p'"
  unfolding pct_index_def
  by (intro min.mono order_refl diff_right_mono rne_mono fl_mono add_right_mono mult_right_mono divide_right_mono)
    simp_all

text \<open>At 50 the arithmetic is exact.\<close>

lemma half_exact:
  assumes "n \<le> 2 ^ 51"
  shows "fl (fl (fl (50 / 100) * of_nat n) + 1 / 2) = of_nat n / 2 + 1 / 2"
proof -
  have half: "is_float (of_int m / 2)" if "\<bar>m\<bar> \<le> 2 ^ 53" for m
    using fl_scaled [OF that, of "- 1"] by (simp add: powr_minus_divide)
  have "fl (50 / 100) = (1 / 2 :: real)" using half [of 1] by simp
  moreover have "fl (1 / 2 * of_nat n) = of_nat n / 2" using half [of "int n"] assms by simp
  moreover have "fl (of_nat n / 2 + 1 / 2) = of_nat n / 2 + 1 / 2"
    using half [of "int n + 1"] assms by (simp add: add_divide_distrib)
  ultimately show ?thesis by (simp only:)
qed

lemma pct_index_half:
  assumes "0 < n" and "n \<le> 2 ^ 51"
  shows "pct_index n 50 = int (if n mod 4 = 2 then n div 2 else (n - 1) div 2)"
proof -
  have r: "pct_index n 50 = min (int n - 1) (rne (of_nat n / 2 + 1 / 2) - 1)"
    by (simp only: pct_index_def half_exact [OF assms(2)])
  show ?thesis
  proof (cases "even n")
    case True
    then obtain k where k: "n = 2 * k" by blast
    have "rne (of_nat n / 2 + 1 / 2) = (if even k then int k else int k + 1)"
      using rne_add_half [of "of_nat k"] by (simp add: k)
    moreover have "n mod 4 = 2 \<longleftrightarrow> odd k" using k by presburger
    moreover have "0 < k" "(n - 1) div 2 = k - 1" using k assms(1) by presburger+
    ultimately show ?thesis using r k by (auto simp: min_def of_nat_diff)
  next
    case False
    then obtain k where k: "n = 2 * k + 1" by (elim oddE)
    have "of_nat n / 2 + 1 / 2 = (of_int (int k + 1) :: real)" by (simp add: k field_simps)
    then have "rne (of_nat n / 2 + 1 / 2) = int k + 1" by (simp only: rne_of_int)
    moreover have "n mod 4 \<noteq> 2" "(n - 1) div 2 = k" using k by presburger+
    ultimately show ?thesis using r k by (auto simp: min_def)
  qed
qed

lemma pct_index_nonneg:
  assumes "0 < n" and "n \<le> 2 ^ 51" and "50 \<le> p" shows "0 \<le> pct_index n p"
  using pct_index_half [OF assms(1,2)] pct_index_mono [OF assms(3), of n] by simp

lemma median_between:
  assumes "is_float a" and "is_float b" and "a \<le> b"
  shows "a \<le> fl (fl (a + b) / 2)" and "fl (fl (a + b) / 2) \<le> b"
proof -
  have "fl (2 * a) \<le> fl (a + b)" "fl (a + b) \<le> fl (2 * b)" using assms(3) by (auto intro: fl_mono)
  then have "2 * a \<le> fl (a + b)" "fl (a + b) \<le> 2 * b" using is_float_double assms by simp_all
  then have "fl a \<le> fl (fl (a + b) / 2)" "fl (fl (a + b) / 2) \<le> fl b" by (auto intro: fl_mono)
  then show "a \<le> fl (fl (a + b) / 2)" "fl (fl (a + b) / 2) \<le> b" using assms by simp_all
qed

section \<open>What a report relies on\<close>

text \<open>
  A measure of location: it does not depend on the order of the samples, and on a nonempty list of
  floats it returns a number between the smallest and the largest of them.
\<close>

locale location =
  fixes stat :: "real list \<Rightarrow> real res"
  assumes stat_perm: "mset xs = mset ys \<Longrightarrow> stat xs = stat ys"
    and stat_range: "\<lbrakk>xs \<noteq> []; list_all is_float xs; length xs \<le> 2 ^ 51\<rbrakk> \<Longrightarrow>
      \<exists>v. stat xs = Inr v \<and> Min (set xs) \<le> v \<and> v \<le> Max (set xs)"
begin

lemma stat_within:
  assumes "xs \<noteq> []" and "list_all is_float xs" and "length xs \<le> 2 ^ 51" and "\<And>x. x \<in> set xs \<Longrightarrow> a \<le> x \<and> x \<le> b"
  obtains v where "stat xs = Inr v" and "a \<le> v" and "v \<le> b"
proof -
  obtain v where v: "stat xs = Inr v" "Min (set xs) \<le> v" "v \<le> Max (set xs)"
    using stat_range [OF assms(1-3)] by blast
  have "Min (set xs) \<in> set xs" "Max (set xs) \<in> set xs" using assms(1) by simp_all
  with v assms(4) that [of v] show thesis by (meson order_trans)
qed

lemma stat_constant:
  assumes "is_float x" and "0 < n" and "n \<le> 2 ^ 51" shows "stat (replicate n x) = Inr x"
  using stat_range [of "replicate n x"] assms by (fastforce simp: list_all_iff)

end

lemma sorted_ends:
  assumes "sorted s" and "i < length s" shows "Min (set s) \<le> s ! i \<and> s ! i \<le> Max (set s)"
  using assms by simp

lemma sort_cong_mset: "mset xs = mset ys \<Longrightarrow> sort xs = sort ys"
  by (metis properties_for_sort sorted_sort mset_sort)

lemma list_all_sort [simp]: "list_all P (sort xs) = list_all P xs"
  by (simp add: list_all_iff)

lemma list_all_sort_nth: "list_all P xs \<Longrightarrow> i < length xs \<Longrightarrow> P (sort xs ! i)"
  using nth_mem [of i "sort xs"] by (simp add: list_all_iff)

lemma sort_nonempty [simp]: "(sort xs = []) = (xs = [])"
  by (metis length_0_conv length_sort)

lemma py_median_odd: "length xs = 2 * k + 1 \<Longrightarrow> py_median xs = Inr (sort xs ! k)"
  by (cases xs) (simp_all add: py_median_def Let_def py_at_nonneg)

lemma py_median_even:
  assumes "length xs = 2 * (k + 1)"
  shows "py_median xs = Inr (fl (fl (sort xs ! k + sort xs ! (k + 1)) / 2))"
proof -
  have "py_at (sort xs) (int k) = Inr (sort xs ! k)" "py_at (sort xs) (int (k + 1)) = Inr (sort xs ! (k + 1))"
    using assms by (intro py_at_nat; simp)+
  moreover have "xs \<noteq> []" using assms by auto
  ultimately show ?thesis using assms by (simp add: py_median_def Let_def)
qed

lemma py_median_range:
  assumes "xs \<noteq> []" and "list_all is_float xs"
  shows "\<exists>v. py_median xs = Inr v \<and> Min (set xs) \<le> v \<and> v \<le> Max (set xs)"
proof (cases "even (length xs)")
  case False
  then obtain k where k: "length xs = 2 * k + 1" by (elim oddE)
  have "k < length (sort xs)" using k by simp
  from sorted_ends [OF sorted_sort this] show ?thesis using py_median_odd [OF k] by simp
next
  case True
  then obtain j where "length xs = 2 * j" by (elim evenE)
  then obtain k where k: "length xs = 2 * (k + 1)" using assms(1) by (cases j) auto
  have i: "k < length (sort xs)" "k + 1 < length (sort xs)" using k by simp_all
  have f: "is_float (sort xs ! k)" "is_float (sort xs ! (k + 1))"
    using k by (auto intro!: list_all_sort_nth [OF assms(2)])
  have le: "sort xs ! k \<le> sort xs ! (k + 1)" using i by (intro sorted_nth_mono) simp_all
  have "Min (set xs) \<le> sort xs ! k" "sort xs ! (k + 1) \<le> Max (set xs)"
    using sorted_ends [OF sorted_sort i(1)] sorted_ends [OF sorted_sort i(2)] by simp_all
  with median_between [OF f le] have "Min (set xs) \<le> fl (fl (sort xs ! k + sort xs ! (k + 1)) / 2)"
      "fl (fl (sort xs ! k + sort xs ! (k + 1)) / 2) \<le> Max (set xs)" by linarith+
  with py_median_even [OF k] show ?thesis by blast
qed

interpretation median: location py_median
proof unfold_locales
  show "py_median xs = py_median ys" if "mset xs = mset ys" for xs ys
    unfolding py_median_def sort_cong_mset [OF that] ..
qed (rule py_median_range)

lemma quantile_location:
  assumes "0 \<le> q" and "q \<le> 1" shows "location (\<lambda>xs. http_quantile xs q)"
proof unfold_locales
  show "http_quantile xs q = http_quantile ys q" if "mset xs = mset ys" for xs ys
    using sort_cong_mset [OF that] by (simp add: http_quantile_def)
  show "\<exists>v. http_quantile xs q = Inr v \<and> Min (set xs) \<le> v \<and> v \<le> Max (set xs)"
    if x: "xs \<noteq> []" "list_all is_float xs" "length xs \<le> 2 ^ 51" for xs
  proof -
    let ?s = "sort xs"
    have s: "sorted ?s" "list_all is_float ?s" "?s \<noteq> []" "length ?s \<le> 2 ^ 53" using x by simp_all
    have "0 < length ?s" using x(1) by simp
    then have u: "upper ?s q < length ?s" unfolding upper_def by linarith
    show ?thesis
      using interpolate_eq [OF s(3,4) assms] quantile_at_bounds [OF s assms]
        sorted_ends [OF s(1) lower_bound(1) [OF s(3,4) assms]] sorted_ends [OF s(1) u]
      by (auto simp: http_quantile_def)
  qed
qed

interpretation p50: location "\<lambda>xs. http_quantile xs (1 / 2)"
  by (rule quantile_location) simp_all

interpretation rank: location "\<lambda>xs. pct (sort xs) 50"
proof unfold_locales
  show "pct (sort xs) 50 = pct (sort ys) 50" if "mset xs = mset ys" for xs ys
    using sort_cong_mset [OF that] by simp
  show "\<exists>v. pct (sort xs) 50 = Inr v \<and> Min (set xs) \<le> v \<and> v \<le> Max (set xs)"
    if x: "xs \<noteq> []" "length xs \<le> 2 ^ 51" for xs
  proof -
    have i: "0 \<le> pct_index (length xs) 50" "pct_index (length xs) 50 < int (length xs)"
      using x pct_index_nonneg [of "length xs" 50] pct_index_range [of "length xs" 50] by simp_all
    with sorted_ends [of "sort xs" "nat (pct_index (length xs) 50)"] show ?thesis
      by (auto simp: pct_def py_at_nonneg)
  qed
qed

section \<open>Properties\<close>

lemma quantile_Some:
  assumes "xs \<noteq> []" and "length xs \<le> 2 ^ 53" and "0 \<le> q" and "q \<le> 1"
  shows "quantile xs q = Inr (Some (quantile_at (sort xs) q))"
  using assms interpolate_eq [of "sort xs" q] by (simp add: quantile_def)

text \<open>
  C33. The latency percentiles of the clients are well defined and ordered: for a nonempty list of
  finite floats and \<open>0 <= q <= q' <= 1\<close>, in binary64 arithmetic with all its roundings,
  \<open>quantile\<close> returns a number between the two neighbouring samples, and the quantile at \<open>q\<close> is not
  above the one at \<open>q'\<close>; without samples it is \<open>None\<close>.
\<close>

theorem quantiles_ordered:
  assumes "list_all is_float xs" and "length xs \<le> 2 ^ 53" and "0 \<le> q" and "q \<le> q'" and "q' \<le> 1"
  shows "if xs = [] then quantile xs q = Inr None
    else \<exists>v v'. quantile xs q = Inr (Some v) \<and> quantile xs q' = Inr (Some v') \<and> v \<le> v'
      \<and> sort xs ! lower (sort xs) q \<le> v \<and> v \<le> sort xs ! upper (sort xs) q"
proof (cases "xs = []")
  case False
  then have s: "sorted (sort xs)" "list_all is_float (sort xs)" "sort xs \<noteq> []" "length (sort xs) \<le> 2 ^ 53"
    using assms by simp_all
  have q: "q \<le> 1" "0 \<le> q'" using assms by simp_all
  show ?thesis
    using quantile_Some [OF False assms(2,3) q(1)] quantile_Some [OF False assms(2) q(2) assms(5)]
      quantile_at_mono [OF s assms(3-5)] quantile_at_bounds [OF s assms(3) q(1)] False by simp
qed (simp add: quantile_def)

theorem quantiles_ordered_witness:
  "\<exists>v v'. quantile [7, 1, 4] (1 / 2) = Inr (Some v) \<and> quantile [7, 1, 4] (3 / 4) = Inr (Some v') \<and> v \<le> v'"
  using quantiles_ordered [of "[7, 1, 4]" "1 / 2" "3 / 4"] by auto

text \<open>
  The 50th percentile of the reports is a sample of rank \<open>(n + 1) div 2\<close>, the nearest rank, except
  when the number \<open>n\<close> of samples is twice an odd number: then \<open>round\<close>, which takes halves to even, gives
  the next rank (of two samples the larger one).
\<close>

theorem pct_50_rank:
  assumes "lat \<noteq> []" and "length lat \<le> 2 ^ 51"
  shows "pct lat 50 = Inr (lat ! (if length lat mod 4 = 2 then length lat div 2 else (length lat - 1) div 2))"
proof -
  have n: "0 < length lat" using assms(1) by simp
  let ?i = "if length lat mod 4 = 2 then length lat div 2 else (length lat - 1) div 2"
  have "?i < length lat" using n by presburger
  then show ?thesis unfolding pct_def pct_index_half [OF n assms(2)] by (rule py_at_nat)
qed

theorem pct_50_rank_witness: "pct [1, 2] 50 = Inr 2 \<and> pct [1, 2, 3, 4] 50 = Inr 2"
  using pct_50_rank [of "[1, 2]"] pct_50_rank [of "[1, 2, 3, 4]"] by simp

end
