(* ===== verification/Report.thy ===== *)
theory Report
  imports Statistics Json
begin

text \<open>
  The summaries of the \<open>ghz\<close> runs: \<open>summarize\<close> of \<open>bench/report.py\<close>, the table of \<open>bench/aggregate.py\<close>
  and \<open>bench/summarize.py\<close>, which writes the measurement file that \<open>bench/render.py\<close> renders. The disk
  is a record: the names in a directory and, for a path, the result of parsing the file there.
\<close>

section \<open>Files and JSON access\<close>

record files =
  listing :: "string \<Rightarrow> string list"
  document :: "string \<Rightarrow> json res option"

definition exists_file :: "files \<Rightarrow> string \<Rightarrow> bool" where
  "exists_file fs path \<longleftrightarrow> document fs path \<noteq> None"

text \<open>\<open>json.load\<close> of an opened path, \<open>x[k]\<close> with a string \<open>k\<close>, \<open>x.get(k, default)\<close> and \<open>for y in x\<close>.\<close>

definition load :: "files \<Rightarrow> string \<Rightarrow> json res" where
  "load fs path = (case document fs path of None \<Rightarrow> Inl (FileNotFoundError path) | Some r \<Rightarrow> r)"

definition subscript :: "json \<Rightarrow> string \<Rightarrow> json res" where
  "subscript j k = (case j of JObj d \<Rightarrow> item d k | _ \<Rightarrow> Inl TypeError)"

definition get_default :: "json \<Rightarrow> string \<Rightarrow> json \<Rightarrow> json res" where
  "get_default j k v = bindR (dict_of j) (\<lambda>d. Inr (get_or d k v))"

definition elements :: "json \<Rightarrow> json list res" where
  "elements j = (case j of JArr xs \<Rightarrow> Inr xs | JObj d \<Rightarrow> Inr (map (\<lambda>p. JStr (fst p)) d)
     | JStr s \<Rightarrow> Inr (map (\<lambda>c. JStr [c]) s) | _ \<Rightarrow> Inl TypeError)"

lemma elements_bound: "elements j = Inr xs \<Longrightarrow> (\<exists>y. j = JArr y \<and> xs = y) \<or> (\<forall>x \<in> set xs. \<exists>s. x = JStr s)"
  by (cases j) (auto simp: elements_def)

section \<open>report.py\<close>

record run_summary =
  rs_rps :: json
  rs_count :: json
  rs_ok :: json
  rs_codes :: json
  rs_p50 :: real
  rs_p90 :: real
  rs_p99 :: real
  rs_p999 :: real
  rs_p9999 :: real
  rs_max :: real

text \<open>One element of the generator \<open>x["latency"] / 1e6 for x in details if x["status"] == "OK"\<close>.\<close>

definition ok_latency :: "json \<Rightarrow> real option res" where
  "ok_latency x =
     bindR (subscript x ''status'') (\<lambda>st.
       if st = JStr ''OK''
       then bindR (subscript x ''latency'') (\<lambda>l. bindR (num_of l) (\<lambda>v. Inr (Some (fl (fl v / 1000000)))))
       else Inr None)"

definition latencies :: "json \<Rightarrow> real list res" where
  "latencies d =
     bindR (subscript d ''details'') (\<lambda>ds. bindR (elements ds) (\<lambda>xs.
     bindR (mapR ok_latency xs) (\<lambda>ls. Inr (sort (map the (filter (\<lambda>l. l \<noteq> None) ls))))))"

definition summarize :: "files \<Rightarrow> string \<Rightarrow> run_summary res" where
  "summarize fs path =
     bindR (load fs path) (\<lambda>d. bindR (latencies d) (\<lambda>lat.
     if lat = [] then Inl (SystemExit (path @ '': no successful requests''))
     else
       bindR (subscript d ''rps'') (\<lambda>rps.
       bindR (subscript d ''count'') (\<lambda>n.
       bindR (subscript d ''statusCodeDistribution'') (\<lambda>codes.
       bindR (get_default codes ''OK'' (JNum 0)) (\<lambda>ok.
       bindR (pct lat 50) (\<lambda>p50. bindR (pct lat 90) (\<lambda>p90. bindR (pct lat 99) (\<lambda>p99.
       bindR (pct lat (fl 99.9)) (\<lambda>p999. bindR (pct lat (fl 99.99)) (\<lambda>p9999.
       bindR (last_item lat) (\<lambda>mx.
       Inr \<lparr>rs_rps = rps, rs_count = n, rs_ok = ok, rs_codes = codes, rs_p50 = p50, rs_p90 = p90,
            rs_p99 = p99, rs_p999 = p999, rs_p9999 = p9999, rs_max = mx\<rparr>))))))))))))"

lemma latencies_sorted: "latencies d = Inr lat \<Longrightarrow> sorted lat"
  by (auto simp: latencies_def)

lemma pct_between:
  assumes "sorted lat" and "length lat \<le> 2 ^ 51" and "50 \<le> p" and "p \<le> p'"
    and "pct lat p = Inr v" and "pct lat p' = Inr v'"
  shows "v \<le> v'" and "v' \<in> set lat"
proof -
  let ?n = "length lat"
  have n: "0 < ?n" using py_at_set [of lat "pct_index ?n p" v] assms(5) by (cases lat) (simp_all add: pct_def)
  have i: "0 \<le> pct_index ?n p" "pct_index ?n p \<le> pct_index ?n p'" "pct_index ?n p' \<le> int ?n - 1"
    using pct_index_nonneg [OF n assms(2,3)] pct_index_mono [OF assms(4)] pct_index_range(2) [OF n] assms(3,4)
    by simp_all
  then have "v = lat ! nat (pct_index ?n p)" "v' = lat ! nat (pct_index ?n p')"
    using assms(5,6) by (simp_all add: pct_def py_at_nonneg)
  moreover have "nat (pct_index ?n p) \<le> nat (pct_index ?n p')" "nat (pct_index ?n p') < ?n" using i n by linarith+
  ultimately show "v \<le> v'" "v' \<in> set lat" using assms(1) by (simp_all add: sorted_nth_mono)
qed

lemma below_last: "sorted lat \<Longrightarrow> x \<in> set lat \<Longrightarrow> x \<le> last lat"
  by (induction lat) auto

lemma fl_100: "99 \<le> fl 99.9" "fl 99.9 \<le> fl 99.99"
proof -
  have "fl 99 \<le> fl 99.9" by (rule fl_mono) simp
  then show "99 \<le> fl 99.9" by simp
  show "fl 99.9 \<le> fl 99.99" by (rule fl_mono) simp
qed

text \<open>
  The percentiles of a run are ordered samples: if \<open>summarize\<close> returns, then p50, p90, p99, p99.9 and
  p99.99 are latencies of successful requests, in this order, and none is above the maximum.
\<close>

theorem summarize_percentiles:
  assumes "summarize fs path = Inr s" and "load fs path = Inr d" and "latencies d = Inr lat" and "length lat \<le> 2 ^ 51"
  shows "set [rs_p50 s, rs_p90 s, rs_p99 s, rs_p999 s, rs_p9999 s, rs_max s] \<subseteq> set lat
    \<and> sorted [rs_p50 s, rs_p90 s, rs_p99 s, rs_p999 s, rs_p9999 s, rs_max s]
    \<and> rs_max s = Max (set lat)"
proof -
  have p: "pct lat 50 = Inr (rs_p50 s)" "pct lat 90 = Inr (rs_p90 s)" "pct lat 99 = Inr (rs_p99 s)"
      "pct lat (fl 99.9) = Inr (rs_p999 s)" "pct lat (fl 99.99) = Inr (rs_p9999 s)"
      "last lat = rs_max s" "lat \<noteq> []"
    using assms(1-3) by (auto simp: summarize_def last_item_def split: if_splits)
  have s: "sorted lat" using assms(3) by (rule latencies_sorted)
  note b = pct_between [OF s assms(4)]
  have f: "50 \<le> fl 99.9" using fl_100 by linarith
  have a: "rs_p50 s \<le> rs_p90 s" "rs_p90 s \<in> set lat" "rs_p90 s \<le> rs_p99 s" "rs_p99 s \<in> set lat"
    "rs_p50 s \<in> set lat"
    using b [OF _ _ p(1,2)] b [OF _ _ p(2,3)] b(2) [OF _ _ p(1,1)] by simp_all
  have c: "rs_p99 s \<le> rs_p999 s" "rs_p999 s \<in> set lat" "rs_p999 s \<le> rs_p9999 s" "rs_p9999 s \<in> set lat"
    using b [OF _ fl_100(1) p(3,4)] b [OF f fl_100(2) p(4,5)] by simp_all
  have m: "rs_max s \<in> set lat" using last_in_set [OF p(7)] p(6) by simp
  have l: "x \<le> rs_max s" if "x \<in> set lat" for x using below_last [OF s that] p(6) by simp
  have "rs_max s = Max (set lat)" using m l by (intro Max_eqI [symmetric]) simp_all
  then show ?thesis using a c m l [OF c(4)] by simp
qed

text \<open>A run with one request of one millisecond.\<close>

definition one_run :: json where
  "one_run = JObj [(''details'', JArr [JObj [(''status'', JStr ''OK''), (''latency'', JNum 1000000)]]),
     (''rps'', JNum 5), (''count'', JNum 1), (''statusCodeDistribution'', JObj [(''OK'', JNum 1)])]"

definition sample_files :: files where
  "sample_files = \<lparr>listing = (\<lambda>d. if d = ''rep1'' then [''environment.json'', ''c1.json''] else []),
     document = (\<lambda>p. if p \<in> {''rep1/c1.json'', ''ops/get.json'', ''ops/set.json'', ''ops/incr.json'', ''ops/ping.json''}
         then Some (Inr one_run)
       else if p \<in> {''ops/environment.json'', ''rep1/environment.json''}
         then Some (Inr (JObj [(''image_digest'', JStr ''sha256:0'')]))
       else None)\<rparr>"

lemma pct_singleton: "0 \<le> p \<Longrightarrow> pct [x] p = Inr x"
  using pct_index_range [of 1 p] by (auto simp: pct_def py_at_def)

lemma one_run_latencies: "latencies one_run = Inr [1]"
  by (simp add: latencies_def one_run_def subscript_def item_def elements_def ok_latency_def)

lemma one_run_summary:
  assumes "document fs path = Some (Inr one_run)"
  shows "summarize fs path = Inr \<lparr>rs_rps = JNum 5, rs_count = JNum 1, rs_ok = JNum 1, rs_codes = JObj [(''OK'', JNum 1)],
    rs_p50 = 1, rs_p90 = 1, rs_p99 = 1, rs_p999 = 1, rs_p9999 = 1, rs_max = 1\<rparr>"
proof -
  have "0 \<le> fl 99.9" "0 \<le> fl 99.99" using fl_100 by linarith+
  then have p: "pct [1] (fl 99.9) = Inr 1" "pct [1] (fl 99.99) = Inr 1" by (simp_all only: pct_singleton)
  have "pct [1] 50 = Inr 1" "pct [1] 90 = Inr 1" "pct [1] 99 = Inr 1" by (simp_all add: pct_singleton)
  note p = p this
  have l: "last_item [1 :: real] = Inr 1" by (simp add: last_item_def)
  have d: "subscript one_run ''rps'' = Inr (JNum 5)" "subscript one_run ''count'' = Inr (JNum 1)"
      "subscript one_run ''statusCodeDistribution'' = Inr (JObj [(''OK'', JNum 1)])"
      "get_default (JObj [(''OK'', JNum 1)]) ''OK'' (JNum 0) = Inr (JNum 1)"
    by (simp_all add: one_run_def subscript_def item_def get_default_def get_or_def)
  show ?thesis unfolding summarize_def load_def assms
    by (simp only: option.case bindR_simps one_run_latencies list.distinct if_False p d l)
qed

theorem summarize_percentiles_witness:
  "\<exists>s. summarize sample_files ''rep1/c1.json'' = Inr s \<and> rs_p50 s \<le> rs_p9999 s \<and> rs_max s = 1"
proof -
  have d: "document sample_files ''rep1/c1.json'' = Some (Inr one_run)" by (simp add: sample_files_def)
  then have l: "load sample_files ''rep1/c1.json'' = Inr one_run" by (simp add: load_def)
  have "length [1 :: real] \<le> 2 ^ 51" by simp
  from summarize_percentiles [OF one_run_summary [OF d] l one_run_latencies this]
  show ?thesis unfolding one_run_summary [OF d] by simp
qed

section \<open>aggregate.py\<close>

definition AGG_LEVELS :: "nat list" where
  "AGG_LEVELS = [1, 8, 25, 50, 100, 200, 400]"

definition level_path :: "int \<Rightarrow> string \<Rightarrow> string" where
  "level_path c d = d @ ''/c'' @ str_int c @ ''.json''"

text \<open>\<open>try: runs.append(summarize(path)) except FileNotFoundError: pass\<close> over the paths.\<close>

fun found_runs :: "files \<Rightarrow> string list \<Rightarrow> run_summary list res" where
  "found_runs fs [] = Inr []"
| "found_runs fs (p # ps) =
     (case summarize fs p of
        Inl (FileNotFoundError m) \<Rightarrow> found_runs fs ps
      | Inl e \<Rightarrow> Inl e
      | Inr s \<Rightarrow> bindR (found_runs fs ps) (\<lambda>ss. Inr (s # ss)))"

record agg_row =
  ag_level :: nat
  ag_rps_median :: real
  ag_rps_min :: real
  ag_rps_max :: real
  ag_p50 :: real
  ag_p99 :: real
  ag_p999 :: real

definition rps_of :: "run_summary list \<Rightarrow> real list res" where
  "rps_of runs = mapR (\<lambda>x. num_of (rs_rps x)) runs"

definition aggregate_row :: "nat \<Rightarrow> run_summary list \<Rightarrow> agg_row res" where
  "aggregate_row c runs =
     bindR (rps_of runs) (\<lambda>rps. bindR (py_median rps) (\<lambda>m.
     bindR (py_median (map rs_p50 runs)) (\<lambda>p50. bindR (py_median (map rs_p99 runs)) (\<lambda>p99.
     bindR (py_median (map rs_p999 runs)) (\<lambda>p999.
     Inr \<lparr>ag_level = c, ag_rps_median = m, ag_rps_min = Min (set rps), ag_rps_max = Max (set rps),
          ag_p50 = p50, ag_p99 = p99, ag_p999 = p999\<rparr>)))))"

text \<open>The rows of the table, one per level that some repetition measured; printing is left out.\<close>

fun aggregate_levels :: "files \<Rightarrow> string list \<Rightarrow> nat list \<Rightarrow> agg_row list res" where
  "aggregate_levels fs reps [] = Inr []"
| "aggregate_levels fs reps (c # cs) =
     bindR (found_runs fs (map (level_path (int c)) reps)) (\<lambda>runs.
       if runs = [] then aggregate_levels fs reps cs
       else bindR (aggregate_row c runs) (\<lambda>r. bindR (aggregate_levels fs reps cs) (\<lambda>rs. Inr (r # rs))))"

definition aggregate :: "files \<Rightarrow> string list \<Rightarrow> agg_row list res" where
  "aggregate fs argv =
     aggregate_levels fs
       (if argv = [] then [''bench/results/rep1'', ''bench/results/rep2'', ''bench/results/rep3''] else argv) AGG_LEVELS"

section \<open>summarize.py\<close>

definition OPS :: "string list" where
  "OPS = [''get'', ''set'', ''incr'', ''ping'']"

text \<open>\<open>round(x, n)\<close> of a float: the exact decimal value rounded half to even, then the nearest float.\<close>

definition round_dec :: "real \<Rightarrow> nat \<Rightarrow> real" where
  "round_dec x n = fl (of_int (rne (x * 10 ^ n)) / 10 ^ n)"

lemma round_dec_mono: "x \<le> y \<Longrightarrow> round_dec x n \<le> round_dec y n"
  unfolding round_dec_def by (intro fl_mono divide_right_mono) (simp_all add: rne_mono mult_right_mono)

definition load_env :: "files \<Rightarrow> string \<Rightarrow> json res" where
  "load_env fs path =
     (let p = path @ ''/environment.json'' in
      if \<not> exists_file fs p then Inl (SystemExit (''missing '' @ p)) else load fs p)"

definition operation_entry :: "files \<Rightarrow> string \<Rightarrow> string \<Rightarrow> (string \<times> run_summary) res" where
  "operation_entry fs opsdir name =
     (let path = opsdir @ ''/'' @ name @ ''.json'' in
      if \<not> exists_file fs path then Inl (SystemExit (''missing '' @ path @ ''; bench/run.sh did not complete''))
      else bindR (summarize fs path) (\<lambda>s. Inr (name, s)))"

definition operation_mix :: "files \<Rightarrow> string \<Rightarrow> (string \<times> run_summary) list res" where
  "operation_mix fs opsdir =
     mapR (operation_entry fs opsdir) OPS"

text \<open>
  The levels found in a directory: \<open>int(f.stem[1:])\<close> for every \<open>c*.json\<close>, skipping a \<open>ValueError\<close>.
\<close>

definition level_of_name :: "string \<Rightarrow> int option" where
  "level_of_name name =
     (if prefix ''c'' name \<and> suffix ''.json'' name
      then (case int_of_string (drop 1 (take (length name - 5) name)) of Inl e \<Rightarrow> None | Inr c \<Rightarrow> Some c)
      else None)"

definition levels :: "files \<Rightarrow> string list \<Rightarrow> int list" where
  "levels fs repdirs = sort (remdups (List.map_filter level_of_name (concat (map (listing fs) repdirs))))"

record sweep_row =
  sw_repetitions :: nat
  sw_rps_median :: real
  sw_rps_runs :: "real list"
  sw_p50_median_ms :: real
  sw_p99_median_ms :: real
  sw_p999_median_ms :: real
  sw_errors :: real

definition present_paths :: "files \<Rightarrow> string list \<Rightarrow> int \<Rightarrow> string list" where
  "present_paths fs repdirs c = filter (exists_file fs) (map (level_path c) repdirs)"

definition median_of :: "(run_summary \<Rightarrow> real) \<Rightarrow> run_summary list \<Rightarrow> nat \<Rightarrow> real res" where
  "median_of f runs n = bindR (py_median (map f runs)) (\<lambda>m. Inr (round_dec m n))"

definition run_errors :: "run_summary \<Rightarrow> real res" where
  "run_errors x = bindR (num_of (rs_count x)) (\<lambda>n. bindR (num_of (rs_ok x)) (\<lambda>k. Inr (n - k)))"

definition sweep_level :: "files \<Rightarrow> string list \<Rightarrow> int \<Rightarrow> sweep_row res" where
  "sweep_level fs repdirs c =
     bindR (mapR (summarize fs) (present_paths fs repdirs c)) (\<lambda>runs.
     bindR (rps_of runs) (\<lambda>rps. bindR (py_median rps) (\<lambda>m.
     bindR (median_of rs_p50 runs 3) (\<lambda>p50. bindR (median_of rs_p99 runs 3) (\<lambda>p99.
     bindR (median_of rs_p999 runs 3) (\<lambda>p999.
     bindR (mapR run_errors runs) (\<lambda>errs.
     Inr \<lparr>sw_repetitions = length runs, sw_rps_median = round_dec m 1,
          sw_rps_runs = map (\<lambda>x. round_dec x 1) rps, sw_p50_median_ms = p50, sw_p99_median_ms = p99,
          sw_p999_median_ms = p999, sw_errors = sum_list errs\<rparr>)))))))"

definition sweep :: "files \<Rightarrow> string list \<Rightarrow> (string \<times> sweep_row) list res" where
  "sweep fs repdirs =
     (if levels fs repdirs = [] then Inl (SystemExit ''no cN.json files found'')
      else mapR (\<lambda>c. bindR (sweep_level fs repdirs c) (\<lambda>r. Inr (str_int c, r))) (levels fs repdirs))"

record measurement =
  me_environment :: json
  me_operation_mix :: "(string \<times> run_summary) list"
  me_sweep :: "(string \<times> sweep_row) list"
  me_server_stats :: json

definition summarize_main :: "files \<Rightarrow> string list \<Rightarrow> measurement res" where
  "summarize_main fs argv =
     (case argv of
        program # opsdir # first # rest \<Rightarrow>
          bindR (load_env fs opsdir) (\<lambda>env. bindR (load_env fs first) (\<lambda>sweep_env.
          bindR (get_default env ''image_digest'' JNull) (\<lambda>a.
          bindR (get_default sweep_env ''image_digest'' JNull) (\<lambda>b.
          if a \<noteq> b then Inl (SystemExit ''the operation mix and the sweep measured different images'')
          else
            bindR (if exists_file fs (opsdir @ ''/stats.json'') then load fs (opsdir @ ''/stats.json'')
                   else Inr (JObj [])) (\<lambda>stats.
            bindR (operation_mix fs opsdir) (\<lambda>ops. bindR (sweep fs (first # rest)) (\<lambda>sw.
            Inr \<lparr>me_environment = env, me_operation_mix = ops, me_sweep = sw, me_server_stats = stats\<rparr>)))))))
      | _ \<Rightarrow> Inl (SystemExit ''usage''))"

section \<open>What the measurement file says\<close>

lemma str_int_inject [simp]: "str_int a = str_int b \<longleftrightarrow> a = b"
proof -
  have "CHR ''-'' # x \<noteq> str_nat n" "str_nat n \<noteq> CHR ''-'' # x" for x n
    using str_nat_not(3) [of n] by (metis list.set_intros(1))+
  then show ?thesis by (auto simp: str_int_def)
qed

lemma str_int_nat [simp]: "str_int (int n) = str_nat n"
  by (simp add: str_int_def)

lemma level_of_canonical: "level_of_name (''c'' @ str_nat n @ ''.json'') = Some (int n)"
  by (simp add: level_of_name_def suffix_def)

lemma levels_iff: "c \<in> set (levels fs ds) \<longleftrightarrow> (\<exists>d \<in> set ds. \<exists>name \<in> set (listing fs d). level_of_name name = Some c)"
  by (force simp: levels_def List.map_filter_def image_iff)

lemma distinct_levels: "distinct (levels fs ds)" "sorted (levels fs ds)"
  by (simp_all add: levels_def)

lemma mapR_keys:
  "mapR (\<lambda>x. bindR (f x) (\<lambda>y. Inr (k x, y))) xs = Inr ys \<Longrightarrow> map fst ys = map k xs"
  by (induction xs arbitrary: ys) auto

lemma mapR_lookup:
  assumes "mapR (\<lambda>x. bindR (f x) (\<lambda>y. Inr (k x, y))) xs = Inr ys" and "distinct (map k xs)" and "x \<in> set xs"
  shows "\<exists>y. f x = Inr y \<and> map_of ys (k x) = Some y"
  using assms by (induction xs arbitrary: ys) (auto simp: image_iff)

lemma sweep_lookup:
  assumes "sweep fs ds = Inr rows" and "c \<in> set (levels fs ds)"
  shows "\<exists>row. sweep_level fs ds c = Inr row \<and> map_of rows (str_int c) = Some row"
proof -
  have "distinct (map str_int (levels fs ds))" using distinct_levels by (auto simp: distinct_map inj_on_def)
  then show ?thesis using assms mapR_lookup [of "sweep_level fs ds" str_int "levels fs ds" rows c]
    by (auto simp: sweep_def split: if_splits)
qed

lemma sweep_level_parts:
  assumes "sweep_level fs ds c = Inr row"
  obtains runs rps m where "mapR (summarize fs) (present_paths fs ds c) = Inr runs" and "rps_of runs = Inr rps"
    and "py_median rps = Inr m" and "sw_repetitions row = length runs" and "sw_rps_median row = round_dec m 1"
    and "sw_rps_runs row = map (\<lambda>x. round_dec x 1) rps"
  using assms unfolding sweep_level_def by auto

lemma py_median_nonempty: "py_median xs = Inr m \<Longrightarrow> xs \<noteq> []"
  by (auto simp: py_median_def)

definition float_rates :: "files \<Rightarrow> bool" where
  "float_rates fs \<longleftrightarrow> (\<forall>p s x. summarize fs p = Inr s \<and> num_of (rs_rps s) = Inr x \<longrightarrow> is_float x)"

lemma rps_floats:
  assumes "float_rates fs" and "mapR (summarize fs) ps = Inr runs" and "rps_of runs = Inr rps"
  shows "list_all is_float rps"
proof -
  have len: "length rps = length runs" "length runs = length ps"
    using assms(2,3) mapR_length unfolding rps_of_def by blast+
  have "is_float (rps ! i)" if i: "i < length rps" for i
    using assms(1) mapR_nth [OF assms(2), of i] mapR_nth [OF assms(3) [unfolded rps_of_def], of i] i len
    unfolding float_rates_def by (metis (no_types, lifting))
  then show ?thesis by (simp add: list_all_length)
qed

lemma round_dec_median:
  assumes "list_all is_float rps" and "py_median rps = Inr m"
  shows "Min (set (map (\<lambda>x. round_dec x n) rps)) \<le> round_dec m n"
    and "round_dec m n \<le> Max (set (map (\<lambda>x. round_dec x n) rps))"
proof -
  have ne: "rps \<noteq> []" using assms(2) by (rule py_median_nonempty)
  then have m: "Min (set rps) \<le> m" "m \<le> Max (set rps)" using py_median_range [OF ne assms(1)] assms(2) by auto
  have "Min (set rps) \<in> set rps" "Max (set rps) \<in> set rps" using ne by simp_all
  then have "Min (set (map (\<lambda>x. round_dec x n) rps)) \<le> round_dec (Min (set rps)) n"
      "round_dec (Max (set rps)) n \<le> Max (set (map (\<lambda>x. round_dec x n) rps))" by simp_all
  with round_dec_mono [OF m(1), of n] round_dec_mono [OF m(2), of n]
  show "Min (set (map (\<lambda>x. round_dec x n) rps)) \<le> round_dec m n"
    "round_dec m n \<le> Max (set (map (\<lambda>x. round_dec x n) rps))" by linarith+
qed

text \<open>
  No measured level is dropped: if the sweep is summarized at all, then every concurrency level with a
  file \<open>cN.json\<close> in some repetition has an entry; it counts the repetitions that measured the level,
  and its published median throughput lies between the smallest and the largest published run.
\<close>

theorem sweep_complete:
  assumes "sweep fs ds = Inr rows" and "d \<in> set ds" and "''c'' @ str_nat n @ ''.json'' \<in> set (listing fs d)"
    and "float_rates fs"
  shows "\<exists>row. map_of rows (str_nat n) = Some row
    \<and> sw_repetitions row = length (filter (\<lambda>d. exists_file fs (level_path (int n) d)) ds) \<and> 0 < sw_repetitions row
    \<and> Min (set (sw_rps_runs row)) \<le> sw_rps_median row \<and> sw_rps_median row \<le> Max (set (sw_rps_runs row))"
proof -
  have "int n \<in> set (levels fs ds)" using assms(2,3) level_of_canonical by (auto simp: levels_iff)
  from sweep_lookup [OF assms(1) this] obtain row
    where r: "sweep_level fs ds (int n) = Inr row" "map_of rows (str_nat n) = Some row" by auto
  obtain runs rps m where p: "mapR (summarize fs) (present_paths fs ds (int n)) = Inr runs" "rps_of runs = Inr rps"
      "py_median rps = Inr m" "sw_repetitions row = length runs" "sw_rps_median row = round_dec m 1"
      "sw_rps_runs row = map (\<lambda>x. round_dec x 1) rps"
    by (rule sweep_level_parts [OF r(1)])
  have "length runs = length rps" using p(2) mapR_length unfolding rps_of_def by metis
  with py_median_nonempty [OF p(3)] have "0 < length runs" by simp
  moreover have "length runs = length (filter (\<lambda>d. exists_file fs (level_path (int n) d)) ds)"
    using mapR_length [OF p(1)] by (simp add: present_paths_def filter_map comp_def)
  moreover note round_dec_median [OF rps_floats [OF assms(4) p(1,2)] p(3), of 1]
  ultimately show ?thesis using r(2) p(4-6) by simp
qed

text \<open>A summary raises \<open>FileNotFoundError\<close> only for a file that is not there.\<close>

definition found :: "'a res \<Rightarrow> bool" where
  "found r \<longleftrightarrow> (\<forall>m. r \<noteq> Inl (FileNotFoundError m))"

definition readable :: "files \<Rightarrow> bool" where
  "readable fs \<longleftrightarrow> (\<forall>p r. document fs p = Some r \<longrightarrow> found r)"

lemma found_bindR: "found m \<Longrightarrow> (\<And>x. m = Inr x \<Longrightarrow> found (f x)) \<Longrightarrow> found (bindR m f)"
  by (cases m) (simp_all add: found_def)

lemma found_Inr [simp]: "found (Inr x)"
  by (simp add: found_def)

lemma found_mapR: "(\<And>x. found (f x)) \<Longrightarrow> found (mapR f xs)"
  by (induction xs) (simp_all add: found_bindR found_Inr)

lemma found_basic [simp]: "found (subscript j k)" "found (elements j)" "found (num_of j)"
    "found (get_default j k v)" "found (pct lat p)" "found (last_item xs)"
  by (auto simp: found_def subscript_def item_def elements_def num_of_def get_default_def dict_of_def pct_def
      py_at_def last_item_def split: json.splits option.splits)

lemma found_latencies: "found (latencies d)"
  unfolding latencies_def ok_latency_def by (intro found_bindR found_mapR) (auto intro!: found_bindR)

lemma found_summarize:
  assumes "readable fs" shows "found (summarize fs p) \<longleftrightarrow> exists_file fs p"
proof (cases "document fs p")
  case None
  then show ?thesis by (simp add: summarize_def load_def exists_file_def found_def)
next
  case (Some r)
  with assms have "found r" by (simp add: readable_def)
  then have "found (summarize fs p)"
    unfolding summarize_def load_def Some option.case
    by (intro found_bindR) (auto intro!: found_bindR found_latencies simp: found_def [of "Inl _"])
  with Some show ?thesis by (simp add: exists_file_def)
qed

lemma found_runs_present:
  assumes "readable fs"
  shows "found_runs fs ps = Inr runs \<Longrightarrow> mapR (summarize fs) (filter (exists_file fs) ps) = Inr runs"
proof (induction ps arbitrary: runs)
  case (Cons p ps)
  then show ?case using found_summarize [OF assms, of p]
    by (cases "summarize fs p") (auto simp: found_def split: exn.splits)
qed simp

lemma aggregate_levels_row:
  assumes "aggregate_levels fs ds cs = Inr rows" and "r \<in> set rows"
  shows "ag_level r \<in> set cs
    \<and> (\<exists>runs. runs \<noteq> [] \<and> found_runs fs (map (level_path (int (ag_level r))) ds) = Inr runs \<and> aggregate_row (ag_level r) runs = Inr r)"
  using assms
proof (induction cs arbitrary: rows)
  case (Cons c cs)
  from Cons.prems obtain runs where runs: "found_runs fs (map (level_path (int c)) ds) = Inr runs" by auto
  have lev: "ag_level r = c" if "aggregate_row c runs = Inr r" using that by (auto simp: aggregate_row_def)
  show ?case using Cons runs lev by (auto split: if_splits)
qed simp

lemma aggregate_row_medians:
  "aggregate_row c runs = Inr r \<Longrightarrow> ag_level r = c \<and> (\<exists>rps. rps_of runs = Inr rps \<and> py_median rps = Inr (ag_rps_median r))
    \<and> py_median (map rs_p50 runs) = Inr (ag_p50 r) \<and> py_median (map rs_p99 runs) = Inr (ag_p99 r)
    \<and> py_median (map rs_p999 runs) = Inr (ag_p999 r)"
  by (auto simp: aggregate_row_def)

text \<open>
  The two programs agree: for a level that \<open>aggregate.py\<close> lists, the sweep of the measurement file has
  an entry for the level if it has one at all, with the same repetitions and with the medians rounded
  (to one decimal for the throughput, to three for the latencies).
\<close>

theorem aggregate_agrees_with_sweep:
  assumes "readable fs" and "aggregate fs ds = Inr table" and "ds \<noteq> []" and "r \<in> set table"
    and "sweep_level fs ds (int (ag_level r)) = Inr row"
  shows "sw_rps_median row = round_dec (ag_rps_median r) 1 \<and> sw_p50_median_ms row = round_dec (ag_p50 r) 3
    \<and> sw_p99_median_ms row = round_dec (ag_p99 r) 3 \<and> sw_p999_median_ms row = round_dec (ag_p999 r) 3"
proof -
  obtain runs where "found_runs fs (map (level_path (int (ag_level r))) ds) = Inr runs" "aggregate_row (ag_level r) runs = Inr r"
    using aggregate_levels_row [of fs ds AGG_LEVELS table r] assms(2-4) by (auto simp: aggregate_def)
  then have "mapR (summarize fs) (present_paths fs ds (int (ag_level r))) = Inr runs" "aggregate_row (ag_level r) runs = Inr r"
    using found_runs_present [OF assms(1)] by (auto simp: present_paths_def)
  with assms(5) show ?thesis by (auto simp: sweep_level_def median_of_def dest!: aggregate_row_medians)
qed

lemma operation_entries: "mapR (operation_entry fs opsdir) names = Inr ops \<Longrightarrow> map fst ops = names"
  by (induction names arbitrary: ops) (auto simp: operation_entry_def Let_def split: if_splits)

text \<open>
  One summary describes one artefact: a measurement file is written only if the operation mix and the
  first repetition of the sweep ran on the same image digest; it then holds every operation.
\<close>

theorem summary_one_image:
  assumes "summarize_main fs argv = Inr me"
  shows "\<exists>program opsdir first rest sweep_env. argv = program # opsdir # first # rest
    \<and> load_env fs opsdir = Inr (me_environment me) \<and> load_env fs first = Inr sweep_env
    \<and> get_default (me_environment me) ''image_digest'' JNull = get_default sweep_env ''image_digest'' JNull
    \<and> map fst (me_operation_mix me) = OPS \<and> sweep fs (first # rest) = Inr (me_sweep me)"
proof -
  have ops: "map fst ops = OPS" if "operation_mix fs opsdir = Inr ops" for opsdir ops
    using that unfolding operation_mix_def by (rule operation_entries)
  from assms show ?thesis
    unfolding summarize_main_def by (auto dest!: ops split: list.splits if_splits)
qed

section \<open>A complete example\<close>

lemma sample_document:
  "document sample_files ''rep1/c1.json'' = Some (Inr one_run)" "document sample_files ''ops/get.json'' = Some (Inr one_run)"
  "document sample_files ''ops/set.json'' = Some (Inr one_run)" "document sample_files ''ops/incr.json'' = Some (Inr one_run)"
  "document sample_files ''ops/ping.json'' = Some (Inr one_run)" "document sample_files ''ops/stats.json'' = None"
  "document sample_files ''ops/environment.json'' = Some (Inr (JObj [(''image_digest'', JStr ''sha256:0'')]))"
  "document sample_files ''rep1/environment.json'' = Some (Inr (JObj [(''image_digest'', JStr ''sha256:0'')]))"
  by (simp_all add: sample_files_def)

lemma str_1: "str_nat 1 = ''1''" "str_int 1 = ''1''"
  using str_int_nat [of 1] by (simp_all add: str_nat.simps [of 1] str_nat.simps [of "Suc 0"] digit_def)

lemma sample_levels: "levels sample_files [''rep1''] = [1]"
  by (simp add: levels_def sample_files_def List.map_filter_def level_of_name_def suffix_def int_of_string_def
      is_digit_def nat_of_digits_def digit_val_def)

lemma sample_present: "present_paths sample_files [''rep1''] 1 = [''rep1/c1.json'']"
  by (simp add: present_paths_def level_path_def exists_file_def sample_document str_1)

lemma py_median_single [simp]: "py_median [x] = Inr x"
  using py_median_odd [of "[x]" 0] by simp

lemma round_dec_nat: "m \<le> 2 ^ 53 \<Longrightarrow> round_dec (of_nat m) n = of_nat m"
proof -
  assume "m \<le> 2 ^ 53"
  then have "is_float (of_nat m)" using is_float_int [of "int m"] by simp
  moreover have "rne (of_nat m * 10 ^ n) = int (m * 10 ^ n)" using rne_of_int [of "int (m * 10 ^ n)"] by simp
  ultimately show ?thesis by (simp add: round_dec_def)
qed

lemma sample_sweep_level: "\<exists>row. sweep_level sample_files [''rep1''] 1 = Inr row"
  by (simp add: sweep_level_def sample_present one_run_summary [OF sample_document(1)] rps_of_def median_of_def
      run_errors_def)

lemma sample_sweep: "\<exists>rows. sweep sample_files [''rep1''] = Inr rows"
  using sample_sweep_level by (auto simp: sweep_def sample_levels)

lemma sample_floats: "float_rates sample_files" "readable sample_files"
proof -
  have "load sample_files p = Inr d \<Longrightarrow> d = one_run \<or> d = JObj [(''image_digest'', JStr ''sha256:0'')]" for p d
    by (auto simp: load_def sample_files_def split: if_splits)
  then have "summarize sample_files p = Inr s \<Longrightarrow> rs_rps s = JNum 5" for p s
    unfolding summarize_def
    by (fastforce simp: one_run_def subscript_def item_def latencies_def split: if_splits)
  then show "float_rates sample_files" unfolding float_rates_def by fastforce
  show "readable sample_files" by (auto simp: readable_def sample_files_def split: if_splits)
qed

theorem sweep_complete_witness:
  "\<exists>rows row. sweep sample_files [''rep1''] = Inr rows \<and> map_of rows ''1'' = Some row \<and> 0 < sw_repetitions row"
proof -
  obtain rows where r: "sweep sample_files [''rep1''] = Inr rows" using sample_sweep by blast
  note n = str_1(1)
  have "''c'' @ str_nat 1 @ ''.json'' \<in> set (listing sample_files ''rep1'')"
    unfolding n by (simp add: sample_files_def)
  from sweep_complete [OF r _ this sample_floats(1)] r show ?thesis unfolding n by auto
qed

lemma sample_other_levels:
  assumes "c \<noteq> 1" shows "found_runs sample_files (map (level_path c) [''rep1'']) = Inr []"
proof -
  have "level_path c ''rep1'' \<noteq> ''rep1/c1.json''"
    using assms str_int_inject [of c 1, unfolded str_1(2)] by (auto simp: level_path_def simp del: str_int_inject)
  then have "document sample_files (level_path c ''rep1'') = None"
    by (auto simp: sample_files_def level_path_def)
  then show ?thesis by (simp add: summarize_def load_def)
qed

lemma sample_found: "found_runs sample_files (map (level_path 1) [''rep1'']) =
    bindR (summarize sample_files ''rep1/c1.json'') (\<lambda>s. Inr [s])"
proof -
  have "level_path 1 ''rep1'' = ''rep1/c1.json''"
    by (simp add: level_path_def str_1)
  then show ?thesis by (simp add: one_run_summary [OF sample_document(1)])
qed

lemma sample_aggregate: "\<exists>r. aggregate sample_files [''rep1''] = Inr [r] \<and> ag_level r = 1"
proof -
  note other = sample_other_levels [of 8] sample_other_levels [of 25] sample_other_levels [of 50]
    sample_other_levels [of 100] sample_other_levels [of 200] sample_other_levels [of 400]
  show ?thesis using other sample_found
    by (simp add: aggregate_def AGG_LEVELS_def one_run_summary [OF sample_document(1)] aggregate_row_def rps_of_def)
qed

theorem aggregate_agrees_with_sweep_witness:
  "\<exists>r row. aggregate sample_files [''rep1''] = Inr [r] \<and> sweep_level sample_files [''rep1''] 1 = Inr row
    \<and> sw_rps_median row = round_dec (ag_rps_median r) 1"
proof -
  obtain r where r: "aggregate sample_files [''rep1''] = Inr [r]" "ag_level r = 1" using sample_aggregate by blast
  obtain row where row: "sweep_level sample_files [''rep1''] 1 = Inr row" using sample_sweep_level by blast
  have "sweep_level sample_files [''rep1''] (int (ag_level r)) = Inr row" using row r(2) by simp
  from aggregate_agrees_with_sweep [OF sample_floats(2) r(1) _ _ this] r row show ?thesis by auto
qed

theorem summary_one_image_witness:
  "\<exists>me. summarize_main sample_files [''summarize.py'', ''ops'', ''rep1''] = Inr me \<and> map fst (me_operation_mix me) = OPS"
proof -
  obtain rows where rows: "sweep sample_files [''rep1''] = Inr rows" using sample_sweep by blast
  have "\<exists>ops. operation_mix sample_files ''ops'' = Inr ops"
    by (simp add: operation_mix_def operation_entry_def OPS_def exists_file_def sample_document one_run_summary)
  then obtain ops where ops: "operation_mix sample_files ''ops'' = Inr ops" by blast
  have "\<exists>me. summarize_main sample_files [''summarize.py'', ''ops'', ''rep1''] = Inr me"
    by (simp add: summarize_main_def load_env_def exists_file_def load_def sample_document get_default_def get_or_def
        ops rows)
  then obtain me where me: "summarize_main sample_files [''summarize.py'', ''ops'', ''rep1''] = Inr me" by blast
  from summary_one_image [OF me] me show ?thesis by auto
qed

end
