(* ===== verification/Render.thy ===== *)
theory Render
  imports Blocks Report
begin

text \<open>
  The tables \<open>bench/render.py\<close> renders from the measurement file. Text is its UTF-8 encoding. The decimal
  value of \<open>repr(v)\<close> and the \<open>str\<close> of a JSON value that is no string are parameters (\<open>pyrepr\<close>): the
  shortest decimal that reads back as a float is the interpreter's choice.
\<close>

record pyrepr =
  repr_value :: "real \<Rightarrow> real"
  str_json :: "json \<Rightarrow> string"

section \<open>Figures\<close>

text \<open>\<open>Decimal.quantize\<close> with \<open>ROUND_HALF_UP\<close>, as an integer number of units in the last place.\<close>

definition round_half_up :: "real \<Rightarrow> nat \<Rightarrow> int" where
  "round_half_up x places =
     (let k = \<lfloor>\<bar>x\<bar> * 10 ^ places + 1 / 2\<rfloor> in if x < 0 then - k else k)"

definition pad2 :: "nat \<Rightarrow> string" where
  "pad2 k = [digit (k div 10 mod 10), digit (k mod 10)]"

definition pad3 :: "nat \<Rightarrow> string" where
  "pad3 k = [digit (k div 100 mod 10), digit (k div 10 mod 10), digit (k mod 10)]"

text \<open>The format \<open>,\<close> of an integer.\<close>

fun commas :: "nat \<Rightarrow> string" where
  "commas n = (if n < 1000 then str_nat n else commas (n div 1000) @ '','' @ pad3 (n mod 1000))"

declare commas.simps [simp del]

definition sign :: "real \<Rightarrow> string" where
  "sign x = (if x < 0 then ''-'' else [])"

definition fmt_rps :: "pyrepr \<Rightarrow> real \<Rightarrow> string" where
  "fmt_rps P v = sign v @ commas (nat \<bar>round_half_up (repr_value P v) 0\<bar>)"

definition fmt_ms :: "pyrepr \<Rightarrow> real \<Rightarrow> string" where
  "fmt_ms P v =
     (let k = nat \<bar>round_half_up (repr_value P v) 2\<bar> in sign v @ str_nat (k div 100) @ ''.'' @ pad2 (k mod 100) @ '' ms'')"

section \<open>Access to the measurement\<close>

definition fstr :: "pyrepr \<Rightarrow> json \<Rightarrow> string" where
  "fstr P j = (case j of JStr s \<Rightarrow> s | _ \<Rightarrow> str_json P j)"

definition str_of :: "json \<Rightarrow> string res" where
  "str_of j = (case j of JStr s \<Rightarrow> Inr s | _ \<Rightarrow> Inl AttributeError)"

definition num_item :: "json \<Rightarrow> string \<Rightarrow> real res" where
  "num_item j k = bindR (subscript j k) num_of"

definition str_item :: "pyrepr \<Rightarrow> json \<Rightarrow> string \<Rightarrow> string res" where
  "str_item P j k = bindR (subscript j k) (\<lambda>v. Inr (fstr P v))"

text \<open>\<open>sweep_rows\<close>: the levels as integers, in increasing order.\<close>

definition sweep_rows :: "json \<Rightarrow> (int \<times> json) list res" where
  "sweep_rows sw =
     bindR (dict_of sw) (\<lambda>d.
     bindR (mapR (\<lambda>(k, v). bindR (int_of_string k) (\<lambda>c. Inr (c, v))) d) (\<lambda>rows. Inr (sort_key fst rows)))"

section \<open>Versions\<close>

text \<open>The search \<open>kServerVersion\s*=\s*"([^"]+)"\<close> in \<open>CacheManager.h\<close>.\<close>

definition version_here :: "string \<Rightarrow> string option" where
  "version_here s =
     (if \<not> prefix ''kServerVersion'' s then None
      else case dropWhile is_space (drop 14 s) of
        c # t \<Rightarrow>
          if c \<noteq> CHR ''='' then None
          else (case dropWhile is_space t of
            q # u \<Rightarrow>
              if q \<noteq> CHR 0x22 then None
              else let v = takeWhile (\<lambda>c. c \<noteq> CHR 0x22) u in
                if v \<noteq> [] \<and> length v < length u then Some v else None
          | [] \<Rightarrow> None)
      | [] \<Rightarrow> None)"

fun source_version :: "string \<Rightarrow> string option" where
  "source_version [] = None"
| "source_version (c # cs) =
     (case version_here (c # cs) of Some v \<Rightarrow> Some v | None \<Rightarrow> source_version cs)"

definition measured_version :: "json \<Rightarrow> string option res" where
  "measured_version env =
     bindR (subscript env ''image'') (\<lambda>j. bindR (str_of j) (\<lambda>img.
       let tag = last (split_on CHR '':'' img) in
       Inr (if tag \<in> {''latest'', img} then None else Some tag)))"

definition dash :: string where
  "dash = [CHR 0xE2, CHR 0x80, CHR 0x94]"

definition en_dash :: string where
  "en_dash = [CHR 0xE2, CHR 0x80, CHR 0x93]"

definition drift_row :: "json \<Rightarrow> string \<Rightarrow> string list res" where
  "drift_row env header =
     bindR (measured_version env) (\<lambda>measured.
       case (measured, source_version header) of
         (Some m, Some s) \<Rightarrow>
           Inr (if m = [] \<or> s = [] \<or> m = s then []
                else [''| **Measured version** | **'' @ m @ '' '' @ dash @ '' this tree is '' @ s
                      @ '', so these numbers predate it** |''])
       | _ \<Rightarrow> Inr [])"

section \<open>Tables\<close>

definition newline :: string where
  "newline = [CHR 0x0A]"

text \<open>\<open>env["image_digest"].split(":", 1)[1][:12]\<close> and \<open>removeprefix("ghz ")\<close>.\<close>

definition short_digest :: "json \<Rightarrow> string res" where
  "short_digest env =
     bindR (subscript env ''image_digest'') (\<lambda>j. bindR (str_of j) (\<lambda>s.
       case split_once '':'' s of None \<Rightarrow> Inl IndexError | Some (a, b) \<Rightarrow> Inr (take 12 b)))"

definition generator_name :: "json \<Rightarrow> string res" where
  "generator_name env =
     bindR (subscript env ''load_generator'') (\<lambda>j. bindR (str_of j) (\<lambda>s.
       Inr (if prefix ''ghz '' s then drop 4 s else s)))"

text \<open>The number of requests is an integer.\<close>

definition fmt_count :: "json \<Rightarrow> string res" where
  "fmt_count j = bindR (num_of j) (\<lambda>x. Inr (sign x @ commas (nat \<bar>\<lfloor>x\<rfloor>\<bar>)))"

definition render_environment :: "pyrepr \<Rightarrow> string \<Rightarrow> json \<Rightarrow> json \<Rightarrow> string res" where
  "render_environment P header env requests =
     bindR (short_digest env) (\<lambda>short. bindR (generator_name env) (\<lambda>gen.
     bindR (str_item P env ''host'') (\<lambda>host. bindR (str_item P env ''runtime'') (\<lambda>runtime.
     bindR (str_item P env ''vm_resources'') (\<lambda>vm. bindR (str_item P env ''image'') (\<lambda>img.
     bindR (str_item P env ''server_cpus'') (\<lambda>server. bindR (str_item P env ''client_cpus'') (\<lambda>client.
     bindR (str_item P env ''cache'') (\<lambda>cache. bindR (str_item P env ''workset'') (\<lambda>workset.
     bindR (fmt_count requests) (\<lambda>n. bindR (drift_row env header) (\<lambda>drift.
     Inr (join newline
       ([''| | |'', ''|---|---|'',
         ''| Host | '' @ host @ '' |'',
         ''| Container runtime | '' @ runtime @ '' |'',
         ''| VM resources | '' @ vm @ '' |'',
         ''| Server image | `'' @ img @ ''` (`sha256:'' @ short @ ''`) |'',
         ''| Server CPUs | pinned to cores '' @ server @ '' |'',
         ''| Load generator | [ghz](https://ghz.sh) '' @ gen @ '', pinned to cores '' @ client @ '' |'',
         ''| Cache | '' @ cache @ '' |'',
         ''| Working set | '' @ workset @ '' |'',
         ''| Requests per measurement | '' @ n @ '' |''] @ drift))))))))))))))"

definition sweep_line :: "pyrepr \<Rightarrow> int \<times> json \<Rightarrow> string res" where
  "sweep_line P = (\<lambda>(c, r).
     bindR (subscript r ''rps_runs'') (\<lambda>j. bindR (num_item r ''rps_median'') (\<lambda>m.
     bindR (elements j) (\<lambda>es. bindR (mapR num_of es) (\<lambda>runs.
     if runs = [] then Inl (ValueError ''min() iterable argument is empty'')
     else
       bindR (num_item r ''p50_median_ms'') (\<lambda>p50. bindR (num_item r ''p99_median_ms'') (\<lambda>p99.
       bindR (num_item r ''p999_median_ms'') (\<lambda>p999.
       Inr (''| '' @ str_int c @ '' | '' @ fmt_rps P m @ '' | '' @ fmt_rps P (Min (set runs)) @ '' '' @ en_dash @ '' ''
         @ fmt_rps P (Max (set runs)) @ '' | '' @ fmt_ms P p50 @ '' | '' @ fmt_ms P p99 @ '' | '' @ fmt_ms P p999 @ '' |'')))))))))"

definition render_sweep :: "pyrepr \<Rightarrow> json \<Rightarrow> string res" where
  "render_sweep P sw =
     bindR (sweep_rows sw) (\<lambda>rows. bindR (mapR (sweep_line P) rows) (\<lambda>ls.
     Inr (join newline ([''| Concurrency | Throughput (req/s) | Range across runs | p50 | p99 | p99.9 |'',
       ''|---:|---:|---:|---:|---:|---:|''] @ ls))))"

definition README_LEVELS :: "int list" where
  "README_LEVELS = [1, 25, 100, 400]"

definition README_KNEE :: int where
  "README_KNEE = 100"

definition readme_line :: "pyrepr \<Rightarrow> int \<times> json \<Rightarrow> string res" where
  "readme_line P = (\<lambda>(c, r).
     bindR (num_item r ''rps_median'') (\<lambda>m. bindR (num_item r ''p50_median_ms'') (\<lambda>p50.
     bindR (num_item r ''p99_median_ms'') (\<lambda>p99. bindR (num_item r ''p999_median_ms'') (\<lambda>p999.
     let cells = [str_int c, fmt_rps P m @ '' req/s'', fmt_ms P p50, fmt_ms P p99, fmt_ms P p999];
         cells = (if c = README_KNEE then map (\<lambda>x. ''**'' @ x @ ''**'') cells else cells) in
     Inr (''| '' @ join '' | '' cells @ '' |''))))))"

definition render_readme_sweep :: "pyrepr \<Rightarrow> json \<Rightarrow> string res" where
  "render_readme_sweep P sw =
     bindR (sweep_rows sw) (\<lambda>rows.
     bindR (mapR (readme_line P) (filter (\<lambda>(c, r). c \<in> set README_LEVELS) rows)) (\<lambda>ls.
     Inr (join newline ([''| Concurrency | Throughput | p50 | p99 | p99.9 |'', ''|---:|---:|---:|---:|---:|''] @ ls))))"

definition OP_LABELS :: "(string \<times> string) list" where
  "OP_LABELS = [(''get'', ''`Get` (100% hit)''), (''set'', ''`Set`''), (''incr'', ''`Incr` (rate-limit bucket)''),
     (''ping'', ''`Ping` (transport floor)'')]"

definition op_line :: "pyrepr \<Rightarrow> json \<Rightarrow> string \<times> string \<Rightarrow> string res" where
  "op_line P ops = (\<lambda>(key, label).
     bindR (subscript ops key) (\<lambda>o'.
     bindR (num_item o' ''count'') (\<lambda>n. bindR (num_item o' ''ok'') (\<lambda>k.
     bindR (num_item o' ''rps'') (\<lambda>rps. bindR (num_item o' ''p50'') (\<lambda>p50.
     bindR (num_item o' ''p99'') (\<lambda>p99. bindR (num_item o' ''p999'') (\<lambda>p999.
     Inr (''| '' @ label @ '' | '' @ fmt_rps P rps @ '' | '' @ fmt_ms P p50 @ '' | '' @ fmt_ms P p99 @ '' | ''
       @ fmt_ms P p999 @ '' | '' @ str_int \<lfloor>n - k\<rfloor> @ '' |'')))))))))"

definition render_ops :: "pyrepr \<Rightarrow> json \<Rightarrow> string res" where
  "render_ops P ops =
     bindR (mapR (op_line P ops) OP_LABELS) (\<lambda>ls.
     Inr (join newline ([''| Operation | Throughput (req/s) | p50 | p99 | p99.9 | Errors |'',
       ''|---|---:|---:|---:|---:|---:|''] @ ls)))"

definition render_get_vs_ping :: "json \<Rightarrow> string res" where
  "render_get_vs_ping ops =
     bindR (subscript ops ''get'') (\<lambda>g. bindR (num_item g ''rps'') (\<lambda>a.
     bindR (subscript ops ''ping'') (\<lambda>p. bindR (num_item p ''rps'') (\<lambda>b.
     if b = 0 then Inl ZeroDivisionError
     else Inr (str_int (rne (fl (fl (100 * a) / b))) @ ''%'')))))"

definition blocks :: "pyrepr \<Rightarrow> string \<Rightarrow> json \<Rightarrow> (string \<times> string) list res" where
  "blocks P header data =
     bindR (subscript data ''environment'') (\<lambda>env. bindR (subscript data ''operation_mix'') (\<lambda>ops.
     bindR (subscript data ''get_concurrency_sweep'') (\<lambda>sw.
     bindR (subscript env ''requests_per_measurement'') (\<lambda>n.
     bindR (render_environment P header env n) (\<lambda>e. bindR (render_sweep P sw) (\<lambda>s.
     bindR (render_readme_sweep P sw) (\<lambda>rs. bindR (render_ops P ops) (\<lambda>o'.
     bindR (render_get_vs_ping ops) (\<lambda>g.
     Inr [(''environment'', e), (''sweep'', s), (''readme-sweep'', rs), (''operations'', o'), (''get-vs-ping'', g)])))))))))"

text \<open>\<open>main\<close>: the measurement file, then the targets.\<close>

definition render_main :: "pyrepr \<Rightarrow> string \<Rightarrow> json res option \<Rightarrow> bool \<Rightarrow> texts \<Rightarrow> int res \<times> texts" where
  "render_main P header summary check fs =
     (case summary of
        None \<Rightarrow> (Inl (SystemExit ''missing measurement file''), fs)
      | Some data \<Rightarrow> render_files check (bindR data (blocks P header)) fs)"

section \<open>Figures read back\<close>

lemma str_nat_snoc: "0 < x \<Longrightarrow> c < 10 \<Longrightarrow> str_nat (10 * x + c) = str_nat x @ [digit c]"
  by (subst str_nat.simps) simp

lemma three_digits:
  fixes r :: nat
  assumes "r < 1000"
  shows "r = 10 * (10 * (r div 100 mod 10) + r div 10 mod 10) + r mod 10"
proof -
  have "r div 100 = r div 10 div 10" by (simp add: div_mult2_eq [symmetric])
  moreover have "r div 100 < 10" using assms by (simp add: less_mult_imp_div_less)
  ultimately have "10 * (r div 100 mod 10) + r div 10 mod 10 = r div 10" by simp
  then show ?thesis by (metis mult_div_mod_eq)
qed

lemma pad3_str: "1000 \<le> n \<Longrightarrow> str_nat n = str_nat (n div 1000) @ pad3 (n mod 1000)"
proof -
  assume n: "1000 \<le> n"
  define q r where "q = n div 1000" and "r = n mod 1000"
  have q: "0 < q" and r: "r < 1000" using n by (simp_all add: q_def r_def div_greater_zero_iff)
  define a b c where d: "a = r div 100 mod 10" "b = r div 10 mod 10" "c = r mod 10"
  have "n = 1000 * q + r" by (simp add: q_def r_def)
  moreover have "r = 10 * (10 * a + b) + c" using three_digits [OF r] by (simp only: d)
  ultimately have "n = 10 * (10 * (10 * q + a) + b) + c" by simp
  then have "str_nat n = str_nat (10 * (10 * (10 * q + a) + b) + c)" by (rule arg_cong)
  also have "\<dots> = str_nat q @ [digit a, digit b, digit c]" proof -
    have l: "a < 10" "b < 10" "c < 10" by (simp_all add: d)
    have "0 < 10 * q + a" "0 < 10 * (10 * q + a) + b" using q by simp_all
    then show ?thesis by (simp only: str_nat_snoc l q append_assoc append_Cons append_Nil)
  qed
  also have "[digit a, digit b, digit c] = pad3 r" by (simp add: pad3_def d)
  finally show ?thesis unfolding q_def r_def .
qed

lemma pads_digits: "filter is_digit (pad3 k) = pad3 k" "filter is_digit (pad2 k) = pad2 k"
  by (simp_all add: pad3_def pad2_def)

lemma filter_commas: "filter is_digit (commas n) = str_nat n"
proof (induction n rule: commas.induct)
  case (1 n)
  have "filter is_digit (str_nat n) = str_nat n" using str_nat_digits by (auto intro: filter_True)
  moreover have "\<not> is_digit CHR '',''" by (simp add: is_digit_def)
  ultimately show ?case using 1 pad3_str [of n] by (simp add: commas.simps [of n] pads_digits)
qed

text \<open>
  The printed throughput is the measured one, rounded half up: the digits of a printed rate are an integer
  within one half of the value of \<open>repr(v)\<close>, and a tie goes up, so that 5738.5 is printed as 5,739.
\<close>

theorem printed_rate:
  assumes "0 \<le> v" and "0 \<le> repr_value P v"
  shows "\<exists>n. filter is_digit (fmt_rps P v) = str_nat n \<and> of_nat n - 1 / 2 \<le> repr_value P v \<and> repr_value P v < of_nat n + 1 / 2"
proof -
  let ?k = "\<lfloor>repr_value P v + 1 / 2\<rfloor>"
  have k: "0 \<le> ?k" using assms(2) by simp
  have "filter is_digit (fmt_rps P v) = str_nat (nat ?k)"
    using assms k by (simp add: fmt_rps_def sign_def round_half_up_def filter_commas)
  moreover have "of_nat (nat ?k) - 1 / 2 \<le> repr_value P v" "repr_value P v < of_nat (nat ?k) + 1 / 2"
    using k by (simp_all, linarith+)
  ultimately show ?thesis by blast
qed

definition exact_repr :: pyrepr where
  "exact_repr = \<lparr>repr_value = (\<lambda>x. x), str_json = (\<lambda>j. [])\<rparr>"

theorem printed_rate_witness:
  "\<exists>n. filter is_digit (fmt_rps exact_repr 5738.5) = str_nat n \<and> n = 5739"
proof -
  obtain n where n: "filter is_digit (fmt_rps exact_repr 5738.5) = str_nat n" "of_nat n - 1 / 2 \<le> (5738.5 :: real)"
      "(5738.5 :: real) < of_nat n + 1 / 2"
    using printed_rate [of "5738.5" exact_repr] by (auto simp: exact_repr_def)
  then have "n = 5739" by linarith
  with n show ?thesis by blast
qed

section \<open>The rendered blocks are plain\<close>

definition plain_text :: "string \<Rightarrow> bool" where
  "plain_text s \<longleftrightarrow> lt \<notin> set s"

lemma plain_simps [simp]: "plain_text []" "plain_text (c # s) \<longleftrightarrow> c \<noteq> lt \<and> plain_text s"
    "plain_text (s @ t) \<longleftrightarrow> plain_text s \<and> plain_text t"
  by (auto simp: plain_text_def)

lemma plain_digits: "(\<And>c. c \<in> set s \<Longrightarrow> is_digit c) \<Longrightarrow> plain_text s"
  by (auto simp: plain_text_def is_digit_def)

lemma plain_str_nat [simp]: "plain_text (str_nat n)"
  by (rule plain_digits) (rule str_nat_digits)

lemma digit_plain: "k < 10 \<Longrightarrow> digit k \<noteq> lt"
  using is_digit_digit [of k] by (auto simp: is_digit_def)

lemma plain_pads [simp]: "plain_text (pad2 k)" "plain_text (pad3 k)"
  by (simp_all add: pad2_def pad3_def digit_plain)

lemma plain_commas [simp]: "plain_text (commas n)"
  by (induction n rule: commas.induct) (subst commas.simps, simp)

lemma plain_figures [simp]: "plain_text (fmt_rps P v)" "plain_text (fmt_ms P v)" "plain_text (str_int i)"
  by (simp_all add: fmt_rps_def fmt_ms_def sign_def str_int_def Let_def)

lemma plain_join: "plain_text sep \<Longrightarrow> list_all plain_text ps \<Longrightarrow> plain_text (join sep ps)"
  by (induction sep ps rule: join.induct) auto

lemma mapR_all:
  assumes "mapR f xs = Inr ys" and "\<forall>x \<in> set xs. \<forall>y. f x = Inr y \<longrightarrow> P y" shows "list_all P ys"
  using assms by (induction xs arbitrary: ys) auto

text \<open>No string of the environment, and no version in the header file, has a \<open><\<close> in it.\<close>

definition plain_env :: "pyrepr \<Rightarrow> string \<Rightarrow> json \<Rightarrow> bool" where
  "plain_env P header env \<longleftrightarrow>
     (\<forall>k j. subscript env k = Inr j \<longrightarrow> plain_text (fstr P j))
     \<and> (\<forall>v. source_version header = Some v \<longrightarrow> plain_text v)"

lemma plain_env_item: "plain_env P h env \<Longrightarrow> str_item P env k = Inr s \<Longrightarrow> plain_text s"
  by (auto simp: plain_env_def str_item_def)

lemma plain_env_str: "plain_env P h env \<Longrightarrow> subscript env k = Inr j \<Longrightarrow> str_of j = Inr s \<Longrightarrow> plain_text s"
  by (cases j) (fastforce simp: plain_env_def str_of_def fstr_def)+

lemma plain_take_drop: "plain_text s \<Longrightarrow> plain_text (take n s)" "plain_text s \<Longrightarrow> plain_text (drop n s)"
  by (auto simp: plain_text_def dest: in_set_takeD in_set_dropD)

lemma split_on_set: "set (concat (split_on c s)) \<subseteq> set s"
proof (induction s)
  case (Cons x s)
  then show ?case by (cases "split_on c s") auto
qed simp

lemma plain_last_split: "plain_text s \<Longrightarrow> plain_text (last (split_on c s))"
proof -
  have "last (split_on c s) \<in> set (split_on c s)" by (rule last_in_set) simp
  then have "set (last (split_on c s)) \<subseteq> set (concat (split_on c s))" by (simp add: UN_upper)
  with split_on_set show "plain_text s \<Longrightarrow> plain_text (last (split_on c s))" unfolding plain_text_def by blast
qed

lemma plain_environment:
  assumes "plain_env P h env" and "render_environment P h env n = Inr s"
  shows "plain_text s \<and> \<not> prefix [CHR 0x0A] s"
proof -
  have short: "plain_text d" if "short_digest env = Inr d" for d
  proof -
    from that obtain j t a b where "subscript env ''image_digest'' = Inr j" "str_of j = Inr t"
        "split_once '':'' t = Some (a, b)" "d = take 12 b"
      by (auto simp: short_digest_def split: option.splits)
    with plain_env_str [OF assms(1), of "''image_digest''" j t] split_once_Some [of "'':''" t a b]
    show ?thesis by (simp add: plain_take_drop)
  qed
  have gen: "plain_text g" if "generator_name env = Inr g" for g
    using that plain_env_str [OF assms(1)] by (auto simp: generator_name_def plain_take_drop)
  have drift: "list_all plain_text ls" if "drift_row env h = Inr ls" for ls
    using that plain_env_str [OF assms(1)] assms(1)
    by (auto simp: drift_row_def measured_version_def Let_def plain_last_split plain_env_def dash_def
        split: option.splits if_splits)
  have count: "plain_text c" if "fmt_count n = Inr c" for c
    using that by (auto simp: fmt_count_def sign_def)
  have nl: "plain_text newline" by (simp add: newline_def)
  show ?thesis using assms(2) plain_env_item [OF assms(1)] short gen drift count
    unfolding render_environment_def
    by (elim bindR_InrE) (auto intro!: plain_join simp: nl)
qed

lemma newline_str_int: "\<not> prefix [CHR 0x0A] (str_int i @ t)"
proof -
  have "\<not> is_digit CHR 0x0A" by (simp add: is_digit_def)
  then have "hd (str_nat n) \<noteq> CHR 0x0A" for n using str_nat_digits [of "hd (str_nat n)" n] by auto
  then show ?thesis by (auto simp: str_int_def prefix_def Cons_eq_append_conv append_eq_Cons_conv) (metis list.sel(1))
qed

lemma plain_sweep:
  "render_sweep P sw = Inr s \<Longrightarrow> plain_text s \<and> \<not> prefix [CHR 0x0A] s"
  "render_readme_sweep P sw = Inr s \<Longrightarrow> plain_text s \<and> \<not> prefix [CHR 0x0A] s"
  "render_ops P ops = Inr s \<Longrightarrow> plain_text s \<and> \<not> prefix [CHR 0x0A] s"
  "render_get_vs_ping ops = Inr s \<Longrightarrow> plain_text s \<and> \<not> prefix [CHR 0x0A] s"
proof -
  have nl: "plain_text newline" by (simp add: newline_def)
  have line: "plain_text y" if "sweep_line P x = Inr y" for x y
    using that by (auto simp: sweep_line_def en_dash_def split: prod.splits if_splits)
  have readme: "plain_text y" if "readme_line P x = Inr y" for x y
    using that by (auto simp: readme_line_def Let_def intro!: plain_join split: prod.splits if_splits)
  have op: "plain_text y" if "x \<in> set OP_LABELS" "op_line P ops x = Inr y" for x y
    using that by (auto simp: op_line_def OP_LABELS_def)
  show "render_sweep P sw = Inr s \<Longrightarrow> plain_text s \<and> \<not> prefix [CHR 0x0A] s"
    using mapR_all [of "sweep_line P" _ _ plain_text] line by (auto simp: render_sweep_def nl intro!: plain_join)
  show "render_readme_sweep P sw = Inr s \<Longrightarrow> plain_text s \<and> \<not> prefix [CHR 0x0A] s"
    using mapR_all [of "readme_line P" _ _ plain_text] readme by (auto simp: render_readme_sweep_def nl intro!: plain_join)
  show "render_ops P ops = Inr s \<Longrightarrow> plain_text s \<and> \<not> prefix [CHR 0x0A] s"
    using mapR_all [of "op_line P ops" OP_LABELS _ plain_text] op by (auto simp: render_ops_def nl intro!: plain_join)
  show "render_get_vs_ping ops = Inr s \<Longrightarrow> plain_text s \<and> \<not> prefix [CHR 0x0A] s"
    using newline_str_int [of _ "[]"] by (auto simp: render_get_vs_ping_def split: if_splits)
qed

lemma blocks_plain:
  assumes "subscript data ''environment'' = Inr env" and "plain_env P h env" and "blocks P h data = Inr rendered"
  shows "plain_rendering rendered"
  using assms plain_environment [OF assms(2)] plain_sweep
  unfolding blocks_def plain_rendering_def plain_text_def by (elim bindR_InrE) auto

text \<open>
  C24. The drift check accepts what the program wrote: if \<open>render.py\<close> returns on a measurement whose
  environment strings have no \<open><\<close>, then \<open>render.py --check\<close> on the files it left returns 0, and
  neither the check nor a second rendering changes any file.
\<close>

theorem check_accepts_rendered:
  assumes "subscript data ''environment'' = Inr env" and "plain_env P h env"
    and "render_main P h (Some (Inr data)) False fs = (Inr code, fs')"
  shows "code = 0 \<and> render_main P h (Some (Inr data)) True fs' = (Inr 0, fs')
    \<and> render_main P h (Some (Inr data)) False fs' = (Inr 0, fs')"
proof -
  obtain rendered where r: "blocks P h data = Inr rendered" "render_files False (Inr rendered) fs = (Inr code, fs')"
    using assms(3) by (cases "blocks P h data") (simp_all add: render_main_def render_files_def)
  have "plain_rendering rendered" using blocks_plain [OF assms(1,2) r(1)] .
  from render_files_again [OF this r(2)] r(1) show ?thesis by (simp add: render_main_def)
qed

definition sample_env :: json where
  "sample_env = JObj [(''host'', JStr ''h''), (''runtime'', JStr ''docker''), (''vm_resources'', JStr ''12 vCPU''),
     (''image'', JStr ''cachelib-grpc-server:1.6.0''), (''image_digest'', JStr ''sha256:9dfc794c4a93''),
     (''load_generator'', JStr ''ghz v0.120.0''), (''server_cpus'', JStr ''0-5''), (''client_cpus'', JStr ''6-11''),
     (''cache'', JStr ''4 GiB''), (''workset'', JStr ''200,000 keys''), (''requests_per_measurement'', JNum 200000)]"

definition sample_op :: json where
  "sample_op = JObj [(''rps'', JNum 5738), (''count'', JNum 10), (''ok'', JNum 10), (''p50'', JNum 1), (''p99'', JNum 2),
     (''p999'', JNum 3)]"

definition sample_measurement :: json where
  "sample_measurement = JObj [(''environment'', sample_env),
     (''operation_mix'', JObj [(''get'', sample_op), (''set'', sample_op), (''incr'', sample_op), (''ping'', sample_op)]),
     (''get_concurrency_sweep'', JObj [])]"

definition sample_page :: string where
  "sample_page = ''Get reaches <!-- BEGIN GENERATED: get-vs-ping -->0%<!-- END GENERATED: get-vs-ping --> of Ping.''"

lemma sample_plain_env: "plain_env exact_repr [] sample_env"
  by (auto simp: plain_env_def sample_env_def subscript_def item_def fstr_def exact_repr_def split: if_splits option.splits)

lemma sample_ops: "\<exists>s. render_ops P (JObj [(''get'', sample_op), (''set'', sample_op), (''incr'', sample_op), (''ping'', sample_op)]) = Inr s"
    "\<exists>s. render_get_vs_ping (JObj [(''get'', sample_op), (''set'', sample_op), (''incr'', sample_op), (''ping'', sample_op)]) = Inr s"
  by (simp_all add: render_ops_def OP_LABELS_def op_line_def render_get_vs_ping_def subscript_def item_def num_item_def
      sample_op_def)

lemma sample_environment: "\<exists>s. render_environment exact_repr [] sample_env (JNum 200000) = Inr s"
  by (simp add: render_environment_def short_digest_def generator_name_def str_item_def subscript_def item_def
      sample_env_def str_of_def fmt_count_def drift_row_def measured_version_def split_once.simps Let_def)

lemma sample_blocks: "\<exists>rendered. blocks exact_repr [] sample_measurement = Inr rendered \<and> map_of rendered ''get-vs-ping'' \<noteq> None"
proof -
  have d: "subscript sample_measurement ''environment'' = Inr sample_env"
      "subscript sample_measurement ''operation_mix'' = Inr (JObj [(''get'', sample_op), (''set'', sample_op), (''incr'', sample_op), (''ping'', sample_op)])"
      "subscript sample_measurement ''get_concurrency_sweep'' = Inr (JObj [])"
    by (simp_all add: sample_measurement_def subscript_def item_def)
  have n: "subscript sample_env ''requests_per_measurement'' = Inr (JNum 200000)"
    by (simp add: sample_env_def subscript_def item_def)
  show ?thesis using sample_ops(1) [where P = exact_repr] sample_ops(2) sample_environment
    by (auto simp: blocks_def d n render_sweep_def render_readme_sweep_def sweep_rows_def)
qed

lemma sample_page_names: "block_names sample_page = [''get-vs-ping'']"
proof -
  have "match_marker (''<!-- BEGIN GENERATED: get-vs-ping -->'' @ ''0%'' @ ''<!-- END GENERATED: get-vs-ping --> of Ping.'')
     = Some \<lparr>bl_name = ''get-vs-ping'', bl_newline = [], bl_rest = '' of Ping.''\<rparr>"
    by (simp add: match_marker_def open_marker_def begin_text_def close_text_def name_char_def newline_of_def
        end_marker_def split_once.simps)
  then show ?thesis by (simp add: sample_page_def block_names_None match_marker_head sub_text_Some(2))
qed

theorem check_accepts_rendered_witness:
  "\<exists>fs'. render_main exact_repr [] (Some (Inr sample_measurement)) True fs' = (Inr 0, fs')"
proof -
  obtain rendered where r: "blocks exact_repr [] sample_measurement = Inr rendered" "map_of rendered ''get-vs-ping'' \<noteq> None"
    using sample_blocks by blast
  have a: "\<exists>out. apply_blocks sample_page rendered path = Inr out" for path
    using r(2) by (simp add: apply_blocks_def sample_page_names)
  have e: "subscript sample_measurement ''environment'' = Inr sample_env"
    by (simp add: sample_measurement_def subscript_def item_def)
  have "\<exists>fs'. render_main exact_repr [] (Some (Inr sample_measurement)) False (\<lambda>n. Some sample_page) = (Inr 0, fs')"
    using a [of "''BENCHMARKS.md''"] a [of "''README.md''"]
    by (auto simp: render_main_def render_files_def r(1) TARGETS_def)
  then obtain fs' where "render_main exact_repr [] (Some (Inr sample_measurement)) False (\<lambda>n. Some sample_page) = (Inr 0, fs')" by blast
  from check_accepts_rendered [OF e sample_plain_env this] show ?thesis by blast
qed

end
