(* ===== verification/Figures.thy ===== *)
theory Figures
  imports Render
begin

text \<open>
  What the report generators of \<open>bench/strong\<close> share: the rows of a CSV file as \<open>csv.DictReader\<close> yields
  them, \<open>float(text)\<close>, and the fixed-point formats \<open>.nf\<close> and \<open>,.nf\<close>. A row is a dictionary of strings with
  a value for every column. \<open>float\<close> rounds the decimal number it reads to the nearest binary64 number; the
  formats print that number exactly rounded, half to even.
\<close>

section \<open>Rows\<close>

type_synonym csv_row = "(string \<times> string) list"

definition cell :: "csv_row \<Rightarrow> string \<Rightarrow> string res" where
  "cell r k = (case map_of r k of None \<Rightarrow> Inl (KeyError k) | Some s \<Rightarrow> Inr s)"

text \<open>\<open>[r for r in rows if r[k] == v]\<close> and \<open>any(f(x) for x in xs)\<close> with a test that can raise.\<close>

fun filterR :: "('a \<Rightarrow> bool res) \<Rightarrow> 'a list \<Rightarrow> 'a list res" where
  "filterR f [] = Inr []"
| "filterR f (x # xs) = bindR (f x) (\<lambda>b. bindR (filterR f xs) (\<lambda>ys. Inr (if b then x # ys else ys)))"

fun anyR :: "('a \<Rightarrow> bool res) \<Rightarrow> 'a list \<Rightarrow> bool res" where
  "anyR f [] = Inr False"
| "anyR f (x # xs) = bindR (f x) (\<lambda>b. if b then Inr True else anyR f xs)"

definition rows_with :: "string \<Rightarrow> string \<Rightarrow> csv_row list \<Rightarrow> csv_row list res" where
  "rows_with k v rows = filterR (\<lambda>r. bindR (cell r k) (\<lambda>s. Inr (s = v))) rows"

text \<open>\<open>sorted(xs, key=f)\<close>: all keys are computed first, the sort is stable.\<close>

definition sorted_by :: "('a \<Rightarrow> int res) \<Rightarrow> 'a list \<Rightarrow> 'a list res" where
  "sorted_by f xs = bindR (mapR f xs) (\<lambda>ks. Inr (map snd (sort_key fst (zip ks xs))))"

definition int_cell :: "csv_row \<Rightarrow> string \<Rightarrow> int res" where
  "int_cell r k = bindR (cell r k) int_of_string"

section \<open>Numbers\<close>

text \<open>
  \<open>float(text)\<close> for a decimal literal: an optional sign, digits with an optional fraction, an optional
  exponent. White space, underscores, infinities and NaN are not modelled.
\<close>

definition decimal :: "string \<Rightarrow> real option" where
  "decimal s =
     (let (ip, fp) = (case split_once ''.'' s of None \<Rightarrow> (s, []) | Some p \<Rightarrow> p); ds = ip @ fp in
      if ds = [] \<or> \<not> list_all is_digit ds then None else Some (of_nat (nat_of_digits ds) / 10 ^ length fp))"

definition scaled :: "string \<Rightarrow> real option" where
  "scaled s =
     (let m = takeWhile (\<lambda>c. c \<notin> {CHR ''e'', CHR ''E''}) s; e = drop (length m) s in
      case decimal m of None \<Rightarrow> None
      | Some x \<Rightarrow>
          if e = [] then Some x
          else (case int_of_string (tl e) of Inl ex \<Rightarrow> None
                | Inr k \<Rightarrow> Some (if 0 \<le> k then x * 10 ^ nat k else x / 10 ^ nat (- k))))"

definition float_of_string :: "string \<Rightarrow> real res" where
  "float_of_string s =
     (let bad = Inl (ValueError (''could not convert string to float: '' @ s));
          number = (\<lambda>t. case scaled t of None \<Rightarrow> bad | Some x \<Rightarrow> Inr (fl x))
      in case s of
           [] \<Rightarrow> bad
         | c # t \<Rightarrow> if c = CHR ''-'' then bindR (number t) (\<lambda>x. Inr (- x)) else if c = CHR ''+'' then number t else number s)"

definition float_cell :: "csv_row \<Rightarrow> string \<Rightarrow> real res" where
  "float_cell r k = bindR (cell r k) float_of_string"

section \<open>Fixed-point formats\<close>

fun padded :: "nat \<Rightarrow> nat \<Rightarrow> string" where
  "padded 0 f = []"
| "padded (Suc p) f = padded p (f div 10) @ [digit (f mod 10)]"

text \<open>\<open>units\<close> is the printed number in units of its last place.\<close>

definition units :: "nat \<Rightarrow> real \<Rightarrow> nat" where
  "units p x = nat \<bar>rne (x * 10 ^ p)\<bar>"

definition point :: "nat \<Rightarrow> nat \<Rightarrow> string" where
  "point p k = (if p = 0 then [] else CHR ''.'' # padded p (k mod 10 ^ p))"

definition fixed :: "nat \<Rightarrow> real \<Rightarrow> string" where
  "fixed p x = sign x @ str_nat (units p x div 10 ^ p) @ point p (units p x)"

definition fixed_commas :: "nat \<Rightarrow> real \<Rightarrow> string" where
  "fixed_commas p x = sign x @ commas (units p x div 10 ^ p) @ point p (units p x)"

definition int_commas :: "int \<Rightarrow> string" where
  "int_commas i = (if i < 0 then ''-'' else []) @ commas (nat \<bar>i\<bar>)"

section \<open>Lemmas\<close>

lemma cell_Inr: "cell r k = Inr s \<longleftrightarrow> map_of r k = Some s"
  by (auto simp: cell_def split: option.splits)

lemma filterR_Inr: "filterR f xs = Inr ys \<Longrightarrow> ys = filter (\<lambda>x. f x = Inr True) xs"
  by (induction xs arbitrary: ys) (auto split: if_splits)

lemma anyR_False: "anyR f xs = Inr False \<Longrightarrow> x \<in> set xs \<Longrightarrow> f x = Inr False"
  by (induction xs) (auto split: if_splits)

lemma rows_with_Inr: "rows_with k v rows = Inr rs \<Longrightarrow> rs = filter (\<lambda>r. map_of r k = Some v) rows"
  unfolding rows_with_def by (drule filterR_Inr) (auto simp: cell_def bindR_def split: option.splits intro!: filter_cong)

lemma sorted_by_Inr:
  assumes "sorted_by f xs = Inr ys"
  shows "mset ys = mset xs" and "\<exists>ks. mapR f ys = Inr ks \<and> sorted ks"
proof -
  obtain ks where ks: "mapR f xs = Inr ks" and ys: "ys = map snd (sort_key fst (zip ks xs))"
    using assms by (auto simp: sorted_by_def)
  have len: "length ks = length xs" using mapR_length [OF ks] .
  have "mset (map snd (sort_key fst (zip ks xs))) = mset (map snd (zip ks xs))" by simp
  then show "mset ys = mset xs" using len by (simp only: ys map_snd_zip)
  have pair: "f x = Inr k" if "(k, x) \<in> set (zip ks xs)" for k x
    using that mapR_nth [OF ks] len by (auto simp: in_set_zip)
  have "mapR f (map snd ps) = Inr (map fst ps)" if "set ps \<subseteq> set (zip ks xs)" for ps
    using that pair by (induction ps) auto
  from this [of "sort_key fst (zip ks xs)"] have "mapR f ys = Inr (map fst (sort_key fst (zip ks xs)))"
    by (simp add: ys)
  then show "\<exists>ks. mapR f ys = Inr ks \<and> sorted ks" by (intro exI conjI) (assumption, rule sorted_sort_key)
qed

lemma padded_digits: "c \<in> set (padded p f) \<Longrightarrow> is_digit c"
  by (induction p arbitrary: f) auto

lemma point_chars: "c \<in> set (point p k) \<Longrightarrow> is_digit c \<or> c = CHR ''.''"
  by (auto simp: point_def dest: padded_digits split: if_splits)

lemma plain_point [simp]: "plain_text (point p k)"
  using point_chars [of lt p k] by (auto simp: plain_text_def is_digit_def)

lemma plain_fixed [simp]: "plain_text (fixed p x)" "plain_text (fixed_commas p x)" "plain_text (int_commas i)"
  by (simp_all add: fixed_def fixed_commas_def int_commas_def sign_def)

lemma length_padded [simp]: "length (padded p f) = p"
  by (induction p arbitrary: f) simp_all

lemma nat_of_padded: "f < 10 ^ p \<Longrightarrow> nat_of_digits (padded p f) = f"
proof (induction p arbitrary: f)
  case (Suc p)
  then have "f div 10 < 10 ^ p" by (simp add: less_mult_imp_div_less mult.commute)
  with Suc.IH show ?case by (simp add: nat_of_digits_snoc)
qed (simp add: nat_of_digits_def)

end
