(* ===== verification/Report_Tables.thy ===== *)
theory Report_Tables
  imports Figures
begin

text \<open>
  \<open>bench/strong/render_report_tables.py\<close>: the tables of \<open>REPORT.md\<close> from the CSV files of the release runs, with
  the check that every mode has five successful repetitions, and the replacement of the marked blocks. \<open>csvs\<close>
  gives the rows of \<open>release-results/<name>/runs.csv\<close>; text is its UTF-8 encoding.
\<close>

section \<open>Labels\<close>

type_synonym label_entry = "string \<times> string \<times> string option"

definition table_LABELS :: "(string \<times> label_entry list) list" where
  "table_LABELS =
    [(''primary'', [(''grpc'', ''CacheLib gRPC 1.8.0 candidate'', None), (''redis'', ''Redis OSS 8.2.10'', None),
        (''valkey'', ''Valkey 8.1.10'', None), (''memcached'', ''Memcached 1.6.45'', None)]),
     (''hybrid'', [(''grpc'', ''CacheLib gRPC DRAM'', None), (''grpc_nvm'', ''CacheLib gRPC + Navy'', None),
        (''redis'', ''Redis OSS'', None), (''valkey'', ''Valkey'', None), (''memcached'', ''Memcached DRAM'', None),
        (''memcached_extstore'', ''Memcached extstore'', None)]),
     (''offered'', [(''grpc'', ''CacheLib gRPC DRAM'', None), (''grpc_nvm'', ''CacheLib gRPC + Navy'', None),
        (''redis'', ''Redis OSS'', None), (''memcached_extstore'', ''Memcached extstore'', None)]),
     (''objective'', [(''grpc'', ''CacheLib gRPC, 192 MiB DRAM'', Some ''grpc-ram192''),
        (''grpc_nvm'', ''CacheLib gRPC, 96 MiB DRAM + Navy'', Some ''nvm384''),
        (''redis'', ''Redis OSS, 192 MiB DRAM'', Some ''ram192''),
        (''memcached'', ''Memcached, 192 MiB DRAM'', Some ''ram192''),
        (''memcached_extstore'', ''Memcached, 96 MiB DRAM + extstore'', Some ''extstore384'')]),
     (''http'', [(''grpc_adapter'', ''CacheLib gRPC + Python HTTP adapter'', None), (''nginx'', ''NGINX disk cache'', None)])]"

section \<open>Rows of a table\<close>

definition repetition_number :: "csv_row \<Rightarrow> int res" where
  "repetition_number r = bindR (cell r ''repetition'') (\<lambda>s. int_of_string (drop 1 s))"

definition engine_rows :: "csv_row list \<Rightarrow> string \<Rightarrow> csv_row list res" where
  "engine_rows rows engine = bindR (rows_with ''engine'' engine rows) (sorted_by repetition_number)"

text \<open>In the objective table every mode names the series of runs it comes from.\<close>

definition grouped :: "(string \<Rightarrow> csv_row list res) \<Rightarrow> string \<Rightarrow> label_entry list \<Rightarrow> (string \<times> csv_row list) list res" where
  "grouped csvs kind entries =
     (if kind = ''objective'' then
        mapR (\<lambda>(engine, label, source).
          bindR (csvs (case source of Some s \<Rightarrow> s | None \<Rightarrow> [])) (\<lambda>rows.
          bindR (engine_rows rows engine) (\<lambda>rs. Inr (engine, rs)))) entries
      else
        bindR (csvs kind) (\<lambda>rows.
          mapR (\<lambda>(engine, label, source). bindR (engine_rows rows engine) (\<lambda>rs. Inr (engine, rs))) entries))"

definition invalid :: "string \<Rightarrow> csv_row \<Rightarrow> bool res" where
  "invalid kind r =
     bindR (int_cell r ''errors'') (\<lambda>errors.
       if errors \<noteq> 0 then Inr True
       else if kind = ''http'' then bindR (int_cell r ''origins'') (\<lambda>origins. Inr (origins \<noteq> 0))
       else bindR (int_cell r ''dropped_arrivals'') (\<lambda>dropped.
         if dropped \<noteq> 0 then Inr True else bindR (cell r ''warmup_stable'') (\<lambda>stable. Inr (stable \<noteq> ''True''))))"

definition five_names :: "string list" where
  "five_names = map (\<lambda>i. CHR ''r'' # str_nat i) [0..<5]"

definition refused :: "string \<Rightarrow> csv_row list \<Rightarrow> bool res" where
  "refused kind rs =
     (if length rs \<noteq> 5 then Inr True
      else bindR (mapR (\<lambda>r. cell r ''repetition'') rs) (\<lambda>names.
        if set names \<noteq> set five_names then Inr True else anyR (invalid kind) rs))"

section \<open>Lines\<close>

definition micro :: string where
  "micro = [CHR 0xCE, CHR 0xBC]"

definition header_lines :: "string \<Rightarrow> string list" where
  "header_lines kind =
     (if kind = ''primary'' then
        [''| Engine | Five objects/s runs, in repetition order | Median objects/s | Median p99 ms | Median server CPU ''
           @ micro @ ''s/object | Median cgroup peak MiB |'', ''|---|---|---:|---:|---:|---:|'']
      else if kind = ''offered'' then
        [''| Mode | Five origin-request counts | Median origin requests | Median p99 ms | Median cgroup peak MiB |'',
         ''|---|---|---:|---:|---:|'']
      else if kind = ''objective'' then
        [''| Mode | Five objects/s runs | Median objects/s | Median p99 ms | Server CPU '' @ micro @ ''s/object | Cgroup peak MiB |'',
         ''|---|---|---:|---:|---:|---:|'']
      else if kind = ''http'' then
        [''| HTTP path | Five objects/s runs | Median objects/s | Median p99 ms | Path CPU '' @ micro
           @ ''s/object | Path cgroup peak sum MiB |'', ''|---|---|---:|---:|---:|---:|'']
      else
        [''| Mode | Five objects/s runs | Median objects/s | Object/byte hit ratio | Median p99 ms | Server CPU '' @ micro
           @ ''s/object | Cgroup peak MiB |'', ''|---|---|---:|---:|---:|---:|---:|''])"

definition field_median :: "csv_row list \<Rightarrow> string \<Rightarrow> real res" where
  "field_median rs k = bindR (mapR (\<lambda>r. float_cell r k) rs) py_median"

definition piped :: "string list \<Rightarrow> string" where
  "piped cells = ''| '' @ join '' | '' cells @ '' |''"

definition hit_text :: "real \<Rightarrow> string" where
  "hit_text ratio =
     (let hit = fl (ratio * 100) in if \<bar>fl (hit - 100)\<bar> < fl (1 / 20) then ''100%'' else fixed 1 hit @ ''%'')"

definition mib :: "real \<Rightarrow> string" where
  "mib bytes = fixed 1 (fl (bytes / 1048576))"

definition offered_cells :: "csv_row list \<Rightarrow> string list res" where
  "offered_cells rs =
     bindR (mapR (\<lambda>r. bindR (int_cell r ''origins'') (\<lambda>n. Inr (int_commas n))) rs) (\<lambda>origins.
     bindR (field_median rs ''origins'') (\<lambda>origin. bindR (field_median rs ''p99_ms'') (\<lambda>p99.
     bindR (field_median rs ''server_memory_peak_bytes'') (\<lambda>peak.
       Inr [join ''; '' origins, fixed_commas 0 origin, fixed 2 p99, mib peak]))))"

definition latency_cells :: "string \<Rightarrow> csv_row list \<Rightarrow> string list res" where
  "latency_cells kind rs =
     (if kind = ''hybrid'' then
        bindR (field_median rs ''hit_ratio'') (\<lambda>ratio. bindR (field_median rs ''p99_ms'') (\<lambda>p99. Inr [hit_text ratio, fixed 2 p99]))
      else if kind \<in> {''objective'', ''http''} then bindR (field_median rs ''p99_ms'') (\<lambda>p99. Inr [fixed 2 p99])
      else bindR (field_median rs ''p99_ms'') (\<lambda>p99. Inr [fixed 3 p99]))"

definition rate_cells :: "string \<Rightarrow> csv_row list \<Rightarrow> string list res" where
  "rate_cells kind rs =
     bindR (mapR (\<lambda>r. bindR (float_cell r ''objects_s'') (\<lambda>x. Inr (fixed_commas 0 x))) rs) (\<lambda>rates.
     bindR (field_median rs ''objects_s'') (\<lambda>rate. bindR (latency_cells kind rs) (\<lambda>latency.
     bindR (field_median rs ''server_cpu_us_per_object'') (\<lambda>cpu. bindR (field_median rs ''server_memory_peak_bytes'') (\<lambda>peak.
       Inr ([join ''; '' rates, fixed_commas 0 rate] @ latency @ [fixed 1 cpu, mib peak]))))))"

definition table_line :: "string \<Rightarrow> (string \<times> csv_row list) list \<Rightarrow> label_entry \<Rightarrow> string res" where
  "table_line kind groups entry =
     (case entry of (engine, label, source) \<Rightarrow>
        (case map_of groups engine of
           None \<Rightarrow> Inl (KeyError engine)
         | Some rs \<Rightarrow>
             bindR (if kind = ''offered'' then offered_cells rs else rate_cells kind rs) (\<lambda>cells. Inr (piped (label # cells)))))"

definition table_text :: "(string \<Rightarrow> csv_row list res) \<Rightarrow> string \<Rightarrow> string res" where
  "table_text csvs kind =
     (case map_of table_LABELS kind of
        None \<Rightarrow> Inl (KeyError kind)
      | Some entries \<Rightarrow>
          bindR (grouped csvs kind entries) (\<lambda>groups.
          bindR (anyR (refused kind) (map snd groups)) (\<lambda>bad.
            if bad then Inl (ValueError (kind @ '' requires five distinct, successful, stable repetitions''))
            else bindR (mapR (table_line kind groups) entries) (\<lambda>lines. Inr (join newline (header_lines kind @ lines))))))"

section \<open>The report\<close>

definition start_mark :: "string \<Rightarrow> string" where
  "start_mark kind = ''<!-- '' @ kind @ ''-table:start -->'' @ newline"

definition end_mark :: "string \<Rightarrow> string" where
  "end_mark kind = newline @ ''<!-- '' @ kind @ ''-table:end -->''"

definition unpack2 :: "('a \<times> 'a) option \<Rightarrow> ('a \<times> 'a) res" where
  "unpack2 p = (case p of None \<Rightarrow> Inl (ValueError ''not enough values to unpack'') | Some x \<Rightarrow> Inr x)"

definition replace_table :: "(string \<Rightarrow> csv_row list res) \<Rightarrow> string \<Rightarrow> string \<Rightarrow> string res" where
  "replace_table csvs rendered kind =
     (if count_sub (start_mark kind) rendered \<noteq> 1 \<or> count_sub (end_mark kind) rendered \<noteq> 1
      then Inl (ValueError (''missing or duplicate '' @ kind @ '' table markers''))
      else bindR (unpack2 (split_once (start_mark kind) rendered)) (\<lambda>(head, tail).
        bindR (unpack2 (split_once (end_mark kind) tail)) (\<lambda>(old, rest).
        bindR (table_text csvs kind) (\<lambda>t. Inr (head @ start_mark kind @ t @ end_mark kind @ rest)))))"

fun replace_tables :: "(string \<Rightarrow> csv_row list res) \<Rightarrow> string list \<Rightarrow> string \<Rightarrow> string res" where
  "replace_tables csvs [] rendered = Inr rendered"
| "replace_tables csvs (kind # kinds) rendered = bindR (replace_table csvs rendered kind) (replace_tables csvs kinds)"

text \<open>\<open>main\<close>: the result and the contents of \<open>REPORT.md\<close> afterwards.\<close>

definition tables_main :: "(string \<Rightarrow> csv_row list res) \<Rightarrow> bool \<Rightarrow> string \<Rightarrow> unit res \<times> string" where
  "tables_main csvs check original =
     (case replace_tables csvs (map fst table_LABELS) original of
        Inl e \<Rightarrow> (Inl e, original)
      | Inr rendered \<Rightarrow>
          if check then
            (if original \<noteq> rendered
             then (Inl (SystemExit ''Strong report tables differ from run CSV; rerun without --check''), original)
             else (Inr (), original))
          else (Inr (), rendered))"

section \<open>What a rendered table shows\<close>

definition sound_row :: "string \<Rightarrow> csv_row \<Rightarrow> bool" where
  "sound_row kind r \<longleftrightarrow> int_cell r ''errors'' = Inr 0
     \<and> (if kind = ''http'' then int_cell r ''origins'' = Inr 0
        else int_cell r ''dropped_arrivals'' = Inr 0 \<and> map_of r ''warmup_stable'' = Some ''True'')"

lemma invalid_False: "invalid kind r = Inr False \<Longrightarrow> sound_row kind r"
  by (auto simp: invalid_def sound_row_def cell_Inr split: if_splits)

lemma five_names_numbers: "map_of r ''repetition'' = Some (five_names ! i) \<Longrightarrow> i < 5 \<Longrightarrow> repetition_number r = Inr (int i)"
  by (simp add: repetition_number_def cell_def five_names_def)

lemma distinct_five_names: "distinct five_names"
  by (simp add: five_names_def distinct_map inj_on_def)

text \<open>Five rows sorted by repetition whose names are \<open>r0\<close> to \<open>r4\<close> stand in that order.\<close>

lemma five_in_order:
  assumes "mapR (\<lambda>r. cell r ''repetition'') rs = Inr names" and "length rs = 5" and "set names = set five_names"
    and "mapR repetition_number rs = Inr ks" and "sorted ks"
  shows "names = five_names"
proof -
  have len: "length names = 5" "length ks = 5" using assms(1,2,4) by (simp_all add: mapR_length)
  have name: "map_of (rs ! j) ''repetition'' = Some (names ! j)" if "j < 5" for j
    using mapR_nth [OF assms(1)] that assms(2) by (simp add: cell_Inr)
  have num: "repetition_number (rs ! j) = Inr (ks ! j)" if "j < 5" for j
    using mapR_nth [OF assms(4)] that assms(2) by simp
  have key: "ks ! j = int i" if "j < 5" "i < 5" "names ! j = five_names ! i" for i j
    using five_names_numbers [of "rs ! j" i] name [OF that(1)] num [OF that(1)] that by simp
  have ex: "\<exists>i < 5. names ! j = five_names ! i \<and> ks ! j = int i" if "j < 5" for j
  proof -
    have "names ! j \<in> set five_names" using that len assms(3) by (metis nth_mem)
    then obtain i where "i < 5" "names ! j = five_names ! i" by (auto simp: in_set_conv_nth five_names_def)
    with key that show ?thesis by blast
  qed
  have "int ` {0..<5} \<subseteq> set ks"
  proof
    fix k assume "k \<in> int ` {0..<5}"
    then obtain i where i: "i < 5" "k = int i" by auto
    then have "five_names ! i \<in> set names" using assms(3) by (simp add: five_names_def)
    then obtain j where "j < 5" "names ! j = five_names ! i" using len by (auto simp: in_set_conv_nth)
    with key i len show "k \<in> set ks" by (metis nth_mem)
  qed
  moreover have "set ks \<subseteq> int ` {0..<5}" using ex len by (fastforce simp: in_set_conv_nth)
  ultimately have set: "set ks = int ` {0..<5}" by simp
  then have "card (set ks) = length ks" using len by (simp add: card_image)
  then have "distinct ks" by (rule card_distinct)
  with assms(5) set have ks: "ks = map int [0..<5]"
    by (intro sorted_distinct_set_unique) (simp_all add: distinct_map sorted_iff_nth_mono)
  have "names ! j = five_names ! j" if "j < 5" for j
    using ex [OF that] that by (auto simp: ks)
  then show ?thesis using len by (intro nth_equalityI) (simp_all add: five_names_def)
qed

lemma refused_False:
  assumes "refused kind rs = Inr False" and "mapR repetition_number rs = Inr ks" and "sorted ks"
  shows "length rs = 5 \<and> map (\<lambda>r. map_of r ''repetition'') rs = map Some five_names \<and> list_all (sound_row kind) rs"
proof -
  obtain names where n: "length rs = 5" "mapR (\<lambda>r. cell r ''repetition'') rs = Inr names" "set names = set five_names"
      "anyR (invalid kind) rs = Inr False"
    using assms(1) by (auto simp: refused_def split: if_splits)
  have "names = five_names" by (rule five_in_order [OF n(2,1,3) assms(2,3)])
  moreover have "map (\<lambda>r. map_of r ''repetition'') rs = map Some names"
    using mapR_nth [OF n(2)] mapR_length [OF n(2)] by (intro nth_equalityI) (simp_all add: cell_Inr)
  moreover have "list_all (sound_row kind) rs" using anyR_False [OF n(4)] invalid_False by (auto simp: list_all_iff)
  ultimately show ?thesis using n(1) by simp
qed

definition table_source :: "string \<Rightarrow> string option \<Rightarrow> string" where
  "table_source kind source = (if kind = ''objective'' then case source of Some s \<Rightarrow> s | None \<Rightarrow> [] else kind)"

lemma mapR_pairs:
  assumes "mapR f xs = Inr ys" and "x \<in> set xs" shows "\<exists>y. f x = Inr y \<and> y \<in> set ys"
  using assms by (induction xs arbitrary: ys) auto

lemma grouped_entry:
  assumes "grouped csvs kind entries = Inr groups" and "(engine, label, source) \<in> set entries"
  shows "\<exists>rows rs. csvs (table_source kind source) = Inr rows \<and> engine_rows rows engine = Inr rs \<and> (engine, rs) \<in> set groups"
  using assms by (cases "kind = ''objective''") (fastforce simp: grouped_def table_source_def dest!: mapR_pairs)+

lemma grouped_keys:
  assumes "grouped csvs kind entries = Inr groups" shows "map fst groups = map fst entries"
proof -
  have keys: "map fst gs = map fst es"
    if "mapR f es = Inr gs" "\<And>e l s g. f (e, l, s) = Inr g \<Longrightarrow> fst g = e"
    for f :: "label_entry \<Rightarrow> (string \<times> csv_row list) res" and gs es
    using that by (induction es arbitrary: gs) auto
  show ?thesis using assms by (cases "kind = ''objective''") (auto simp: grouped_def intro!: keys)
qed

lemma label_keys_distinct: "map_of table_LABELS kind = Some entries \<Longrightarrow> distinct (map fst entries)"
  by (auto simp: table_LABELS_def split: if_splits)

lemma table_text_Inr:
  assumes "table_text csvs kind = Inr t" and "map_of table_LABELS kind = Some entries"
  obtains groups ls where "grouped csvs kind entries = Inr groups" "anyR (refused kind) (map snd groups) = Inr False"
    "mapR (table_line kind groups) entries = Inr ls" "t = join newline (header_lines kind @ ls)"
  using assms by (auto simp: table_text_def split: if_splits)

lemma rate_line:
  assumes "rate_cells kind rs = Inr cells" and "length rs = 5"
  obtains xs more where "mapR (\<lambda>r. float_cell r ''objects_s'') rs = Inr xs"
    "cells = join ''; '' (map (fixed_commas 0) xs) # fixed_commas 0 (sort xs ! 2) # more"
proof -
  obtain rates m rest where r: "mapR (\<lambda>r. bindR (float_cell r ''objects_s'') (\<lambda>x. Inr (fixed_commas 0 x))) rs = Inr rates"
      "field_median rs ''objects_s'' = Inr m" "cells = join ''; '' rates # fixed_commas 0 m # rest"
    using assms(1) by (auto simp: rate_cells_def)
  then obtain xs where xs: "mapR (\<lambda>r. float_cell r ''objects_s'') rs = Inr xs" and m: "py_median xs = Inr m"
    by (auto simp: field_median_def)
  have "py_median xs = Inr (sort xs ! 2)"
    using mapR_length [OF xs] assms(2) py_median_odd [of xs 2] by simp
  moreover have "rates = map (fixed_commas 0) xs"
    using xs r(1) by (induction rs arbitrary: xs rates) auto
  ultimately show ?thesis using that [OF xs] r(3) m by auto
qed

lemma offered_line:
  assumes "offered_cells rs = Inr cells" and "length rs = 5"
  obtains ns xs more where "mapR (\<lambda>r. int_cell r ''origins'') rs = Inr ns" "mapR (\<lambda>r. float_cell r ''origins'') rs = Inr xs"
    "cells = join ''; '' (map int_commas ns) # fixed_commas 0 (sort xs ! 2) # more"
proof -
  obtain counts m rest where r: "mapR (\<lambda>r. bindR (int_cell r ''origins'') (\<lambda>n. Inr (int_commas n))) rs = Inr counts"
      "field_median rs ''origins'' = Inr m" "cells = join ''; '' counts # fixed_commas 0 m # rest"
    using assms(1) by (auto simp: offered_cells_def)
  then obtain xs where xs: "mapR (\<lambda>r. float_cell r ''origins'') rs = Inr xs" and m: "py_median xs = Inr m"
    by (auto simp: field_median_def)
  have "py_median xs = Inr (sort xs ! 2)"
    using mapR_length [OF xs] assms(2) py_median_odd [of xs 2] by simp
  moreover have "\<exists>ns. mapR (\<lambda>r. int_cell r ''origins'') rs = Inr ns \<and> counts = map int_commas ns"
    using r(1) by (induction rs arbitrary: counts) auto
  ultimately show ?thesis using that xs r(3) m by auto
qed

lemma sublist_join: "l \<in> set ls \<Longrightarrow> sublist l (join sep ls)"
proof (induction sep ls rule: join.induct)
  case (3 sep p q ps)
  show ?case
  proof (cases "l = p")
    case False
    with 3 obtain a b where "join sep (q # ps) = a @ l @ b" by (auto simp: sublist_def)
    then show ?thesis by (simp add: sublist_def) (metis append.assoc)
  qed (auto simp: sublist_def)
qed auto

text \<open>
  C25. A table of the report is rendered only from five good repetitions per mode: if \<open>table(kind)\<close> returns, then for
  every mode of the table the runs of its engine in the CSV file are exactly the repetitions \<open>r0\<close> to \<open>r4\<close>, each without
  request errors, and without dropped arrivals and with a stable warm-up (for HTTP: without a request to the origin);
  and the line of the mode shows the five rates in the order of the repetitions, then the third smallest of them as the
  median. The table of the offered load shows the five numbers of requests to the origin in their place.
\<close>

theorem table_five_repetitions:
  assumes "table_text csvs kind = Inr t" and "map_of table_LABELS kind = Some entries"
    and "(engine, label, source) \<in> set entries"
  shows "\<exists>rows rs. csvs (table_source kind source) = Inr rows
    \<and> mset rs = mset (filter (\<lambda>r. map_of r ''engine'' = Some engine) rows)
    \<and> map (\<lambda>r. map_of r ''repetition'') rs = map Some five_names \<and> list_all (sound_row kind) rs
    \<and> (if kind = ''offered''
       then (\<exists>ns xs more. mapR (\<lambda>r. int_cell r ''origins'') rs = Inr ns \<and> mapR (\<lambda>r. float_cell r ''origins'') rs = Inr xs
         \<and> sublist (piped (label # join ''; '' (map int_commas ns) # fixed_commas 0 (sort xs ! 2) # more)) t)
       else (\<exists>xs more. mapR (\<lambda>r. float_cell r ''objects_s'') rs = Inr xs
         \<and> sublist (piped (label # join ''; '' (map (fixed_commas 0) xs) # fixed_commas 0 (sort xs ! 2) # more)) t))"
proof -
  obtain groups ls where g: "grouped csvs kind entries = Inr groups" "anyR (refused kind) (map snd groups) = Inr False"
      "mapR (table_line kind groups) entries = Inr ls" "t = join newline (header_lines kind @ ls)"
    by (rule table_text_Inr [OF assms(1,2)])
  obtain rows rs where r: "csvs (table_source kind source) = Inr rows" "engine_rows rows engine = Inr rs" "(engine, rs) \<in> set groups"
    using grouped_entry [OF g(1) assms(3)] by blast
  obtain rs0 where rs0: "rows_with ''engine'' engine rows = Inr rs0" "sorted_by repetition_number rs0 = Inr rs"
    using r(2) by (auto simp: engine_rows_def)
  obtain ks where ks: "mapR repetition_number rs = Inr ks" "sorted ks" using sorted_by_Inr(2) [OF rs0(2)] by blast
  have "refused kind rs = Inr False" using r(3) by (intro anyR_False [OF g(2)]) force
  note sound = refused_False [OF this ks]
  have mset: "mset rs = mset (filter (\<lambda>r. map_of r ''engine'' = Some engine) rows)"
    using sorted_by_Inr(1) [OF rs0(2)] rows_with_Inr [OF rs0(1)] by simp
  have "map_of groups engine = Some rs"
    using r(3) label_keys_distinct [OF assms(2)] grouped_keys [OF g(1)] by simp
  moreover obtain l where l: "table_line kind groups (engine, label, source) = Inr l" "l \<in> set ls"
    using mapR_pairs [OF g(3) assms(3)] by blast
  ultimately have line: "\<exists>cells. (if kind = ''offered'' then offered_cells rs else rate_cells kind rs) = Inr cells \<and> l = piped (label # cells)"
    by (auto simp: table_line_def)
  have sub: "sublist l t" using l(2) by (simp add: g(4) sublist_join)
  show ?thesis
  proof (cases "kind = ''offered''")
    case True
    then have "\<exists>ns xs more. mapR (\<lambda>r. int_cell r ''origins'') rs = Inr ns \<and> mapR (\<lambda>r. float_cell r ''origins'') rs = Inr xs
        \<and> sublist (piped (label # join ''; '' (map int_commas ns) # fixed_commas 0 (sort xs ! 2) # more)) t"
      using line offered_line [of rs] sound sub by metis
    with True r(1) mset sound show ?thesis by auto
  next
    case False
    then have "\<exists>xs more. mapR (\<lambda>r. float_cell r ''objects_s'') rs = Inr xs
        \<and> sublist (piped (label # join ''; '' (map (fixed_commas 0) xs) # fixed_commas 0 (sort xs ! 2) # more)) t"
      using line rate_line [of kind rs] sound sub by metis
    with False r(1) mset sound show ?thesis by auto
  qed
qed

definition sample_csv_row :: "string \<Rightarrow> nat \<Rightarrow> csv_row" where
  "sample_csv_row engine i = [(''engine'', engine), (''repetition'', CHR ''r'' # str_nat i), (''errors'', ''0''), (''origins'', ''0''),
     (''dropped_arrivals'', ''0''), (''warmup_stable'', ''True''), (''hit_ratio'', ''1''), (''objects_s'', ''500''), (''p99_ms'', ''2''),
     (''server_cpu_us_per_object'', ''3''), (''server_memory_peak_bytes'', ''1048576'')]"

definition sample_engines :: "string list" where
  "sample_engines = [''grpc'', ''grpc_nvm'', ''redis'', ''valkey'', ''memcached'', ''memcached_extstore'', ''grpc_adapter'', ''nginx'']"

definition sample_runs :: "string \<Rightarrow> csv_row list" where
  "sample_runs e = map (sample_csv_row e) [0..<5]"

definition sample_csvs :: "string \<Rightarrow> csv_row list res" where
  "sample_csvs name = Inr (concat (map sample_runs sample_engines))"

lemma sample_cells [simp]:
  "map_of (sample_csv_row e i) ''engine'' = Some e" "cell (sample_csv_row e i) ''repetition'' = Inr (CHR ''r'' # str_nat i)"
  "int_cell (sample_csv_row e i) ''errors'' = Inr 0" "int_cell (sample_csv_row e i) ''origins'' = Inr 0"
  "int_cell (sample_csv_row e i) ''dropped_arrivals'' = Inr 0" "cell (sample_csv_row e i) ''warmup_stable'' = Inr ''True''"
  by (simp_all add: int_cell_def cell_def sample_csv_row_def int_of_string_def is_digit_def nat_of_digits_def digit_val_def)

lemma sample_repetition [simp]: "repetition_number (sample_csv_row e i) = Inr (int i)"
  by (simp add: repetition_number_def)

definition sample_columns :: "string list" where
  "sample_columns = [''origins'', ''hit_ratio'', ''objects_s'', ''p99_ms'', ''server_cpu_us_per_object'', ''server_memory_peak_bytes'']"

lemma sample_columns_float: "k \<in> set sample_columns \<Longrightarrow> \<exists>x. float_cell (sample_csv_row e i) k = Inr x"
  by (auto simp: sample_columns_def float_cell_def cell_def sample_csv_row_def float_of_string_def scaled_def decimal_def
      split_once.simps is_digit_def)

lemma mapR_ex: "(\<And>x. x \<in> set xs \<Longrightarrow> \<exists>y. f x = Inr y) \<Longrightarrow> \<exists>ys. mapR f xs = Inr ys"
  by (induction xs) fastforce+

lemma sample_mapR:
  assumes "k \<in> set sample_columns" shows "\<exists>ys. mapR (\<lambda>r. bindR (float_cell r k) (\<lambda>x. Inr (g x))) (sample_runs e) = Inr ys"
proof (rule mapR_ex)
  fix r assume "r \<in> set (sample_runs e)"
  then obtain i where "r = sample_csv_row e i" by (auto simp: sample_runs_def)
  with sample_columns_float [OF assms] show "\<exists>y. bindR (float_cell r k) (\<lambda>x. Inr (g x)) = Inr y" by (metis bindR_simps(2))
qed

lemma bindR_return [simp]: "bindR m Inr = m"
  by (cases m) simp_all

lemma sample_median: "k \<in> set sample_columns \<Longrightarrow> \<exists>m. field_median (sample_runs e) k = Inr m"
proof -
  assume k: "k \<in> set sample_columns"
  obtain xs where xs: "mapR (\<lambda>r. float_cell r k) (sample_runs e) = Inr xs"
    using sample_mapR [OF k, of "\<lambda>x. x" e] by auto
  then have "length xs = 2 * 2 + 1" using mapR_length [OF xs] by (simp add: sample_runs_def)
  from py_median_odd [OF this] show ?thesis using xs by (simp add: field_median_def)
qed

lemma sample_column_medians:
  obtains a b c d f g where "field_median (sample_runs e) ''origins'' = Inr a" "field_median (sample_runs e) ''hit_ratio'' = Inr b"
    "field_median (sample_runs e) ''objects_s'' = Inr c" "field_median (sample_runs e) ''p99_ms'' = Inr d"
    "field_median (sample_runs e) ''server_cpu_us_per_object'' = Inr f" "field_median (sample_runs e) ''server_memory_peak_bytes'' = Inr g"
proof -
  have "''origins'' \<in> set sample_columns" "''hit_ratio'' \<in> set sample_columns" "''objects_s'' \<in> set sample_columns"
      "''p99_ms'' \<in> set sample_columns" "''server_cpu_us_per_object'' \<in> set sample_columns"
      "''server_memory_peak_bytes'' \<in> set sample_columns" by (simp_all add: sample_columns_def)
  note this [THEN sample_median, of e]
  then show ?thesis using that by (elim exE)
qed

lemma sample_lines:
  "\<exists>cells. offered_cells (sample_runs e) = Inr cells" "\<exists>cells. rate_cells kind (sample_runs e) = Inr cells"
proof -
  obtain a b c d f g where m: "field_median (sample_runs e) ''origins'' = Inr a" "field_median (sample_runs e) ''hit_ratio'' = Inr b"
    "field_median (sample_runs e) ''objects_s'' = Inr c" "field_median (sample_runs e) ''p99_ms'' = Inr d"
    "field_median (sample_runs e) ''server_cpu_us_per_object'' = Inr f" "field_median (sample_runs e) ''server_memory_peak_bytes'' = Inr g"
    by (rule sample_column_medians)
  obtain ys where ys: "mapR (\<lambda>r. bindR (float_cell r ''objects_s'') (\<lambda>x. Inr (fixed_commas 0 x))) (sample_runs e) = Inr ys"
    using sample_mapR [of "''objects_s''" "fixed_commas 0" e] by (auto simp: sample_columns_def)
  have zs: "mapR (\<lambda>r. bindR (int_cell r ''origins'') (\<lambda>n. Inr (int_commas n))) (sample_runs e) = Inr (map (\<lambda>r. int_commas 0) (sample_runs e))"
    by (rule mapR_pure) (auto simp: sample_runs_def)
  show "\<exists>cells. offered_cells (sample_runs e) = Inr cells" by (simp add: offered_cells_def m zs)
  show "\<exists>cells. rate_cells kind (sample_runs e) = Inr cells" by (simp add: rate_cells_def latency_cells_def m ys)
qed

lemma filterR_pure: "(\<And>x. x \<in> set xs \<Longrightarrow> f x = Inr (P x)) \<Longrightarrow> filterR f xs = Inr (filter P xs)"
  by (induction xs) auto

lemma sample_filter: "filter (\<lambda>r. map_of r ''engine'' = Some e) (concat (map sample_runs es)) = concat (map sample_runs (filter (\<lambda>d. d = e) es))"
  by (induction es) (simp_all add: sample_runs_def)

lemma sample_rows: "e \<in> set sample_engines \<Longrightarrow> engine_rows (concat (map sample_runs sample_engines)) e = Inr (sample_runs e)"
proof -
  assume e: "e \<in> set sample_engines"
  have "rows_with ''engine'' e (concat (map sample_runs sample_engines))
      = Inr (filter (\<lambda>r. map_of r ''engine'' = Some e) (concat (map sample_runs sample_engines)))"
    unfolding rows_with_def by (rule filterR_pure) (auto simp: sample_runs_def cell_def)
  moreover have "filter (\<lambda>d. d = e) sample_engines = [e]" using e by (auto simp: sample_engines_def)
  moreover have "sorted_by repetition_number (sample_runs e) = Inr (sample_runs e)"
    by (simp add: sample_runs_def sorted_by_def upt_rec)
  ultimately show ?thesis by (simp add: engine_rows_def sample_filter)
qed

lemma anyR_none: "(\<And>x. x \<in> set xs \<Longrightarrow> f x = Inr False) \<Longrightarrow> anyR f xs = Inr False"
  by (induction xs) auto

lemma sample_accepted: "refused kind (sample_runs e) = Inr False"
proof -
  have names: "mapR (\<lambda>r. cell r ''repetition'') (sample_runs e) = Inr five_names"
    by (simp add: five_names_def sample_runs_def upt_rec)
  have "anyR (invalid kind) (sample_runs e) = Inr False"
    by (rule anyR_none) (auto simp: invalid_def sample_runs_def)
  moreover have "length (sample_runs e) = 5" by (simp add: sample_runs_def)
  ultimately show ?thesis using names by (simp add: refused_def)
qed

lemma label_engines: "map_of table_LABELS k = Some entries \<Longrightarrow> (e, l, s) \<in> set entries \<Longrightarrow> e \<in> set sample_engines"
  by (auto simp: table_LABELS_def sample_engines_def split: if_splits)

lemma sample_table: "k \<in> set (map fst table_LABELS) \<Longrightarrow> \<exists>t. table_text sample_csvs k = Inr t"
proof -
  assume "k \<in> set (map fst table_LABELS)"
  then obtain entries where e: "map_of table_LABELS k = Some entries" by (metis list.set_map map_of_eq_None_iff not_None_eq)
  let ?G = "map (\<lambda>(e, l, s). (e, sample_runs e)) entries"
  have g: "grouped sample_csvs k entries = Inr ?G"
    using label_engines [OF e] by (auto simp: grouped_def sample_csvs_def sample_rows intro!: mapR_pure)
  have bad: "anyR (refused k) (map snd ?G) = Inr False" by (rule anyR_none) (auto simp: sample_accepted)
  have "\<exists>y. table_line k ?G x = Inr y" if "x \<in> set entries" for x
  proof -
    obtain en l s where x: "x = (en, l, s)" by (cases x)
    have "(en, sample_runs en) \<in> set ?G" using that x by force
    moreover have keys: "map fst ?G = map fst entries" by auto
    have "distinct (map fst ?G)" unfolding keys by (rule label_keys_distinct [OF e])
    ultimately have "map_of ?G en = Some (sample_runs en)" by (intro map_of_is_SomeI)
    moreover obtain a b where "offered_cells (sample_runs en) = Inr a" "rate_cells k (sample_runs en) = Inr b"
      using sample_lines(1) [of en] sample_lines(2) [of k en] by metis
    ultimately show ?thesis by (simp add: table_line_def x)
  qed
  then obtain ls where "mapR (table_line k ?G) entries = Inr ls" using mapR_ex by blast
  then show ?thesis unfolding table_text_def e option.simps g bindR_simps bad by simp
qed

theorem table_five_repetitions_witness:
  "\<exists>t rows rs. table_text sample_csvs ''http'' = Inr t \<and> sample_csvs ''http'' = Inr rows
    \<and> mset rs = mset (filter (\<lambda>r. map_of r ''engine'' = Some ''nginx'') rows)
    \<and> map (\<lambda>r. map_of r ''repetition'') rs = map Some five_names \<and> list_all (sound_row ''http'') rs"
proof -
  obtain t where t: "table_text sample_csvs ''http'' = Inr t" using sample_table [of "''http''"] by (auto simp: table_LABELS_def)
  let ?entries = "[(''grpc_adapter'', ''CacheLib gRPC + Python HTTP adapter'', None), (''nginx'', ''NGINX disk cache'', None)]"
  have e: "map_of table_LABELS ''http'' = Some ?entries" by (simp add: table_LABELS_def)
  have "table_source ''http'' None = ''http''" by (simp add: table_source_def)
  with table_five_repetitions [OF t e, of "''nginx''" "''NGINX disk cache''" None] t show ?thesis by auto
qed

section \<open>Documents cut at the less-than signs\<close>

text \<open>
  Both markers of a table hold one \<open><\<close>. Cut at this character, a document is a list of segments; a start marker is a
  segment with the prefix \<open>st\<close>, an end marker a segment with the prefix \<open>en\<close> after one that ends a line.
\<close>

abbreviation nl :: char where
  "nl \<equiv> CHR 0x0A"

definition st :: "string \<Rightarrow> string" where
  "st kind = ''!-- '' @ kind @ ''-table:start -->'' @ newline"

definition en :: "string \<Rightarrow> string" where
  "en kind = ''!-- '' @ kind @ ''-table:end -->''"

lemma marks: "start_mark kind = lt # st kind" "end_mark kind = nl # lt # en kind"
  by (simp_all add: start_mark_def end_mark_def st_def en_def newline_def)

definition starts :: "string \<Rightarrow> string list \<Rightarrow> nat" where
  "starts p L = length (filter id (map (prefix p) (tl L)))"

definition ends :: "string \<Rightarrow> string list \<Rightarrow> nat" where
  "ends p L = length (filter (\<lambda>(a, b). a \<and> b) (zip (map (suffix [nl]) L) (map (prefix p) (tl L))))"

abbreviation segments :: "string list \<Rightarrow> bool" where
  "segments L \<equiv> L \<noteq> [] \<and> list_all plain_text L"

lemma map_update_same: "f x = f (xs ! i) \<Longrightarrow> map f (xs[i := x]) = map f xs"
  by (induction xs arbitrary: i) (auto split: nat.splits)

lemma map_update_tl: "f x = f (xs ! i) \<Longrightarrow> map f (tl (xs[i := x])) = map f (tl xs)"
  by (cases i; cases xs) (simp_all add: map_update_same)

lemma starts_update: "prefix p x = prefix p (L ! i) \<Longrightarrow> starts p (L[i := x]) = starts p L"
  unfolding starts_def by (simp only: map_update_tl)

lemma ends_update:
  "suffix [nl] x = suffix [nl] (L ! i) \<Longrightarrow> prefix p x = prefix p (L ! i) \<Longrightarrow> ends p (L[i := x]) = ends p L"
  unfolding ends_def by (simp only: map_update_same map_update_tl)

lemma count_sub_step:
  assumes "pat \<noteq> []"
  shows "count_sub pat s = (case split_once pat s of None \<Rightarrow> 0 | Some (a, b) \<Rightarrow> Suc (count_sub pat b))"
proof -
  have "split_all pat t \<noteq> []" for t by (subst split_all.simps) (auto split: option.splits)
  then have "0 < length (split_all pat t)" for t by simp
  then show ?thesis using assms by (auto simp: count_sub_def split_all.simps [of pat s] split: option.splits)
qed

lemma split_once_plain:
  "plain_text s \<Longrightarrow> split_once (lt # p) s = None" "plain_text s \<Longrightarrow> split_once (nl # lt # p) s = None"
  by (auto simp: split_once_None plain_text_def dest: set_mono_sublist)

lemma split_once_start:
  "plain_text s \<Longrightarrow> split_once (lt # p) (s @ lt # R)
    = (if prefix p R then Some (s, drop (length p) R) else map_option (\<lambda>(a, b). (s @ lt # a, b)) (split_once (lt # p) R))"
proof (induction s)
  case Nil
  show ?case by (subst split_once.simps) simp
next
  case (Cons x s)
  then show ?case by (subst split_once.simps) (auto simp: map_option_case split: option.splits)
qed

lemma split_once_end:
  "plain_text s \<Longrightarrow> split_once (nl # lt # p) (s @ lt # R)
    = (if suffix [nl] s \<and> prefix p R then Some (butlast s, drop (length p) R)
       else map_option (\<lambda>(a, b). (s @ lt # a, b)) (split_once (nl # lt # p) R))"
proof (induction s)
  case Nil
  show ?case by (subst split_once.simps) simp
next
  case (Cons x s)
  show ?case
  proof (cases s)
    case Nil
    then show ?thesis
      using Cons.prems split_once.simps [of "nl # lt # p" "lt # R"]
      by (subst split_once.simps) (auto simp: map_option_case suffix_def split: option.splits)
  next
    case (Cons y ys)
    with Cons.prems Cons.IH show ?thesis
      by (subst split_once.simps) (auto simp: map_option_case suffix_Cons split: option.splits)
  qed
qed

lemma prefix_join: "plain_text p \<Longrightarrow> list_all plain_text (s # ss) \<Longrightarrow> prefix p (join [lt] (s # ss)) = prefix p s"
proof -
  assume a: "plain_text p" "list_all plain_text (s # ss)"
  have "takeWhile (\<lambda>c. c \<noteq> lt) (join [lt] (s # ss)) = s"
    using a(2) by (cases ss) (auto simp: plain_text_def takeWhile_eq_all_conv takeWhile_append)
  then show ?thesis using a(1) prefix_takeWhile [of p "join [lt] (s # ss)"] by (simp add: plain_text_def)
qed

lemma drop_join: "prefix p s \<Longrightarrow> drop (length p) (join [lt] (s # ss)) = join [lt] (drop (length p) s # ss)"
  by (cases ss) (auto simp: prefix_def)

lemma plain_drop: "plain_text s \<Longrightarrow> plain_text (drop n s)"
  by (auto simp: plain_text_def dest: in_set_dropD)

lemma count_start:
  "plain_text p \<Longrightarrow> list_all plain_text (s # ss) \<Longrightarrow> count_sub (lt # p) (join [lt] (s # ss)) = starts p (s # ss)"
proof (induction ss arbitrary: s)
  case Nil
  then show ?case by (simp add: count_sub_step split_once_plain starts_def)
next
  case (Cons s1 ss)
  let ?R = "join [lt] (s1 # ss)"
  have step: "count_sub (lt # p) (s @ lt # ?R)
      = (if prefix p s1 then Suc (count_sub (lt # p) (drop (length p) ?R)) else count_sub (lt # p) ?R)"
    using Cons.prems by (subst count_sub_step, simp)
      (subst split_once_start, simp, auto simp: prefix_join count_sub_step [of "lt # p" ?R] split: option.splits)
  have "count_sub (lt # p) (drop (length p) ?R) = starts p (drop (length p) s1 # ss)" if "prefix p s1"
    using Cons.prems that by (simp add: drop_join plain_drop Cons.IH)
  with step Cons show ?case by (auto simp: starts_def)
qed

lemma count_end:
  "plain_text p \<Longrightarrow> \<not> suffix [nl] p \<Longrightarrow> list_all plain_text (s # ss) \<Longrightarrow>
    count_sub (nl # lt # p) (join [lt] (s # ss)) = ends p (s # ss)"
proof (induction ss arbitrary: s)
  case Nil
  then show ?case by (simp add: count_sub_step split_once_plain ends_def)
next
  case (Cons s1 ss)
  let ?R = "join [lt] (s1 # ss)"
  have step: "count_sub (nl # lt # p) (s @ lt # ?R)
      = (if suffix [nl] s \<and> prefix p s1 then Suc (count_sub (nl # lt # p) (drop (length p) ?R)) else count_sub (nl # lt # p) ?R)"
    using Cons.prems by (subst count_sub_step, simp)
      (subst split_once_end, simp, auto simp: prefix_join count_sub_step [of "nl # lt # p" ?R] split: option.splits)
  have "count_sub (nl # lt # p) (drop (length p) ?R) = ends p (s1 # ss)" if p: "prefix p s1"
  proof -
    from p obtain t where t: "s1 = p @ t" by (auto simp: prefix_def)
    have "suffix [nl] t = suffix [nl] s1"
      using Cons.prems(2) by (cases t rule: rev_cases) (auto simp: t suffix_def)
    moreover have "count_sub (nl # lt # p) (drop (length p) ?R) = ends p (t # ss)"
      using Cons.prems p by (simp add: drop_join Cons.IH t)
    ultimately show ?thesis by (simp add: ends_def)
  qed
  with step Cons show ?case by (auto simp: ends_def)
qed

lemma join_append: "xs \<noteq> [] \<Longrightarrow> ys \<noteq> [] \<Longrightarrow> join sep (xs @ ys) = join sep xs @ sep @ join sep ys"
proof (induction xs)
  case (Cons x xs)
  then show ?case by (cases xs) (simp_all add: join_Cons)
qed simp

text \<open>The only start marker is where the document is cut.\<close>

lemma split_once_unique:
  assumes "plain_text p" and "list_all plain_text (s # ss)" and "starts p (s # ss) = 1" and "i < length ss" and "prefix p (ss ! i)"
  shows "split_once (lt # p) (join [lt] (s # ss)) = Some (join [lt] (s # take i ss), drop (length p) (join [lt] (drop i ss)))"
  using assms
proof (induction ss arbitrary: s i)
  case (Cons s1 ss)
  show ?case
  proof (cases i)
    case 0
    with Cons.prems show ?thesis by (simp add: split_once_start prefix_join)
  next
    case (Suc j)
    then have j: "j < length ss" "prefix p (ss ! j)" using Cons.prems by simp_all
    then have "filter (prefix p) ss \<noteq> []" by (metis filter_empty_conv nth_mem)
    then have s1: "\<not> prefix p s1" and one: "starts p (s1 # ss) = 1"
      using Cons.prems(3) by (auto simp: starts_def split: if_splits)
    have "split_once (lt # p) (join [lt] (s1 # ss)) = Some (join [lt] (s1 # take j ss), drop (length p) (join [lt] (drop j ss)))"
      using Cons.prems j one by (intro Cons.IH) simp_all
    then show ?thesis using Cons.prems(1,2) s1 Suc by (simp add: split_once_start prefix_join)
  qed
qed simp

section \<open>Rendering the tables twice\<close>

definition holds_table :: "string list \<Rightarrow> nat \<Rightarrow> string \<Rightarrow> string \<Rightarrow> bool" where
  "holds_table L i kind body \<longleftrightarrow> starts (st kind) L = 1 \<and> ends (en kind) L = 1 \<and> 0 < i \<and> Suc i < length L
     \<and> L ! i = st kind @ body @ [nl] \<and> prefix (en kind) (L ! Suc i)"

abbreviation kinds :: "string list" where
  "kinds \<equiv> map fst table_LABELS"

lemma kinds_eq: "kinds = [''primary'', ''hybrid'', ''offered'', ''objective'', ''http'']"
  by (simp add: table_LABELS_def)

lemma kind_marks:
  assumes "k \<in> set kinds" and "k' \<in> set kinds"
  shows "prefix (st k') (st k @ x) \<longleftrightarrow> k = k'" "\<not> prefix (en k') (st k @ x)" "plain_text (st k)" "plain_text (en k)" "\<not> suffix [nl] (en k)"
  using assms unfolding kinds_eq by (auto simp: st_def en_def newline_def suffix_def)

lemma replace_table_eq:
  assumes k: "kind \<in> set kinds" and L: "segments L" and h: "holds_table L i kind body" and t: "table_text csvs kind = Inr t"
  shows "replace_table csvs (join [lt] L) kind = Inr (join [lt] (L[i := st kind @ t @ [nl]]))"
proof -
  note m = kind_marks [OF k k]
  obtain s ss where ss: "L = s # ss" using L by (cases L) auto
  have i: "0 < i" "Suc i < length L" using h by (simp_all add: holds_table_def)
  define post where "post = drop (Suc (Suc i)) L"
  obtain r where r: "L ! Suc i = en kind @ r" using h by (auto simp: holds_table_def prefix_def)
  have X: "L ! i = st kind @ body @ [nl]" using h by (simp add: holds_table_def)
  have cut: "drop i L = (st kind @ body @ [nl]) # (en kind @ r) # post"
    using i r X unfolding post_def by (metis Cons_nth_drop_Suc Suc_lessD)
  have pre: "take i L \<noteq> []" using i by (cases L) auto
  have "split_once (lt # st kind) (join [lt] (s # ss))
      = Some (join [lt] (s # take (i - 1) ss), drop (length (st kind)) (join [lt] (drop (i - 1) ss)))"
    using L h ss i by (intro split_once_unique) (auto simp: m holds_table_def nth_Cons')
  moreover have "s # take (i - 1) ss = take i L" "drop (i - 1) ss = drop i L"
    using i ss by (simp_all add: take_Cons' drop_Cons')
  ultimately have one: "split_once (lt # st kind) (join [lt] L) = Some (join [lt] (take i L), drop (length (st kind)) (join [lt] (drop i L)))"
    by (simp only: ss)
  have "plain_text (L ! i)" using L i by (simp add: list_all_length)
  then have body: "plain_text (body @ [nl])" by (simp add: X)
  let ?rest = "drop (length (en kind)) (join [lt] ((en kind @ r) # post))"
  have tail: "drop (length (st kind)) (join [lt] (drop i L)) = (body @ [nl]) @ lt # join [lt] ((en kind @ r) # post)"
    by (simp add: cut)
  have pe: "prefix (en kind) (join [lt] ((en kind @ r) # post))" by (cases post) simp_all
  then have two: "split_once (nl # lt # en kind) (drop (length (st kind)) (join [lt] (drop i L))) = Some (body, ?rest)"
    unfolding tail by (subst split_once_end [OF body]) (simp add: suffix_def)
  have "join [lt] (L[i := st kind @ t @ [nl]]) = join [lt] (take i L @ (st kind @ t @ [nl]) # (en kind @ r) # post)"
    using i cut by (simp add: upd_conv_take_nth_drop) (metis Cons_nth_drop_Suc Suc_lessD list.inject)
  also have "\<dots> = join [lt] (take i L) @ lt # st kind @ t @ nl # lt # join [lt] ((en kind @ r) # post)"
    using pre by (simp add: join_append)
  also have "join [lt] ((en kind @ r) # post) = en kind @ ?rest" using pe by (auto simp: prefix_def)
  finally have res: "join [lt] (L[i := st kind @ t @ [nl]])
      = join [lt] (take i L) @ (lt # st kind) @ t @ (nl # lt # en kind) @ ?rest" by simp
  have "count_sub (lt # st kind) (join [lt] L) = 1" "count_sub (nl # lt # en kind) (join [lt] L) = 1"
    using L h m count_start [of "st kind" s ss] count_end [of "en kind" s ss] by (simp_all add: ss holds_table_def)
  then show ?thesis
    by (simp add: replace_table_def marks one two unpack2_def t res)
qed

text \<open>Replacing the body of one table keeps the others.\<close>

lemma replaced_holds:
  assumes "k \<in> set kinds" and "holds_table L i k b" shows "holds_table (L[i := st k @ t @ [nl]]) i k t"
  using assms kind_marks [OF assms(1,1)]
  by (auto simp: holds_table_def starts_update ends_update suffix_def)

lemma other_holds:
  assumes "k \<in> set kinds" and "k' \<in> set kinds" and "k \<noteq> k'" and "holds_table L i k b" and "holds_table L j k' b'"
  shows "holds_table (L[i := st k @ t @ [nl]]) j k' b'"
proof -
  note m = kind_marks [OF assms(1,2)]
  have Li: "L ! i = st k @ b @ [nl]" "i < length L" using assms(4) by (simp_all add: holds_table_def)
  have "prefix (st k') (L ! j)" using assms(5) by (simp add: holds_table_def)
  then have "j \<noteq> i" using Li m(1) assms(3) by metis
  moreover have "Suc j \<noteq> i" using Li m(2) assms(5) by (auto simp: holds_table_def)
  moreover have "starts (st k') (L[i := st k @ t @ [nl]]) = starts (st k') L" "ends (en k') (L[i := st k @ t @ [nl]]) = ends (en k') L"
    using Li m assms(3) by (simp_all add: starts_update ends_update suffix_def)
  ultimately show ?thesis using assms(5) by (simp add: holds_table_def)
qed

definition holds_all :: "string list \<Rightarrow> (string \<Rightarrow> string) \<Rightarrow> bool" where
  "holds_all L B \<longleftrightarrow> segments L \<and> (\<forall>k \<in> set kinds. \<exists>i. holds_table L i k (B k))"

lemma holds_allD: "holds_all L B \<Longrightarrow> k \<in> set kinds \<Longrightarrow> \<exists>i. holds_table L i k (B k)"
  unfolding holds_all_def by (elim conjE) (rule bspec)

lemma plain_update: "list_all plain_text L \<Longrightarrow> plain_text x \<Longrightarrow> list_all plain_text (L[i := x])"
  by (auto simp: list_all_iff dest!: set_update_subset_insert [THEN subsetD])

lemma holds_all_update:
  assumes "holds_all L B" and "k \<in> set kinds" and "holds_table L i k (B k)" and "plain_text t"
  shows "holds_all (L[i := st k @ t @ [nl]]) (B(k := t))"
proof -
  have "\<exists>j. holds_table (L[i := st k @ t @ [nl]]) j k' ((B(k := t)) k')" if "k' \<in> set kinds" for k'
  proof (cases "k' = k")
    case True
    then show ?thesis using replaced_holds [OF assms(2,3)] by auto
  next
    case False
    moreover obtain j where "holds_table L j k' (B k')" using assms(1) \<open>k' \<in> set kinds\<close> unfolding holds_all_def by blast
    ultimately show ?thesis using other_holds [OF assms(2) \<open>k' \<in> set kinds\<close> _ assms(3)] by auto
  qed
  moreover have "segments (L[i := st k @ t @ [nl]])"
    using assms(1,4) kind_marks(3) [OF assms(2,2)] by (auto simp: holds_all_def intro!: plain_update)
  ultimately show ?thesis unfolding holds_all_def by blast
qed

lemma plain_figure_list:
  assumes "mapR (\<lambda>r. bindR (f r) (\<lambda>n. Inr (g n))) rs = Inr ys" and "\<And>n. plain_text (g n)"
  shows "plain_text (join ''; '' ys)"
  using assms(2) by (intro plain_join mapR_all [OF assms(1)]) auto

lemma plain_latency: "latency_cells kind rs = Inr cells \<Longrightarrow> list_all plain_text cells"
  by (auto simp: latency_cells_def hit_text_def Let_def split: if_splits)

lemma plain_cells:
  "offered_cells rs = Inr cells \<Longrightarrow> list_all plain_text cells" "rate_cells kind rs = Inr cells \<Longrightarrow> list_all plain_text cells"
  by (auto simp: offered_cells_def rate_cells_def mib_def plain_latency
      dest!: plain_figure_list [where f = "\<lambda>r. int_cell r ''origins''" and g = int_commas, OF _ plain_fixed(3)]
        plain_figure_list [where f = "\<lambda>r. float_cell r ''objects_s''" and g = "fixed_commas 0", OF _ plain_fixed(2)])

lemma plain_headers: "list_all plain_text (header_lines kind)"
  by (simp add: header_lines_def micro_def)

lemma plain_labels: "map_of table_LABELS kind = Some entries \<Longrightarrow> (e, label, source) \<in> set entries \<Longrightarrow> plain_text label"
  by (auto simp: table_LABELS_def split: if_splits)

lemma table_text_plain: "table_text csvs kind = Inr t \<Longrightarrow> plain_text t"
proof -
  assume t: "table_text csvs kind = Inr t"
  then obtain entries where e: "map_of table_LABELS kind = Some entries" by (auto simp: table_text_def split: option.splits)
  obtain groups ls where g: "mapR (table_line kind groups) entries = Inr ls" "t = join newline (header_lines kind @ ls)"
    by (rule table_text_Inr [OF t e])
  have "plain_text l" if e': "(engine, label, source) \<in> set entries" and l: "table_line kind groups (engine, label, source) = Inr l"
    for engine label source l
  proof -
    obtain rs cells where c: "offered_cells rs = Inr cells \<or> rate_cells kind rs = Inr cells" "l = piped (label # cells)"
      using l by (auto simp: table_line_def split: option.splits if_splits)
    have "plain_text (join '' | '' (label # cells))"
      using c(1) plain_cells plain_labels [OF e e'] by (intro plain_join) auto
    then show ?thesis by (simp add: c(2) piped_def)
  qed
  then have "list_all plain_text ls" by (intro mapR_all [OF g(1)]) auto
  then show ?thesis using plain_headers by (auto simp: g(2) newline_def intro!: plain_join)
qed

lemma replace_tables_renders:
  assumes "replace_tables csvs ks (join [lt] L) = Inr d" and "set ks \<subseteq> set kinds" and "holds_all L B"
  shows "\<exists>L' B'. d = join [lt] L' \<and> holds_all L' B' \<and> (\<forall>k \<in> set ks. table_text csvs k = Inr (B' k)) \<and> (\<forall>k. k \<notin> set ks \<longrightarrow> B' k = B k)"
  using assms
proof (induction ks arbitrary: L B)
  case (Cons k ks)
  obtain d1 where d1: "replace_table csvs (join [lt] L) k = Inr d1" "replace_tables csvs ks d1 = Inr d" using Cons.prems(1) by auto
  obtain t where t: "table_text csvs k = Inr t" using d1(1) by (auto simp: replace_table_def split: if_splits)
  have k: "k \<in> set kinds" "set ks \<subseteq> set kinds" using Cons.prems(2) by auto
  obtain i where i: "holds_table L i k (B k)" using Cons.prems(3) k by (auto simp: holds_all_def)
  have seg: "segments L" using Cons.prems(3) by (simp add: holds_all_def)
  have "d1 = join [lt] (L[i := st k @ t @ [nl]])" using d1(1) replace_table_eq [OF k(1) seg i t] by simp
  from Cons.IH [OF d1(2) [unfolded this] k(2) holds_all_update [OF Cons.prems(3) k(1) i table_text_plain [OF t]]]
  obtain L' B' where L': "d = join [lt] L'" "holds_all L' B'" "\<forall>k \<in> set ks. table_text csvs k = Inr (B' k)"
      "\<forall>j. j \<notin> set ks \<longrightarrow> B' j = (B(k := t)) j" by blast
  then have "table_text csvs k = Inr (B' k)" using t by (cases "k \<in> set ks") auto
  with L' show ?case by (intro exI [of _ L'] exI [of _ B']) auto
qed auto

lemma replace_tables_again:
  assumes "holds_all L B" and "set ks \<subseteq> set kinds" and "\<And>k. k \<in> set ks \<Longrightarrow> table_text csvs k = Inr (B k)"
  shows "replace_tables csvs ks (join [lt] L) = Inr (join [lt] L)"
  using assms
proof (induction ks)
  case (Cons k ks)
  then obtain i where i: "holds_table L i k (B k)" by (auto simp: holds_all_def)
  moreover have "segments L" using Cons.prems(1) by (simp add: holds_all_def)
  ultimately have "replace_table csvs (join [lt] L) k = Inr (join [lt] (L[i := st k @ B k @ [nl]]))"
    using Cons.prems by (intro replace_table_eq) auto
  moreover have "L[i := st k @ B k @ [nl]] = L" using i by (metis holds_table_def list_update_id)
  ultimately show ?case using Cons by simp
qed simp

text \<open>A document whose blocks hold no \<open><\<close>, cut into segments.\<close>

definition tidy :: "string \<Rightarrow> bool" where
  "tidy d \<longleftrightarrow> (\<forall>k \<in> set kinds. \<exists>h b r. d = h @ start_mark k @ b @ end_mark k @ r \<and> plain_text b)"

lemma split_on_cut: "split_on c (a @ c # b) = split_on c a @ split_on c b"
  by (induction a) (auto split: list.splits)

lemma split_on_segments: "segments (split_on lt d)"
proof -
  have "lt \<notin> set p" if "p \<in> set (split_on lt d)" for p
    using that by (induction d arbitrary: p) (auto split: list.splits if_splits)
  then show ?thesis by (simp add: list_all_iff plain_text_def)
qed

lemma tidy_segments:
  assumes "tidy d" and "\<forall>k \<in> set kinds. count_sub (start_mark k) d = 1 \<and> count_sub (end_mark k) d = 1"
  shows "\<exists>B. holds_all (split_on lt d) B"
proof -
  let ?L = "split_on lt d"
  have "\<exists>b i. holds_table ?L i k b" if k: "k \<in> set kinds" for k
  proof -
    note m = kind_marks [OF k k]
    obtain h b r where d: "d = h @ start_mark k @ b @ end_mark k @ r" "plain_text b" using assms(1) k by (auto simp: tidy_def)
    have mid: "split_on lt (st k @ b @ nl # lt # en k @ r) = (st k @ b @ [nl]) # split_on lt (en k @ r)"
      using split_on_append [of lt "st k @ b @ [nl]" "en k @ r"] m(3) d(2) by (simp add: plain_text_def)
    obtain x xs where xs: "split_on lt (en k @ r) = x # xs" by (cases "split_on lt (en k @ r)") simp_all
    have "prefix (en k) (join [lt] (x # xs))" by (metis join_split_on prefixI xs)
    then have px: "prefix (en k) x"
      using prefix_join [OF m(4)] split_on_segments [of "en k @ r"] by (simp add: xs)
    have L: "?L = split_on lt h @ (st k @ b @ [nl]) # x # xs"
      using split_on_cut [of lt h] mid xs by (simp add: d(1) marks)
    obtain s ss where s: "?L = s # ss" by (cases ?L) simp_all
    have "starts (st k) ?L = 1" "ends (en k) ?L = 1"
      using bspec [OF assms(2) k] m split_on_segments [of d] count_start [of "st k" s ss] count_end [of "en k" s ss] join_split_on [of lt d]
      by (simp_all add: s marks)
    with L px have "holds_table ?L (length (split_on lt h)) k b" by (simp add: holds_table_def nth_append)
    then show ?thesis by blast
  qed
  then have "\<exists>B. \<forall>k \<in> set kinds. \<exists>i. holds_table ?L i k (B k)" by (intro bchoice) blast
  then show ?thesis using split_on_segments by (auto simp: holds_all_def)
qed

text \<open>Rendering goes through only if every pair of markers occurs once.\<close>

lemma replace_table_counts:
  "replace_table csvs d k = Inr d' \<Longrightarrow> count_sub (start_mark k) d = 1 \<and> count_sub (end_mark k) d = 1"
  by (auto simp: replace_table_def split: if_splits)

lemma holds_sublist:
  assumes "k \<in> set kinds" and "segments L" and "holds_table L i k b"
  shows "sublist (start_mark k @ b @ end_mark k) (join [lt] L)"
proof -
  have i: "0 < i" "Suc i < length L" "L ! i = st k @ b @ [nl]" using assms(3) by (simp_all add: holds_table_def)
  obtain r where r: "L ! Suc i = en k @ r" using assms(3) by (auto simp: holds_table_def prefix_def)
  have "L = take i L @ (st k @ b @ [nl]) # (en k @ r) # drop (Suc (Suc i)) L"
    using i r by (metis Cons_nth_drop_Suc Suc_lessD append_take_drop_id)
  moreover have "take i L \<noteq> []" using i by (cases L) auto
  moreover have "\<exists>z. join [lt] ((en k @ r) # drop (Suc (Suc i)) L) = en k @ z" by (cases "drop (Suc (Suc i)) L") auto
  ultimately obtain z where "join [lt] L = join [lt] (take i L) @ lt # (st k @ b @ [nl]) @ lt # en k @ z"
    by (metis (no_types, lifting) append_Cons append_Nil join_Cons join_append list.discI)
  then show ?thesis by (auto simp: marks sublist_def)
qed

text \<open>
  The check accepts what was rendered: if the report has every pair of table markers once, with a body free of
  \<open><\<close> between them, and the program writes the report, then it now holds the table of every kind between its markers,
  a second rendering from the same CSV files changes nothing, and \<open>--check\<close> passes.
\<close>

theorem tables_check_accepts_rendered:
  assumes "tidy d" and "\<forall>k \<in> set kinds. count_sub (start_mark k) d = 1 \<and> count_sub (end_mark k) d = 1"
    and "tables_main csvs False d = (Inr (), d')"
  shows "tables_main csvs True d' = (Inr (), d') \<and> tables_main csvs False d' = (Inr (), d')
    \<and> (\<forall>k \<in> set kinds. \<exists>t. table_text csvs k = Inr t \<and> sublist (start_mark k @ t @ end_mark k) d')"
proof -
  have d': "replace_tables csvs kinds d = Inr d'" using assms(3) by (auto simp: tables_main_def split: sum.splits)
  obtain B where B: "holds_all (split_on lt d) B" using tidy_segments [OF assms(1,2)] by blast
  have d: "join [lt] (split_on lt d) = d" by (rule join_split_on)
  obtain L B' where L: "d' = join [lt] L" "holds_all L B'" "\<forall>k \<in> set kinds. table_text csvs k = Inr (B' k)"
    using replace_tables_renders [of csvs kinds "split_on lt d" d', unfolded d, OF d' subset_refl B] by blast
  have "replace_tables csvs kinds d' = Inr d'" unfolding L(1) using L(2,3) by (intro replace_tables_again) auto
  moreover have "\<exists>t. table_text csvs k = Inr t \<and> sublist (start_mark k @ t @ end_mark k) d'" if k: "k \<in> set kinds" for k
  proof -
    have seg: "segments L" using L(2) by (simp add: holds_all_def)
    obtain i where "holds_table L i k (B' k)" using holds_allD [OF L(2) k] ..
    from holds_sublist [OF k seg this] bspec [OF L(3) k] show ?thesis by (auto simp: L(1))
  qed
  ultimately show ?thesis by (simp add: tables_main_def)
qed

text \<open>A report with all five blocks.\<close>

definition sample_report :: string where
  "sample_report = concat (map (\<lambda>k. start_mark k @ ''old'' @ end_mark k) kinds)"

definition sample_segments :: "string list" where
  "sample_segments = concat (map (\<lambda>k. [st k @ ''old'' @ [nl], en k]) kinds)"

lemma sample_report_join: "sample_report = join [lt] ([] # sample_segments)"
  unfolding sample_report_def sample_segments_def kinds_eq by (simp add: marks)

lemma suffix_last: "suffix [x] xs \<longleftrightarrow> xs \<noteq> [] \<and> last xs = x"
  by (cases xs rule: rev_cases) (auto simp: suffix_def)

lemma sample_counts: "k \<in> set kinds \<Longrightarrow> count_sub (start_mark k) sample_report = 1 \<and> count_sub (end_mark k) sample_report = 1"
proof -
  assume k: "k \<in> set kinds"
  note m = kind_marks [OF k k]
  have plain: "list_all plain_text ([] # sample_segments)"
    unfolding sample_segments_def kinds_eq by (simp add: st_def en_def newline_def)
  have "starts (st k) ([] # sample_segments) = 1" "ends (en k) ([] # sample_segments) = 1"
    using k unfolding sample_segments_def kinds_eq set_simps insert_iff
    by (elim disjE; simp add: starts_def ends_def st_def en_def newline_def suffix_last)+
  then show ?thesis using count_start [OF m(3) plain] count_end [OF m(4,5) plain] by (simp add: sample_report_join marks)
qed

lemma sample_tidy: "tidy sample_report"
proof -
  have "\<exists>h r. concat (map f ks) = h @ f k @ r" if "k \<in> set ks" for f :: "string \<Rightarrow> string" and k ks
    using split_list [OF that] by (elim exE) (metis concat.simps(2) concat_append list.simps(9) map_append)
  from this [of _ kinds "\<lambda>k. start_mark k @ ''old'' @ end_mark k"]
  have "\<exists>h r. sample_report = h @ start_mark k @ ''old'' @ end_mark k @ r" if "k \<in> set kinds" for k
    using that unfolding sample_report_def by fastforce
  moreover have "plain_text ''old''" by simp
  ultimately show ?thesis unfolding tidy_def by blast
qed

lemma replace_tables_succeeds:
  assumes "holds_all L B" and "set ks \<subseteq> set kinds" and "\<And>k. k \<in> set kinds \<Longrightarrow> \<exists>t. table_text csvs k = Inr t"
  shows "\<exists>d. replace_tables csvs ks (join [lt] L) = Inr d"
  using assms
proof (induction ks arbitrary: L B)
  case (Cons k ks)
  then have k: "k \<in> set kinds" "set ks \<subseteq> set kinds" by auto
  obtain t where t: "table_text csvs k = Inr t" using Cons.prems(3) [OF k(1)] ..
  obtain i where i: "holds_table L i k (B k)" using holds_allD [OF Cons.prems(1) k(1)] ..
  have "segments L" using Cons.prems(1) by (simp add: holds_all_def)
  then have "replace_table csvs (join [lt] L) k = Inr (join [lt] (L[i := st k @ t @ [nl]]))" by (rule replace_table_eq [OF k(1) _ i t])
  with Cons.IH [OF holds_all_update [OF Cons.prems(1) k(1) i table_text_plain [OF t]] k(2) Cons.prems(3)] show ?case by simp
qed simp

theorem tables_check_accepts_rendered_witness:
  "\<exists>d. tables_main sample_csvs False sample_report = (Inr (), d) \<and> tables_main sample_csvs True d = (Inr (), d)"
proof -
  have counts: "\<forall>k \<in> set kinds. count_sub (start_mark k) sample_report = 1 \<and> count_sub (end_mark k) sample_report = 1"
    using sample_counts by blast
  obtain B where B: "holds_all (split_on lt sample_report) B" using tidy_segments [OF sample_tidy counts] ..
  obtain d where "replace_tables sample_csvs kinds sample_report = Inr d"
    using replace_tables_succeeds [OF B subset_refl sample_table] unfolding join_split_on by blast
  then have d: "tables_main sample_csvs False sample_report = (Inr (), d)" by (simp add: tables_main_def)
  with tables_check_accepts_rendered [OF sample_tidy counts d] show ?thesis by blast
qed

end
