(* ===== verification/Readme_Block.thy ===== *)
theory Readme_Block
  imports Report_Tables
begin

text \<open>
  The generated block of the README that both report generators of \<open>bench/strong\<close> replace, between a pair of
  markers of their own (\<open>replace_readme_headlines\<close> of \<open>render_release_report.py\<close> and
  \<open>render_landscape_report.py\<close>). The contract a pair of markers has to meet is the locale \<open>block_marks\<close>; its lemma says
  that replacing the block twice with the same text is replacing it once.
\<close>

definition replace_block :: "string \<Rightarrow> string \<Rightarrow> string \<Rightarrow> string \<Rightarrow> string \<Rightarrow> string \<Rightarrow> string res" where
  "replace_block begin_mark final_mark not_one out_of_order readme rendered =
     (if count_sub begin_mark readme \<noteq> 1 \<or> count_sub final_mark readme \<noteq> 1
      then Inl (ValueError not_one)
      else bindR (unpack2 (split_once begin_mark readme)) (\<lambda>(before, rest).
        if \<not> contains final_mark rest then Inl (ValueError out_of_order)
        else bindR (unpack2 (split_once final_mark rest)) (\<lambda>(old, after).
          Inr (before @ begin_mark @ newline @ rendered @ newline @ final_mark @ after))))"

section \<open>Counting a marker\<close>

lemma count_cut:
  assumes "plain_text p"
  shows "count_sub (lt # p) (x @ lt # y) = count_sub (lt # p) x + (if prefix p y then 1 else 0) + count_sub (lt # p) y"
proof -
  have c: "count_sub (lt # p) d = starts p (split_on lt d)" for d
  proof -
    obtain s ss where s: "split_on lt d = s # ss" by (cases "split_on lt d") simp_all
    have "join [lt] (s # ss) = d" using join_split_on [of lt d] by (simp add: s)
    then show ?thesis using count_start [OF assms, of s ss] split_on_segments [of d] by (simp add: s)
  qed
  obtain s ss where s: "split_on lt y = s # ss" by (cases "split_on lt y") simp_all
  have "prefix p (join [lt] (s # ss)) = prefix p s" using split_on_segments [of y] by (intro prefix_join assms) (simp add: s)
  then have "prefix p y = prefix p s" using join_split_on [of lt y] by (simp add: s)
  moreover obtain u us where "split_on lt x = u # us" by (cases "split_on lt x") simp_all
  ultimately show ?thesis by (simp add: c split_on_cut s starts_def)
qed

lemma count_cut2:
  assumes "plain_text p"
  shows "count_sub (lt # p) (x @ lt # y @ lt # z)
    = count_sub (lt # p) x + (if prefix p (y @ lt # z) then 1 else 0) + count_sub (lt # p) y + (if prefix p z then 1 else 0) + count_sub (lt # p) z"
  using count_cut [OF assms, of x "y @ lt # z"] count_cut [OF assms, of y z] by simp

lemma count_plain: "plain_text s \<Longrightarrow> count_sub (lt # p) s = 0"
  by (simp add: count_sub_step split_once_plain)

lemma split_once_tail: "split_once pat (a @ pat @ b) = Some (a, b) \<Longrightarrow> split_once pat (a @ pat @ c) = Some (a, c)"
proof (induction a)
  case Nil
  then show ?case by (subst split_once.simps) simp
next
  case (Cons x a)
  have take: "take (length pat) (x # a @ pat @ b) = take (length pat) (x # a @ pat @ c)"
    using take_append [of "length pat" "x # a @ pat"] by (simp add: take_Cons' del: take_append)
  have np: "\<not> prefix pat (x # a @ pat @ b)"
    using Cons.prems by (subst (asm) split_once.simps) (auto split: if_splits)
  moreover have "prefix pat (x # a @ pat @ b) = prefix pat (x # a @ pat @ c)"
    using take by (metis append_eq_conv_conj prefix_def)
  ultimately have nc: "\<not> prefix pat (x # a @ pat @ c)" by simp
  have "split_once pat (a @ pat @ b) = Some (a, b)"
    using Cons.prems np by (subst (asm) split_once.simps) auto
  from Cons.IH [OF this] nc show ?case by (subst split_once.simps) simp
qed

lemma plain_dash [simp]: "plain_text dash" "plain_text newline"
  by (simp_all add: dash_def newline_def)

section \<open>A pair of markers\<close>

text \<open>Each marker is a \<open><\<close> followed by text without one, and neither text begins with the other.\<close>

locale block_marks =
  fixes begin_mark final_mark begin_rest final_rest :: string
  assumes begin_mark: "begin_mark = lt # begin_rest"
    and final_mark: "final_mark = lt # final_rest"
    and plain_begin: "plain_text begin_rest"
    and plain_final: "plain_text final_rest"
    and final_not_begin: "\<not> prefix final_rest (begin_rest @ t)"
    and begin_not_final: "\<not> prefix begin_rest (final_rest @ t)"
begin

lemma page_counts:
  assumes "plain_text body"
  shows "count_sub begin_mark (x @ begin_mark @ body @ final_mark @ y) = count_sub begin_mark x + 1 + count_sub begin_mark (final_rest @ y)"
    and "count_sub final_mark (x @ begin_mark @ body @ final_mark @ y) = count_sub final_mark x + 1 + count_sub final_mark (final_rest @ y)"
proof -
  have plain: "plain_text (begin_rest @ body)" using assms plain_begin by simp
  have page: "x @ begin_mark @ body @ final_mark @ y = x @ lt # (begin_rest @ body) @ lt # final_rest @ y"
    by (simp add: begin_mark final_mark)
  have pb: "prefix begin_rest ((begin_rest @ body) @ u)" "\<not> prefix final_rest ((begin_rest @ body) @ u)" for u
    using final_not_begin [of "body @ u"] by simp_all
  show "count_sub begin_mark (x @ begin_mark @ body @ final_mark @ y) = count_sub begin_mark x + 1 + count_sub begin_mark (final_rest @ y)"
    unfolding page unfolding begin_mark count_cut2 [OF plain_begin] count_plain [OF plain]
    by (simp add: begin_not_final pb(1) del: append_assoc)
  show "count_sub final_mark (x @ begin_mark @ body @ final_mark @ y) = count_sub final_mark x + 1 + count_sub final_mark (final_rest @ y)"
    unfolding page unfolding final_mark count_cut2 [OF plain_final] count_plain [OF plain]
    by (simp add: pb(2) del: append_assoc)
qed

lemma readme_counts:
  assumes "readme = x @ begin_mark @ old @ final_mark @ y"
    and "count_sub begin_mark readme = 1" and "count_sub final_mark readme = 1"
  shows "count_sub begin_mark x = 0 \<and> count_sub begin_mark (final_rest @ y) = 0
    \<and> count_sub final_mark x = 0 \<and> count_sub final_mark (final_rest @ y) = 0"
proof -
  have readme: "readme = x @ lt # (begin_rest @ old) @ lt # final_rest @ y" using assms(1) by (simp add: begin_mark final_mark)
  have pb: "prefix begin_rest ((begin_rest @ old) @ u)" for u by simp
  from assms(2,3) show ?thesis
    unfolding readme begin_mark final_mark count_cut2 [OF plain_begin] count_cut2 [OF plain_final]
    by (simp add: pb del: append_assoc)
qed

lemma replace_again:
  assumes "replace_block begin_mark final_mark m1 m2 readme rendered = Inr page" and "plain_text rendered"
  shows "replace_block begin_mark final_mark m1 m2 page rendered = Inr page"
proof -
  obtain before rest old after where r: "count_sub begin_mark readme = 1" "count_sub final_mark readme = 1"
      "split_once begin_mark readme = Some (before, rest)" "split_once final_mark rest = Some (old, after)"
      "page = before @ begin_mark @ newline @ rendered @ newline @ final_mark @ after"
    using assms(1) by (auto simp: replace_block_def unpack2_def split: if_splits option.splits)
  have readme: "readme = before @ begin_mark @ old @ final_mark @ after"
    using split_once_Some [OF r(3)] split_once_Some [OF r(4)] by simp
  have plain: "plain_text (newline @ rendered @ newline)" using assms(2) by simp
  have page: "page = before @ begin_mark @ (newline @ rendered @ newline) @ final_mark @ after" using r(5) by simp
  have counts: "count_sub begin_mark page = 1" "count_sub final_mark page = 1"
    using readme_counts [OF readme r(1,2)] page_counts [OF plain, of before after] unfolding page by simp_all
  have "split_once begin_mark (before @ begin_mark @ rest) = Some (before, rest)" using r(3) split_once_Some by metis
  from split_once_tail [OF this] have one: "split_once begin_mark page = Some (before, (newline @ rendered @ newline) @ final_mark @ after)"
    unfolding page .
  have two: "split_once final_mark ((newline @ rendered @ newline) @ final_mark @ after) = Some (newline @ rendered @ newline, after)"
    using plain split_once_free [of "newline @ rendered @ newline" final_rest after] by (simp add: final_mark plain_text_def)
  show ?thesis unfolding replace_block_def using counts one two r(5) by (simp add: unpack2_def contains_def)
qed

lemma fresh_block: "\<exists>page. replace_block begin_mark final_mark m1 m2 (begin_mark @ newline @ final_mark) rendered = Inr page"
proof -
  have "count_sub begin_mark [] = 0" "count_sub final_mark [] = 0" by (simp_all add: begin_mark final_mark count_plain)
  moreover have "count_sub begin_mark (final_rest @ []) = 0" "count_sub final_mark (final_rest @ []) = 0"
    using plain_final by (simp_all add: begin_mark final_mark count_plain)
  ultimately have "count_sub begin_mark (begin_mark @ newline @ final_mark) = 1" "count_sub final_mark (begin_mark @ newline @ final_mark) = 1"
    using page_counts [of newline "[]" "[]"] by simp_all
  moreover have "split_once begin_mark (begin_mark @ u) = Some ([], u)" for u by (simp add: split_once.simps)
  moreover have "split_once final_mark (newline @ final_mark) = Some (newline, [])"
    using split_once_free [of newline final_rest "[]"] by (simp add: final_mark newline_def)
  ultimately show ?thesis by (simp add: replace_block_def unpack2_def contains_def)
qed

end

end
