(* ===== verification/Release_Report.thy ===== *)
theory Release_Report
  imports Readme_Block Campaign_Tables Strong_Run
begin

text \<open>
  \<open>bench/strong/render_release_report.py\<close>: the release report and the headlines of the README, rendered from a complete
  campaign. The files are an argument: the JSON documents and CSV files by path, the SHA-256 digests of the evidence
  files, and the directories of the runs as the campaign check reads them. Text is its UTF-8 encoding; \<open>str\<close> of JSON
  values that are no strings and the wording of the remarks of the campaign check are parameters. Numbers of JSON
  documents that are printed with a format are binary64 numbers.
\<close>

record report_text = pyrepr +
  note_text :: "remark \<Rightarrow> string"

record release_files =
  rf_root :: string
  rf_json :: "string \<Rightarrow> json res"
  rf_csv :: "string \<Rightarrow> csv_row list res"
  rf_sha256 :: "string \<Rightarrow> string res"
  rf_runs :: "string \<Rightarrow> run_id \<Rightarrow> run_dir"

section \<open>Labels and titles\<close>

definition README_BEGIN :: string where
  "README_BEGIN = ''<!-- BEGIN GENERATED RELEASE: release-headlines -->''"

definition README_END :: string where
  "README_END = ''<!-- END GENERATED RELEASE: release-headlines -->''"

definition release_LABELS :: "(string \<times> string) list" where
  "release_LABELS =
    [(''grpc'', ''CacheLib gRPC DRAM''),
     (''grpc_nvm'', ''CacheLib gRPC + Navy''),
     (''redis'', ''Redis OSS''),
     (''valkey'', ''Valkey''),
     (''memcached'', ''Memcached DRAM''),
     (''memcached_extstore'', ''Memcached extstore''),
     (''grpc_adapter'', ''gRPC + Python HTTP adapter''),
     (''nginx'', ''NGINX cache''),
     (''origin_direct'', ''Direct origin (reference)'')]"

definition release_TITLES :: "(string \<times> string) list" where
  "release_TITLES =
    [(''primary'', ''All-RAM unary hits''),
     (''hybrid'', ''Reusable 128 MiB set, 96 MiB configured DRAM''),
     (''offered'', ''Equal demand: 1,500 scheduled arrivals/s''),
     (''ram192'', ''Full-hit objective: 192 MiB DRAM / 384 MiB service ceiling''),
     (''flash384'', ''Full-hit objective: 96 MiB DRAM + 512 MiB file / 384 MiB service ceiling''),
     (''http'', ''Repeated 256 KiB objects through a common HTTP interface''),
     (''exploratory-kv'', ''Exploratory value sizes, concurrency and writes''),
     (''batch-get'', ''Exploratory 16-object batch GET''),
     (''batch-set'', ''Exploratory 16-object batch SET''),
     (''pipeline'', ''Exploratory sustained Pipeline''),
     (''offered-saturation'', ''Exploratory scheduled-load saturation''),
     (''origin-sensitivity'', ''Exploratory origin-delay sensitivity''),
     (''origin-patterns'', ''Exploratory near-capacity, skew, changing, cold and one-pass traces''),
     (''http-secondary'', ''Exploratory HTTP replay and 1 MiB objects''),
     (''http-onepass'', ''Exploratory one-pass HTTP objects'')]"

definition table_item :: "(string \<times> 'a) list \<Rightarrow> string \<Rightarrow> 'a res" where
  "table_item table k = (case map_of table k of None \<Rightarrow> Inl (KeyError k) | Some v \<Rightarrow> Inr v)"

section \<open>Figures\<close>

text \<open>\<open>pathlib.Path.relative_to\<close> of a resolved path.\<close>

definition relative :: "string \<Rightarrow> string \<Rightarrow> string res" where
  "relative base path =
     (let strong = base @ ''/bench/strong'' in
      if path = strong then Inr ''.''
      else if prefix (strong @ ''/'') path then Inr (drop (length strong + 1) path)
      else Inl (ValueError (path @ '' is not in the subpath of '' @ strong)))"

definition report_median :: "csv_row list \<Rightarrow> string \<Rightarrow> real option res" where
  "report_median rows k =
     bindR (mapR float_of_string (filter (\<lambda>s. s \<noteq> []) (concat (map (\<lambda>r. case map_of r k of None \<Rightarrow> [] | Some s \<Rightarrow> [s]) rows)))) (\<lambda>values.
       if values = [] then Inr None else bindR (py_median values) (\<lambda>m. Inr (Some m)))"

definition number :: "real option \<Rightarrow> nat \<Rightarrow> string" where
  "number x places = (case x of None \<Rightarrow> dash | Some v \<Rightarrow> fixed_commas places v)"

text \<open>\<open>round(x, n)\<close>, correctly rounded.\<close>

definition py_round :: "real \<Rightarrow> nat \<Rightarrow> real" where
  "py_round x n = fl (of_int (rne (x * 10 ^ n)) / 10 ^ n)"

definition percent :: "real option \<Rightarrow> string" where
  "percent x =
     (case x of None \<Rightarrow> dash
      | Some v \<Rightarrow>
          let percentage = fl (v * 100) in
          if 0 < v \<and> v < 1 \<and> py_round percentage 1 = 100
          then (if py_round percentage 3 < 100 then fixed 3 percentage @ ''%'' else ''<100%'')
          else fixed 1 percentage @ ''%'')"

section \<open>The versions of the comparators\<close>

definition requested_tag :: "string \<times> json \<Rightarrow> (string \<times> string) list res" where
  "requested_tag entry =
     (case entry of (role, identity) \<Rightarrow>
        bindR (get_default identity ''requested'' (JStr [])) (\<lambda>j. case j of
          JStr requested \<Rightarrow>
            Inr (case split_once '':'' requested of
                   None \<Rightarrow> []
                 | Some (a, tag) \<Rightarrow> if prefix ''sha256:'' requested then [] else [(role, tag)])
        | _ \<Rightarrow> Inl TypeError))"

definition measured_versions :: "json \<Rightarrow> (string \<times> string) list res" where
  "measured_versions campaign =
     bindR (subscript campaign ''images'') (\<lambda>images. bindR (dict_of images) (\<lambda>d.
     bindR (mapR requested_tag d) (\<lambda>tags. Inr (concat tags))))"

definition version_or :: "(string \<times> string) list \<Rightarrow> string \<Rightarrow> string \<Rightarrow> string" where
  "version_or versions role fallback = (case map_of versions role of None \<Rightarrow> fallback | Some v \<Rightarrow> v)"

section \<open>The headlines of the README\<close>

definition headline_specs :: "spec list" where
  "headline_specs = filter sp_headline release_GROUPS"

definition group_validation :: "release_files \<Rightarrow> string \<Rightarrow> spec \<Rightarrow> validation res" where
  "group_validation fs runs spec = validate_group spec (rf_runs fs (path_join runs (sp_name spec)))"

definition unqualified :: "release_files \<Rightarrow> string \<Rightarrow> spec list \<Rightarrow> string list res" where
  "unqualified fs runs specs =
     bindR (mapR (\<lambda>spec. bindR (group_validation fs runs spec) (\<lambda>v. Inr (if va_qualified v then [] else [sp_name spec]))) specs)
       (\<lambda>names. Inr (concat names))"

definition withheld :: "string list \<Rightarrow> string" where
  "withheld limited =
     ''Headline comparisons are withheld because these groups did not qualify: '' @ join '', '' (map (\<lambda>name. ''`'' @ name @ ''`'') limited)
     @ ''. See the [release report](bench/strong/RELEASE-1.8.0.md) for the retained results and limitations.''"

definition result_key :: "string \<Rightarrow> string \<Rightarrow> string" where
  "result_key cs engine = cs @ ''/'' @ engine"

definition incomplete_group :: "spec \<Rightarrow> string \<times> json \<Rightarrow> bool res" where
  "incomplete_group spec entry =
     bindR (subscript (snd entry) ''n'') (\<lambda>n.
       if \<not> eq_num n (of_nat (sp_reps spec)) then Inr True
       else bindR (subscript (snd entry) ''errors'') (\<lambda>errors. Inr (truthy errors)))"

definition summary_medians :: "release_files \<Rightarrow> string \<Rightarrow> spec \<Rightarrow> (string \<times> (string \<times> json) list) res" where
  "summary_medians fs results spec =
     (let bad = Inl (ValueError (''README summary is incomplete or failed: '' @ sp_name spec)) in
      bindR (rf_json fs (path_join (path_join results (sp_name spec)) ''summary.json'')) (\<lambda>summary.
      bindR (subscript summary ''failed_runs'') (\<lambda>failed.
      if truthy failed then bad
      else bindR (subscript summary ''groups'') (\<lambda>groups. bindR (dict_of groups) (\<lambda>d.
        if set (map fst d) \<noteq> set [result_key cs engine. cs \<leftarrow> sp_cases spec, engine \<leftarrow> sp_engines spec] then bad
        else bindR (anyR (incomplete_group spec) d) (\<lambda>incomplete.
          if incomplete then bad
          else bindR (mapR (\<lambda>engine.
              bindR (py_at (sp_cases spec) 0) (\<lambda>cs.
              bindR (item d (result_key cs engine)) (\<lambda>g. bindR (subscript g ''medians'') (\<lambda>m. Inr (engine, m))))) (sp_engines spec))
            (\<lambda>medians. Inr (sp_name spec, medians))))))))"

definition full_hit_row :: "string \<Rightarrow> csv_row \<Rightarrow> unit res" where
  "full_hit_row name row =
     bindR (float_cell row ''origins'') (\<lambda>origins.
     bindR (if origins \<noteq> 0 then Inr True else bindR (float_cell row ''hit_ratio'') (\<lambda>ratio. Inr (ratio \<noteq> 1))) (\<lambda>bad.
       if bad then bindR (cell row ''engine'') (\<lambda>engine.
         Inl (ValueError (''README full-hit statement is unsupported: '' @ name @ ''/'' @ engine)))
       else Inr ()))"

definition full_hit_group :: "release_files \<Rightarrow> string \<Rightarrow> string \<Rightarrow> unit res" where
  "full_hit_group fs results name =
     bindR (rf_csv fs (path_join (path_join results name) ''runs.csv'')) (\<lambda>rows.
     bindR (mapR (full_hit_row name) rows) (\<lambda>us. Inr ()))"

definition README_FULL_HIT :: "string list" where
  "README_FULL_HIT = [''primary'', ''ram192'', ''flash384'', ''http'']"

definition median_json :: "(string \<times> (string \<times> json) list) list \<Rightarrow> string \<Rightarrow> string \<Rightarrow> string \<Rightarrow> json res" where
  "median_json groups g engine k =
     bindR (table_item groups g) (\<lambda>engines. bindR (table_item engines engine) (\<lambda>m. subscript m k))"

definition json_figure :: "json \<Rightarrow> nat \<Rightarrow> string res" where
  "json_figure j places = (if j = JNull then Inr dash else bindR (num_of j) (\<lambda>x. Inr (number (Some x) places)))"

definition headline_value :: "(string \<times> (string \<times> json) list) list \<Rightarrow> string \<Rightarrow> string \<Rightarrow> string \<Rightarrow> nat \<Rightarrow> string res" where
  "headline_value groups g engine k places = bindR (median_json groups g engine k) (\<lambda>j. json_figure j places)"

text \<open>\<open>all(primary["grpc"]["objects_s"] < primary[e]["objects_s"] for e in ...)\<close>.\<close>

definition slower_than_all :: "(string \<times> (string \<times> json) list) list \<Rightarrow> bool res" where
  "slower_than_all groups =
     bindR (anyR (\<lambda>e.
       bindR (median_json groups ''primary'' ''grpc'' ''objects_s'') (\<lambda>a. bindR (median_json groups ''primary'' e ''objects_s'') (\<lambda>b.
       bindR (num_of a) (\<lambda>x. bindR (num_of b) (\<lambda>y. Inr (\<not> x < y)))))) [''redis'', ''valkey'', ''memcached''])
       (\<lambda>some. Inr (\<not> some))"

definition headline_row :: "(string \<times> (string \<times> json) list) list \<Rightarrow> string \<times> string \<Rightarrow> string res" where
  "headline_row groups entry =
     (case entry of (engine, lab) \<Rightarrow>
        bindR (headline_value groups ''primary'' engine ''objects_s'' 0) (\<lambda>rate.
        bindR (headline_value groups ''primary'' engine ''p99_ms'' 3) (\<lambda>p99.
          Inr (''| '' @ lab @ '' | '' @ rate @ '' | '' @ p99 @ '' ms |''))))"

definition headline_labels :: "(string \<times> string) list \<Rightarrow> (string \<times> string) list" where
  "headline_labels versions =
     [(''grpc'', ''CacheLib gRPC 1.8.0''), (''redis'', strip (''Redis '' @ version_or versions ''redis'' [])),
      (''valkey'', strip (''Valkey '' @ version_or versions ''valkey'' [])),
      (''memcached'', strip (''Memcached '' @ version_or versions ''memcached'' []))]"

definition headline_text ::
  "(string \<times> string) list \<Rightarrow> string \<Rightarrow> string \<Rightarrow> (string \<times> (string \<times> json) list) list \<Rightarrow> string res"
where
  "headline_text versions comparison rows groups =
     (let value = headline_value groups in
      bindR (value ''hybrid'' ''grpc_nvm'' ''origins'' 0) (\<lambda>v1. bindR (value ''hybrid'' ''grpc_nvm'' ''objects_s'' 0) (\<lambda>v2.
      bindR (value ''hybrid'' ''grpc'' ''objects_s'' 0) (\<lambda>v3. bindR (value ''hybrid'' ''memcached_extstore'' ''objects_s'' 0) (\<lambda>v4.
      bindR (value ''offered'' ''grpc_nvm'' ''origins'' 0) (\<lambda>v5. bindR (value ''offered'' ''grpc'' ''origins'' 0) (\<lambda>v6.
      bindR (value ''http'' ''grpc_adapter'' ''objects_s'' 0) (\<lambda>v7. bindR (value ''http'' ''grpc_adapter'' ''p99_ms'' 3) (\<lambda>v8.
      bindR (value ''http'' ''nginx'' ''objects_s'' 0) (\<lambda>v9. bindR (value ''http'' ''nginx'' ''p99_ms'' 3) (\<lambda>v10.
        Inr ((''Measured on native Linux arm64 under Docker Desktop on Apple Silicon, with'' @ newline
       @ ''8 Docker CPUs, against the comparator releases current when this campaign ran:'' @ newline @ ''Redis ''
       @ version_or versions ''redis'' dash @ '', Valkey '' @ version_or versions ''valkey'' dash @ '', Memcached'' @ newline
       @ version_or versions ''memcached'' dash @ '' and NGINX '' @ version_or versions ''nginx'' dash @ ''. A newer comparison''
       @ newline @ ''against the current releases of those and of Dragonfly, Garnet and Kvrocks is a'' @ newline
       @ ''separate campaign; these numbers are not restated for newer comparator versions.'' @ newline
       @ ''The results below are medians of five 60-second repetitions;'' @ newline
       @ ''all these headline runs had zero request errors. KV services each had four'' @ newline
       @ ''CPUs, 96 MiB configured cache RAM, and a 768 MiB container limit unless stated'' @ newline
       @ ''otherwise; the client used four separate CPUs.'' @ newline @ newline
       @ ''For 1 KiB cache hits over eight connections, the complete gRPC service was'' @ newline @ comparison @ newline
       @ newline @ ''| Service | Requests/s | p99 |'' @ newline @ ''|---|---:|---:|'' @ newline @ rows @ newline @ newline
       @ ''- **Data larger than RAM:** with a 128 MiB reusable set of 64 KiB objects and'' @ newline
       @ ''  a simulated 5 ms origin, adding a 512 MiB Navy file gave a median of'' @ newline @ ''  '' @ v1
       @ '' origin calls. CacheLib reached '' @ v2 @ '' objects/s with Navy versus'' @ newline @ ''  '' @ v3
       @ '' with RAM alone; Memcached extstore reached'' @ newline @ ''  '' @ v4
       @ '' under the same configured cache/file budgets.'' @ newline
       @ ''  At a fixed 1,500 arrivals/s, Navy needed a median of '' @ v5 @ '' origin calls versus'' @ newline @ ''  '' @ v6
       @ '' for RAM-only CacheLib over 60 seconds. Configured cache RAM'' @ newline
       @ ''  is not total process memory: the report includes measured cgroup peaks.'' @ newline
       @ ''- **More RAM also works:** CacheLib gRPC, Redis, and Memcached avoided origin'' @ newline
       @ ''  misses with 192 MiB configured cache RAM and a 384 MiB container limit. Separate'' @ newline
       @ ''  384 MiB-limit Navy/extstore runs also met the full-hit objective. These'' @ newline
       @ ''  separately scheduled groups do not establish a hardware-cost advantage.'' @ newline
       @ ''- **HTTP objects:** for repeated 256 KiB objects, the gRPC service plus Python'' @ newline
       @ ''  HTTP adapter delivered '' @ v7 @ '' objects/s (p99'' @ newline @ ''  '' @ v8 @ '' ms), versus NGINX's '' @ v9
       @ '' (p99'' @ newline @ ''  '' @ v10 @ '' ms). Each complete cache path had two CPUs and 768 MiB;'' @ newline
       @ ''  both avoided origin requests. This includes adapter overhead and measures'' @ newline
       @ ''  object delivery, not playback quality.'' @ newline @ newline
       @ ''These are shared laptop-VM results, not native amd64 or dedicated Linux'' @ newline
       @ ''performance claims. Navy device reads prove logical file-tier use; Docker's'' @ newline
       @ ''VM and host page caches prevent a physical SSD latency or endurance claim.'' @ newline
       @ ''Origin delay is simulated, and none of these comparisons enables persistence,'' @ newline
       @ ''replication, compression, authentication, or TLS.'')))))))))))))"

definition readme_headlines :: "release_files \<Rightarrow> string \<Rightarrow> string \<Rightarrow> string res" where
  "readme_headlines fs runs results =
     bindR (unqualified fs runs headline_specs) (\<lambda>limited.
     if limited \<noteq> [] then Inr (withheld limited)
     else bindR (mapR (summary_medians fs results) headline_specs) (\<lambda>groups.
       bindR (mapR (full_hit_group fs results) README_FULL_HIT) (\<lambda>us.
       bindR (median_json groups ''hybrid'' ''grpc_nvm'' ''nvm_device_bytes_read_delta'') (\<lambda>j. bindR (num_of j) (\<lambda>reads.
       if reads \<le> 0 then Inl (ValueError ''README Navy file-read statement requires measured device reads'')
       else bindR (slower_than_all groups) (\<lambda>slower.
         let comparison = (if slower then ''slower than the three comparison services:'' else ''measured alongside three comparison services:'') in
         bindR (rf_json fs (path_join results ''campaign.json'')) (\<lambda>campaign. bindR (measured_versions campaign) (\<lambda>versions.
         bindR (mapR (headline_row groups) (headline_labels versions)) (\<lambda>rows.
           headline_text versions comparison (join newline rows) groups)))))))))"

definition replace_readme_headlines :: "string \<Rightarrow> string \<Rightarrow> string res" where
  "replace_readme_headlines =
     replace_block README_BEGIN README_END ''README must contain exactly one generated release-headlines block'' ''README release-headlines markers are out of order''"

section \<open>The campaign the report is about\<close>

text \<open>\<open>==\<close> of JSON values; dictionaries do not depend on the order of their keys.\<close>

fun json_eq :: "json \<Rightarrow> json \<Rightarrow> bool" where
  "json_eq (JArr xs) (JArr ys) \<longleftrightarrow> list_all2 json_eq xs ys"
| "json_eq (JObj d) (JObj e) \<longleftrightarrow> set (map fst d) = set (map fst e)
     \<and> list_all (\<lambda>(k, v). case map_of e k of None \<Rightarrow> False | Some w \<Rightarrow> json_eq v w) d"
| "json_eq JNull JNull \<longleftrightarrow> True"
| "json_eq (JStr s) (JStr t) \<longleftrightarrow> s = t"
| "json_eq a b \<longleftrightarrow> (case (as_num a, as_num b) of (Some x, Some y) \<Rightarrow> x = y | _ \<Rightarrow> False)"

definition spec_json :: "spec \<Rightarrow> json" where
  "spec_json spec = JObj
     ([(''name'', JStr (sp_name spec)), (''cases'', JArr (map JStr (sp_cases spec))), (''engines'', JArr (map JStr (sp_engines spec))),
       (''reps'', JNum (of_nat (sp_reps spec))), (''seconds'', JNum (of_nat (sp_seconds spec))),
       (''warmup'', JNum (of_nat (sp_warmup spec))), (''kind'', JStr (sp_kind spec)),
       (''cache_mb'', JNum (of_nat (sp_cache_mb spec))), (''memory_mb'', JNum (of_nat (sp_memory_mb spec))),
       (''headline'', JBool (sp_headline spec))]
      @ (case sp_flash_mb spec of None \<Rightarrow> [] | Some n \<Rightarrow> [(''flash_mb'', JNum (of_nat n))])
      @ (case sp_discard_flash spec of None \<Rightarrow> [] | Some b \<Rightarrow> [(''discard_flash'', JBool b)])
      @ (case sp_overload_probe spec of None \<Rightarrow> [] | Some b \<Rightarrow> [(''overload_probe'', JBool b)]))"

definition release_incomplete :: exn where
  "release_incomplete = ValueError ''Campaign incomplete; every planned group must finish before rendering release claims''"

definition finished_progress :: "spec list \<Rightarrow> exn \<Rightarrow> json \<Rightarrow> dict res" where
  "finished_progress planned campaign_incomplete campaign =
     bindR (subscript campaign ''groups'') (\<lambda>groups.
       if \<not> json_eq groups (JArr (map spec_json planned)) then Inl campaign_incomplete
       else bindR (subscript campaign ''progress'') (\<lambda>progress. bindR (dict_of progress) (\<lambda>d.
         if set (map fst d) \<noteq> set (map sp_name planned) then Inl campaign_incomplete
         else bindR (get_default campaign ''finished_utc'' JNull) (\<lambda>finished.
           if \<not> truthy finished then Inl campaign_incomplete else Inr d))))"

definition check_digest :: "release_files \<Rightarrow> string \<times> json \<Rightarrow> unit res" where
  "check_digest fs entry =
     bindR (rf_sha256 fs (path_join (rf_root fs) (fst entry))) (\<lambda>digest.
       if JStr digest \<noteq> snd entry then Inl (ValueError (''Campaign evidence changed: '' @ fst entry)) else Inr ())"

definition check_evidence :: "release_files \<Rightarrow> dict \<Rightarrow> unit res" where
  "check_evidence fs progress =
     bindR (mapR (\<lambda>(name, status).
       bindR (subscript status ''evidence_sha256'') (\<lambda>h. bindR (dict_of h) (\<lambda>d. mapR (check_digest fs) d))) progress) (\<lambda>us. Inr ())"

definition failed_groups :: "dict \<Rightarrow> string list res" where
  "failed_groups progress =
     bindR (mapR (\<lambda>(name, status). bindR (subscript status ''valid'') (\<lambda>v. Inr (if truthy v then [] else [name]))) progress)
       (\<lambda>names. Inr (concat names))"

section \<open>The report\<close>

definition first10 :: "json \<Rightarrow> string \<Rightarrow> string res" where
  "first10 campaign k = bindR (subscript campaign k) (\<lambda>j. case j of JStr s \<Rightarrow> Inr (take 10 s) | _ \<Rightarrow> Inl TypeError)"

definition str_item_of :: "('a) pyrepr_scheme \<Rightarrow> json \<Rightarrow> string \<Rightarrow> string res" where
  "str_item_of P j k = bindR (subscript j k) (\<lambda>v. Inr (case v of JStr s \<Rightarrow> s | _ \<Rightarrow> str_json P v))"

definition verdict_line :: "string list \<Rightarrow> bool \<Rightarrow> string list \<Rightarrow> string" where
  "verdict_line failed problems limited =
     ((''The campaign attempted **'' @ str_nat (sum_list (map (\<lambda>g. length (expected_runs g)) release_GROUPS))
       @ '' independent runs across '' @ str_nat (length release_GROUPS) @ '' groups**. '')) @
     (if failed = [] \<and> \<not> problems
      then (''All groups passed their correctness and completeness requirements. '' @ str_nat (length limited)
       @ '' groups have disclosed limits on headline claims.'')
      else (''**Qualification incomplete:** '' @ str_nat (length failed)
       @ '' groups failed; affected measurements are retained below and do not support release claims.''))"

definition image_line :: "('a) pyrepr_scheme \<Rightarrow> string \<times> json \<Rightarrow> string res" where
  "image_line P entry =
     (case entry of (role, identity) \<Rightarrow>
        bindR (str_item_of P identity ''id'') (\<lambda>image_id. bindR (str_item_of P identity ''architecture'') (\<lambda>architecture.
          Inr ((''| '' @ role @ '' | `'' @ image_id @ ''` | '' @ architecture @ '' |'')))))"

definition method_lines :: "string list" where
  "method_lines =
    [[],
     (''These IDs identify local measured artifacts. Release provenance records the published registry digests and exe''
       @ ''cutable checksums; an image-ID or executable equality check is required before equating another artifact with ''
       @ ''these results.''),
     [],
     ''## Method and interpretation'',
     [],
     (''Headline groups retain five 60-second repetitions per mode after at least 15 seconds of warmup. The KV client ''
       @ ''checks the last three five-second warmup windows for a maximum 10% deviation from their mean, extending warmup''
       @ '' up to 60 seconds. The HTTP client performs 15 seconds of warmup and full-body checks; it does not implement t''
       @ ''he KV stability-window test. Engine order is deterministically shuffled within repetitions. Exploratory groups''
       @ '' retain the prior qualification's one/two-repetition durations and establish no precise population ranking.''),
     [],
     (''KV services receive CPUs 0'' @ [CHR 0xE2, CHR 0x80, CHR 0x93]
       @ ''3 and a 768 MiB memory ceiling, except the 384 MiB objective groups; clients receive CPUs 4''
       @ [CHR 0xE2, CHR 0x80, CHR 0x93]
       @ ''7 and 1,024 MiB. Configured cache capacity is 96 MiB unless labeled 192 MiB. Navy and extstore add a 512 MiB t''
       @ ''ask-owned file. HTTP cache paths receive two CPUs and 768 MiB total: the gRPC path divides that budget equally''
       @ '' between its cache and Python adapter. The HTTP client receives four CPUs/1,024 MiB, and a common simulated or''
       @ ''igin receives two separate CPUs/512 MiB. Container swap is disabled; no host ports are published.''),
     [],
     (''Every response is byte-verified. The KV timed payload is shared across keys, so timed checks alone do not dete''
       @ ''ct a wrong-key response; separate correctness probes check key-specific behavior. HTTP response checks include''
       @ '' key identity. Closed-loop latency omits requests that could have arrived while a worker was blocked. Offered-''
       @ ''load latency includes scheduled-arrival queueing, and dropped arrivals remain visible. One operation is one ob''
       @ ''ject; batch latency is per 16-object batch/window. Medians below summarize separate runs, including their per-''
       @ ''run p99s; latency samples are never pooled. Closed-loop absolute origin counts reflect different completed req''
       @ ''uest counts; use hit ratios or the equal-demand offered-load group for origin comparisons. RAM192 and flash384''
       @ '' objective modes ran as separate series with shuffled engine order inside each; cross-series rates are descrip''
       @ ''tive.''),
     [],
     (''A KV origin miss simulates a fixed 1, 5 or 20 ms wait before filling the cache; HTTP uses a separate local ori''
       @ ''gin with a 5 ms sleep. These are different origin models. All current HTTP runs use connection reuse and NGINX''
       @ '' upstream keepalive. File tiers traverse Docker Desktop and host page caches: these results do not measure phy''
       @ ''sical SSD latency, NAND writes, endurance, or financial savings. A larger configured cache is not the same as ''
       @ ''a larger measured process footprint. HTTP path memory is the sum of component cgroup peaks, an upper bound on ''
       @ ''a simultaneous combined peak.'')]"

definition head_lines ::
  "('a) pyrepr_scheme \<Rightarrow> release_files \<Rightarrow> string \<Rightarrow> json \<Rightarrow> string list \<Rightarrow> bool \<Rightarrow> string list \<Rightarrow> string list res"
where
  "head_lines P fs results campaign failed problems limited =
     bindR (first10 campaign ''started_utc'') (\<lambda>started. bindR (first10 campaign ''finished_utc'') (\<lambda>finished.
     bindR (relative (rf_root fs) (path_join results ''campaign.json'')) (\<lambda>campaign_path.
     bindR (str_item_of P campaign ''git_commit'') (\<lambda>git_commit. bindR (str_item_of P campaign ''host'') (\<lambda>host.
     bindR (subscript campaign ''docker'') (\<lambda>docker.
     bindR (str_item_of P docker ''ServerVersion'') (\<lambda>server_version. bindR (str_item_of P docker ''KernelVersion'') (\<lambda>kernel_version.
     bindR (str_item_of P docker ''NCPU'') (\<lambda>ncpu.
     bindR (subscript docker ''MemTotal'') (\<lambda>mem. bindR (num_of mem) (\<lambda>mem_total.
     bindR (subscript campaign ''images'') (\<lambda>images. bindR (dict_of images) (\<lambda>d.
     bindR (mapR (image_line P) d) (\<lambda>image_lines.
       Inr ([''# 1.8.0 local Docker release benchmarks'', [],
             (''Measured '' @ started @ '' to '' @ finished @ '' using native arm64 containers in Docker Desktop''
       @ [CHR 0xE2, CHR 0x80, CHR 0x99] @ ''s Linux VM on macOS.''),
             verdict_line failed problems limited,
             [], (''This report is generated from the committed campaign, per-run JSON, and CSV data by [render_release_report.py]''
       @ ''(render_release_report.py). The [September 23 candidate report](REPORT.md) and [historical 1.6.0 page](../../B''
       @ ''ENCHMARKS.md) retain earlier measurements; their numbers are not pooled here.''),
             [], ''## Artifact and environment'', [],
             (''- Campaign: ['' @ campaign_path @ '']('' @ campaign_path @ '').''),
             (''- Source base commit: `'' @ git_commit @ ''`. Each group manifest records dirty-tree status and runtime-source SHA-256.''),
             (''- Host: `'' @ host @ ''`.''),
             (''- Docker: `'' @ server_version @ ''`, kernel `'' @ kernel_version @ ''`, '' @ ncpu @ '' CPUs, ''
       @ fixed 1 (fl (mem_total / 1073741824)) @ '' GiB VM memory.''),
             (''- The runtime and clients were built locally before timing. Comparator images came from their registries. All ''
       @ ''tags were resolved once to immutable IDs; no image build ran during measurement.''), [],
             ''| Role | Measured immutable image ID | Architecture |'', ''|---|---|---|'']
            @ image_lines @ method_lines)))))))))))))))"

definition drop_cell :: "csv_row \<Rightarrow> int res" where
  "drop_cell r = (case map_of r ''dropped_arrivals'' of None \<Rightarrow> Inr 0 | Some s \<Rightarrow> int_of_string s)"

definition mode_rows :: "csv_row list \<Rightarrow> string \<Rightarrow> string \<Rightarrow> csv_row list res" where
  "mode_rows rows cs engine =
     filterR (\<lambda>r. bindR (cell r ''case'') (\<lambda>c. if c \<noteq> cs then Inr False
       else bindR (cell r ''engine'') (\<lambda>e. Inr (e = engine)))) rows"

definition mode_line :: "(string \<times> string) list \<Rightarrow> csv_row list \<Rightarrow> string \<Rightarrow> string \<Rightarrow> string res" where
  "mode_line labels rows cs engine =
     bindR (mode_rows rows cs engine) (\<lambda>selected.
     bindR (report_median selected ''hit_ratio'') (\<lambda>hit. bindR (report_median selected ''server_memory_peak_bytes'') (\<lambda>memory.
     bindR (table_item labels engine) (\<lambda>label.
     bindR (report_median selected ''objects_s'') (\<lambda>rate. bindR (report_median selected ''p99_ms'') (\<lambda>p99.
     bindR (report_median selected ''origins'') (\<lambda>origins.
     bindR (if engine = ''origin_direct'' then Inr dash
            else bindR (report_median selected ''server_cpu_us_per_object'') (\<lambda>cpu. Inr (number cpu 1))) (\<lambda>cpu.
     bindR (mapR (\<lambda>r. int_cell r ''errors'') selected) (\<lambda>errors. bindR (mapR drop_cell selected) (\<lambda>drops.
       Inr (piped [''`'' @ cs @ ''` / '' @ label, str_nat (length selected), number rate 0, number p99 3, percent hit, number origins 0, cpu,
         (if engine = ''origin_direct'' then dash else number (map_option (\<lambda>m. fl (m / 1048576)) memory) 1),
         int_commas (sum_list errors) @ '' / '' @ int_commas (sum_list drops)])))))))))))"

definition remark_lines :: "report_text \<Rightarrow> spec \<Rightarrow> validation \<Rightarrow> string list" where
  "remark_lines P spec v =
     (let notes = va_problems v @ va_limitations v @ va_observations v in
      if notes \<noteq> [] then
        [[], ''Recorded qualification problems/observations:'', []]
        @ map (\<lambda>note. ''- `'' @ filter (\<lambda>c. c \<noteq> CHR ''`'') (note_text P note) @ ''`'') notes
      else [[], ''All expected runs passed correctness and duration checks'' @
        (if sp_kind spec = ''kv'' \<and> sp_headline spec then '' and the KV warmup stability requirement.'' else ''.'')])"

definition group_caveats :: "string \<Rightarrow> string list" where
  "group_caveats name =
     (if name = ''offered-saturation'' then [[], (''Dropped arrivals represent overload outcomes and are retained; request errors remain qualification failures. R''
       @ ''ates in this exploratory sweep do not establish a precise saturation threshold.'')] else [])
     @ (if name = ''origin-patterns'' then [[], (''The cold-start case intentionally has zero warmup and reports `warmup_stable=false`. Its startup results are n''
       @ ''ot steady-state rates. A changing hot set or one-pass trace tests reuse, not playback.'')] else [])
     @ (if name = ''http-onepass'' then [[], (''Direct origin has no allocated cache path and is a reference, not an equal-resource cache comparison. Cache-pa''
       @ ''th CPU/memory are not applicable; measured origin CPU/memory remain in the CSV. NGINX's asynchronous cleanup c''
       @ ''an temporarily exceed its configured 512 MiB file limit; allocated bytes are retained in the CSV.'')] else [])"

definition cross_sign :: string where
  "cross_sign = [CHR 0xC3, CHR 0x97]"

definition section_top ::
  "(string \<times> string) list \<Rightarrow> release_files \<Rightarrow> string \<Rightarrow> string \<Rightarrow> spec \<Rightarrow> csv_row list \<Rightarrow> string list res"
where
  "section_top titles fs runs results spec rows =
     (let name = sp_name spec; place = path_join results name in
      bindR (table_item titles name) (\<lambda>title.
      bindR (relative (rf_root fs) (path_join place ''runs.csv'')) (\<lambda>csv_path.
      bindR (relative (rf_root fs) (path_join place ''summary.json'')) (\<lambda>summary_path.
      bindR (relative (rf_root fs) (path_join (path_join runs name) ''manifest.json'')) (\<lambda>manifest_path.
        Inr [[], ''## '' @ title, [],
             str_nat (sp_reps spec) @ '' '' @ (if sp_reps spec = 1 then ''repetition'' else ''repetitions'') @ '' '' @ cross_sign @ '' ''
               @ str_nat (sp_seconds spec) @ '' seconds per mode/case. [''
               @ str_nat (length rows) @ ''/'' @ str_nat (length (expected_runs spec)) @ '' result rows]('' @ csv_path @ ''); [summary](''
               @ summary_path @ ''); [raw manifest]('' @ manifest_path @ '').'',
             [], (''| Case / mode | n | Median objects/s | Median p99 ms | Hit ratio | Median origin requests | CPU '' @ [CHR 0xCE, CHR 0xBC]
       @ ''s/object | Peak MiB | Errors / drops |''),
             ''|---|---:|---:|---:|---:|---:|---:|---:|---:|''])))))"

definition section_lines :: "report_text \<Rightarrow> release_files \<Rightarrow> string \<Rightarrow> string \<Rightarrow> spec \<times> validation \<Rightarrow> ((string \<times> csv_row list) \<times> string list) res" where
  "section_lines P fs runs results entry =
     (case entry of (spec, v) \<Rightarrow>
        let name = sp_name spec in
        bindR (rf_csv fs (path_join (path_join results name) ''runs.csv'')) (\<lambda>rows.
        bindR (section_top release_TITLES fs runs results spec rows) (\<lambda>top.
        bindR (mapR (\<lambda>(cs, engine). mode_line release_LABELS rows cs engine) [(cs, engine). cs \<leftarrow> sp_cases spec, engine \<leftarrow> sp_engines spec]) (\<lambda>modes.
          Inr ((name, rows), top @ modes @ remark_lines P spec v @ group_caveats name)))))"

section \<open>Comparisons\<close>

definition py_div :: "real \<Rightarrow> real \<Rightarrow> real res" where
  "py_div a b = (if b = 0 then Inl ZeroDivisionError else Inr (fl (a / b)))"

definition mode_median :: "(string \<times> csv_row list) list \<Rightarrow> string \<Rightarrow> string \<Rightarrow> real res" where
  "mode_median all_rows name engine =
     bindR (table_item all_rows name) (\<lambda>rows. bindR (rows_with ''engine'' engine rows) (\<lambda>rs.
     bindR (report_median rs ''objects_s'') (\<lambda>m. case m of None \<Rightarrow> Inl TypeError | Some x \<Rightarrow> Inr x)))"

definition difference :: "real \<Rightarrow> real \<Rightarrow> string res" where
  "difference a b =
     bindR (py_div a b) (\<lambda>q.
       Inr (fixed 1 (fl (\<bar>fl (q - 1)\<bar> * 100)) @ ''% '' @ (if b < a then ''higher'' else ''lower'')))"

definition primary_comparison :: "(string \<times> csv_row list) list \<Rightarrow> string res" where
  "primary_comparison all_rows =
     bindR (mode_median all_rows ''primary'' ''grpc'') (\<lambda>grpc. bindR (mode_median all_rows ''primary'' ''redis'') (\<lambda>redis.
     bindR (difference grpc redis) (\<lambda>diff.
       Inr ((''For the all-RAM 1 KiB/eight-connection case, gRPC served '' @ fixed_commas 0 grpc @ '' versus Redis's '' @ fixed_commas 0 redis
       @ '' median objects/s ('' @ diff @ '').'')))))"

definition hybrid_comparison :: "(string \<times> csv_row list) list \<Rightarrow> string res" where
  "hybrid_comparison all_rows =
     bindR (mode_median all_rows ''hybrid'' ''grpc_nvm'') (\<lambda>navy. bindR (mode_median all_rows ''hybrid'' ''grpc'') (\<lambda>dram.
     bindR (py_div navy dram) (\<lambda>ratio.
       Inr ((''For the 128 MiB reusable set under 96 MiB configured DRAM with a 5 ms simulated origin, Navy served '' @ fixed_commas 0 navy
       @ '' versus DRAM-only gRPC's '' @ fixed_commas 0 dram @ '' objects/s ('' @ fixed 2 ratio @ [CHR 0xC3, CHR 0x97]
       @ ''). That comparison adds file capacity and changes actual memory usage; use the separate 384 MiB objective grou''
       @ ''ps when comparing a full-hit service objective.'')))))"

definition http_comparison :: "(string \<times> csv_row list) list \<Rightarrow> string res" where
  "http_comparison all_rows =
     bindR (mode_median all_rows ''http'' ''grpc_adapter'') (\<lambda>hgrpc. bindR (mode_median all_rows ''http'' ''nginx'') (\<lambda>nginx.
     bindR (difference hgrpc nginx) (\<lambda>diff.
       Inr ((''For repeated 256 KiB HTTP objects, the complete gRPC/Python path served '' @ fixed_commas 0 hgrpc @ '' versus NGINX's ''
       @ fixed_commas 0 nginx @ '' median objects/s ('' @ diff
       @ ''). This includes adapter, copying and protocol costs. It is not an isolated CacheLib engine result.'')))))"

text \<open>A comparison is made only for a group whose validation is qualified.\<close>

definition compare_if :: "(string \<times> validation) list \<Rightarrow> string \<Rightarrow> string res \<Rightarrow> string list res" where
  "compare_if validations name text = bindR (table_item validations name) (\<lambda>v. if va_qualified v then bindR text (\<lambda>t. Inr [t, []]) else Inr [])"

definition comparison_lines :: "(string \<times> validation) list \<Rightarrow> (string \<times> csv_row list) list \<Rightarrow> string list res" where
  "comparison_lines validations all_rows =
     bindR (compare_if validations ''primary'' (primary_comparison all_rows)) (\<lambda>a.
     bindR (compare_if validations ''hybrid'' (hybrid_comparison all_rows)) (\<lambda>b.
     bindR (compare_if validations ''http'' (http_comparison all_rows)) (\<lambda>c. Inr (a @ b @ c))))"

definition limits_lines :: "bool \<Rightarrow> string list \<Rightarrow> string list" where
  "limits_lines restricted comparisons =
     (if restricted then [(''The affected groups' recorded limits prevent their corresponding headline claims. Qualified groups are interpr''
       @ ''eted independently; an exploratory overload outcome does not invalidate another group's measurements.''), []] else [])
     @ (if comparisons = [] then [''No primary throughput comparison qualified; inspect the retained per-run evidence.'', []] else [])"

definition scope_lines :: "string list" where
  "scope_lines =
    [[],
     ''## Scope and reproduction'',
     [],
     (''The service caches whole binary objects over gRPC. It supplies no HTTP/range delivery, authentication, TLS, re''
       @ ''plication, sharding, warm restart, recording, playback buffering or media transport. Navy files are truncated ''
       @ ''on startup. Simulated origin avoidance demonstrates reuse under the disclosed trace; it does not establish pro''
       @ ''duction cost, viewer latency, frame continuity or streaming quality.''),
     [],
     (''Run the complete campaign with [the documented local Docker commands](README.md#fresh-release-campaign). All a''
       @ ''ttempts and shuffled schedules remain in the raw manifests. The generated CSVs include per-run rates, latency ''
       @ ''percentiles, resource observations, tier counters and backing-file allocations. The report check verifies camp''
       @ ''aign completeness, raw-run qualification and CSV-derived tables; it never modifies the historical reports.''),
     []]"

definition render_release :: "report_text \<Rightarrow> release_files \<Rightarrow> string \<Rightarrow> string \<Rightarrow> string res" where
  "render_release P fs runs results =
     bindR (rf_json fs (path_join results ''campaign.json'')) (\<lambda>campaign.
     bindR (finished_progress release_GROUPS release_incomplete campaign) (\<lambda>progress.
     bindR (check_evidence fs progress) (\<lambda>u.
     bindR (mapR (group_validation fs runs) release_GROUPS) (\<lambda>vs.
     bindR (failed_groups progress) (\<lambda>failed.
       let validations = zip (map sp_name release_GROUPS) vs;
           problems = list_ex (\<lambda>v. va_problems v \<noteq> []) vs;
           limited = map fst (filter (\<lambda>(n, v). va_limitations v \<noteq> []) validations) in
       bindR (head_lines P fs results campaign failed problems limited) (\<lambda>head.
       bindR (mapR (section_lines P fs runs results) (zip release_GROUPS vs)) (\<lambda>sections.
       bindR (comparison_lines validations (map fst sections)) (\<lambda>comparisons.
         Inr (join newline (head @ concat (map snd sections) @ [[], ''## Observed comparisons'', []] @ comparisons
           @ limits_lines (limited \<noteq> [] \<or> failed \<noteq> [] \<or> problems) comparisons @ scope_lines))))))))))"

text \<open>\<open>main\<close>: the result, and the contents of the report and of the README afterwards.\<close>

definition write_or_check ::
  "string \<Rightarrow> string \<Rightarrow> string \<Rightarrow> bool \<Rightarrow> string option \<Rightarrow> string \<Rightarrow> (string \<times> string) res \<Rightarrow> unit res \<times> string option \<times> string"
where
  "write_or_check report_name stale_report stale_readme check report readme outcome =
     (case outcome of
        Inl e \<Rightarrow> (Inl e, report, readme)
      | Inr (rendered, page) \<Rightarrow>
          if check then
            (if report = None then Inl (FileNotFoundError report_name)
             else if report \<noteq> Some rendered then Inl (SystemExit stale_report)
             else if readme \<noteq> page then Inl (SystemExit stale_readme)
             else Inr (), report, readme)
          else (Inr (), Some rendered, page))"

definition release_main :: "report_text \<Rightarrow> release_files \<Rightarrow> string \<Rightarrow> string \<Rightarrow> bool \<Rightarrow> string option \<Rightarrow> string \<Rightarrow> unit res \<times> string option \<times> string" where
  "release_main P fs runs results check report readme =
     write_or_check ''RELEASE-1.8.0.md'' ''Release report differs from campaign/raw results; rerun renderer without --check'' ''README headlines differ from qualified campaign results; rerun renderer without --check'' check report readme
       (bindR (render_release P fs runs results) (\<lambda>rendered. bindR (readme_headlines fs runs results) (\<lambda>headlines.
        bindR (replace_readme_headlines readme headlines) (\<lambda>page. Inr (rendered, page)))))"

section \<open>A share below one is never printed as a full one\<close>

lemma str_nat_below_100: "n < 100 \<Longrightarrow> str_nat n = (if n < 10 then [digit n] else [digit (n div 10), digit (n mod 10)])"
proof -
  assume "n < 100"
  then have "n div 10 < 10" by (simp add: less_mult_imp_div_less)
  then show ?thesis by (simp add: str_nat.simps [of n] str_nat.simps [of "n div 10"])
qed

lemma below_100_text: "n < 100 \<Longrightarrow> \<not> prefix ''100'' (str_nat n @ CHR ''.'' # t)"
  by (auto simp: str_nat_below_100)

lemma fixed_below_100:
  assumes "0 \<le> x" and "rne (x * 10 ^ p) < 100 * 10 ^ p" and "0 < p"
  shows "\<not> prefix ''100'' (fixed p x @ t)"
proof -
  have "0 \<le> rne (x * 10 ^ p)" using assms(1) by (intro rne_ge) simp
  then have "units p x < 100 * 10 ^ p" using assms(2) by (simp add: units_def nat_less_iff)
  then have "units p x div 10 ^ p < 100" by (simp add: less_mult_imp_div_less)
  with assms(1,3) show ?thesis by (simp add: fixed_def sign_def point_def below_100_text)
qed

lemma rne_at_most:
  assumes "x \<le> 100" shows "rne (x * 10 ^ p) \<le> 100 * 10 ^ p"
proof -
  have "x * 10 ^ p \<le> of_int (100 * 10 ^ p)" using assms by simp
  then show ?thesis by (rule rne_le)
qed

lemma rne_below:
  assumes "x \<le> 100" and "py_round x p \<noteq> 100" shows "rne (x * 10 ^ p) < 100 * 10 ^ p"
proof (rule ccontr)
  assume "\<not> rne (x * 10 ^ p) < 100 * 10 ^ p"
  then have "rne (x * 10 ^ p) = 100 * 10 ^ p" using rne_at_most [OF assms(1), of p] by simp
  then have "py_round x p = fl 100" by (simp add: py_round_def)
  with assms(2) show False by simp
qed

text \<open>
  A hit ratio below one is never reported as a full hit: whatever the rounding, what \<open>percent\<close> prints for a share
  strictly between zero and one does not begin with 100, while a ratio of one is printed as 100.0%.
\<close>

theorem percent_below_full:
  assumes "0 < v" and "v < 1"
  shows "\<not> prefix ''100'' (percent (Some v)) \<and> percent (Some 1) = ''100.0%''"
proof -
  let ?p = "fl (v * 100)"
  have p: "0 \<le> ?p" "?p \<le> 100" using assms fl_nonneg [of "v * 100"] fl_mono [of "v * 100" 100] by simp_all
  have "\<not> prefix ''100'' (percent (Some v))"
  proof (cases "py_round ?p 1 = 100")
    case True
    show ?thesis
    proof (cases "py_round ?p 3 < 100")
      case True
      then have "rne (?p * 10 ^ 3) < 100 * 10 ^ 3" by (intro rne_below [OF p(2)]) simp
      then have "\<not> prefix ''100'' (fixed 3 ?p @ ''%'')" by (intro fixed_below_100 [OF p(1)]) simp_all
      with True \<open>py_round ?p 1 = 100\<close> assms show ?thesis by (simp add: percent_def)
    next
      case False
      with True assms show ?thesis by (simp add: percent_def)
    qed
  next
    case False
    then have "rne (?p * 10 ^ 1) < 100 * 10 ^ 1" by (rule rne_below [OF p(2)])
    then have "\<not> prefix ''100'' (fixed 1 ?p @ ''%'')" by (intro fixed_below_100 [OF p(1)]) simp_all
    with False assms show ?thesis by (simp add: percent_def)
  qed
  moreover have "percent (Some 1) = ''100.0%''"
    by (simp add: percent_def fixed_def units_def point_def sign_def str_nat.simps digit_def)
  ultimately show ?thesis by simp
qed

theorem percent_below_full_witness: "\<not> prefix ''100'' (percent (Some (1 / 2)))"
  using percent_below_full [of "1 / 2"] by simp

section \<open>Headlines only from qualified groups\<close>

definition qualified_group :: "release_files \<Rightarrow> string \<Rightarrow> spec \<Rightarrow> bool" where
  "qualified_group fs runs spec \<longleftrightarrow> (\<exists>v. group_validation fs runs spec = Inr v \<and> va_qualified v)"

text \<open>
  A complete summary: no failed run, a group for every case and engine of the plan and no other, and every group with all
  repetitions and without errors.
\<close>

definition complete_summary :: "release_files \<Rightarrow> string \<Rightarrow> spec \<Rightarrow> bool" where
  "complete_summary fs results spec \<longleftrightarrow>
     (\<exists>d g. rf_json fs (path_join (path_join results (sp_name spec)) ''summary.json'') = Inr (JObj d) \<and> \<not> truthy (value_of d ''failed_runs'')
       \<and> value_of d ''groups'' = JObj g
       \<and> fst ` set g = {result_key cs engine | cs engine. cs \<in> set (sp_cases spec) \<and> engine \<in> set (sp_engines spec)}
       \<and> (\<forall>(k, j) \<in> set g. \<exists>e. j = JObj e \<and> eq_num (value_of e ''n'') (of_nat (sp_reps spec)) \<and> \<not> truthy (value_of e ''errors'')))"

definition full_hits :: "release_files \<Rightarrow> string \<Rightarrow> string \<Rightarrow> bool" where
  "full_hits fs results name \<longleftrightarrow> (\<exists>rows. rf_csv fs (path_join (path_join results name) ''runs.csv'') = Inr rows
     \<and> (\<forall>r \<in> set rows. float_cell r ''origins'' = Inr 0 \<and> float_cell r ''hit_ratio'' = Inr 1))"

lemma unqualified_Inr:
  "unqualified fs runs specs = Inr names \<Longrightarrow>
    names = map sp_name (filter (\<lambda>spec. \<not> qualified_group fs runs spec) specs)"
proof (induction specs arbitrary: names)
  case (Cons spec specs)
  then obtain v rest where v: "group_validation fs runs spec = Inr v" "unqualified fs runs specs = Inr rest"
      "names = (if va_qualified v then [] else [sp_name spec]) @ rest"
    by (auto simp: unqualified_def)
  with Cons.IH [OF v(2)] show ?case by (simp add: qualified_group_def)
qed (simp add: unqualified_def)

lemma subscript_Inr: "subscript j k = Inr v \<Longrightarrow> \<exists>d. j = JObj d \<and> value_of d k = v"
  by (auto simp: subscript_def item_Inr value_of_def get_or_def split: json.splits)

lemma complete_group:
  "incomplete_group spec (k, j) = Inr False \<Longrightarrow>
    \<exists>e. j = JObj e \<and> eq_num (value_of e ''n'') (of_nat (sp_reps spec)) \<and> \<not> truthy (value_of e ''errors'')"
  by (fastforce simp: incomplete_group_def split: if_splits dest!: subscript_Inr)

lemma summary_medians_complete:
  assumes "summary_medians fs results spec = Inr m"
  shows "complete_summary fs results spec"
proof -
  obtain summary failed groups d where s: "rf_json fs (path_join (path_join results (sp_name spec)) ''summary.json'') = Inr summary"
      "subscript summary ''failed_runs'' = Inr failed" "\<not> truthy failed" "subscript summary ''groups'' = Inr groups" "dict_of groups = Inr d"
      "set (map fst d) = set [result_key cs engine. cs \<leftarrow> sp_cases spec, engine \<leftarrow> sp_engines spec]" "anyR (incomplete_group spec) d = Inr False"
    using assms by (fastforce simp: summary_medians_def Let_def split: if_splits)
  obtain e where e: "summary = JObj e" "value_of e ''failed_runs'' = failed" "value_of e ''groups'' = groups"
    using subscript_Inr [OF s(2)] subscript_Inr [OF s(4)] by auto
  have g: "groups = JObj d" using s(5) by (auto simp: dict_of_def split: json.splits)
  have keys: "fst ` set d = {result_key cs engine | cs engine. cs \<in> set (sp_cases spec) \<and> engine \<in> set (sp_engines spec)}"
    using s(6) by (simp only: set_map) fastforce
  have "\<exists>e. j = JObj e \<and> eq_num (value_of e ''n'') (of_nat (sp_reps spec)) \<and> \<not> truthy (value_of e ''errors'')" if "(k, j) \<in> set d" for k j
    by (rule complete_group) (rule anyR_False [OF s(7) that])
  then show ?thesis unfolding complete_summary_def using s(1,3) e g keys by blast
qed

lemma full_hit_row_ok: "full_hit_row name r = Inr u \<Longrightarrow> float_cell r ''origins'' = Inr 0 \<and> float_cell r ''hit_ratio'' = Inr 1"
  by (auto simp: full_hit_row_def split: if_splits)

lemma full_hit_group_ok: "full_hit_group fs results name = Inr u \<Longrightarrow> full_hits fs results name"
proof -
  assume "full_hit_group fs results name = Inr u"
  then obtain rows us where r: "rf_csv fs (path_join (path_join results name) ''runs.csv'') = Inr rows"
      "mapR (full_hit_row name) rows = Inr us" by (auto simp: full_hit_group_def)
  have "float_cell r ''origins'' = Inr 0 \<and> float_cell r ''hit_ratio'' = Inr 1" if "r \<in> set rows" for r
    using mapR_pairs [OF r(2) that] full_hit_row_ok by blast
  with r(1) show ?thesis by (auto simp: full_hits_def)
qed

lemma qualified_sound:
  assumes "qualified_group fs runs spec" and "rid \<in> set (expected_runs spec)"
  shows "sound_evidence spec rid (rf_runs fs (path_join runs (sp_name spec)) rid)"
proof -
  obtain v where v: "validate_group spec (rf_runs fs (path_join runs (sp_name spec))) = Inr v" "va_qualified v"
    using assms(1) by (auto simp: qualified_group_def group_validation_def)
  then have "va_valid v" by (auto simp: validate_group_def Let_def)
  with v(1) validate_group_sound [of spec "rf_runs fs (path_join runs (sp_name spec))"] assms(2) show ?thesis
    by (auto simp: list_all_iff)
qed

text \<open>
  C8. The README makes headline claims only from qualified evidence: if \<open>readme_headlines\<close> returns, then either its text
  withholds the comparisons and names exactly the headline groups that do not qualify, of which there is at least one; or
  every headline group is qualified, every run it expects left sound evidence, its summary has no failed run, exactly the
  planned cases and engines, and for each of them all repetitions and no error, and every row of the groups presented as full-hit groups has a hit ratio of one and no
  request to the origin.
\<close>

theorem readme_headlines_gated:
  assumes "readme_headlines fs runs results = Inr s"
  shows "(s = withheld (map sp_name (filter (\<lambda>spec. \<not> qualified_group fs runs spec) headline_specs))
       \<and> \<not> list_all (qualified_group fs runs) headline_specs)
    \<or> (list_all (\<lambda>spec. qualified_group fs runs spec \<and> complete_summary fs results spec
          \<and> list_all (\<lambda>rid. sound_evidence spec rid (rf_runs fs (path_join runs (sp_name spec)) rid)) (expected_runs spec)) headline_specs
       \<and> list_all (full_hits fs results) README_FULL_HIT)"
proof -
  obtain limited where l: "unqualified fs runs headline_specs = Inr limited"
    using assms by (auto simp: readme_headlines_def)
  note names = unqualified_Inr [OF l]
  show ?thesis
  proof (cases "limited = []")
    case False
    then have "s = withheld limited" using assms l by (simp add: readme_headlines_def)
    moreover from False have "\<not> list_all (qualified_group fs runs) headline_specs"
      using names by (auto simp: list_all_iff filter_empty_conv)
    ultimately show ?thesis using names by blast
  next
    case True
    then obtain groups us where g: "mapR (summary_medians fs results) headline_specs = Inr groups"
        "mapR (full_hit_group fs results) README_FULL_HIT = Inr us"
      using assms l by (auto simp: readme_headlines_def)
    have q: "qualified_group fs runs spec" if "spec \<in> set headline_specs" for spec
      using True names that by (auto simp: filter_empty_conv)
    moreover have "complete_summary fs results spec" if "spec \<in> set headline_specs" for spec
      using mapR_pairs [OF g(1) that] summary_medians_complete by blast
    moreover have "full_hits fs results name" if "name \<in> set README_FULL_HIT" for name
      using mapR_pairs [OF g(2) that] full_hit_group_ok by blast
    ultimately show ?thesis using qualified_sound by (auto simp: list_all_iff)
  qed
qed

definition no_evidence :: release_files where
  "no_evidence = \<lparr>rf_root = ''/repo'', rf_json = (\<lambda>p. Inl (FileNotFoundError p)), rf_csv = (\<lambda>p. Inl (FileNotFoundError p)),
     rf_sha256 = (\<lambda>p. Inl (FileNotFoundError p)), rf_runs = (\<lambda>p rid. \<lparr>rd_result = None, rd_error = None, rd_correctness = None\<rparr>)\<rparr>"

lemma no_evidence_check: "check_run spec rid (rf_runs no_evidence p rid) = Inr [(Problem, RunError (label rid) ''missing result.json'')]"
  by (simp add: check_run_def no_evidence_def Let_def)

lemma no_evidence_validation: "\<exists>v. group_validation no_evidence runs spec = Inr v \<and> (expected_runs spec \<noteq> [] \<longrightarrow> \<not> va_qualified v)"
proof -
  let ?d = "rf_runs no_evidence (path_join runs (sp_name spec))"
  have "mapR (\<lambda>rid. check_run spec rid (?d rid)) rs = Inr (map (\<lambda>rid. [(Problem, RunError (label rid) ''missing result.json'')]) rs)" for rs
    by (intro mapR_pure) (rule no_evidence_check)
  then show ?thesis by (auto simp: group_validation_def validate_group_def Let_def channel_notes_def concat_map_singleton neq_Nil_conv)
qed

lemma no_evidence_unqualified:
  assumes "g \<in> set specs" and "expected_runs g \<noteq> []"
  shows "\<exists>names. unqualified no_evidence runs specs = Inr names \<and> names \<noteq> []"
proof -
  have "\<exists>y. bindR (group_validation no_evidence runs spec) (\<lambda>v. Inr (if va_qualified v then [] else [sp_name spec])) = Inr y" for spec
    using no_evidence_validation [of runs spec] by auto
  then obtain names where n: "unqualified no_evidence runs specs = Inr names"
    using mapR_ex [of specs "\<lambda>spec. bindR (group_validation no_evidence runs spec) (\<lambda>v. Inr (if va_qualified v then [] else [sp_name spec]))"]
    by (auto simp: unqualified_def)
  have "\<not> qualified_group no_evidence runs g"
    using no_evidence_validation [of runs g] assms(2) by (auto simp: qualified_group_def)
  then have "names \<noteq> []" using unqualified_Inr [OF n] assms(1) by (auto simp: filter_empty_conv)
  with n show ?thesis by blast
qed

lemma primary_headline:
  "group ''primary'' ''hit_1k_c8'' ''grpc,redis,valkey,memcached'' 5 60 ''kv'' 96 768 True 15 None False False \<in> set headline_specs"
  "expected_runs (group ''primary'' ''hit_1k_c8'' ''grpc,redis,valkey,memcached'' 5 60 ''kv'' 96 768 True 15 None False False) \<noteq> []"
  by (simp_all add: headline_specs_def release_GROUPS_def group_def expected_runs_def upt_rec)

theorem readme_headlines_gated_witness:
  "\<exists>s. readme_headlines no_evidence ''runs'' ''results'' = Inr s
    \<and> s = withheld (map sp_name (filter (\<lambda>spec. \<not> qualified_group no_evidence ''runs'' spec) headline_specs))"
proof -
  obtain names where n: "unqualified no_evidence ''runs'' headline_specs = Inr names" "names \<noteq> []" using no_evidence_unqualified [OF primary_headline] by blast
  then have s: "readme_headlines no_evidence ''runs'' ''results'' = Inr (withheld names)" by (simp add: readme_headlines_def)
  have "\<not> list_all (qualified_group no_evidence ''runs'') headline_specs"
    using n unqualified_Inr [OF n(1)] by (auto simp: list_all_iff filter_empty_conv)
  with readme_headlines_gated [OF s] s show ?thesis by (auto simp: list_all_iff)
qed

section \<open>The report covers the whole campaign\<close>

lemma check_digest_ok: "check_digest fs (file, digest) = Inr u \<Longrightarrow> \<exists>s. rf_sha256 fs (path_join (rf_root fs) file) = Inr s \<and> digest = JStr s"
  by (auto simp: check_digest_def split: if_splits)

lemma check_evidence_ok:
  assumes "check_evidence fs progress = Inr u" and "(g, status) \<in> set progress"
  shows "\<exists>h. subscript status ''evidence_sha256'' = Inr (JObj h)
    \<and> (\<forall>(file, digest) \<in> set h. \<exists>s. rf_sha256 fs (path_join (rf_root fs) file) = Inr s \<and> digest = JStr s)"
proof -
  obtain us where "mapR (\<lambda>(name, status). bindR (subscript status ''evidence_sha256'') (\<lambda>h. bindR (dict_of h) (\<lambda>d. mapR (check_digest fs) d))) progress = Inr us"
    using assms(1) by (auto simp: check_evidence_def)
  from mapR_pairs [OF this assms(2)] obtain h us' where h: "subscript status ''evidence_sha256'' = Inr (JObj h)" "mapR (check_digest fs) h = Inr us'"
    by auto
  have "\<exists>s. rf_sha256 fs (path_join (rf_root fs) path) = Inr s \<and> digest = JStr s" if "(path, digest) \<in> set h" for path digest
    using mapR_pairs [OF h(2) that] check_digest_ok by blast
  with h(1) show ?thesis by blast
qed

lemma section_lines_ok:
  assumes "section_lines P fs runs results (spec, v) = Inr sec"
  shows "\<exists>rows. rf_csv fs (path_join (path_join results (sp_name spec)) ''runs.csv'') = Inr rows
    \<and> (\<forall>cs \<in> set (sp_cases spec). \<forall>e \<in> set (sp_engines spec). \<exists>l. mode_line release_LABELS rows cs e = Inr l \<and> l \<in> set (snd sec))"
proof -
  obtain rows modes where m: "rf_csv fs (path_join (path_join results (sp_name spec)) ''runs.csv'') = Inr rows"
      "mapR (\<lambda>(cs, engine). mode_line release_LABELS rows cs engine) [(cs, engine). cs \<leftarrow> sp_cases spec, engine \<leftarrow> sp_engines spec] = Inr modes"
      "set modes \<subseteq> set (snd sec)"
    using assms unfolding section_lines_def Let_def prod.case by (elim bindR_InrE) (rule that, assumption, assumption, auto)
  have "\<exists>l. mode_line release_LABELS rows cs e = Inr l \<and> l \<in> set modes" if "cs \<in> set (sp_cases spec)" "e \<in> set (sp_engines spec)" for cs e
    using mapR_pairs [OF m(2), of "(cs, e)"] that by auto
  with m(1,3) show ?thesis by blast
qed

lemma render_release_Inr:
  assumes "render_release P fs runs results = Inr text"
  obtains campaign progress vs ls sections where "rf_json fs (path_join results ''campaign.json'') = Inr campaign"
    "finished_progress release_GROUPS release_incomplete campaign = Inr progress" "check_evidence fs progress = Inr ()"
    "mapR (group_validation fs runs) release_GROUPS = Inr vs"
    "mapR (section_lines P fs runs results) (zip release_GROUPS vs) = Inr sections"
    "text = join newline ls" "set (concat (map snd sections)) \<subseteq> set ls"
proof -
  from assms obtain campaign progress vs failed head sections comparisons where r:
      "rf_json fs (path_join results ''campaign.json'') = Inr campaign" "finished_progress release_GROUPS release_incomplete campaign = Inr progress"
      "check_evidence fs progress = Inr ()" "mapR (group_validation fs runs) release_GROUPS = Inr vs"
      "mapR (section_lines P fs runs results) (zip release_GROUPS vs) = Inr sections"
      "\<exists>more. text = join newline (head @ concat (map snd sections) @ more)"
    unfolding render_release_def Let_def
    by (elim bindR_InrE) (rule that, assumption, assumption, simp, assumption, assumption,
        drule sum.inject(2) [THEN iffD1], rule exI, erule sym)
  then obtain more where "text = join newline (head @ concat (map snd sections) @ more)" by blast
  from that [OF r(1-5) this] show ?thesis by auto
qed

lemma finished_progress_ok: "finished_progress planned e campaign = Inr progress \<Longrightarrow>
    set (map fst progress) = set (map sp_name planned)
    \<and> (\<exists>d. campaign = JObj d \<and> truthy (value_of d ''finished_utc'') \<and> json_eq (value_of d ''groups'') (JArr (map spec_json planned)))"
  by (auto simp: finished_progress_def get_default_def value_of_def split: if_splits dest!: subscript_Inr)
    (metis fst_conv image_eqI)

text \<open>
  C9. The release report is rendered only from a finished campaign and leaves nothing out: if \<open>render\<close> returns, the recorded
  groups are the planned ones, every group has recorded progress and the campaign is finished; every evidence file still
  has the digest the campaign recorded for it; and for every case and engine of every planned group the report holds the
  line of that mode, computed from the group's CSV file.
\<close>

theorem release_report_complete:
  assumes "render_release P fs runs results = Inr text"
  shows "\<exists>campaign progress. rf_json fs (path_join results ''campaign.json'') = Inr (JObj campaign)
    \<and> finished_progress release_GROUPS release_incomplete (JObj campaign) = Inr progress
    \<and> truthy (value_of campaign ''finished_utc'') \<and> set (map fst progress) = set (map sp_name release_GROUPS)
    \<and> (\<forall>(g, status) \<in> set progress. \<exists>h. subscript status ''evidence_sha256'' = Inr (JObj h)
         \<and> (\<forall>(file, digest) \<in> set h. \<exists>s. rf_sha256 fs (path_join (rf_root fs) file) = Inr s \<and> digest = JStr s))
    \<and> (\<forall>spec \<in> set release_GROUPS. \<exists>rows. rf_csv fs (path_join (path_join results (sp_name spec)) ''runs.csv'') = Inr rows
         \<and> (\<forall>cs \<in> set (sp_cases spec). \<forall>e \<in> set (sp_engines spec). \<exists>l. mode_line release_LABELS rows cs e = Inr l \<and> sublist l text))"
proof -
  obtain campaign progress vs ls sections where r: "rf_json fs (path_join results ''campaign.json'') = Inr campaign"
      "finished_progress release_GROUPS release_incomplete campaign = Inr progress" "check_evidence fs progress = Inr ()"
      "mapR (group_validation fs runs) release_GROUPS = Inr vs"
      "mapR (section_lines P fs runs results) (zip release_GROUPS vs) = Inr sections"
      "text = join newline ls" "set (concat (map snd sections)) \<subseteq> set ls"
    by (rule render_release_Inr [OF assms])
  have "\<exists>rows. rf_csv fs (path_join (path_join results (sp_name spec)) ''runs.csv'') = Inr rows
      \<and> (\<forall>cs \<in> set (sp_cases spec). \<forall>e \<in> set (sp_engines spec). \<exists>l. mode_line release_LABELS rows cs e = Inr l \<and> sublist l text)"
    if spec: "spec \<in> set release_GROUPS" for spec
  proof -
    have "length vs = length release_GROUPS" using mapR_length [OF r(4)] .
    with spec obtain v where "(spec, v) \<in> set (zip release_GROUPS vs)" by (metis in_set_impl_in_set_zip1)
    then obtain sec where sec: "section_lines P fs runs results (spec, v) = Inr sec" "sec \<in> set sections"
      using mapR_pairs [OF r(5)] by blast
    have "l \<in> set (snd sec) \<Longrightarrow> sublist l text" for l using sec(2) r(6,7) by (force intro: sublist_join)
    with section_lines_ok [OF sec(1)] show ?thesis by meson
  qed
  with r(1,2) finished_progress_ok [OF r(2)] check_evidence_ok [OF r(3)] show ?thesis by auto
qed

section \<open>The check accepts what was written\<close>

interpretation release_block: block_marks README_BEGIN README_END "tl README_BEGIN" "tl README_END"
  by unfold_locales (simp_all add: README_BEGIN_def README_END_def)

lemma headline_value_plain: "headline_value groups g engine k places = Inr s \<Longrightarrow> plain_text s"
  by (auto simp: headline_value_def json_figure_def number_def split: if_splits)

lemma headline_text_plain:
  assumes "headline_text versions comparison rows groups = Inr s" and "plain_text comparison" and "plain_text rows"
    and "\<And>role. plain_text (version_or versions role dash)"
  shows "plain_text s"
  using assms unfolding headline_text_def Let_def
  by (elim bindR_InrE) (drule sum.inject(2) [THEN iffD1], erule subst, simp add: headline_value_plain)

definition plain_tags :: "release_files \<Rightarrow> string \<Rightarrow> bool" where
  "plain_tags fs results \<longleftrightarrow> (\<forall>campaign versions. rf_json fs (path_join results ''campaign.json'') = Inr campaign
     \<longrightarrow> measured_versions campaign = Inr versions \<longrightarrow> (\<forall>(role, tag) \<in> set versions. plain_text tag))"

lemma version_or_plain: "\<forall>(role, tag) \<in> set versions. plain_text tag \<Longrightarrow> plain_text fallback \<Longrightarrow> plain_text (version_or versions role fallback)"
  by (auto simp: version_or_def split: option.splits dest!: map_of_SomeD)

lemma plain_strip: "plain_text s \<Longrightarrow> plain_text (strip s)"
  by (auto simp: strip_def plain_text_def dest!: set_dropWhileD)

lemma headline_rows_plain:
  assumes "mapR (headline_row groups) (headline_labels versions) = Inr rows" and "\<forall>(role, tag) \<in> set versions. plain_text tag"
  shows "plain_text (join newline rows)"
proof -
  have lab: "plain_text l" if "(e, l) \<in> set (headline_labels versions)" for e l
    using that version_or_plain [OF assms(2), of "[]"] by (auto simp: headline_labels_def intro!: plain_strip)
  have "\<forall>x \<in> set (headline_labels versions). \<forall>y. headline_row groups x = Inr y \<longrightarrow> plain_text y"
    using lab by (auto simp: headline_row_def headline_value_plain)
  from mapR_all [OF assms(1) this] show ?thesis by (intro plain_join) simp_all
qed

lemma headline_names_plain: "spec \<in> set headline_specs \<Longrightarrow> plain_text (sp_name spec)"
  by (auto simp: headline_specs_def release_GROUPS_def group_def)

lemma withheld_plain: "list_all plain_text limited \<Longrightarrow> plain_text (withheld limited)"
  by (auto simp: withheld_def list_all_iff intro!: plain_join)

lemma readme_headlines_plain:
  assumes "readme_headlines fs runs results = Inr s" and "plain_tags fs results" shows "plain_text s"
proof -
  obtain limited where l: "unqualified fs runs headline_specs = Inr limited"
    using assms by (auto simp: readme_headlines_def)
  show ?thesis
  proof (cases "limited = []")
    case False
    then have "s = withheld limited" using assms(1) l by (simp add: readme_headlines_def)
    moreover have "list_all plain_text limited"
      using unqualified_Inr [OF l] headline_names_plain by (auto simp: list_all_iff)
    ultimately show ?thesis using withheld_plain by simp
  next
    case True
    then obtain groups campaign versions rows comparison where h: "rf_json fs (path_join results ''campaign.json'') = Inr campaign"
        "measured_versions campaign = Inr versions" "mapR (headline_row groups) (headline_labels versions) = Inr rows"
        "headline_text versions comparison (join newline rows) groups = Inr s"
        "comparison \<in> {''slower than the three comparison services:'', ''measured alongside three comparison services:''}"
      using assms(1) l by (auto simp: readme_headlines_def Let_def split: if_splits)
    have tags: "\<forall>(role, tag) \<in> set versions. plain_text tag" using assms(2) h(1,2) unfolding plain_tags_def by blast
    show ?thesis
      by (rule headline_text_plain [OF h(4) _ headline_rows_plain [OF h(3) tags]])
        (use h(5) version_or_plain [OF tags] in auto)
  qed
qed

text \<open>
  The check accepts what was rendered: if the tags of the comparator images hold no \<open><\<close> and the program has written the
  release report and the README, a check of the two files against the same campaign and results passes, and rendering
  them again changes nothing.
\<close>

theorem release_check_accepts:
  assumes "release_main P fs runs results False report readme = (Inr (), report', readme')" and "plain_tags fs results"
  shows "release_main P fs runs results True report' readme' = (Inr (), report', readme')
    \<and> release_main P fs runs results False report' readme' = (Inr (), report', readme')"
proof -
  obtain rendered headlines where r: "render_release P fs runs results = Inr rendered" "readme_headlines fs runs results = Inr headlines"
      "replace_readme_headlines readme headlines = Inr readme'" "report' = Some rendered"
    using assms(1) by (auto simp: release_main_def write_or_check_def bindR_def split: sum.splits)
  have "plain_text headlines" by (rule readme_headlines_plain [OF r(2) assms(2)])
  then have "replace_readme_headlines readme' headlines = Inr readme'"
    using r(3) release_block.replace_again unfolding replace_readme_headlines_def by blast
  with r show ?thesis by (simp add: release_main_def write_or_check_def)
qed

section \<open>A finished campaign without usable runs\<close>

definition sample_campaign :: dict where
  "sample_campaign =
    [(''groups'', JArr (map spec_json release_GROUPS)),
     (''progress'', JObj (map (\<lambda>g. (sp_name g, JObj [(''evidence_sha256'', JObj [(''summary.json'', JStr ''d1'')]), (''valid'', JBool False)])) release_GROUPS)),
     (''started_utc'', JStr ''2026-09-24T00:00:00''), (''finished_utc'', JStr ''2026-09-25T00:00:00''), (''git_commit'', JStr ''c1''),
     (''host'', JStr ''host''), (''docker'', JObj [(''ServerVersion'', JStr ''29''), (''KernelVersion'', JStr ''6''), (''NCPU'', JStr ''8''), (''MemTotal'', JNum 0)]),
     (''images'', JObj [])]"

definition sample_release :: release_files where
  "sample_release = no_evidence\<lparr>rf_json := (\<lambda>p. Inr (JObj sample_campaign)), rf_csv := (\<lambda>p. Inr []), rf_sha256 := (\<lambda>p. Inr ''d1'')\<rparr>"

definition sample_text :: report_text where
  "sample_text = \<lparr>repr_value = (\<lambda>x. x), str_json = (\<lambda>j. []), note_text = (\<lambda>r. [])\<rparr>"

abbreviation sample_strong :: string where
  "sample_strong \<equiv> ''/repo/bench/strong''"

lemma json_eq_strings: "list_all2 json_eq (map JStr xs) (map JStr xs)"
  by (induction xs) simp_all

lemma json_eq_spec: "json_eq (spec_json spec) (spec_json spec)"
  by (auto simp: spec_json_def json_eq_strings split: option.splits)

lemma json_eq_groups: "json_eq (JArr (map spec_json gs)) (JArr (map spec_json gs))"
proof -
  have "list_all2 json_eq (map spec_json gs) (map spec_json gs)" by (induction gs) (simp_all add: json_eq_spec)
  then show ?thesis by simp
qed

lemma sample_progress: "\<exists>progress. finished_progress release_GROUPS release_incomplete (JObj sample_campaign) = Inr progress
    \<and> progress = map (\<lambda>g. (sp_name g, JObj [(''evidence_sha256'', JObj [(''summary.json'', JStr ''d1'')]), (''valid'', JBool False)])) release_GROUPS"
  using json_eq_groups [of release_GROUPS]
  by (simp add: finished_progress_def sample_campaign_def subscript_def item_def get_default_def get_or_def image_image del: json_eq.simps)

lemma sample_validation_same: "group_validation sample_release runs spec = group_validation no_evidence runs spec"
  by (simp add: group_validation_def sample_release_def)

lemma expected_runs_empty: "expected_runs spec = [] \<longleftrightarrow> sp_cases spec = [] \<or> sp_reps spec = 0 \<or> sp_engines spec = []"
  by (auto simp: expected_runs_def)

lemma release_runs_nonempty: "spec \<in> set release_GROUPS \<Longrightarrow> expected_runs spec \<noteq> []"
proof -
  have "list_all (\<lambda>spec. expected_runs spec \<noteq> []) release_GROUPS"
    unfolding expected_runs_empty by (simp add: release_GROUPS_def group_def del: split_on.simps)
  then show "spec \<in> set release_GROUPS \<Longrightarrow> expected_runs spec \<noteq> []" by (simp add: list_all_iff)
qed

lemma sample_validations:
  "\<exists>vs. mapR (group_validation sample_release runs) release_GROUPS = Inr vs \<and> list_all (\<lambda>v. \<not> va_qualified v) vs"
proof -
  have "\<exists>vs. mapR (group_validation no_evidence runs) specs = Inr vs \<and> list_all (\<lambda>v. \<not> va_qualified v) vs"
    if "\<And>s. s \<in> set specs \<Longrightarrow> expected_runs s \<noteq> []" for specs
    using that
  proof (induction specs)
    case (Cons s specs)
    then obtain vs where "mapR (group_validation no_evidence runs) specs = Inr vs" "list_all (\<lambda>v. \<not> va_qualified v) vs" by auto
    moreover obtain v where "group_validation no_evidence runs s = Inr v" "\<not> va_qualified v"
      using no_evidence_validation [of runs s] Cons.prems by auto
    ultimately show ?case by simp
  qed simp
  with release_runs_nonempty show ?thesis unfolding sample_validation_same by blast
qed

lemma sample_modes: "e \<in> set (map fst release_LABELS) \<Longrightarrow> \<exists>l. mode_line release_LABELS [] cs e = Inr l"
proof -
  assume "e \<in> set (map fst release_LABELS)"
  then obtain lab where "map_of release_LABELS e = Some lab" by (metis list.set_map map_of_eq_None_iff not_None_eq)
  then show ?thesis by (simp add: mode_line_def mode_rows_def report_median_def table_item_def)
qed

lemma group_titles: "spec \<in> set release_GROUPS \<Longrightarrow> map_of release_TITLES (sp_name spec) \<noteq> None"
proof -
  have "list_all (\<lambda>spec. map_of release_TITLES (sp_name spec) \<noteq> None) release_GROUPS"
    by (simp add: release_GROUPS_def group_def release_TITLES_def del: split_on.simps)
  then show "spec \<in> set release_GROUPS \<Longrightarrow> map_of release_TITLES (sp_name spec) \<noteq> None" by (simp add: list_all_iff)
qed

lemma group_engines: "spec \<in> set release_GROUPS \<Longrightarrow> e \<in> set (sp_engines spec) \<Longrightarrow> e \<in> set (map fst release_LABELS)"
proof -
  have "list_all (\<lambda>spec. list_all (\<lambda>e. e \<in> set (map fst release_LABELS)) (sp_engines spec)) release_GROUPS"
    by (simp add: release_GROUPS_def group_def release_LABELS_def)
  then show "spec \<in> set release_GROUPS \<Longrightarrow> e \<in> set (sp_engines spec) \<Longrightarrow> e \<in> set (map fst release_LABELS)"
    unfolding list_all_iff by blast
qed

lemma sample_relative: "\<exists>p. relative ''/repo'' (path_join (path_join (sample_strong @ ''/'' @ d) a) b) = Inr p"
  by (simp add: relative_def path_join_def)

lemma sample_section:
  assumes "spec \<in> set release_GROUPS"
  shows "\<exists>sec. section_lines sample_text sample_release (sample_strong @ ''/runs'') (sample_strong @ ''/results'') (spec, v) = Inr sec"
proof -
  obtain title where title: "map_of release_TITLES (sp_name spec) = Some title" using group_titles [OF assms] by blast
  have "\<exists>ls. mapR (\<lambda>(cs, engine). mode_line release_LABELS [] cs engine) [(cs, engine). cs \<leftarrow> sp_cases spec, engine \<leftarrow> sp_engines spec] = Inr ls"
  proof (rule mapR_ex)
    fix x assume "x \<in> set [(cs, engine). cs \<leftarrow> sp_cases spec, engine \<leftarrow> sp_engines spec]"
    then obtain cs e where "x = (cs, e)" "e \<in> set (sp_engines spec)" by auto
    then show "\<exists>l. (case x of (cs, engine) \<Rightarrow> mode_line release_LABELS [] cs engine) = Inr l" using sample_modes [OF group_engines [OF assms]] by simp
  qed
  then obtain ls where ls: "mapR (\<lambda>(cs, engine). mode_line release_LABELS [] cs engine) [(cs, engine). cs \<leftarrow> sp_cases spec, engine \<leftarrow> sp_engines spec] = Inr ls" ..
  have rel: "\<exists>p. relative ''/repo'' (path_join (path_join (sample_strong @ ''/results'') a) b) = Inr p"
      "\<exists>p. relative ''/repo'' (path_join (path_join (sample_strong @ ''/runs'') a) b) = Inr p" for a b
    using sample_relative [of "''results''"] sample_relative [of "''runs''"] by simp_all
  obtain p1 p2 p3 where "relative ''/repo'' (path_join (path_join (sample_strong @ ''/results'') (sp_name spec)) ''runs.csv'') = Inr p1"
      "relative ''/repo'' (path_join (path_join (sample_strong @ ''/results'') (sp_name spec)) ''summary.json'') = Inr p2"
      "relative ''/repo'' (path_join (path_join (sample_strong @ ''/runs'') (sp_name spec)) ''manifest.json'') = Inr p3"
    using rel by metis
  with title ls show ?thesis
    by (simp only: section_lines_def section_top_def Let_def prod.case sample_release_def no_evidence_def release_files.simps table_item_def
        option.case bindR_simps) simp
qed

lemma sample_head: "\<exists>ls. head_lines sample_text sample_release (sample_strong @ ''/results'') (JObj sample_campaign) failed problems limited = Inr ls"
  by (simp add: head_lines_def sample_campaign_def first10_def str_item_of_def subscript_def item_def relative_def path_join_def
      sample_release_def no_evidence_def)

lemma sample_sections:
  "\<exists>secs. mapR (section_lines sample_text sample_release (sample_strong @ ''/runs'') (sample_strong @ ''/results'')) (zip release_GROUPS vs) = Inr secs"
proof (rule mapR_ex)
  fix x assume x: "x \<in> set (zip release_GROUPS vs)"
  obtain spec v where "x = (spec, v)" by (cases x)
  moreover from this have "spec \<in> set release_GROUPS" using x by (auto dest: set_zip_leftD)
  ultimately show "\<exists>sec. section_lines sample_text sample_release (sample_strong @ ''/runs'') (sample_strong @ ''/results'') x = Inr sec"
    using sample_section by simp
qed

lemma sample_comparisons:
  assumes "length vs = length release_GROUPS" and "list_all (\<lambda>v. \<not> va_qualified v) vs"
  shows "comparison_lines (zip (map sp_name release_GROUPS) vs) rows = Inr []"
proof -
  have "compare_if (zip (map sp_name release_GROUPS) vs) name t = Inr []" if n: "name \<in> set (map sp_name release_GROUPS)" for name t
  proof -
    obtain v where v: "map_of (zip (map sp_name release_GROUPS) vs) name = Some v"
      using map_of_zip_is_Some [of "map sp_name release_GROUPS" vs name] n assms(1) by auto
    then have "v \<in> set vs" by (auto dest!: map_of_SomeD set_zip_rightD)
    with v assms(2) show ?thesis by (simp add: compare_if_def table_item_def list_all_iff)
  qed
  moreover have "''primary'' \<in> set (map sp_name release_GROUPS)" "''hybrid'' \<in> set (map sp_name release_GROUPS)"
      "''http'' \<in> set (map sp_name release_GROUPS)"
    by (simp_all add: release_GROUPS_def group_def del: split_on.simps)
  ultimately show ?thesis by (simp add: comparison_lines_def)
qed

lemma sample_evidence:
  assumes "progress = map (\<lambda>g. (sp_name g, JObj [(''evidence_sha256'', JObj [(''summary.json'', JStr ''d1'')]), (''valid'', JBool False)])) gs"
  shows "check_evidence sample_release progress = Inr () \<and> (\<exists>failed. failed_groups progress = Inr failed)"
proof -
  have "\<exists>us. mapR (\<lambda>(name, status). bindR (subscript status ''evidence_sha256'') (\<lambda>h. bindR (dict_of h) (\<lambda>d. mapR (check_digest sample_release) d))) progress = Inr us"
    by (rule mapR_ex) (auto simp: assms subscript_def item_def check_digest_def sample_release_def)
  moreover have "\<exists>ys. mapR (\<lambda>(name, status). bindR (subscript status ''valid'') (\<lambda>v. Inr (if truthy v then [] else [name]))) progress = Inr ys"
    by (rule mapR_ex) (auto simp: assms subscript_def item_def)
  ultimately show ?thesis by (auto simp: check_evidence_def failed_groups_def)
qed

lemma sample_rendered: "\<exists>t. render_release sample_text sample_release (sample_strong @ ''/runs'') (sample_strong @ ''/results'') = Inr t"
proof -
  obtain progress where p: "finished_progress release_GROUPS release_incomplete (JObj sample_campaign) = Inr progress"
      "check_evidence sample_release progress = Inr () \<and> (\<exists>failed. failed_groups progress = Inr failed)"
    using sample_progress sample_evidence by metis
  then obtain failed where f: "failed_groups progress = Inr failed" by blast
  obtain vs where vs: "mapR (group_validation sample_release (sample_strong @ ''/runs'')) release_GROUPS = Inr vs" "list_all (\<lambda>v. \<not> va_qualified v) vs"
    using sample_validations by blast
  let ?limited = "map fst (filter (\<lambda>(n, v). va_limitations v \<noteq> []) (zip (map sp_name release_GROUPS) vs))"
  obtain head where head: "head_lines sample_text sample_release (sample_strong @ ''/results'') (JObj sample_campaign) failed
      (list_ex (\<lambda>v. va_problems v \<noteq> []) vs) ?limited = Inr head"
    using sample_head by blast
  obtain secs where secs: "mapR (section_lines sample_text sample_release (sample_strong @ ''/runs'') (sample_strong @ ''/results'')) (zip release_GROUPS vs) = Inr secs"
    using sample_sections by blast
  have c: "comparison_lines (zip (map sp_name release_GROUPS) vs) (map fst secs) = Inr []"
    by (rule sample_comparisons [OF mapR_length [OF vs(1)] vs(2)])
  have j: "rf_json sample_release p = Inr (JObj sample_campaign)" for p by (simp add: sample_release_def)
  show ?thesis
    unfolding render_release_def Let_def j bindR_simps p(1) p(2) [THEN conjunct1] vs(1) f head secs c by blast
qed

theorem release_report_complete_witness:
  "\<exists>t. render_release sample_text sample_release (sample_strong @ ''/runs'') (sample_strong @ ''/results'') = Inr t
    \<and> (\<exists>l. mode_line release_LABELS [] ''hit_1k_c8'' ''redis'' = Inr l \<and> sublist l t)"
proof -
  obtain t where t: "render_release sample_text sample_release (sample_strong @ ''/runs'') (sample_strong @ ''/results'') = Inr t"
    using sample_rendered by blast
  let ?g = "group ''primary'' ''hit_1k_c8'' ''grpc,redis,valkey,memcached'' 5 60 ''kv'' 96 768 True 15 None False False"
  have g: "?g \<in> set release_GROUPS" "''hit_1k_c8'' \<in> set (sp_cases ?g)" "''redis'' \<in> set (sp_engines ?g)"
    by (simp_all add: release_GROUPS_def group_def)
  have "\<exists>rows. rf_csv sample_release (path_join (path_join (sample_strong @ ''/results'') (sp_name ?g)) ''runs.csv'') = Inr rows
      \<and> (\<forall>cs \<in> set (sp_cases ?g). \<forall>e \<in> set (sp_engines ?g). \<exists>l. mode_line release_LABELS rows cs e = Inr l \<and> sublist l t)"
    using release_report_complete [OF t] g(1) by blast
  moreover have "rf_csv sample_release p = Inr []" for p by (simp add: sample_release_def)
  ultimately show ?thesis using t g(2,3) by (metis sum.inject(2))
qed

definition sample_readme :: string where
  "sample_readme = README_BEGIN @ newline @ README_END"

theorem release_check_accepts_witness:
  "\<exists>report readme. release_main sample_text sample_release (sample_strong @ ''/runs'') (sample_strong @ ''/results'') False None sample_readme
      = (Inr (), report, readme)
    \<and> release_main sample_text sample_release (sample_strong @ ''/runs'') (sample_strong @ ''/results'') True report readme = (Inr (), report, readme)"
proof -
  let ?runs = "sample_strong @ ''/runs''" and ?results = "sample_strong @ ''/results''"
  obtain t where t: "render_release sample_text sample_release ?runs ?results = Inr t" using sample_rendered by blast
  have same: "unqualified sample_release ?runs specs = unqualified no_evidence ?runs specs" for specs
    by (simp add: unqualified_def sample_validation_same)
  obtain names where n: "unqualified no_evidence ?runs headline_specs = Inr names" "names \<noteq> []" using no_evidence_unqualified [OF primary_headline] by blast
  then have h: "readme_headlines sample_release ?runs ?results = Inr (withheld names)"
    by (simp only: readme_headlines_def same bindR_simps) simp
  obtain page where "replace_readme_headlines sample_readme (withheld names) = Inr page"
    using release_block.fresh_block unfolding replace_readme_headlines_def sample_readme_def by blast
  then have m: "release_main sample_text sample_release ?runs ?results False None sample_readme = (Inr (), Some t, page)"
    by (simp only: release_main_def write_or_check_def t h bindR_simps sum.case prod.case if_False)
  have "measured_versions (JObj sample_campaign) = Inr []"
    by (simp add: measured_versions_def sample_campaign_def subscript_def item_def)
  then have "plain_tags sample_release ?results" by (simp add: plain_tags_def sample_release_def)
  from release_check_accepts [OF m this] m show ?thesis by blast
qed

end
