(* ===== verification/Landscape_Report.thy ===== *)
theory Landscape_Report
  imports Release_Report
begin

text \<open>
  \<open>bench/strong/render_landscape_report.py\<close>: the report of the landscape campaign and its headlines in the README. It
  shares the figures, the mode lines, the gates on the campaign and the README block with the release report and
  adds the ranking of the engines. The functions \<open>relative\<close>, \<open>median\<close>, \<open>number\<close> and \<open>percent\<close> of the file are
  word for word those of \<open>render_release_report.py\<close>, and are the definitions of \<open>Release_Report\<close> here.
\<close>

section \<open>Labels, versions and titles\<close>

definition LANDSCAPE_BEGIN :: string where
  "LANDSCAPE_BEGIN = ''<!-- BEGIN GENERATED LANDSCAPE: landscape-headlines -->''"

definition LANDSCAPE_END :: string where
  "LANDSCAPE_END = ''<!-- END GENERATED LANDSCAPE: landscape-headlines -->''"

definition landscape_LABELS :: "(string \<times> string) list" where
  "landscape_LABELS =
    [(''grpc'', ''CacheLib gRPC DRAM''),
     (''grpc_nvm'', ''CacheLib gRPC + Navy''),
     (''redis'', ''Redis OSS''),
     (''valkey'', ''Valkey''),
     (''memcached'', ''Memcached DRAM''),
     (''memcached_extstore'', ''Memcached extstore''),
     (''dragonfly'', ''Dragonfly''),
     (''dragonfly_tiered'', ''Dragonfly tiered''),
     (''garnet'', ''Garnet''),
     (''garnet_storage'', ''Garnet storage tier''),
     (''kvrocks'', ''Kvrocks''),
     (''grpc_adapter'', ''gRPC + Python HTTP adapter''),
     (''nginx'', ''NGINX cache''),
     (''origin_direct'', ''Direct origin (reference)'')]"

definition landscape_COMPARATORS :: "(string \<times> string) list" where
  "landscape_COMPARATORS =
    [(''redis'', ''redis:8.10.2-alpine''),
     (''valkey'', ''valkey/valkey:9.1.2-alpine''),
     (''memcached'', ''memcached:1.6.45-alpine''),
     (''nginx'', ''nginx:1.30.5-alpine''),
     (''dragonfly'', ''docker.dragonflydb.io/dragonflydb/dragonfly:v2.0.0''),
     (''garnet'', ''ghcr.io/microsoft/garnet:2.1.8''),
     (''kvrocks'', ''apache/kvrocks:2.17.0'')]"

definition landscape_VERSIONS :: "(string \<times> string) list" where
  "landscape_VERSIONS =
    [(''grpc'', ''published 1.8.0 image''),
     (''grpc_nvm'', ''published 1.8.0 image''),
     (''redis'', ''redis:8.10.2-alpine''),
     (''valkey'', ''valkey/valkey:9.1.2-alpine''),
     (''memcached'', ''memcached:1.6.45-alpine''),
     (''memcached_extstore'', ''memcached:1.6.45-alpine''),
     (''dragonfly'', ''docker.dragonflydb.io/dragonflydb/dragonfly:v2.0.0''),
     (''garnet'', ''ghcr.io/microsoft/garnet:2.1.8''),
     (''garnet_storage'', ''ghcr.io/microsoft/garnet:2.1.8''),
     (''kvrocks'', ''apache/kvrocks:2.17.0''),
     (''nginx'', ''nginx:1.30.5-alpine''),
     (''grpc_adapter'', ''published 1.8.0 image + Python adapter''),
     (''origin_direct'', ''simulated origin service'')]"

definition landscape_TITLES :: "(string \<times> string) list" where
  "landscape_TITLES =
    [(''primary'', ''All-RAM unary hits, 96 MiB configured DRAM''),
     (''hybrid'', ''Reusable 128 MiB set, 96 MiB configured DRAM''),
     (''offered'', ''Equal demand: 1,500 scheduled arrivals/s''),
     (''ram192'', ''Full-hit objective: 192 MiB DRAM / 384 MiB service ceiling''),
     (''flash384'', ''Full-hit objective: 96 MiB DRAM + 512 MiB file / 384 MiB service ceiling''),
     (''ssd-highvolume'', ''SSD+RAM under volume: 2 GiB set, 256 MiB DRAM, 4 GiB file, 32 connections''),
     (''ssd-overcapacity'', ''SSD+RAM over capacity: 6 GiB set, 4 GiB file, 32 connections''),
     (''ssd-small-objects'', ''SSD+RAM under volume: 2 GiB set in 16 KiB objects, 32 connections''),
     (''ssd-offered'', ''SSD+RAM under traffic: 10,000 scheduled arrivals/s, 64 connections''),
     (''ssd-sustained'', ''SSD+RAM steady state: five-minute runs''),
     (''parity1g-hit'', ''Equal 1 GiB configured DRAM: all-RAM hits''),
     (''parity1g-origin'', ''Equal 1 GiB configured DRAM: 1.28 GiB reusable set''),
     (''http'', ''Repeated 256 KiB objects through a common HTTP interface''),
     (''exploratory-kv'', ''Exploratory value sizes, concurrency and writes''),
     (''stress-kv'', ''Exploratory concurrency and write stress''),
     (''batch-get'', ''Exploratory 16-object batch GET''),
     (''batch-set'', ''Exploratory 16-object batch SET''),
     (''pipeline'', ''Exploratory sustained Pipeline''),
     (''offered-saturation'', ''Exploratory scheduled-load saturation''),
     (''origin-sensitivity'', ''Exploratory origin-delay sensitivity''),
     (''origin-patterns'', ''Exploratory near-capacity, skew, changing, cold and one-pass traces''),
     (''http-secondary'', ''Exploratory HTTP replay and 1 MiB objects''),
     (''http-onepass'', ''Exploratory one-pass HTTP objects'')]"

definition CONSTRAINTS :: "(string \<times> string) list" where
  "CONSTRAINTS =
    [(''Dragonfly 2.0.0'', (''requires `maxmemory` of at least 256 MiB per proactor thread; with four threads it exits at 96 or 192 MiB with''
       @ '' `There are 4 threads, so 1.00GiB are required`. It is measured in the equal 1 GiB parity groups.'')),
     (''Dragonfly 2.0.0 tiered storage'', (''requires io_uring. This Docker Desktop VM forces Dragonfly's epoll fallback, under which the server aborts in ''
       @ ''`InitTieredStorage()`. No Dragonfly file-tier result exists here; the harness keeps the configuration for a ho''
       @ ''st that offers io_uring. CacheLib's Navy tier ran with `--enable_io_uring=false`.'')),
     (''Dragonfly 2.0.0 networking'', (''runs under its epoll fallback here: the server's io_uring probe fails inside this Docker Desktop VM even thoug''
       @ ''h `io_uring_disabled` is `0`. Dragonfly is designed around io_uring, so its rates in this environment understa''
       @ ''te what a host with usable io_uring would show. Every engine here shares that VM.'')),
     (''Garnet 2.1.8'', (''publishes neither `used_memory` nor `keyspace_hits`, so its cache-bytes and eviction columns are empty; its me''
       @ ''asured cgroup peak and per-object CPU are unaffected.'')),
     (''Kvrocks 2.17.0'', (''is a RocksDB-backed store, not an evicting cache. Its RAM budget is set as the RocksDB block cache and it keep''
       @ ''s the whole set on its file, so it appears in the file-tier groups, where that is the comparison being made.''))]"

section \<open>The order of the engines\<close>

definition mode_value :: "csv_row list \<Rightarrow> string \<Rightarrow> string \<Rightarrow> string \<Rightarrow> real option res" where
  "mode_value rows cs field engine = bindR (mode_rows rows cs engine) (\<lambda>rs. report_median rs field)"

definition ranking :: "csv_row list \<Rightarrow> string \<Rightarrow> string list \<Rightarrow> (string \<times> real) list res" where
  "ranking rows cs engines =
     bindR (mapR (\<lambda>engine. bindR (mode_value rows cs ''objects_s'' engine) (\<lambda>v. Inr (engine, v))) engines) (\<lambda>values.
       Inr (sort_key (\<lambda>pair. - snd pair) [(e, x). (e, v) \<leftarrow> values, x \<leftarrow> (case v of None \<Rightarrow> [] | Some x \<Rightarrow> [x])]))"

definition place :: "(string \<times> real) list \<Rightarrow> string \<Rightarrow> nat option" where
  "place order engine =
     (let names = map fst order in
      if engine \<in> set names then Some (length (takeWhile (\<lambda>e. e \<noteq> engine) names) + 1) else None)"

text \<open>\<open>dict(order)[engine]\<close>: of two entries the later one counts.\<close>

definition rate_of :: "(string \<times> real) list \<Rightarrow> string \<Rightarrow> real res" where
  "rate_of order engine = table_item (rev order) engine"

definition lead_text :: "string \<Rightarrow> real \<Rightarrow> real \<Rightarrow> string res" where
  "lead_text lab own second =
     bindR (py_div own second) (\<lambda>q.
       let lead = fl (fl (q - 1) * 100) in
       Inr ((''The next engine, '' @ lab @ '', served '' @ fixed_commas 0 second @ '' ('' @ fixed 1 lead @ ''% lower).'')))"

definition behind_text :: "string \<Rightarrow> real \<Rightarrow> real \<Rightarrow> string res" where
  "behind_text lab best own =
     bindR (py_div best own) (\<lambda>ratio. Inr ((lab @ '' led at '' @ fixed_commas 0 best @ '' ('' @ fixed 2 ratio @ [CHR 0xC3, CHR 0x97] @ '' the CacheLib rate).'')))"

definition comparison_sentence :: "csv_row list \<Rightarrow> spec \<Rightarrow> string \<Rightarrow> string option res" where
  "comparison_sentence rows spec subject =
     bindR (py_at (sp_cases spec) 0) (\<lambda>cs. bindR (ranking rows cs (sp_engines spec)) (\<lambda>order.
       case place order subject of
         None \<Rightarrow> Inr None
       | Some pos \<Rightarrow>
           bindR (py_at order 0) (\<lambda>(best_engine, best). bindR (rate_of order subject) (\<lambda>own.
           bindR (table_item landscape_LABELS subject) (\<lambda>subject_label.
           bindR (if pos = 1
                  then bindR (py_at order 1) (\<lambda>(runner, second). bindR (table_item landscape_LABELS runner) (\<lambda>lab. lead_text lab own second))
                  else bindR (table_item landscape_LABELS best_engine) (\<lambda>lab. behind_text lab best own)) (\<lambda>rest.
             Inr (Some ((subject_label @ '' placed '' @ str_nat pos @ '' of '' @ str_nat (length order) @ '' at '' @ fixed_commas 0 own @ '' median ''
       @ ''objects/s'' @ ''. '') @ rest))))))))"

section \<open>The headlines of the README\<close>

definition landscape_headline_specs :: "spec list" where
  "landscape_headline_specs = filter sp_headline landscape_GROUPS"

definition landscape_withheld :: "string list \<Rightarrow> string" where
  "landscape_withheld limited =
     ''Landscape comparisons are withheld because these groups did not qualify: '' @ join '', '' (map (\<lambda>name. ''`'' @ name @ ''`'') limited)
     @ ''. See the [landscape report](bench/strong/LANDSCAPE-1.8.0.md) for the retained results and limitations.''"

definition group_rows :: "release_files \<Rightarrow> string \<Rightarrow> string \<Rightarrow> csv_row list res" where
  "group_rows fs results name = rf_csv fs (path_join (path_join results name) ''runs.csv'')"

text \<open>\<open>next(s for s in GROUPS if s["name"] == name)\<close>.\<close>

definition spec_named :: "string \<Rightarrow> spec res" where
  "spec_named name = (case find (\<lambda>s. sp_name s = name) landscape_GROUPS of None \<Rightarrow> Inl StopIteration | Some s \<Rightarrow> Inr s)"

definition order_of :: "(string \<times> csv_row list) list \<Rightarrow> string \<Rightarrow> (string \<times> real) list res" where
  "order_of rows name =
     bindR (spec_named name) (\<lambda>spec. bindR (table_item rows name) (\<lambda>rs. bindR (py_at (sp_cases spec) 0) (\<lambda>cs.
       ranking rs cs (sp_engines spec))))"

definition line_of :: "(string \<times> csv_row list) list \<Rightarrow> string \<Rightarrow> string \<Rightarrow> string \<Rightarrow> nat \<Rightarrow> string res" where
  "line_of rows name engine field places =
     bindR (spec_named name) (\<lambda>spec. bindR (table_item rows name) (\<lambda>rs. bindR (py_at (sp_cases spec) 0) (\<lambda>cs.
     bindR (mode_value rs cs field engine) (\<lambda>v. Inr (number v places)))))"

definition hit_share :: "(string \<times> csv_row list) list \<Rightarrow> string \<Rightarrow> string res" where
  "hit_share rows engine =
     bindR (table_item rows ''hybrid'') (\<lambda>rs. bindR (rows_with ''engine'' engine rs) (\<lambda>selected.
     bindR (report_median selected ''hit_ratio'') (\<lambda>v. Inr (percent v))))"

definition primary_row :: "(string \<times> csv_row list) list \<Rightarrow> string \<times> real \<Rightarrow> string res" where
  "primary_row rows entry =
     (case entry of (engine, rate) \<Rightarrow>
        bindR (table_item landscape_LABELS engine) (\<lambda>lab. bindR (line_of rows ''primary'' engine ''p99_ms'' 3) (\<lambda>p99.
          Inr (''| '' @ lab @ '' | '' @ fixed_commas 0 rate @ '' | '' @ p99 @ '' ms |''))))"

definition hybrid_row :: "(string \<times> csv_row list) list \<Rightarrow> string \<times> real \<Rightarrow> string res" where
  "hybrid_row rows entry =
     (case entry of (engine, rate) \<Rightarrow>
        bindR (table_item landscape_LABELS engine) (\<lambda>lab. bindR (line_of rows ''hybrid'' engine ''objects_s'' 0) (\<lambda>objects.
        bindR (hit_share rows engine) (\<lambda>share. bindR (line_of rows ''hybrid'' engine ''origins'' 0) (\<lambda>origins.
          Inr (''| '' @ lab @ '' | '' @ objects @ '' | '' @ share @ '' | '' @ origins @ '' |''))))))"

definition comparator_tag :: "string \<Rightarrow> int \<Rightarrow> string res" where
  "comparator_tag role i = bindR (table_item landscape_COMPARATORS role) (\<lambda>s. py_at (split_on CHR '':'' s) i)"

definition none_text :: "string option \<Rightarrow> string" where
  "none_text s = (case s of None \<Rightarrow> ''None'' | Some t \<Rightarrow> t)"

definition landscape_text ::
  "(string \<times> csv_row list) list \<Rightarrow> (string \<times> real) list \<Rightarrow> (string \<times> real) list \<Rightarrow> string \<Rightarrow> string \<Rightarrow> string res"
where
  "landscape_text rows hybrid parity table hybrid_table =
     bindR (comparator_tag ''redis'' 1) (\<lambda>t1. bindR (comparator_tag ''valkey'' 1) (\<lambda>t2. bindR (comparator_tag ''memcached'' 1) (\<lambda>t3.
     bindR (comparator_tag ''dragonfly'' (- 1)) (\<lambda>t4. bindR (comparator_tag ''garnet'' (- 1)) (\<lambda>t5. bindR (comparator_tag ''kvrocks'' (- 1)) (\<lambda>t6.
     bindR (line_of rows ''hybrid'' ''grpc_nvm'' ''origins'' 0) (\<lambda>origins. bindR (hit_share rows ''grpc_nvm'') (\<lambda>share.
     bindR (rate_of hybrid ''grpc_nvm'') (\<lambda>navy. bindR (rate_of hybrid ''grpc'') (\<lambda>dram.
     bindR (py_at parity 0) (\<lambda>(leader, lead). bindR (table_item landscape_LABELS leader) (\<lambda>leader_label.
     bindR (line_of rows ''parity1g-hit'' ''grpc'' ''objects_s'' 0) (\<lambda>parity_grpc.
     bindR (table_item rows ''primary'') (\<lambda>rs. bindR (spec_named ''primary'') (\<lambda>spec. bindR (comparison_sentence rs spec ''grpc'') (\<lambda>sentence.
       Inr ((''Measured on native Linux arm64 under Docker Desktop on Apple Silicon with 8 Docker'' @ newline
       @ ''CPUs, against the current releases of every comparable service: Redis'' @ newline @ t1 @ '', Valkey '' @ t2
       @ '', Memcached'' @ newline @ t3 @ '', Dragonfly '' @ t4 @ '','' @ newline @ ''Garnet '' @ t5 @ '' and Kvrocks '' @ t6
       @ ''.'' @ newline @ ''The engine measured here is the published `1.8.0` image, not a local build.'' @ newline
       @ ''Medians of five 60-second repetitions; every headline run had zero request'' @ newline
       @ ''errors. KV services each received four CPUs and a 768 MiB container limit;'' @ newline
       @ ''clients received four separate CPUs.'' @ newline @ newline
       @ ''**1 KiB cache hits over eight connections, 96 MiB configured DRAM:**'' @ newline @ newline
       @ ''| Service | Requests/s | p99 |'' @ newline @ ''|---|---:|---:|'' @ newline @ table @ newline @ newline
       @ ''**A 128 MiB reusable set of 64 KiB objects against 96 MiB of configured DRAM,'' @ newline
       @ ''with a simulated 5 ms origin** '' @ [CHR 0xE2, CHR 0x80, CHR 0x94]
       @ '' what a cache is for when the data does not fit:'' @ newline @ newline
       @ ''| Service | Objects/s | Hit ratio | Origin requests |'' @ newline @ ''|---|---:|---:|---:|'' @ newline @ hybrid_table
       @ newline @ newline @ ''- **The flash tier is the point, and it is not unique.** CacheLib's Navy file'' @ newline
       @ ''  tier eliminated origin traffic entirely ('' @ origins @ '' origin'' @ newline @ ''  requests, '' @ share @ newline
       @ ''  hit ratio) and served '' @ fixed_commas 0 navy @ '' objects/s against'' @ newline @ ''  '' @ fixed_commas 0 dram
       @ '' for the same service with RAM alone. Memcached extstore,'' @ newline
       @ ''  Garnet's storage tier and Kvrocks also removed the misses, and on this host'' @ newline
       @ ''  they did so at higher rates. Navy's distinguishing property here is that it'' @ newline
       @ ''  needs no io_uring: Dragonfly's tier could not start at all under this VM's'' @ newline @ ''  epoll fallback.''
       @ newline @ ''- **Small memory budgets are a real constraint.** Dragonfly 2.0.0 refuses to'' @ newline
       @ ''  start below 256 MiB per thread, so it cannot be configured at 96 or 192 MiB;'' @ newline
       @ ''  it is measured separately at an equal 1 GiB budget, where'' @ newline @ ''  '' @ leader_label @ '' led at ''
       @ fixed_commas 0 lead @ '' objects/s and CacheLib gRPC'' @ newline @ ''  served '' @ parity_grpc @ ''.'' @ newline
       @ ''- **Raw all-RAM throughput is not this service's advantage.**'' @ newline @ ''  '' @ none_text sentence @ newline
       @ ''  What it adds over those engines is a gRPC contract with streaming pipelines,'' @ newline
       @ ''  ordered multi-key operations, binary-safe values, Prometheus metrics, and a'' @ newline
       @ ''  DRAM+flash tier that works without io_uring.'' @ newline @ newline
       @ ''Full tables, per-run evidence and every recorded limitation:'' @ newline
       @ ''[landscape report](bench/strong/LANDSCAPE-1.8.0.md). These are shared laptop-VM'' @ newline
       @ ''results, not native amd64 or dedicated-Linux performance claims. Origin delay is'' @ newline
       @ ''simulated; file tiers traverse Docker Desktop and host page caches, so no'' @ newline
       @ ''physical SSD latency, endurance or cost claim follows. None of these comparisons'' @ newline
       @ ''enables persistence, replication, compression, authentication or TLS.''))))))))))))))))))"

definition landscape_headlines :: "release_files \<Rightarrow> string \<Rightarrow> string \<Rightarrow> string res" where
  "landscape_headlines fs runs results =
     bindR (unqualified fs runs landscape_headline_specs) (\<lambda>limited.
     if limited \<noteq> [] then Inr (landscape_withheld limited)
     else bindR (mapR (\<lambda>spec. bindR (group_rows fs results (sp_name spec)) (\<lambda>rs. Inr (sp_name spec, rs))) landscape_headline_specs) (\<lambda>rows.
       bindR (order_of rows ''primary'') (\<lambda>primary. bindR (order_of rows ''hybrid'') (\<lambda>hybrid.
       bindR (order_of rows ''parity1g-hit'') (\<lambda>parity.
       bindR (mapR (primary_row rows) primary) (\<lambda>table. bindR (mapR (hybrid_row rows) hybrid) (\<lambda>hybrid_table.
         landscape_text rows hybrid parity (join newline table) (join newline hybrid_table))))))))"

definition replace_landscape_headlines :: "string \<Rightarrow> string \<Rightarrow> string res" where
  "replace_landscape_headlines =
     replace_block LANDSCAPE_BEGIN LANDSCAPE_END ''README must contain exactly one generated landscape-headlines block'' ''README landscape-headlines markers are out of order''"

section \<open>The report\<close>

definition landscape_incomplete :: exn where
  "landscape_incomplete = ValueError ''Campaign incomplete; every planned group must finish before rendering claims''"

definition landscape_verdict :: "string list \<Rightarrow> bool \<Rightarrow> string list \<Rightarrow> string" where
  "landscape_verdict failed problems limited =
     ((''The campaign attempted **'' @ str_nat (sum_list (map (\<lambda>g. length (expected_runs g)) landscape_GROUPS))
       @ '' independent runs across '' @ str_nat (length landscape_GROUPS) @ '' groups** covering ''
       @ str_nat (card (set (concat (map sp_engines landscape_GROUPS)))) @ '' service configurations. '')) @
     (if failed = [] \<and> \<not> problems
      then (''All groups passed their correctness and completeness requirements. '' @ str_nat (length limited)
       @ '' groups have disclosed limits on headline claims.'')
      else (''**Qualification incomplete:** '' @ str_nat (length failed)
       @ '' groups failed; affected measurements are retained below and do not support claims.''))"

definition landscape_image_line :: "('a) pyrepr_scheme \<Rightarrow> string \<times> json \<Rightarrow> string res" where
  "landscape_image_line P entry =
     (case entry of (role, identity) \<Rightarrow>
        let version = (if role \<in> {''go'', ''python''} then ''benchmark client'' else version_or landscape_VERSIONS role dash) in
        bindR (str_item_of P identity ''id'') (\<lambda>image_id. Inr ((''| '' @ role @ '' | '' @ version @ '' | `'' @ image_id @ ''` |''))))"

definition landscape_method_lines :: "string list" where
  "landscape_method_lines =
    [[],
     ''## Method and interpretation'',
     [],
     (''Headline groups retain five 60-second repetitions per mode after at least 15 seconds of warmup. The KV client ''
       @ ''checks the last three five-second warmup windows for a maximum 10% deviation from their mean, extending warmup''
       @ '' up to 60 seconds. The HTTP client performs 15 seconds of warmup and full-body checks; it does not implement t''
       @ ''he KV stability-window test. Engine order is deterministically shuffled within repetitions. Exploratory groups''
       @ '' use one or two shorter repetitions and establish no precise population ranking.''),
     [],
     (''KV services receive CPUs 0'' @ [CHR 0xE2, CHR 0x80, CHR 0x93] @ ''3; clients receive CPUs 4'' @ [CHR 0xE2, CHR 0x80, CHR 0x93]
       @ ''7 and 1,024 MiB. Container limits are 768 MiB, except 384 MiB in the objective groups and 2,048 MiB in the equ''
       @ ''al-1 GiB parity groups. Configured cache capacity is 96 MiB unless the group says 192 MiB or 1 GiB. Navy, exts''
       @ ''tore, Garnet's storage tier and Kvrocks receive a 512 MiB task-owned file at the same mount, or a 4 GiB file i''
       @ ''n the SSD groups, which also raise DRAM to 256 MiB and the container limit to 1 GiB. Container swap is disable''
       @ ''d; no host ports are published.''),
     [],
     (''The SSD groups exist because the 96 MiB/512 MiB groups do not put a file tier under pressure: a 128 MiB workin''
       @ ''g set in a 512 MiB file never forces the tier to reclaim space, and eight connections never make it serve conc''
       @ ''urrent reads. Those groups drive a 2 GiB working set through a 4 GiB file at 32 connections, the same volume i''
       @ ''n 16 KiB objects, 10,000 scheduled arrivals/s over 64 connections, and five-minute runs so that reclaim and co''
       @ ''mpaction reach steady state. Each run's backing-file size is recorded in its `flash-usage.json` and the file i''
       @ ''s then deleted, so a 503-run campaign does not retain hundreds of GiB; device-byte counters and the recorded s''
       @ ''izes remain the evidence.''),
     [],
     (''Every response is byte-verified, and every engine passes a key-specific correctness probe '' @ [CHR 0xE2, CHR 0x80, CHR 0x94]
       @ '' miss, binary round trip, overwrite, delete and TTL expiry '' @ [CHR 0xE2, CHR 0x80, CHR 0x94]
       @ '' before its measurement. The timed payload is shared across keys, so timed checks alone do not detect a wrong-''
       @ ''key response; that is what the separate probe is for. Closed-loop latency omits requests that could have arriv''
       @ ''ed while a worker was blocked. Offered-load latency includes scheduled-arrival queueing, and dropped arrivals ''
       @ ''remain visible. One operation is one object; batch latency is per 16-object batch/window. Medians summarize se''
       @ ''parate runs, including their per-run p99s; latency samples are never pooled. Closed-loop absolute origin count''
       @ ''s reflect different completed request counts, so use hit ratios or the equal-demand offered-load group when co''
       @ ''mparing origin traffic. Groups with different budgets ran as separate series; cross-series rates are descripti''
       @ ''ve.''),
     [],
     (''A KV origin miss simulates a fixed 1, 5 or 20 ms wait before filling the cache; HTTP uses a separate local ori''
       @ ''gin with a 5 ms sleep. These are different origin models. File tiers traverse Docker Desktop and host page cac''
       @ ''hes: these results do not measure physical SSD latency, NAND writes, endurance or financial savings. A larger ''
       @ ''configured cache is not the same as a larger measured process footprint. Engines differ in eviction policy ''
       @ [CHR 0xE2, CHR 0x80, CHR 0x94]
       @ '' Redis and Valkey run `allkeys-lru`, Memcached its segmented LRU, Garnet drops the head of its hybrid log, Kvr''
       @ ''ocks evicts nothing '' @ [CHR 0xE2, CHR 0x80, CHR 0x94]
       @ '' and that difference is part of what the hit-ratio columns measure.'')]"

definition landscape_head_lines ::
  "('a) pyrepr_scheme \<Rightarrow> release_files \<Rightarrow> string \<Rightarrow> json \<Rightarrow> string list \<Rightarrow> bool \<Rightarrow> string list \<Rightarrow> string list res"
where
  "landscape_head_lines P fs results campaign failed problems limited =
     bindR (first10 campaign ''started_utc'') (\<lambda>started. bindR (first10 campaign ''finished_utc'') (\<lambda>finished.
     bindR (subscript campaign ''images'') (\<lambda>images. bindR (dict_of images) (\<lambda>d.
     bindR (mapR (landscape_image_line P) d) (\<lambda>image_lines.
     bindR (relative (rf_root fs) (path_join results ''campaign.json'')) (\<lambda>campaign_path.
     bindR (str_item_of P campaign ''git_commit'') (\<lambda>git_commit. bindR (str_item_of P campaign ''host'') (\<lambda>host.
     bindR (subscript campaign ''docker'') (\<lambda>docker.
     bindR (str_item_of P docker ''ServerVersion'') (\<lambda>server_version. bindR (str_item_of P docker ''KernelVersion'') (\<lambda>kernel_version.
     bindR (str_item_of P docker ''NCPU'') (\<lambda>ncpu.
     bindR (subscript docker ''MemTotal'') (\<lambda>mem. bindR (num_of mem) (\<lambda>mem_total.
       Inr ([''# 1.8.0 against the current Redis-compatible landscape'', [],
             (''Measured '' @ started @ '' to '' @ finished @ '' using native arm64 containers in Docker Desktop''
       @ [CHR 0xE2, CHR 0x80, CHR 0x99] @ ''s Linux VM on macOS.''),
             landscape_verdict failed problems limited,
             [], (''This report is generated from the committed campaign, per-run JSON, and CSV data by [render_landscape_report.p''
       @ ''y](render_landscape_report.py). It is a separate campaign from the [1.8.0 release qualification](RELEASE-1.8.0''
       @ ''.md), the [September 23 candidate report](REPORT.md) and the [historical 1.6.0 page](../../BENCHMARKS.md): dif''
       @ ''ferent comparator versions, different engine set, different runs. No numbers are pooled across those reports.''),
             [], ''## What was measured'', [],
             ''| Role | Released build | Measured immutable image ID |'', ''|---|---|---|'']
            @ image_lines
            @ [[], (''The service under test is the **published release image**, pulled from its registry rather than rebuilt: an im''
       @ ''age-ID or digest equality check is required before equating another artifact with these results. Comparator im''
       @ ''ages came from their own registries. All tags were resolved once to immutable IDs; no image build ran during m''
       @ ''easurement.''), [],
             (''- Campaign: ['' @ campaign_path @ '']('' @ campaign_path @ '').''),
             (''- Source base commit: `'' @ git_commit @ ''`. Each group manifest records dirty-tree status and harness SHA-256.''),
             (''- Host: `'' @ host @ ''`.''),
             (''- Docker: `'' @ server_version @ ''`, kernel `'' @ kernel_version @ ''`, '' @ ncpu @ '' CPUs, ''
       @ fixed 1 (fl (mem_total / 1073741824)) @ '' GiB VM memory.''),
             [], ''### Configuration limits that decided the engine sets'', [], (''These were measured on this host while preparing the campaign. They are properties of the engines and this env''
       @ ''ironment, not choices made to favour a result.''), []]
            @ map (\<lambda>(subject, detail). ''- **'' @ subject @ ''** '' @ detail) CONSTRAINTS
            @ landscape_method_lines)))))))))))))))"

definition landscape_caveats :: "string \<Rightarrow> string list" where
  "landscape_caveats name =
     (if name = ''parity1g-hit'' then [[], (''This group exists because Dragonfly cannot be configured at the 96 MiB budget used elsewhere. Every engine her''
       @ ''e has the same 1 GiB configured cache and 2 GiB container limit, so this is the equal-budget comparison that i''
       @ ''ncludes Dragonfly.'')] else [])
     @ (if name = ''ssd-overcapacity'' then [[], (''The working set is larger than the file here, so no engine can avoid every origin request and the tier reclaim''
       @ ''s space throughout. The run starts with an empty tier and no preload: warmup fills it, and the hit ratios belo''
       @ ''w are what each engine achieved while continuously evicting.'')] else [])
     @ (if name = ''ssd-offered'' then [[], (''This group offers 10,000 arrivals/s whether or not an engine can serve them from a file tier at this volume. D''
       @ ''ropped arrivals are the measurement: they show where scheduled demand exceeded what the tier delivered, and th''
       @ ''ey do not limit the other groups' claims.'')] else [])
     @ (if name = ''offered-saturation'' then [[], (''Dropped arrivals represent overload outcomes and are retained; request errors remain qualification failures. R''
       @ ''ates in this exploratory sweep do not establish a precise saturation threshold.'')] else [])
     @ (if name = ''origin-patterns'' then [[], (''The cold-start case intentionally has zero warmup and reports `warmup_stable=false`. Its startup results are n''
       @ ''ot steady-state rates. A changing hot set or one-pass trace tests reuse, not playback.'')] else [])
     @ (if name = ''http-onepass'' then [[], ''Direct origin has no allocated cache path and is a reference, not an equal-resource cache comparison.''] else [])"

definition case_lines :: "csv_row list \<Rightarrow> string list \<Rightarrow> string \<Rightarrow> string list res" where
  "case_lines rows engines cs =
     bindR (ranking rows cs engines) (\<lambda>order.
       mapR (mode_line landscape_LABELS rows cs) (if order = [] then engines else map fst order))"

definition landscape_section ::
  "report_text \<Rightarrow> release_files \<Rightarrow> string \<Rightarrow> string \<Rightarrow> spec \<times> validation \<Rightarrow> ((string \<times> csv_row list) \<times> string list) res"
where
  "landscape_section P fs runs results entry =
     (case entry of (spec, v) \<Rightarrow>
        let name = sp_name spec in
        bindR (group_rows fs results name) (\<lambda>rows.
        bindR (section_top landscape_TITLES fs runs results spec rows) (\<lambda>top.
        bindR (mapR (case_lines rows (sp_engines spec)) (sp_cases spec)) (\<lambda>modes.
          Inr ((name, rows), top @ concat modes @ remark_lines P spec v @ landscape_caveats name)))))"

definition ORDER_GROUPS :: "string list" where
  "ORDER_GROUPS = [''primary'', ''parity1g-hit'', ''hybrid'', ''ssd-highvolume'', ''ssd-overcapacity'',
     ''ssd-small-objects'', ''ssd-offered'', ''ssd-sustained'', ''offered'', ''parity1g-origin'', ''flash384'']"

definition order_lines :: "(string \<times> validation) list \<Rightarrow> (string \<times> csv_row list) list \<Rightarrow> string \<Rightarrow> string list res" where
  "order_lines validations all_rows name =
     bindR (spec_named name) (\<lambda>spec. bindR (table_item validations name) (\<lambda>v.
       if \<not> va_qualified v then Inr [''- `'' @ name @ ''`: withheld; the group recorded limits on its claim.'', []]
       else let subject = (if ''grpc_nvm'' \<in> set (sp_engines spec) then ''grpc_nvm'' else ''grpc'') in
         bindR (table_item all_rows name) (\<lambda>rows. bindR (comparison_sentence rows spec subject) (\<lambda>sentence.
           case sentence of None \<Rightarrow> Inr []
           | Some s \<Rightarrow> if s = [] then Inr []
               else bindR (table_item landscape_TITLES name) (\<lambda>title. Inr [''- **'' @ title @ ''.** '' @ s, []])))))"

text \<open>\<open>max(engines, key=...)\<close>: the first of the largest.\<close>

fun best_by :: "(string \<Rightarrow> real) \<Rightarrow> string \<Rightarrow> string list \<Rightarrow> string" where
  "best_by f b [] = b"
| "best_by f b (e # es) = best_by f (if f b < f e then e else b) es"

definition tier_lines :: "(string \<times> validation) list \<Rightarrow> (string \<times> csv_row list) list \<Rightarrow> string list res" where
  "tier_lines validations all_rows =
     bindR (table_item validations ''hybrid'') (\<lambda>v.
       if \<not> va_qualified v then Inr []
       else bindR (order_of all_rows ''hybrid'') (\<lambda>order.
         let names = map fst order; rate = (\<lambda>e. case map_of (rev order) e of None \<Rightarrow> 0 | Some x \<Rightarrow> x);
             dram_only = filter (\<lambda>e. e \<in> set names) [''grpc'', ''redis'', ''valkey'', ''memcached'', ''garnet''] in
         case dram_only of
           [] \<Rightarrow> Inr []
         | b # es \<Rightarrow>
             let best_dram = best_by rate b es in
             if ''grpc_nvm'' \<notin> set names then Inr []
             else bindR (table_item landscape_LABELS best_dram) (\<lambda>best_label. Inr [(''- **A file tier, not a faster loop, is what removes the origin traffic.** The best DRAM-only engine in that gr'' @ ''oup, ''
       @ best_label @ '', served '' @ fixed_commas 0 (rate best_dram)
       @ '' objects/s; every engine with a file tier served multiples of that. The tier, not the protocol, is the variabl''
       @ ''e.''), []])))"

definition landscape_limits :: "bool \<Rightarrow> string list" where
  "landscape_limits restricted = (if restricted then [(''The affected groups' recorded limits prevent their corresponding claims. Qualified groups are interpreted inde''
       @ ''pendently; an exploratory overload outcome does not invalidate another group's measurements.''), []] else [])"

definition landscape_scope_lines :: "string list" where
  "landscape_scope_lines =
    [''## Scope and reproduction'',
     [],
     (''The service caches whole binary objects over gRPC. It supplies no HTTP/range delivery, authentication, TLS, re''
       @ ''plication, sharding, warm restart, recording, playback buffering or media transport. Navy files are truncated ''
       @ ''on startup. Simulated origin avoidance demonstrates reuse under the disclosed trace; it does not establish pro''
       @ ''duction cost, viewer latency, frame continuity or streaming quality. The capability differences named in this ''
       @ ''report '' @ [CHR 0xE2, CHR 0x80, CHR 0x94]
       @ '' the gRPC contract, streaming Pipeline, ordered multi-key operations, Prometheus metrics ''
       @ [CHR 0xE2, CHR 0x80, CHR 0x94] @ '' are properties of the interface, measured here only where a table measures them.''),
     [],
     (''Run the complete campaign with [the documented local Docker commands](README.md#current-landscape-campaign). A''
       @ ''ll attempts and shuffled schedules remain in the raw manifests. The generated CSVs include per-run rates, late''
       @ ''ncy percentiles, resource observations, tier counters and backing-file allocations. The report check verifies ''
       @ ''campaign completeness, raw-run qualification and CSV-derived tables; it never modifies the other reports.''),
     []]"

definition render_landscape :: "report_text \<Rightarrow> release_files \<Rightarrow> string \<Rightarrow> string \<Rightarrow> string res" where
  "render_landscape P fs runs results =
     bindR (rf_json fs (path_join results ''campaign.json'')) (\<lambda>campaign.
     bindR (finished_progress landscape_GROUPS landscape_incomplete campaign) (\<lambda>progress.
     bindR (check_evidence fs progress) (\<lambda>u.
     bindR (mapR (group_validation fs runs) landscape_GROUPS) (\<lambda>vs.
     bindR (failed_groups progress) (\<lambda>failed.
       let validations = zip (map sp_name landscape_GROUPS) vs;
           problems = list_ex (\<lambda>v. va_problems v \<noteq> []) vs;
           limited = map fst (filter (\<lambda>(n, v). va_limitations v \<noteq> []) validations) in
       bindR (landscape_head_lines P fs results campaign failed problems limited) (\<lambda>head.
       bindR (mapR (landscape_section P fs runs results) (zip landscape_GROUPS vs)) (\<lambda>sections.
       bindR (mapR (order_lines validations (map fst sections)) ORDER_GROUPS) (\<lambda>orders.
       bindR (tier_lines validations (map fst sections)) (\<lambda>tier.
         Inr (join newline (head @ concat (map snd sections)
           @ [[], ''## Where 1.8.0 leads and where it does not'', [], (''Each statement below is the measured order in one qualified group, in whichever direction the measurement came'' @ '' out.''), []]
           @ concat orders @ tier @ landscape_limits (limited \<noteq> [] \<or> failed \<noteq> [] \<or> problems) @ landscape_scope_lines)))))))))))"

definition landscape_main :: "report_text \<Rightarrow> release_files \<Rightarrow> string \<Rightarrow> string \<Rightarrow> bool \<Rightarrow> string option \<Rightarrow> string \<Rightarrow> unit res \<times> string option \<times> string" where
  "landscape_main P fs runs results check report readme =
     write_or_check ''LANDSCAPE-1.8.0.md'' ''Landscape report differs from campaign/raw results; rerun renderer without --check'' ''README landscape headlines differ from qualified results; rerun renderer without --check'' check report readme
       (bindR (render_landscape P fs runs results) (\<lambda>rendered. bindR (landscape_headlines fs runs results) (\<lambda>headlines.
        bindR (replace_landscape_headlines readme headlines) (\<lambda>page. Inr (rendered, page)))))"

section \<open>The order is the measured one\<close>

lemma ranking_pairs:
  assumes "ranking rows cs engines = Inr order"
  shows "mset order = mset [(e, x). e \<leftarrow> engines, x \<leftarrow> (case mode_value rows cs ''objects_s'' e of Inr (Some x) \<Rightarrow> [x] | _ \<Rightarrow> [])]"
    and "sorted (map (\<lambda>p. - snd p) order)" and "\<forall>e \<in> set engines. \<exists>v. mode_value rows cs ''objects_s'' e = Inr v"
proof -
  let ?f = "\<lambda>engine. bindR (mode_value rows cs ''objects_s'' engine) (\<lambda>v. Inr (engine, v))"
  let ?g = "\<lambda>vals. [(e, x). (e, v) \<leftarrow> vals, x \<leftarrow> (case v of None \<Rightarrow> [] | Some x \<Rightarrow> [x])]"
  obtain vals where v: "mapR ?f engines = Inr vals" "order = sort_key (\<lambda>pair. - snd pair) (?g vals)"
    using assms by (auto simp: ranking_def)
  have "?g vals = [(e, x). e \<leftarrow> engines, x \<leftarrow> (case mode_value rows cs ''objects_s'' e of Inr (Some x) \<Rightarrow> [x] | _ \<Rightarrow> [])]"
    using v(1) by (induction engines arbitrary: vals) (auto split: option.splits)
  then show "mset order = mset [(e, x). e \<leftarrow> engines, x \<leftarrow> (case mode_value rows cs ''objects_s'' e of Inr (Some x) \<Rightarrow> [x] | _ \<Rightarrow> [])]"
    by (simp add: v(2))
  show "sorted (map (\<lambda>p. - snd p) order)" unfolding v(2) by (rule sorted_sort_key)
  show "\<forall>e \<in> set engines. \<exists>v. mode_value rows cs ''objects_s'' e = Inr v"
  proof
    fix e assume "e \<in> set engines"
    from mapR_pairs [OF v(1) this] show "\<exists>v. mode_value rows cs ''objects_s'' e = Inr v" by auto
  qed
qed

lemma ranking_member:
  assumes "ranking rows cs engines = Inr order"
  shows "(e, x) \<in> set order \<longleftrightarrow> e \<in> set engines \<and> mode_value rows cs ''objects_s'' e = Inr (Some x)"
proof -
  have "set order = set [(e, x). e \<leftarrow> engines, x \<leftarrow> (case mode_value rows cs ''objects_s'' e of Inr (Some x) \<Rightarrow> [x] | _ \<Rightarrow> [])]"
    using ranking_pairs(1) [OF assms] by (rule mset_eq_setD)
  moreover have "set [(e, x). e \<leftarrow> engines, x \<leftarrow> (case mode_value rows cs ''objects_s'' e of Inr (Some x) \<Rightarrow> [x] | _ \<Rightarrow> [])]
      = {(e, x). e \<in> set engines \<and> mode_value rows cs ''objects_s'' e = Inr (Some x)}"
    by (force split: sum.splits option.splits)
  ultimately show ?thesis by simp
qed

lemma ranking_distinct:
  assumes "ranking rows cs engines = Inr order" and "distinct engines" shows "distinct (map fst order)"
proof -
  define h where "h = (\<lambda>e. case mode_value rows cs ''objects_s'' e of Inr (Some x) \<Rightarrow> [x] | _ \<Rightarrow> [])"
  have one: "h e = [] \<or> (\<exists>x. h e = [x])" for e by (auto simp: h_def split: sum.splits option.splits)
  have names: "set (map fst [(e, x). e \<leftarrow> es, x \<leftarrow> h e]) \<subseteq> set es" for es by auto
  have d: "distinct (map fst [(e, x). e \<leftarrow> es, x \<leftarrow> h e])" if "distinct es" for es
    using that
  proof (induction es)
    case (Cons e es)
    with names [of es] one [of e] show ?case by auto
  qed simp
  have "mset order = mset [(e, x). e \<leftarrow> engines, x \<leftarrow> h e]" using ranking_pairs(1) [OF assms(1)] unfolding h_def .
  then have "mset (map fst order) = mset (map fst [(e, x). e \<leftarrow> engines, x \<leftarrow> h e])" by (metis mset_map)
  from mset_eq_imp_distinct_iff [OF this] d [OF assms(2)] show ?thesis by blast
qed

text \<open>An engine's place lies after all engines with a higher rate and not after those with a lower one.\<close>

lemma place_bounds:
  assumes "place order engine = Some k" and "(engine, own) \<in> set order" and "distinct (map fst order)"
    and "sorted (map (\<lambda>p. - snd p) order)"
  shows "length (filter (\<lambda>p. own < snd p) order) < k" and "k \<le> length (filter (\<lambda>p. own \<le> snd p) order)"
proof -
  obtain a b where ab: "order = a @ (engine, own) # b" using split_list [OF assms(2)] by blast
  then have "engine \<notin> fst ` set a" using assms(3) by auto
  then have "takeWhile (\<lambda>e. e \<noteq> engine) (map fst a @ engine # map fst b) = map fst a" by (subst takeWhile_append2) auto
  then have k: "k = length a + 1" using assms(1) ab by (auto simp: place_def Let_def split: if_splits)
  have le: "snd p \<le> own" if "p \<in> set b" for p using assms(4) that ab by (auto simp: sorted_append)
  have ge: "own \<le> snd p" if "p \<in> set a" for p using assms(4) that ab by (auto simp: sorted_append)
  have "filter (\<lambda>p. own < snd p) b = []" using le by (auto simp: filter_empty_conv not_less)
  then show "length (filter (\<lambda>p. own < snd p) order) < k"
    by (simp add: ab k le_imp_less_Suc)
  have "filter (\<lambda>p. own \<le> snd p) a = a" using ge by (simp add: filter_id_conv)
  then show "k \<le> length (filter (\<lambda>p. own \<le> snd p) order)" by (simp add: ab k)
qed

text \<open>
  C27. A comparison states the measured order, whichever way it came out: if \<open>comparison_sentence\<close> returns a sentence
  about an engine, it begins with the engine's label, its place among the engines of the group that have a median, and
  its own median rate; fewer than that many engines have a higher median, and at least that many have one as high.
\<close>

theorem comparison_states_order:
  assumes "comparison_sentence rows spec subject = Inr (Some s)" and "distinct (sp_engines spec)"
  shows "\<exists>cs order own k lab. py_at (sp_cases spec) 0 = Inr cs \<and> ranking rows cs (sp_engines spec) = Inr order
    \<and> mode_value rows cs ''objects_s'' subject = Inr (Some own) \<and> map_of landscape_LABELS subject = Some lab
    \<and> prefix (lab @ '' placed '' @ str_nat k @ '' of '' @ str_nat (length order) @ '' at '' @ fixed_commas 0 own @ '' median objects/s. '') s
    \<and> length (filter (\<lambda>p. own < snd p) order) < k \<and> k \<le> length (filter (\<lambda>p. own \<le> snd p) order)"
proof -
  obtain cs order k where c: "py_at (sp_cases spec) 0 = Inr cs" "ranking rows cs (sp_engines spec) = Inr order" "place order subject = Some k"
    using assms(1) by (auto simp: comparison_sentence_def split: option.splits)
  obtain own lab rest where o: "rate_of order subject = Inr own" "table_item landscape_LABELS subject = Inr lab"
      "s = (lab @ '' placed '' @ str_nat k @ '' of '' @ str_nat (length order) @ '' at '' @ fixed_commas 0 own @ '' median '' @ ''objects/s'' @ ''. '') @ rest"
    using assms(1) c unfolding comparison_sentence_def by (simp add: split_beta) (elim bindR_InrE, auto)
  have mem: "(subject, own) \<in> set order" using o(1) by (auto simp: rate_of_def table_item_def split: option.splits dest: map_of_SomeD)
  note b = place_bounds [OF c(3) mem ranking_distinct [OF c(2) assms(2)] ranking_pairs(2) [OF c(2)]]
  have "mode_value rows cs ''objects_s'' subject = Inr (Some own)" using mem ranking_member [OF c(2)] by blast
  moreover have "map_of landscape_LABELS subject = Some lab" using o(2) by (auto simp: table_item_def split: option.splits)
  moreover have "s = (lab @ '' placed '' @ str_nat k @ '' of '' @ str_nat (length order) @ '' at '' @ fixed_commas 0 own @ '' median objects/s. '') @ rest"
    by (simp add: o(3))
  then have "prefix (lab @ '' placed '' @ str_nat k @ '' of '' @ str_nat (length order) @ '' at '' @ fixed_commas 0 own @ '' median objects/s. '') s"
    by (rule prefixI)
  ultimately show ?thesis using c(1,2) b by blast
qed

definition sample_order_rows :: "csv_row list" where
  "sample_order_rows = [[(''case'', ''c1''), (''engine'', ''grpc''), (''objects_s'', ''500'')], [(''case'', ''c1''), (''engine'', ''redis''), (''objects_s'', ''900'')]]"

definition sample_order_spec :: spec where
  "sample_order_spec = group ''primary'' ''c1'' ''grpc,redis'' 1 60 ''kv'' 96 768 True 15 None False False"

lemma sample_order: "ranking sample_order_rows ''c1'' [''grpc'', ''redis''] = Inr [(''redis'', 900), (''grpc'', 500)]"
proof -
  have f: "float_of_string ''500'' = Inr 500" "float_of_string ''900'' = Inr 900"
    by (simp_all add: float_of_string_def scaled_def decimal_def split_once.simps is_digit_def nat_of_digits_def digit_val_def)
  have "py_median [x] = Inr x" for x using py_median_odd [of "[x]" 0] by simp
  then have "mode_value sample_order_rows ''c1'' ''objects_s'' ''grpc'' = Inr (Some 500)"
      "mode_value sample_order_rows ''c1'' ''objects_s'' ''redis'' = Inr (Some 900)"
    by (simp_all add: mode_value_def mode_rows_def sample_order_rows_def cell_def report_median_def f)
  then show ?thesis by (simp add: ranking_def)
qed

theorem comparison_states_order_witness:
  "\<exists>s k. comparison_sentence sample_order_rows sample_order_spec ''grpc'' = Inr (Some s)
    \<and> prefix (''CacheLib gRPC DRAM'' @ '' placed '' @ str_nat k @ '' of '' @ str_nat 2) s \<and> 1 < k \<and> k \<le> 2"
proof -
  have spec: "sp_cases sample_order_spec = [''c1'']" "sp_engines sample_order_spec = [''grpc'', ''redis'']"
    by (simp_all add: sample_order_spec_def group_def)
  have "\<exists>s. comparison_sentence sample_order_rows sample_order_spec ''grpc'' = Inr (Some s)"
    by (simp add: comparison_sentence_def spec sample_order place_def rate_of_def table_item_def landscape_LABELS_def behind_text_def py_div_def py_at_def)
  then obtain s where s: "comparison_sentence sample_order_rows sample_order_spec ''grpc'' = Inr (Some s)" ..
  have "distinct (sp_engines sample_order_spec)" by (simp add: spec)
  from comparison_states_order [OF s this] obtain order own k lab where c: "ranking sample_order_rows ''c1'' [''grpc'', ''redis''] = Inr order"
      "mode_value sample_order_rows ''c1'' ''objects_s'' ''grpc'' = Inr (Some own)" "map_of landscape_LABELS ''grpc'' = Some lab"
      "prefix (lab @ '' placed '' @ str_nat k @ '' of '' @ str_nat (length order) @ '' at '' @ fixed_commas 0 own @ '' median objects/s. '') s"
      "length (filter (\<lambda>p. own < snd p) order) < k" "k \<le> length (filter (\<lambda>p. own \<le> snd p) order)"
    by (auto simp: spec py_at_def)
  have order: "order = [(''redis'', 900), (''grpc'', 500)]" using c(1) sample_order by simp
  have "(''grpc'', own) \<in> set order" using c(2) ranking_member [OF c(1)] by simp
  then have "own = 500" by (auto simp: order)
  have "lab = ''CacheLib gRPC DRAM''" using c(3) by (simp add: landscape_LABELS_def)
  then have "prefix ((''CacheLib gRPC DRAM'' @ '' placed '' @ str_nat k @ '' of '' @ str_nat 2) @ '' at '' @ fixed_commas 0 500 @ '' median objects/s. '') s"
    using c(4) \<open>own = 500\<close> by (simp add: order numeral_2_eq_2 del: append.simps)
  then have "prefix (''CacheLib gRPC DRAM'' @ '' placed '' @ str_nat k @ '' of '' @ str_nat 2) s" by (rule append_prefixD)
  moreover have "1 < k" and "k \<le> 2" using c(5,6) \<open>own = 500\<close> by (simp_all add: order)
  ultimately show ?thesis using s by blast
qed

section \<open>The margin of a leader\<close>

text \<open>
  C28. The margin over the next engine is not the one the sentence names: a leader with at least twice the rate of the next engine
  is said to be followed by one that served 100% less or more, \<open>(own/second - 1) * 100\<close>, although by its own figures that
  engine served less than 100% less, \<open>(1 - second/own) * 100\<close>.
\<close>

theorem lead_overstated:
  assumes "0 < second" and "2 * second \<le> own"
  shows "\<exists>lead. lead_text lab own second
      = Inr (''The next engine, '' @ lab @ '', served '' @ fixed_commas 0 second @ '' ('' @ fixed 1 lead @ ''% lower).'')
    \<and> 100 \<le> lead \<and> (1 - second / own) * 100 < 100"
proof -
  let ?lead = "fl (fl (fl (own / second) - 1) * 100)"
  have "2 \<le> own / second" using assms by (simp add: field_simps)
  then have "2 \<le> fl (own / second)" using fl_mono [of 2 "own / second"] by simp
  then have "1 \<le> fl (fl (own / second) - 1)" using fl_mono [of 1 "fl (own / second) - 1"] by simp
  then have "100 \<le> ?lead" using fl_mono [of 100 "fl (fl (own / second) - 1) * 100"] by simp
  moreover have "(1 - second / own) * 100 < 100" using assms by simp
  moreover have "lead_text lab own second
      = Inr (''The next engine, '' @ lab @ '', served '' @ fixed_commas 0 second @ '' ('' @ fixed 1 ?lead @ ''% lower).'')"
    using assms(1) by (simp add: lead_text_def py_div_def)
  ultimately show ?thesis by blast
qed

theorem lead_overstated_witness:
  "\<exists>lead. lead_text ''Valkey'' 200 100
      = Inr (''The next engine, '' @ ''Valkey'' @ '', served '' @ fixed_commas 0 100 @ '' ('' @ fixed 1 lead @ ''% lower).'') \<and> 100 \<le> lead"
  using lead_overstated [of 100 200 "''Valkey''"] by auto

section \<open>Headlines only from qualified groups\<close>

text \<open>
  C26. The landscape headlines appear only when every headline group of the campaign is qualified, and then every run of these groups
  left sound evidence; otherwise the text names exactly the groups that did not qualify.
\<close>

theorem landscape_headlines_gated:
  assumes "landscape_headlines fs runs results = Inr s"
  shows "(s = landscape_withheld (map sp_name (filter (\<lambda>spec. \<not> qualified_group fs runs spec) landscape_headline_specs))
       \<and> \<not> list_all (qualified_group fs runs) landscape_headline_specs)
    \<or> list_all (\<lambda>spec. qualified_group fs runs spec
        \<and> list_all (\<lambda>rid. sound_evidence spec rid (rf_runs fs (path_join runs (sp_name spec)) rid)) (expected_runs spec)) landscape_headline_specs"
proof -
  obtain limited where l: "unqualified fs runs landscape_headline_specs = Inr limited"
    using assms by (auto simp: landscape_headlines_def)
  note names = unqualified_Inr [OF l]
  show ?thesis
  proof (cases "limited = []")
    case False
    then have "s = landscape_withheld limited" using assms l by (simp add: landscape_headlines_def)
    moreover from False have "\<not> list_all (qualified_group fs runs) landscape_headline_specs"
      using names by (auto simp: list_all_iff filter_empty_conv)
    ultimately show ?thesis using names by blast
  next
    case True
    then have "qualified_group fs runs spec" if "spec \<in> set landscape_headline_specs" for spec
      using names that by (auto simp: filter_empty_conv)
    then show ?thesis using qualified_sound by (auto simp: list_all_iff)
  qed
qed

lemma landscape_primary:
  "\<exists>g \<in> set landscape_headline_specs. expected_runs g \<noteq> []"
proof
  let ?g = "group ''primary'' ''hit_1k_c8'' ''grpc,redis,valkey,memcached,garnet'' 5 60 ''kv'' 96 768 True 15 None False False"
  have "?g \<in> set landscape_GROUPS" by (simp add: landscape_GROUPS_def del: split_on.simps)
  then show "?g \<in> set landscape_headline_specs" by (simp add: landscape_headline_specs_def) (simp add: group_def)
  show "expected_runs ?g \<noteq> []" by (simp add: expected_runs_empty) (simp add: group_def)
qed

theorem landscape_headlines_gated_witness:
  "\<exists>s. landscape_headlines no_evidence ''runs'' ''results'' = Inr s
    \<and> s = landscape_withheld (map sp_name (filter (\<lambda>spec. \<not> qualified_group no_evidence ''runs'' spec) landscape_headline_specs))"
proof -
  obtain names where n: "unqualified no_evidence ''runs'' landscape_headline_specs = Inr names" "names \<noteq> []"
    using landscape_primary no_evidence_unqualified by blast
  then have s: "landscape_headlines no_evidence ''runs'' ''results'' = Inr (landscape_withheld names)" by (simp add: landscape_headlines_def)
  have "\<not> list_all (qualified_group no_evidence ''runs'') landscape_headline_specs"
    using n unqualified_Inr [OF n(1)] by (auto simp: list_all_iff filter_empty_conv)
  with landscape_headlines_gated [OF s] s show ?thesis by (auto simp: list_all_iff)
qed

section \<open>The check accepts what was written\<close>

interpretation landscape_block: block_marks LANDSCAPE_BEGIN LANDSCAPE_END "tl LANDSCAPE_BEGIN" "tl LANDSCAPE_END"
  by unfold_locales (simp_all add: LANDSCAPE_BEGIN_def LANDSCAPE_END_def)

lemma landscape_check_accepts:
  assumes "landscape_main P fs runs results False report readme = (Inr (), report', readme')"
    and "\<And>headlines. landscape_headlines fs runs results = Inr headlines \<Longrightarrow> plain_text headlines"
  shows "landscape_main P fs runs results True report' readme' = (Inr (), report', readme')"
proof -
  obtain rendered headlines where r: "render_landscape P fs runs results = Inr rendered" "landscape_headlines fs runs results = Inr headlines"
      "replace_landscape_headlines readme headlines = Inr readme'" "report' = Some rendered"
    using assms(1) by (auto simp: landscape_main_def write_or_check_def bindR_def split: sum.splits)
  have "replace_landscape_headlines readme' headlines = Inr readme'"
    using r(3) assms(2) [OF r(2)] landscape_block.replace_again unfolding replace_landscape_headlines_def by blast
  with r show ?thesis by (simp add: landscape_main_def write_or_check_def)
qed

end
