(* ===== verification/Media.thy ===== *)
theory Media
  imports Prelude "HOL-Library.Word"
begin

text \<open>
  The binary objects of the benchmark: the generators \<open>payload\<close> of the HTTP services and of the KV
  client and \<open>value\<close> of the flash test. A locale states what the experiments rely on (the requested
  length, an index that can be read back, so that no object passes for another), and both keyed
  generators are instances of it.
\<close>

type_synonym byte = "8 word"

section \<open>Cyclic contents\<close>

text \<open>\<open>bytes(range(256))\<close> and \<open>(block * (size // 256 + 1))[:size]\<close>.\<close>

definition byte_block :: "byte list" where
  "byte_block = map of_nat [0..<256]"

definition cycle :: "byte list \<Rightarrow> nat \<Rightarrow> byte list" where
  "cycle block n = take n (concat (replicate (n div 256 + 1) block))"

lemma length_replicate_concat: "length (concat (replicate k xs)) = k * length xs"
  by (induction k) simp_all

lemma cycle_long: "n \<le> (n div 256 + 1) * (256 :: nat)"
proof -
  have "n mod 256 < 256" by simp
  then have "n div 256 * 256 + n mod 256 \<le> n div 256 * 256 + 256" by simp
  then show ?thesis by (simp only: div_mult_mod_eq distrib_right mult_1)
qed

lemma length_cycle: "length block = 256 \<Longrightarrow> length (cycle block n) = n"
proof -
  assume "length block = 256"
  moreover have "n \<le> (n div 256 + 1) * 256" by (rule cycle_long)
  ultimately show ?thesis by (simp add: cycle_def length_replicate_concat)
qed

lemma nth_replicate_concat:
  "length xs = m \<Longrightarrow> i < k * m \<Longrightarrow> concat (replicate k xs) ! i = xs ! (i mod m)"
proof (induction k arbitrary: i)
  case (Suc k)
  show ?case
  proof (cases "i < m")
    case True
    with Suc.prems show ?thesis by (simp add: nth_append)
  next
    case False
    then have "i - m < k * m" using Suc.prems by simp
    with Suc False show ?thesis by (simp add: nth_append le_mod_geq)
  qed
qed simp

lemma nth_cycle:
  assumes "length block = 256" and "i < n"
  shows "cycle block n ! i = block ! (i mod 256)"
proof -
  have "n \<le> (n div 256 + 1) * 256" by (rule cycle_long)
  with assms(2) have "i < (n div 256 + 1) * 256" by simp
  from nth_replicate_concat [OF assms(1) this] show ?thesis
    unfolding cycle_def using assms(2) by (simp only: nth_take)
qed

definition plain_payload :: "nat \<Rightarrow> byte list" where
  "plain_payload n = cycle byte_block n"

lemma length_byte_block [simp]: "length byte_block = 256"
  by (simp add: byte_block_def)

section \<open>The index in the first eight bytes\<close>

text \<open>\<open>index.to_bytes(8, "little")\<close>, which raises for an index of more than 64 bits.\<close>

definition to_bytes8 :: "nat \<Rightarrow> byte list res" where
  "to_bytes8 index =
     (if index < 2 ^ 64 then Inr (map (\<lambda>k. of_nat (index div 256 ^ k)) [0..<8]) else Inl OverflowError)"

definition from_bytes8 :: "byte list \<Rightarrow> nat" where
  "from_bytes8 bs = (\<Sum>k<8. unat (bs ! k) * 256 ^ k)"

text \<open>\<open>body[:8] = prefix\<close> on a \<open>bytearray\<close>: a shorter body grows.\<close>

definition with_prefix :: "byte list \<Rightarrow> byte list \<Rightarrow> byte list" where
  "with_prefix p body = p @ drop 8 body"

definition payload :: "nat \<Rightarrow> nat \<Rightarrow> byte list res" where
  "payload bytes index =
     bindR (to_bytes8 index) (\<lambda>p. Inr (with_prefix p (cycle byte_block bytes)))"

text \<open>\<open>value\<close> of \<open>flash_smoke.py\<close>: the block is rotated by the index.\<close>

definition flash_block :: "nat \<Rightarrow> byte list" where
  "flash_block index = map (\<lambda>offset. of_nat ((offset + index * 17) mod 256)) [0..<256]"

definition flash_value :: "nat \<Rightarrow> nat \<Rightarrow> byte list res" where
  "flash_value index bytes =
     bindR (to_bytes8 index) (\<lambda>p. Inr (with_prefix p (cycle (flash_block index) bytes)))"

lemma to_bytes8_Inr: "to_bytes8 index = Inr p \<longleftrightarrow>
    index < 2 ^ 64 \<and> p = map (\<lambda>k. of_nat (index div 256 ^ k)) [0..<8]"
  by (auto simp: to_bytes8_def)

lemma digits_256: "(\<Sum>k<n. (x div 256 ^ k mod 256) * 256 ^ k) = x mod 256 ^ n" for x :: nat
proof (induction n)
  case (Suc n)
  have "x mod 256 ^ Suc n = 256 ^ n * (x div 256 ^ n mod 256) + x mod 256 ^ n"
    by (metis mod_mult2_eq power_Suc2)
  with Suc show ?case by simp
qed simp

lemma from_to_bytes8:
  assumes "to_bytes8 index = Inr p"
  shows "length p = 8" and "from_bytes8 (p @ rest) = index"
proof -
  from assms have p: "p = map (\<lambda>k. of_nat (index div 256 ^ k)) [0..<8]" and i: "index < 2 ^ 64"
    by (simp_all add: to_bytes8_Inr)
  then show "length p = 8" by simp
  have "from_bytes8 (p @ rest) = (\<Sum>k<8. (index div 256 ^ k mod 256) * 256 ^ k)"
    unfolding from_bytes8_def by (rule sum.cong) (simp_all add: p nth_append unat_of_nat)
  also have "\<dots> = index mod 256 ^ 8" by (rule digits_256)
  finally show "from_bytes8 (p @ rest) = index" using i by simp
qed

lemma from_bytes8_take: "8 \<le> length bs \<Longrightarrow> from_bytes8 (take 8 bs) = from_bytes8 bs"
  unfolding from_bytes8_def by (rule sum.cong) simp_all

section \<open>What the experiments rely on\<close>

text \<open>
  A generator of keyed objects: total on 64-bit indices for objects of at least 8 bytes, of the
  requested length, and with the index readable in the first eight bytes.
\<close>

locale keyed_objects =
  fixes gen :: "nat \<Rightarrow> nat \<Rightarrow> byte list res"
  assumes gen_defined: "index < 2 ^ 64 \<Longrightarrow> \<exists>body. gen bytes index = Inr body"
    and gen_overflow: "\<not> index < 2 ^ 64 \<Longrightarrow> gen bytes index = Inl OverflowError"
    and gen_length: "gen bytes index = Inr body \<Longrightarrow> 8 \<le> bytes \<Longrightarrow> length body = bytes"
    and gen_index: "gen bytes index = Inr body \<Longrightarrow> from_bytes8 body = index"
begin

lemma gen_inject:
  assumes "gen n i = Inr body" and "gen m j = Inr body" and "8 \<le> n" and "8 \<le> m"
  shows "n = m \<and> i = j"
  using assms gen_length gen_index by metis

lemma gen_total_iff: "(\<exists>body. gen bytes index = Inr body) \<longleftrightarrow> index < 2 ^ 64"
  using gen_defined gen_overflow by fastforce

end

lemma with_prefix_laws:
  assumes "to_bytes8 index = Inr p" and "length block = 256"
  shows "8 \<le> n \<Longrightarrow> length (with_prefix p (cycle block n)) = n"
    and "from_bytes8 (with_prefix p (cycle block n)) = index"
  using from_to_bytes8 [OF assms(1)] assms(2) by (simp_all add: with_prefix_def length_cycle)

interpretation media: keyed_objects payload
proof unfold_locales
  note b = length_byte_block
  show "\<exists>body. payload bytes index = Inr body" if "index < 2 ^ 64" for index bytes
    using that by (simp add: payload_def to_bytes8_def)
  show "payload bytes index = Inl OverflowError" if "\<not> index < 2 ^ 64" for index bytes
    using that by (simp add: payload_def to_bytes8_def)
  show "length body = bytes" if "payload bytes index = Inr body" "8 \<le> bytes" for index bytes body
    using that with_prefix_laws(1) [OF _ b] by (auto simp: payload_def)
  show "from_bytes8 body = index" if "payload bytes index = Inr body" for index bytes body
    using that with_prefix_laws(2) [OF _ b] by (auto simp: payload_def)
qed

interpretation flash: keyed_objects "\<lambda>bytes index. flash_value index bytes"
proof unfold_locales
  have b: "length (flash_block index) = 256" for index by (simp add: flash_block_def)
  show "\<exists>body. flash_value index bytes = Inr body" if "index < 2 ^ 64" for index bytes
    using that by (simp add: flash_value_def to_bytes8_def)
  show "flash_value index bytes = Inl OverflowError" if "\<not> index < 2 ^ 64" for index bytes
    using that by (simp add: flash_value_def to_bytes8_def)
  show "length body = bytes" if "flash_value index bytes = Inr body" "8 \<le> bytes" for index bytes body
    using that with_prefix_laws(1) [OF _ b] by (auto simp: flash_value_def)
  show "from_bytes8 body = index" if "flash_value index bytes = Inr body" for index bytes body
    using that with_prefix_laws(2) [OF _ b] by (auto simp: flash_value_def)
qed

text \<open>
  The objects of the HTTP experiment are keyed: for sizes of at least 8 bytes and indices below
  \<open>2 ^ 64\<close> an object has exactly the requested size, its index can be read back from its first eight
  bytes, and two objects are equal only if size and index are.
\<close>

theorem payload_keyed:
  assumes "8 \<le> n" and "i < 2 ^ 64"
  shows "\<exists>body. payload n i = Inr body \<and> length body = n \<and> from_bytes8 body = i
    \<and> (\<forall>m j. 8 \<le> m \<and> payload m j = Inr body \<longrightarrow> m = n \<and> j = i)"
proof -
  obtain body where b: "payload n i = Inr body" using media.gen_defined [OF assms(2)] by blast
  with assms media.gen_length media.gen_index media.gen_inject show ?thesis by metis
qed

theorem payload_keyed_witness:
  "\<exists>body. payload 262144 63 = Inr body \<and> length body = 262144 \<and> from_bytes8 body = 63"
  using payload_keyed [of 262144 63] by auto

text \<open>
  The objects of the flash test are keyed in the same way, and carry the rotated block behind the
  index: byte \<open>k >= 8\<close> of object \<open>i\<close> is \<open>(k + 17 i) mod 256\<close>.
\<close>

theorem flash_value_bytes:
  assumes "8 \<le> n" and "i < 2 ^ 64"
  shows "\<exists>body. flash_value i n = Inr body \<and> length body = n \<and> from_bytes8 body = i
    \<and> (\<forall>k. 8 \<le> k \<and> k < n \<longrightarrow> body ! k = of_nat ((k + i * 17) mod 256))"
proof -
  obtain body where b: "flash_value i n = Inr body" using flash.gen_defined [OF assms(2)] by blast
  have "body ! k = of_nat ((k + i * 17) mod 256)" if k: "8 \<le> k" "k < n" for k
  proof -
    obtain p where p: "to_bytes8 i = Inr p" "body = with_prefix p (cycle (flash_block i) n)"
      using b by (auto simp: flash_value_def)
    then have "body ! k = cycle (flash_block i) n ! k"
      using k assms(1) from_to_bytes8(1) [OF p(1)]
      by (simp add: with_prefix_def nth_append length_cycle flash_block_def)
    also have "\<dots> = flash_block i ! (k mod 256)"
      using k by (intro nth_cycle) (simp_all add: flash_block_def)
    also have "\<dots> = of_nat ((k mod 256 + i * 17) mod 256)" by (simp add: flash_block_def)
    finally show ?thesis by (simp add: mod_simps)
  qed
  with b assms flash.gen_length flash.gen_index show ?thesis by metis
qed

theorem flash_value_bytes_witness:
  "\<exists>body. flash_value 4096 65536 = Inr body \<and> length body = 65536 \<and> body ! 300 = of_nat ((300 + 4096 * 17) mod 256)"
  using flash_value_bytes [of 65536 4096] by fastforce

end
