(* ===== verification/Cache_Server.thy ===== *)
theory Cache_Server
  imports Media
begin

text \<open>
  The part of the cache server the HTTP adapter and the KV client call: \<open>get\<close>, \<open>set\<close> and \<open>remove\<close> of
  \<open>CacheManager.cc\<close> and the handlers \<open>Get\<close>, \<open>Set\<close> and \<open>Delete\<close> of \<open>CacheServiceImpl.cc\<close>. CacheLib itself is
  third-party code: its table is a map of items with their creation time and time to live, an item
  is not found once the clock is past its expiry (CacheLib compares with a strict \<open><\<close>, as \<open>incr\<close> notes), an allocation may fail (the argument \<open>room\<close>), and items may disappear
  at any time by eviction (\<open>evict\<close>). The locale at the end is the contract a client of the cache
  relies on, and the server is an instance of it.
\<close>

section \<open>State\<close>

text \<open>An item is its value, creation time and time to live in seconds, 0 for no expiry.\<close>

type_synonym citem = "byte list \<times> nat \<times> 32 word"

record server =
  sv_ready :: bool
  sv_max_item_size :: nat
  sv_items :: "string \<rightharpoonup> citem"
  sv_get_count :: nat
  sv_hit_count :: nat
  sv_miss_count :: nat
  sv_set_count :: nat
  sv_delete_count :: nat

record get_result =
  gr_found :: bool
  gr_value :: "byte list"
  gr_ttl_remaining :: int

text \<open>
  Times are seconds since the epoch. The server and CacheLib hold them in \<open>uint32_t\<close>: the expiry of an item is its creation time plus its time
  to live, with wrap-around, and 0 stands for none; the clock is cast to 32 bits before it is compared with it.
\<close>

definition clock32 :: "nat \<Rightarrow> 32 word" where
  "clock32 now = word_of_nat now"

definition expiry_time :: "citem \<Rightarrow> 32 word" where
  "expiry_time i = (case i of (v, created, ttl) \<Rightarrow> if ttl = 0 then 0 else clock32 created + ttl)"

definition expired :: "nat \<Rightarrow> citem \<Rightarrow> bool" where
  "expired now i \<longleftrightarrow> expiry_time i \<noteq> 0 \<and> expiry_time i < clock32 now"

definition find_item :: "nat \<Rightarrow> string \<Rightarrow> server \<Rightarrow> citem option" where
  "find_item now key s =
     (case sv_items s key of None \<Rightarrow> None | Some i \<Rightarrow> if expired now i then None else Some i)"

definition ttl_remaining :: "nat \<Rightarrow> citem \<Rightarrow> int" where
  "ttl_remaining now i =
     (if expiry_time i = 0 then -1
      else if clock32 now < expiry_time i then int (unat (expiry_time i - clock32 now)) else 0)"

lemma clock32_0 [simp]: "clock32 0 = 0"
  by (simp add: clock32_def)

lemma expiry_time_0 [simp]: "expiry_time (v, created, 0) = 0"
  by (simp add: expiry_time_def)

lemma expired_0 [simp]: "\<not> expired now (v, created, 0)"
  by (simp add: expired_def)

text \<open>Until the sum no longer fits 32 bits, the comparisons are those of the times themselves.\<close>

lemma unat_clock32: "now < 2 ^ 32 \<Longrightarrow> unat (clock32 now) = now"
  by (simp add: clock32_def unat_of_nat)

lemma unat_expiry_time:
  assumes "created + unat ttl < 2 ^ 32"
  shows "unat (expiry_time (v, created, ttl)) = (if ttl = 0 then 0 else created + unat ttl)"
  using assms by (simp add: expiry_time_def unat_word_ariths unat_clock32)

lemma expiry_time_nonzero: "created + unat ttl < 2 ^ 32 \<Longrightarrow> expiry_time (v, created, ttl) = 0 \<longleftrightarrow> ttl = 0"
  using unat_expiry_time [of created ttl v] by (metis add_is_0 unat_eq_zero unat_0)

lemma expired_exact:
  assumes "created + unat ttl < 2 ^ 32" and "now < 2 ^ 32"
  shows "expired now (v, created, ttl) \<longleftrightarrow> ttl \<noteq> 0 \<and> created + unat ttl < now"
  using assms expiry_time_nonzero [OF assms(1)] unat_expiry_time [OF assms(1)]
  by (auto simp: expired_def word_less_nat_alt unat_clock32)

lemma ttl_remaining_exact:
  assumes "created + unat ttl < 2 ^ 32" and "now < 2 ^ 32"
  shows "ttl_remaining now (v, created, ttl) = (if ttl = 0 then -1 else int (created + unat ttl - now))"
proof -
  let ?e = "expiry_time (v, created, ttl)"
  have "unat (?e - clock32 now) = unat ?e - now" if "clock32 now < ?e"
    using that assms(2) by (simp add: unat_sub word_le_nat_alt word_less_nat_alt unat_clock32)
  then show ?thesis
    using assms expiry_time_nonzero [OF assms(1)] unat_expiry_time [OF assms(1), of v]
    by (auto simp: ttl_remaining_def word_less_nat_alt unat_clock32)
qed

section \<open>CacheManager\<close>

definition cm_get :: "nat \<Rightarrow> string \<Rightarrow> server \<Rightarrow> get_result \<times> server" where
  "cm_get now key s =
     (let s = s\<lparr>sv_get_count := sv_get_count s + 1\<rparr>;
          miss = \<lparr>gr_found = False, gr_value = [], gr_ttl_remaining = 0\<rparr> in
      if \<not> sv_ready s then (miss, s\<lparr>sv_miss_count := sv_miss_count s + 1\<rparr>)
      else case find_item now key s of
        Some (v, created, ttl) \<Rightarrow>
          (\<lparr>gr_found = True, gr_value = v, gr_ttl_remaining = ttl_remaining now (v, created, ttl)\<rparr>,
           s\<lparr>sv_hit_count := sv_hit_count s + 1\<rparr>)
      | None \<Rightarrow> (miss, s\<lparr>sv_miss_count := sv_miss_count s + 1\<rparr>))"

definition cm_set :: "nat \<Rightarrow> bool \<Rightarrow> string \<Rightarrow> byte list \<Rightarrow> 32 word \<Rightarrow> server \<Rightarrow> bool \<times> server" where
  "cm_set now room key v ttl s =
     (let s = s\<lparr>sv_set_count := sv_set_count s + 1\<rparr> in
      if \<not> sv_ready s then (False, s)
      else if length v > sv_max_item_size s then (False, s)
      else if \<not> room then (False, s)
      else (True, s\<lparr>sv_items := (sv_items s)(key \<mapsto> (v, now, ttl))\<rparr>))"

definition cm_remove :: "nat \<Rightarrow> string \<Rightarrow> server \<Rightarrow> bool \<times> server" where
  "cm_remove now key s =
     (let s = s\<lparr>sv_delete_count := sv_delete_count s + 1\<rparr> in
      if \<not> sv_ready s then (False, s)
      else (find_item now key s \<noteq> None, s\<lparr>sv_items := (sv_items s)(key := None)\<rparr>))"

text \<open>CacheLib drops an item.\<close>

definition evict :: "string \<Rightarrow> server \<Rightarrow> server" where
  "evict key s = s\<lparr>sv_items := (sv_items s)(key := None)\<rparr>"

section \<open>CacheServiceImpl\<close>

datatype rpc_error = UNAVAILABLE | INVALID_ARGUMENT | INTERNAL string

definition service_Get :: "nat \<Rightarrow> string \<Rightarrow> server \<Rightarrow> (rpc_error + get_result) \<times> server" where
  "service_Get now key s =
     (if \<not> sv_ready s then (Inl UNAVAILABLE, s)
      else if key = [] then (Inl INVALID_ARGUMENT, s)
      else case cm_get now key s of (r, s') \<Rightarrow> (Inr r, s'))"

text \<open>A positive \<open>int64\<close> time to live is narrowed to 32 bits; any other means no expiry.\<close>

definition narrow_ttl :: "64 word \<Rightarrow> 32 word" where
  "narrow_ttl ttl = (if 0 <s ttl then ucast ttl else 0)"

record set_response =
  sr_success :: bool
  sr_message :: string
  sr_size_bytes :: int

definition set_reply :: "bool \<Rightarrow> byte list \<Rightarrow> set_response" where
  "set_reply success v =
     \<lparr>sr_success = success, sr_message = (if success then ''OK'' else ''Failed to set value''), sr_size_bytes = (if success then int (length v) else 0)\<rparr>"

definition service_Set :: "nat \<Rightarrow> bool \<Rightarrow> string \<Rightarrow> byte list \<Rightarrow> 64 word \<Rightarrow> server \<Rightarrow> (rpc_error + set_response) \<times> server" where
  "service_Set now room key v ttl s =
     (if \<not> sv_ready s then (Inl UNAVAILABLE, s)
      else if key = [] then (Inl INVALID_ARGUMENT, s)
      else case cm_set now room key v (narrow_ttl ttl) s of (ok, s') \<Rightarrow> (Inr (set_reply ok v), s'))"

record delete_response =
  de_success :: bool
  de_key_existed :: bool
  de_message :: string

definition delete_reply :: "bool \<Rightarrow> delete_response" where
  "delete_reply existed =
     \<lparr>de_success = True, de_key_existed = existed, de_message = (if existed then ''Key deleted'' else ''Key not found'')\<rparr>"

definition service_Delete :: "nat \<Rightarrow> string \<Rightarrow> server \<Rightarrow> (rpc_error + delete_response) \<times> server" where
  "service_Delete now key s =
     (if \<not> sv_ready s then (Inl UNAVAILABLE, s)
      else if key = [] then (Inl INVALID_ARGUMENT, s)
      else case cm_remove now key s of (existed, s') \<Rightarrow> (Inr (delete_reply existed), s'))"

lemma set_reply_simps [simp]: "sr_success (set_reply ok v) = ok" "de_success (delete_reply existed)" "de_key_existed (delete_reply existed) = existed"
  by (simp_all add: set_reply_def delete_reply_def)

section \<open>Properties of the server\<close>

text \<open>
  A stored value is found until it expires: after a successful \<open>Set\<close> at time \<open>t\<close>, a \<open>Get\<close> at any later
  time up to the second of the expiry returns exactly these bytes with the remaining time (-1 without an
  expiry, 0 in the second of the expiry itself), and after it the key is a miss; as long as the clock and the
  expiry fit 32 bits.
\<close>

theorem set_then_get:
  assumes "service_Set t room key v ttl s = (Inr q, s')" and "sr_success q" and "t \<le> now" and "now < 2 ^ 32" and "t + unat (narrow_ttl ttl) < 2 ^ 32"
  shows "\<exists>r s''. service_Get now key s' = (Inr r, s'')
    \<and> (if narrow_ttl ttl = 0 \<or> now \<le> t + unat (narrow_ttl ttl)
       then gr_found r \<and> gr_value r = v
         \<and> gr_ttl_remaining r = (if narrow_ttl ttl = 0 then -1 else int (t + unat (narrow_ttl ttl) - now))
       else \<not> gr_found r)"
proof -
  have s: "sv_ready s" "key \<noteq> []" "sv_items s' key = Some (v, t, narrow_ttl ttl)" "sv_ready s'"
    using assms(1,2) by (auto simp: service_Set_def cm_set_def Let_def split: if_splits)
  then show ?thesis
    using expired_exact [OF assms(5,4)] ttl_remaining_exact [OF assms(5,4)]
    by (auto simp: service_Get_def cm_get_def find_item_def Let_def)
qed

text \<open>
  A time to live that carries the expiry over \<open>2 ^ 32\<close> seconds loses the item at once: the expiry wraps to a time in the past.
\<close>

theorem long_ttl_expires_at_once:
  assumes "now < 2 ^ 32" and "2 ^ 32 < now + unat ttl"
  shows "expired now (v, now, ttl)"
proof -
  have "unat ttl < 2 ^ 32" using unsigned_less [of ttl] by simp
  then have "(now + unat ttl) mod 2 ^ 32 = now + unat ttl - 2 ^ 32" using assms by (simp add: mod_if)
  moreover have t: "ttl \<noteq> 0" using assms by auto
  ultimately have e: "unat (expiry_time (v, now, ttl)) = now + unat ttl - 2 ^ 32"
    using assms(1) by (simp add: expiry_time_def unat_word_ariths unat_clock32)
  then have "0 < unat (expiry_time (v, now, ttl))" "unat (expiry_time (v, now, ttl)) < now" using assms \<open>unat ttl < 2 ^ 32\<close> by simp_all
  then show ?thesis using assms(1) by (auto simp: expired_def word_less_nat_alt unat_clock32 unat_gt_0)
qed

theorem long_ttl_expires_at_once_witness: "expired 1790000000 ([1], 1790000000, 4000000000)"
  by (rule long_ttl_expires_at_once) simp_all

definition empty_server :: server where
  "empty_server = \<lparr>sv_ready = True, sv_max_item_size = 4194304, sv_items = Map.empty, sv_get_count = 0,
     sv_hit_count = 0, sv_miss_count = 0, sv_set_count = 0, sv_delete_count = 0\<rparr>"

theorem set_then_get_witness:
  "\<exists>q s' r s''. service_Set 100 True ''k'' [1, 2] 60 empty_server = (Inr q, s') \<and> sr_message q = ''OK'' 
    \<and> service_Get 130 ''k'' s' = (Inr r, s'') \<and> gr_value r = [1, 2] \<and> gr_ttl_remaining r = 30"
proof -
  have t: "narrow_ttl 60 = 60" by (simp add: narrow_ttl_def word_sless_alt)
  obtain s' where s': "service_Set 100 True ''k'' [1, 2] 60 empty_server = (Inr (set_reply True [1, 2]), s')"
    by (simp add: service_Set_def cm_set_def empty_server_def)
  have "sr_message (set_reply True [1, 2]) = ''OK''" by (simp add: set_reply_def)
  with set_then_get [OF s', of 130] s' show ?thesis by (auto simp: t)
qed

text \<open>
  The narrowing of the time to live, as the handlers do it: a nonpositive time means no expiry, a
  time below \<open>2 ^ 32\<close> is kept, and a larger one is taken modulo \<open>2 ^ 32\<close>; a positive multiple of
  \<open>2 ^ 32\<close> therefore stores an item that never expires.
\<close>

theorem narrow_ttl_value:
  "unat (narrow_ttl ttl) = (if 0 < sint ttl then nat (sint ttl) mod 2 ^ 32 else 0)"
proof (cases "0 < sint ttl")
  case True
  then have "0 <s ttl" by (simp add: word_sless_alt)
  moreover have "uint ttl = sint ttl"
    using True sint_lt [of ttl] by (simp add: uint_sint take_bit_int_eq_self)
  then have "unat ttl = nat (sint ttl)" by (simp add: unat_eq_nat_uint)
  ultimately show ?thesis using True by (simp add: narrow_ttl_def unsigned_ucast_eq take_bit_eq_mod)
next
  case False
  then show ?thesis by (simp add: narrow_ttl_def word_sless_alt)
qed

definition counters_ok :: "server \<Rightarrow> bool" where
  "counters_ok s \<longleftrightarrow> sv_get_count s = sv_hit_count s + sv_miss_count s"

datatype server_op = OpGet string | OpSet string "byte list" "64 word" bool | OpDelete string | OpEvict string

definition server_step :: "nat \<Rightarrow> server_op \<Rightarrow> server \<Rightarrow> server" where
  "server_step now op s =
     (case op of OpGet k \<Rightarrow> snd (service_Get now k s) | OpSet k v ttl room \<Rightarrow> snd (service_Set now room k v ttl s)
      | OpDelete k \<Rightarrow> snd (service_Delete now k s) | OpEvict k \<Rightarrow> evict k s)"

lemma server_step_counters: "counters_ok s \<Longrightarrow> counters_ok (server_step now op s)"
  by (cases op)
    (auto simp: server_step_def counters_ok_def service_Get_def service_Set_def service_Delete_def cm_get_def
      cm_set_def cm_remove_def evict_def Let_def split: option.splits)

text \<open>
  The counters add up: every \<open>get\<close> is counted once, as a hit or as a miss, so that the hits and
  misses always sum to the gets.
\<close>

theorem counters_add_up:
  "counters_ok (fold (\<lambda>(now, op). server_step now op) ops empty_server)"
proof -
  have "counters_ok s \<Longrightarrow> counters_ok (fold (\<lambda>(now, op). server_step now op) ops s)" for s
    by (induction ops arbitrary: s) (auto simp: server_step_counters split: prod.splits)
  moreover have "counters_ok empty_server" by (simp add: counters_ok_def empty_server_def)
  ultimately show ?thesis .
qed

section \<open>The contract of a cache\<close>

text \<open>
  What a client may rely on: a value the cache returns for a key is one it holds for the key; reading
  adds nothing; writing adds at most the written value. Nothing promises that a value stays.
\<close>

locale cache_contract =
  fixes get_op :: "'t \<Rightarrow> string \<Rightarrow> 's \<Rightarrow> byte list option \<times> 's"
    and set_op :: "'t \<Rightarrow> string \<Rightarrow> byte list \<Rightarrow> 's \<Rightarrow> bool \<times> 's"
    and drop_op :: "string \<Rightarrow> 's \<Rightarrow> 's"
    and holds :: "'s \<Rightarrow> string \<Rightarrow> byte list \<Rightarrow> bool"
  assumes get_holds: "get_op t k s = (Some v, s') \<Longrightarrow> holds s k v"
    and get_adds_nothing: "holds (snd (get_op t k s)) k' v \<Longrightarrow> holds s k' v"
    and set_adds_written: "holds (snd (set_op t k v s)) k' v' \<Longrightarrow> holds s k' v' \<or> k' = k \<and> v' = v"
    and drop_adds_nothing: "holds (drop_op k s) k' v \<Longrightarrow> holds s k' v"
begin

text \<open>A property of the values per key that every writer obeys holds of all values read.\<close>

definition obeys :: "(string \<Rightarrow> byte list \<Rightarrow> bool) \<Rightarrow> 's \<Rightarrow> bool" where
  "obeys P s \<longleftrightarrow> (\<forall>k v. holds s k v \<longrightarrow> P k v)"

lemma obeys_get: "obeys P s \<Longrightarrow> obeys P (snd (get_op t k s))"
  unfolding obeys_def using get_adds_nothing by blast

lemma obeys_get_value: "obeys P s \<Longrightarrow> get_op t k s = (Some v, s') \<Longrightarrow> P k v"
  unfolding obeys_def using get_holds by blast

lemma obeys_set: "obeys P s \<Longrightarrow> P k v \<Longrightarrow> obeys P (snd (set_op t k v s))"
  unfolding obeys_def using set_adds_written by blast

lemma obeys_drop: "obeys P s \<Longrightarrow> obeys P (drop_op k s)"
  unfolding obeys_def using drop_adds_nothing by blast

end

text \<open>
  The server through its stubs: \<open>r.value if r.found else None\<close>, and the success flag of a \<open>Set\<close> with the
  adapter's time to live. The environment \<open>(now, room)\<close> is the server's clock and whether an
  allocation succeeds; an RPC error is a miss or a failure to the caller's state.
\<close>

definition stub_get :: "nat \<times> bool \<Rightarrow> string \<Rightarrow> server \<Rightarrow> byte list option \<times> server" where
  "stub_get t k s = (case service_Get (fst t) k s of
     (Inr r, s') \<Rightarrow> (if gr_found r then Some (gr_value r) else None, s') | (Inl e, s') \<Rightarrow> (None, s'))"

definition stub_set :: "64 word \<Rightarrow> nat \<times> bool \<Rightarrow> string \<Rightarrow> byte list \<Rightarrow> server \<Rightarrow> bool \<times> server" where
  "stub_set ttl t k v s = (case service_Set (fst t) (snd t) k v ttl s of
     (Inr r, s') \<Rightarrow> (sr_success r, s') | (Inl e, s') \<Rightarrow> (False, s'))"

definition server_holds :: "server \<Rightarrow> string \<Rightarrow> byte list \<Rightarrow> bool" where
  "server_holds s k v \<longleftrightarrow> (\<exists>created ttl. sv_items s k = Some (v, created, ttl))"

interpretation server_cache: cache_contract stub_get "stub_set ttl" evict server_holds for ttl
proof unfold_locales
  show "server_holds s k v" if "stub_get t k s = (Some v, s')" for t k s v s'
    using that by (auto simp: stub_get_def service_Get_def cm_get_def find_item_def server_holds_def Let_def
        split: if_splits option.splits)
  show "server_holds s k' v" if "server_holds (snd (stub_get t k s)) k' v" for t k s k' v
    using that by (auto simp: stub_get_def service_Get_def cm_get_def server_holds_def Let_def
        split: if_splits option.splits)
  show "server_holds s k' v' \<or> k' = k \<and> v' = v" if "server_holds (snd (stub_set ttl t k v s)) k' v'" for t k v s k' v'
    using that by (auto simp: stub_set_def service_Set_def cm_set_def server_holds_def Let_def
        split: if_splits)
  show "server_holds s k' v" if "server_holds (evict k s) k' v" for k s k' v
    using that by (auto simp: evict_def server_holds_def split: if_splits)
qed

end
