(* ===== verification/Trace_Client.thy ===== *)
theory Trace_Client
  imports Statistics Py_Random Cache_Server Json
begin

text \<open>
  The KV client \<open>bench/investigation/client.py\<close>: its deterministic traces, the measured run over a
  backend, batches, and the statistics it keeps of a RESP server. A backend is a record of the
  operations the client calls, on a world state that also holds the clock; the cache server of
  \<open>Cache_Server\<close> is one.
\<close>

section \<open>Computations on a world\<close>

text \<open>A Python call that reads and changes the world and may raise.\<close>

type_synonym ('w, 'a) sx = "'w \<Rightarrow> 'a res \<times> 'w"

definition retS :: "'a \<Rightarrow> ('w, 'a) sx" where
  "retS x w = (Inr x, w)"

definition raiseS :: "exn \<Rightarrow> ('w, 'a) sx" where
  "raiseS e w = (Inl e, w)"

definition bindS :: "('w, 'a) sx \<Rightarrow> ('a \<Rightarrow> ('w, 'b) sx) \<Rightarrow> ('w, 'b) sx" where
  "bindS m f w = (case m w of (Inl e, w') \<Rightarrow> (Inl e, w') | (Inr x, w') \<Rightarrow> f x w')"

fun mapS :: "('a \<Rightarrow> ('w, 'b) sx) \<Rightarrow> 'a list \<Rightarrow> ('w, 'b list) sx" where
  "mapS f [] = retS []"
| "mapS f (x # xs) = bindS (f x) (\<lambda>y. bindS (mapS f xs) (\<lambda>ys. retS (y # ys)))"

definition liftS :: "'a res \<Rightarrow> ('w, 'a) sx" where
  "liftS r w = (r, w)"

lemma sx_simps [simp]: "bindS (retS x) f = f x" "bindS (raiseS e) f = raiseS e" "liftS (Inr x) = retS x"
  by (auto simp: bindS_def retS_def raiseS_def liftS_def)

lemma bindS_InrE:
  assumes "bindS m f w = (Inr y, w')"
  obtains x u where "m w = (Inr x, u)" and "f x u = (Inr y, w')"
  using assms by (auto simp: bindS_def split: prod.splits sum.splits)

lemma retS_Inr [simp]: "retS x w = (Inr y, w') \<longleftrightarrow> y = x \<and> w' = w" "\<not> raiseS e w = (Inr y, w')"
  by (auto simp: retS_def raiseS_def)

lemma liftS_Inr [simp]: "liftS r w = (Inr y, w') \<longleftrightarrow> r = Inr y \<and> w' = w"
  by (auto simp: liftS_def)

lemma mapS_InrE:
  assumes "mapS f xs w = (Inr ys, w')"
  shows "list_all2 (\<lambda>x y. \<exists>u u'. f x u = (Inr y, u')) xs ys"
  using assms by (induction xs arbitrary: w ys) (auto elim!: bindS_InrE, blast)

text \<open>A loop that keeps an invariant and always succeeds.\<close>

lemma mapS_invariant:
  assumes "\<And>x w. x \<in> set xs \<Longrightarrow> I w \<Longrightarrow> \<exists>y w'. f x w = (Inr y, w') \<and> I w' \<and> P x y" and "I w"
  shows "\<exists>ys w'. mapS f xs w = (Inr ys, w') \<and> I w' \<and> list_all2 P xs ys"
  using assms
proof (induction xs arbitrary: w)
  case (Cons x xs)
  obtain y w1 where y: "f x w = (Inr y, w1)" "I w1" "P x y" using Cons.prems by (metis list.set_intros(1))
  obtain ys w2 where "mapS f xs w1 = (Inr ys, w2)" "I w2" "list_all2 P xs ys"
    using Cons.IH [OF _ y(2)] Cons.prems(1) by (metis list.set_intros(2))
  with y show ?case by (simp add: bindS_def retS_def)
qed (simp add: retS_def)

section \<open>Arguments and traces\<close>

record client_args =
  ca_run_id :: string
  ca_mode :: string
  ca_pattern :: string
  ca_objects :: int
  ca_requests :: int
  ca_value_bytes :: nat
  ca_concurrency :: int
  ca_batch_size :: int
  ca_warmup :: int
  ca_preload :: bool
  ca_origin_ms :: real
  ca_seed :: int

text \<open>A generator that also draws from a beta distribution, documented to lie between 0 and 1.\<close>

record 's trace_rng = "'s rng" +
  betavariate :: "'s \<Rightarrow> real \<times> 's"

definition beta_in_range :: "('s, 'm) trace_rng_scheme \<Rightarrow> bool" where
  "beta_in_range g \<longleftrightarrow> (\<forall>s. 0 \<le> fst (betavariate g s) \<and> fst (betavariate g s) \<le> 1)"

text \<open>\<open>int(x)\<close> of a float truncates.\<close>

definition py_trunc :: "real \<Rightarrow> int" where
  "py_trunc x = (if x < 0 then \<lceil>x\<rceil> else \<lfloor>x\<rfloor>)"

definition hot_width :: "client_args \<Rightarrow> int" where
  "hot_width a = max 1 (ca_objects a div 10)"

definition trace_index :: "('s, 'm) trace_rng_scheme \<Rightarrow> client_args \<Rightarrow> nat \<Rightarrow> 's \<Rightarrow> (int \<times> 's) res" where
  "trace_index g a i s =
     (if ca_pattern a = ''one_pass'' then Inr (ca_objects a + int i, s)
      else if ca_pattern a = ''hot_shift'' then
        (let base = (if int i < ca_requests a div 2 then 0 else ca_objects a - hot_width a);
             (j, s') = randbelow g (nat (hot_width a)) s
         in Inr (base + int j, s'))
      else if ca_pattern a = ''skew'' then
        (let (x, s') = betavariate g s in Inr (py_trunc (fl (of_int (ca_objects a) * x)), s'))
      else if ca_objects a \<le> 0 then Inl (ValueError ''empty range for randrange()'')
      else (let (j, s') = randbelow g (nat (ca_objects a)) s in Inr (int j, s')))"

fun trace_from :: "('s, 'm) trace_rng_scheme \<Rightarrow> client_args \<Rightarrow> nat \<Rightarrow> nat \<Rightarrow> 's \<Rightarrow> int list res" where
  "trace_from g a i 0 s = Inr []"
| "trace_from g a i (Suc n) s =
     bindR (trace_index g a i s) (\<lambda>(x, s'). bindR (trace_from g a (Suc i) n s') (\<lambda>xs. Inr (x # xs)))"

definition make_trace :: "('s, 'm) trace_rng_scheme \<Rightarrow> client_args \<Rightarrow> int list res" where
  "make_trace g a = trace_from g a 0 (nat (ca_requests a)) (seed_rng g (ca_seed a))"

lemma trace_from_length: "trace_from g a i n s = Inr xs \<Longrightarrow> length xs = n"
  by (induction n arbitrary: i s xs) auto

lemma trace_from_all:
  assumes "\<And>i s x s'. trace_index g a i s = Inr (x, s') \<Longrightarrow> P i x"
  shows "trace_from g a i n s = Inr xs \<Longrightarrow> k < length xs \<Longrightarrow> P (i + k) (xs ! k)"
proof (induction n arbitrary: i s xs k)
  case (Suc n)
  then obtain x s' ys where x: "trace_index g a i s = Inr (x, s')" "trace_from g a (Suc i) n s' = Inr ys" "xs = x # ys"
    by auto
  show ?case
  proof (cases k)
    case 0
    with x(1,3) assms show ?thesis by simp
  next
    case (Suc k')
    with Suc.IH [OF x(2), of k'] Suc.prems(2) x(3) show ?thesis by simp
  qed
qed simp

lemma trace_from_defined:
  assumes "\<And>i s. \<exists>x s'. trace_index g a i s = Inr (x, s')"
  shows "\<exists>xs. trace_from g a i n s = Inr xs"
proof (induction n arbitrary: i s)
  case (Suc n)
  obtain x s' where "trace_index g a i s = Inr (x, s')" using assms by blast
  then show ?case using Suc [of "Suc i" s'] by auto
qed simp

definition in_dataset :: "client_args \<Rightarrow> nat \<Rightarrow> int \<Rightarrow> bool" where
  "in_dataset a i x \<longleftrightarrow>
     (if ca_pattern a = ''one_pass'' then x = ca_objects a + int i
      else 0 \<le> x \<and> (if ca_pattern a = ''skew'' then x \<le> ca_objects a else x < ca_objects a))"

lemma trace_index_range:
  assumes "in_range_rng g" and "beta_in_range g" and "0 < ca_objects a" and "ca_objects a \<le> 2 ^ 53"
    and "trace_index g a i s = Inr (x, s')"
  shows "in_dataset a i x"
proof -
  have w: "0 < hot_width a" "hot_width a \<le> ca_objects a" using assms(3) unfolding hot_width_def max_def by presburger+
  have j: "int (fst (randbelow g (nat n) s)) < n" if "0 < n" for n
    using assms(1) that unfolding in_range_rng_def by (metis nat_0_iff not_less zless_nat_eq_int_zless bot_nat_0.not_eq_extremum)
  have b: "0 \<le> py_trunc (fl (of_int (ca_objects a) * fst (betavariate g s)))"
    "py_trunc (fl (of_int (ca_objects a) * fst (betavariate g s))) \<le> ca_objects a"
  proof -
    have r: "0 \<le> fst (betavariate g s)" "fst (betavariate g s) \<le> 1" using assms(2) by (simp_all add: beta_in_range_def)
    have "of_int (ca_objects a) * fst (betavariate g s) \<le> of_int (ca_objects a)" using r assms(3) by (simp add: mult_left_le)
    then have "fl (of_int (ca_objects a) * fst (betavariate g s)) \<le> fl (of_int (ca_objects a))" by (rule fl_mono)
    also have "fl (of_int (ca_objects a)) = of_int (ca_objects a)" using is_float_int [of "ca_objects a"] assms(3,4) by simp
    finally have u: "fl (of_int (ca_objects a) * fst (betavariate g s)) \<le> of_int (ca_objects a)" .
    have l: "0 \<le> fl (of_int (ca_objects a) * fst (betavariate g s))" using r assms(3) by (intro fl_nonneg) simp
    from l show "0 \<le> py_trunc (fl (of_int (ca_objects a) * fst (betavariate g s)))" by (simp add: py_trunc_def)
    from l u show "py_trunc (fl (of_int (ca_objects a) * fst (betavariate g s))) \<le> ca_objects a"
      by (simp add: py_trunc_def floor_le_iff)
  qed
  show ?thesis using assms(3,5) w j [OF w(1)] j [OF assms(3)] b
    by (auto simp: in_dataset_def trace_index_def Let_def case_prod_beta split: if_splits)
qed

lemma make_trace_library:
  assumes "in_range_rng g" and "beta_in_range g" and "0 < ca_objects a" and "ca_objects a \<le> 2 ^ 53"
  shows "\<exists>trace. make_trace g a = Inr trace \<and> length trace = nat (ca_requests a)
    \<and> (if ca_pattern a = ''one_pass'' then trace = map (\<lambda>i. ca_objects a + int i) [0..<nat (ca_requests a)]
       else \<forall>x \<in> set trace. 0 \<le> x \<and> (if ca_pattern a = ''skew'' then x \<le> ca_objects a else x < ca_objects a))"
proof -
  have "\<exists>x s'. trace_index g a i s = Inr (x, s')" for i s
    using assms(3) by (auto simp: trace_index_def Let_def case_prod_beta)
  from trace_from_defined [OF this] obtain trace where t: "make_trace g a = Inr trace" unfolding make_trace_def by metis
  then have len: "length trace = nat (ca_requests a)" unfolding make_trace_def by (rule trace_from_length)
  have nth: "in_dataset a k (trace ! k)" if "k < length trace" for k
    using trace_from_all [where P = "in_dataset a", OF trace_index_range [OF assms] t [unfolded make_trace_def] that] by simp
  show ?thesis
  proof (cases "ca_pattern a = ''one_pass''")
    case True
    then have "trace = map (\<lambda>i. ca_objects a + int i) [0..<nat (ca_requests a)]" using nth len by (intro nth_equalityI) (auto simp: in_dataset_def)
    with True t len show ?thesis by simp
  next
    case False
    then have "\<forall>x \<in> set trace. 0 \<le> x \<and> (if ca_pattern a = ''skew'' then x \<le> ca_objects a else x < ca_objects a)"
      using nth by (auto simp: in_set_conv_nth in_dataset_def split: if_splits)
    with False t len show ?thesis by simp
  qed
qed

text \<open>
  The traces stay inside the dataset they are meant for: with a positive number of objects every
  trace exists and has the requested length; the uniform and the shifting-hot-set pattern touch only
  objects \<open>0 .. objects - 1\<close>, the skewed one at most the object after them, and the one-pass pattern
  touches each of \<open>objects, objects + 1, ...\<close> once, none of which is preloaded.
\<close>

theorem make_trace_range:
  assumes "in_range_rng g" and "beta_in_range g" and "0 < ca_objects a" and "ca_objects a \<le> 2 ^ 53"
  shows "\<exists>trace. make_trace g a = Inr trace \<and> length trace = nat (ca_requests a)
    \<and> (if ca_pattern a = ''one_pass'' then trace = map (\<lambda>i. ca_objects a + int i) [0..<nat (ca_requests a)]
       else \<forall>x \<in> set trace. 0 \<le> x \<and> (if ca_pattern a = ''skew'' then x \<le> ca_objects a else x < ca_objects a))"
  using assms by (rule make_trace_library)

section \<open>The measured run\<close>

record 'w backend =
  b_get :: "string \<Rightarrow> ('w, byte list option) sx"
  b_set :: "string \<Rightarrow> byte list \<Rightarrow> int \<Rightarrow> ('w, bool) sx"
  b_delete :: "string \<Rightarrow> ('w, bool) sx"
  b_stats :: "('w, json) sx"
  b_clock_ns :: "('w, int) sx"
  b_sleep :: "real \<Rightarrow> ('w, unit) sx"

text \<open>What \<open>call\<close> returns: latency in ms, hit, origin requests, error, whether it was a write.\<close>

record crecord =
  cr_ms :: real
  cr_hit :: bool
  cr_origin :: nat
  cr_error :: "string option"
  cr_write :: bool

definition run_key :: "client_args \<Rightarrow> int \<Rightarrow> string" where
  "run_key a i = ''inv:'' @ ca_run_id a @ '':'' @ str_int i"

definition finish_call :: "'w backend \<Rightarrow> int \<Rightarrow> bool \<Rightarrow> nat \<Rightarrow> string option \<Rightarrow> bool \<Rightarrow> ('w, crecord) sx" where
  "finish_call b t hit origin err write =
     bindS (b_clock_ns b) (\<lambda>t'. retS \<lparr>cr_ms = fl (of_int (t' - t) / 1000000), cr_hit = hit, cr_origin = origin,
       cr_error = err, cr_write = write\<rparr>)"

definition client_call :: "'w backend \<Rightarrow> client_args \<Rightarrow> byte list \<Rightarrow> int \<times> bool \<Rightarrow> ('w, crecord) sx" where
  "client_call b a value op =
     (let key = run_key a (fst op); write = snd op; delay = b_sleep b (fl (ca_origin_ms a / 1000)) in
      bindS (b_clock_ns b) (\<lambda>t.
      if ca_mode a = ''bypass'' then bindS delay (\<lambda>_. finish_call b t False 1 None False)
      else if write then
        bindS (b_set b key value 0) (\<lambda>ok. finish_call b t False 0 (if ok then None else Some ''write failed'') True)
      else
        bindS (b_get b key) (\<lambda>found.
          case found of
            Some v \<Rightarrow> finish_call b t True 0 (if v \<noteq> value then Some ''value mismatch'' else None) False
          | None \<Rightarrow>
              if ca_mode a = ''origin'' then
                bindS delay (\<lambda>_. bindS (b_set b key value 0) (\<lambda>ok.
                  finish_call b t False 1 (if ok then None else Some ''cache fill failed'') False))
              else finish_call b t False 0 (Some ''unexpected miss'') False)))"

text \<open>\<open>xs[:n]\<close> and \<open>xs[n:]\<close>, a negative bound counting from the end.\<close>

definition bound :: "int \<Rightarrow> 'a list \<Rightarrow> nat" where
  "bound n xs = nat (if n < 0 then n + int (length xs) else n)"

definition py_take :: "int \<Rightarrow> 'a list \<Rightarrow> 'a list" where
  "py_take n xs = take (bound n xs) xs"

definition py_drop :: "int \<Rightarrow> 'a list \<Rightarrow> 'a list" where
  "py_drop n xs = drop (bound n xs) xs"

definition preloads :: "client_args \<Rightarrow> bool" where
  "preloads a \<longleftrightarrow> ca_mode a \<in> {''hit'', ''mixed''} \<or> ca_preload a"

definition preload_one :: "'w backend \<Rightarrow> client_args \<Rightarrow> byte list \<Rightarrow> int \<Rightarrow> ('w, unit) sx" where
  "preload_one b a value i =
     bindS (b_set b (run_key a i) value 0) (\<lambda>ok.
       if ok then retS () else raiseS (RuntimeError (''preload failed at '' @ str_int i)))"

text \<open>
  The thread pool: the calls happen in the order \<open>sched\<close> (a permutation of the operations' indices), the
  results come back in the order of the operations. A pool without workers is refused.
\<close>

definition pool_map :: "int \<Rightarrow> nat list \<Rightarrow> ('a \<Rightarrow> ('w, 'b) sx) \<Rightarrow> 'a list \<Rightarrow> ('w, 'b list) sx" where
  "pool_map workers sched f xs =
     (if workers \<le> 0 then raiseS (ValueError ''max_workers must be greater than 0'')
      else bindS (mapS (\<lambda>i. f (xs ! i)) sched) (\<lambda>ys. retS (map (\<lambda>i. the (map_of (zip sched ys) i)) [0..<length xs])))"

definition operations :: "client_args \<Rightarrow> int list \<Rightarrow> (int \<times> bool) list" where
  "operations a measured = map (\<lambda>(n, i). (i, ca_mode a = ''mixed'' \<and> n mod 10 = 0)) (enumerate 0 measured)"

record run_result =
  rr_preloaded_objects :: int
  rr_warmup_operations :: nat
  rr_measured_operations :: nat
  rr_read_operations :: int
  rr_write_operations :: nat
  rr_elapsed_s :: real
  rr_successful_ops_s :: real
  rr_payload_mib_s :: real
  rr_object_hits :: nat
  rr_byte_hits :: nat
  rr_origin_requests :: nat
  rr_origin_bytes :: nat
  rr_errors :: nat
  rr_error_examples :: "string list"
  rr_latency_ms :: "(string \<times> real option) list"
  rr_stats_before :: json
  rr_stats_after :: json

definition errors_of :: "crecord list \<Rightarrow> string list" where
  "errors_of records = List.map_filter cr_error records"

definition latency_table :: "real list \<Rightarrow> (string \<times> real option) list res" where
  "latency_table lat =
     mapR (\<lambda>(q, f). bindR (quantile lat (fl f)) (\<lambda>v. Inr (q, v)))
       ([(''p50'', 0.5), (''p95'', 0.95), (''p99'', 0.99)] @ (if length lat \<ge> 10000 then [(''p999'', 0.999)] else []))"

definition run_report ::
  "client_args \<Rightarrow> nat \<Rightarrow> crecord list \<Rightarrow> real \<Rightarrow> json \<Rightarrow> json \<Rightarrow> run_result res"
where
  "run_report a warm records elapsed before after =
     (let errors = errors_of records; n = length records;
          hits = length (filter cr_hit records); origins = sum_list (map cr_origin records);
          writes = length (filter cr_write records) in
      if elapsed = 0 then Inl ZeroDivisionError
      else bindR (latency_table (map cr_ms records)) (\<lambda>lat.
        Inr \<lparr>rr_preloaded_objects = (if preloads a then ca_objects a else 0), rr_warmup_operations = warm,
             rr_measured_operations = n, rr_read_operations = int n - int writes, rr_write_operations = writes,
             rr_elapsed_s = elapsed, rr_successful_ops_s = fl (of_int (int n - int (length errors)) / elapsed),
             rr_payload_mib_s = fl (fl (of_nat (hits * ca_value_bytes a) / 1048576) / elapsed),
             rr_object_hits = hits, rr_byte_hits = hits * ca_value_bytes a, rr_origin_requests = origins,
             rr_origin_bytes = origins * ca_value_bytes a, rr_errors = length errors,
             rr_error_examples = take 5 errors, rr_latency_ms = lat, rr_stats_before = before, rr_stats_after = after\<rparr>))"

text \<open>The fixed warmup: its requests are issued first, and in the origin mode they are not measured again.\<close>

definition warm_part :: "client_args \<Rightarrow> int list \<Rightarrow> int list" where
  "warm_part a trace = py_take (min (ca_warmup a) (int (length trace))) trace"

definition measured_part :: "client_args \<Rightarrow> int list \<Rightarrow> int list" where
  "measured_part a trace = (if ca_mode a = ''origin'' then py_drop (min (ca_warmup a) (int (length trace))) trace else trace)"

text \<open>\<open>elapsed\<close> is read off the same clock, in seconds.\<close>

definition client_run ::
  "('s, 'm) trace_rng_scheme \<Rightarrow> 'w backend \<Rightarrow> nat list \<Rightarrow> client_args \<Rightarrow> ('w, run_result) sx"
where
  "client_run g b sched a =
     (let value = plain_payload (ca_value_bytes a) in
      bindS (mapS (preload_one b a value) (if preloads a then map int [0..<nat (ca_objects a)] else [])) (\<lambda>_.
      bindS (liftS (make_trace g a)) (\<lambda>trace.
      let warm = warm_part a trace; measured = measured_part a trace in
      bindS (mapS (\<lambda>i. client_call b a value (i, False)) warm) (\<lambda>_.
      bindS (b_stats b) (\<lambda>before.
      bindS (b_clock_ns b) (\<lambda>start.
      bindS (if ca_concurrency a = 1 then mapS (client_call b a value) (operations a measured)
             else pool_map (ca_concurrency a) sched (client_call b a value) (operations a measured)) (\<lambda>records.
      bindS (b_clock_ns b) (\<lambda>stop.
      bindS (b_stats b) (\<lambda>after.
      liftS (run_report a (length warm) records (fl (of_int (stop - start) / 1000000000)) before after))))))))))"

section \<open>Accounting\<close>

text \<open>What one record can be, per mode.\<close>

definition record_ok :: "client_args \<Rightarrow> bool \<Rightarrow> crecord \<Rightarrow> bool" where
  "record_ok a write r \<longleftrightarrow>
     (if ca_mode a = ''bypass'' then \<not> cr_hit r \<and> cr_origin r = 1 \<and> \<not> cr_write r \<and> cr_error r = None
      else if write then \<not> cr_hit r \<and> cr_origin r = 0 \<and> cr_write r
      else \<not> cr_write r \<and>
        (if ca_mode a = ''origin'' then cr_origin r = (if cr_hit r then 0 else 1)
         else cr_origin r = 0 \<and> (cr_hit r \<or> cr_error r \<noteq> None)))"

lemma client_call_record:
  "client_call b a value op w = (Inr r, w') \<Longrightarrow> record_ok a (snd op) r"
  by (auto simp: client_call_def Let_def finish_call_def record_ok_def elim!: bindS_InrE split: if_splits option.splits)

lemma list_all2_same_index:
  fixes n i :: nat
  assumes "list_all2 P sched ys" and "set sched = {0..<n}" and "i < n"
  shows "P i (the (map_of (zip sched ys) i))"
proof -
  have len: "length sched = length ys" using assms(1) by (rule list_all2_lengthD)
  have "i \<in> set sched" using assms(2,3) by auto
  then obtain y where y: "map_of (zip sched ys) i = Some y" using len by (metis map_of_zip_is_Some)
  then have "(i, y) \<in> set (zip sched ys)" by (rule map_of_SomeD)
  with assms(1) y show ?thesis by (auto simp: list_all2_iff)
qed

lemma pool_map_records:
  assumes "set sched = {0..<length xs}" and "pool_map workers sched f xs w = (Inr ys, w')"
  shows "list_all2 (\<lambda>x y. \<exists>u u'. f x u = (Inr y, u')) xs ys"
proof -
  obtain zs u where z: "mapS (\<lambda>i. f (xs ! i)) sched w = (Inr zs, u)"
      "ys = map (\<lambda>i. the (map_of (zip sched zs) i)) [0..<length xs]"
    using assms(2) by (auto simp: pool_map_def elim!: bindS_InrE split: if_splits)
  from list_all2_same_index [OF mapS_InrE [OF z(1)] assms(1)] show ?thesis
    unfolding z(2) list_all2_conv_all_nth by simp
qed

definition valid_schedule :: "nat list \<Rightarrow> client_args \<Rightarrow> int list \<Rightarrow> bool" where
  "valid_schedule sched a trace \<longleftrightarrow> ca_concurrency a = 1 \<or> set sched = {0..<length (measured_part a trace)}"

lemma length_operations [simp]: "length (operations a xs) = length xs"
  by (simp add: operations_def)

lemma client_run_report:
  assumes "client_run g b sched a w = (Inr r, w')" and "\<And>trace. make_trace g a = Inr trace \<Longrightarrow> valid_schedule sched a trace"
  obtains trace records elapsed before after where "make_trace g a = Inr trace"
    and "list_all2 (\<lambda>op r. record_ok a (snd op) r) (operations a (measured_part a trace)) records"
    and "run_report a (length (warm_part a trace)) records elapsed before after = Inr r"
proof -
  let ?call = "client_call b a (plain_payload (ca_value_bytes a))"
  obtain trace records elapsed before after u v where t: "make_trace g a = Inr trace"
    and rep: "run_report a (length (warm_part a trace)) records elapsed before after = Inr r"
    and rec: "(if ca_concurrency a = 1 then mapS ?call (operations a (measured_part a trace))
        else pool_map (ca_concurrency a) sched ?call (operations a (measured_part a trace))) u = (Inr records, v)"
    using assms(1) unfolding client_run_def Let_def by (elim bindS_InrE) auto
  have "list_all2 (\<lambda>op r. \<exists>u u'. ?call op u = (Inr r, u')) (operations a (measured_part a trace)) records"
  proof (cases "ca_concurrency a = 1")
    case True
    then show ?thesis using rec by (intro mapS_InrE) simp
  next
    case False
    with assms(2) [OF t] have "set sched = {0..<length (operations a (measured_part a trace))}"
      by (simp add: valid_schedule_def)
    with False rec show ?thesis by (intro pool_map_records) simp_all
  qed
  then have "list_all2 (\<lambda>op r. record_ok a (snd op) r) (operations a (measured_part a trace)) records"
    by (rule list_all2_mono) (blast dest: client_call_record)
  with t rep that show thesis by blast
qed

lemma operations_writes: "ca_mode a \<noteq> ''mixed'' \<Longrightarrow> op \<in> set (operations a xs) \<Longrightarrow> \<not> snd op"
  by (auto simp: operations_def)

lemma records_all:
  assumes "list_all2 (\<lambda>op r. record_ok a (snd op) r) (operations a xs) records" and "r \<in> set records"
  shows "\<exists>wr. record_ok a wr r \<and> (ca_mode a \<noteq> ''mixed'' \<longrightarrow> \<not> wr)"
proof -
  obtain i where i: "i < length records" "r = records ! i" using assms(2) by (metis in_set_conv_nth)
  then have l: "i < length (operations a xs)" and ok: "record_ok a (snd (operations a xs ! i)) r"
    using assms(1) by (auto simp: list_all2_conv_all_nth)
  show ?thesis using ok operations_writes [of a "operations a xs ! i" xs] l by auto
qed

lemma origin_sum: "(\<And>r. r \<in> set rs \<Longrightarrow> cr_origin r = (if cr_hit r then 0 else 1)) \<Longrightarrow>
    length (filter cr_hit rs) + sum_list (map cr_origin rs) = length rs"
  by (induction rs) auto

lemma sum_ones: "(\<And>x. x \<in> set xs \<Longrightarrow> f x = 1) \<Longrightarrow> sum_list (map f xs) = length xs" for f :: "'a \<Rightarrow> nat"
  by (induction xs) auto

text \<open>
  C29. The accounting of a run, sequential or with a pool in any order: reads and writes add up to the
  measured operations; with an origin every read is a hit or exactly one origin request, and nothing is
  written but by the fills; the bypass asks the origin every time; in the other modes the origin is never
  asked, and every operation that is neither a hit nor a write is an error.
\<close>

theorem client_run_accounting:
  assumes "client_run g b sched a w = (Inr r, w')" and "\<And>trace. make_trace g a = Inr trace \<Longrightarrow> valid_schedule sched a trace"
  shows "rr_read_operations r + int (rr_write_operations r) = int (rr_measured_operations r)
    \<and> (ca_mode a \<noteq> ''mixed'' \<longrightarrow> rr_write_operations r = 0)
    \<and> (if ca_mode a = ''bypass'' then rr_object_hits r = 0 \<and> rr_origin_requests r = rr_measured_operations r
       else if ca_mode a = ''origin'' then rr_object_hits r + rr_origin_requests r = rr_measured_operations r
       else rr_origin_requests r = 0
         \<and> rr_measured_operations r \<le> rr_object_hits r + rr_write_operations r + rr_errors r)"
proof -
  obtain trace rs elapsed before after
    where ok: "list_all2 (\<lambda>op r. record_ok a (snd op) r) (operations a (measured_part a trace)) rs"
      and rep: "run_report a (length (warm_part a trace)) rs elapsed before after = Inr r"
    using client_run_report [OF assms] by metis
  note all = records_all [OF ok]
  have f: "rr_measured_operations r = length rs" "rr_object_hits r = length (filter cr_hit rs)"
      "rr_write_operations r = length (filter cr_write rs)" "rr_origin_requests r = sum_list (map cr_origin rs)"
      "rr_errors r = length (errors_of rs)" "rr_read_operations r = int (length rs) - int (length (filter cr_write rs))"
    using rep by (auto simp: run_report_def Let_def split: if_splits)
  have nw: "\<not> cr_write x" if "x \<in> set rs" "ca_mode a \<noteq> ''mixed''" for x
    using all [OF that(1)] that(2) by (auto simp: record_ok_def split: if_splits)
  then have writes: "length (filter cr_write rs) = 0" if "ca_mode a \<noteq> ''mixed''"
    using that by (simp add: filter_empty_conv)
  have bypass: "length (filter cr_hit rs) = 0 \<and> sum_list (map cr_origin rs) = length rs" if m: "ca_mode a = ''bypass''"
  proof -
    have h: "\<not> cr_hit x" and o: "cr_origin x = 1" if "x \<in> set rs" for x using all [OF that] m by (auto simp: record_ok_def)
    show ?thesis using h sum_ones [of rs cr_origin, OF o] by (simp add: filter_empty_conv)
  qed
  have origin: "length (filter cr_hit rs) + sum_list (map cr_origin rs) = length rs" if m: "ca_mode a = ''origin''"
  proof (rule origin_sum)
    show "cr_origin x = (if cr_hit x then 0 else 1)" if "x \<in> set rs" for x
      using all [OF that] m by (auto simp: record_ok_def)
  qed
  have other: "sum_list (map cr_origin rs) = 0 \<and> length rs \<le> length (filter cr_hit rs) + length (filter cr_write rs) + length (errors_of rs)"
    if m: "ca_mode a \<noteq> ''bypass''" "ca_mode a \<noteq> ''origin''"
  proof -
    have "cr_origin x = 0 \<and> (cr_hit x \<or> cr_write x \<or> cr_error x \<noteq> None)" if "x \<in> set rs" for x
      using all [OF that] m by (auto simp: record_ok_def split: if_splits)
    then show ?thesis by (induction rs) (auto simp: errors_of_def List.map_filter_simps split: option.splits, fastforce+)
  qed
  show ?thesis unfolding f using writes bypass origin other by auto
qed

section \<open>Batches\<close>

text \<open>\<open>[xs[i:i+n] for i in range(0, len(xs), n)]\<close>.\<close>

definition batches_of :: "int \<Rightarrow> 'a list \<Rightarrow> 'a list list res" where
  "batches_of n xs =
     (if n = 0 then Inl (ValueError ''range() arg 3 must not be zero'')
      else if n < 0 then Inr []
      else Inr (map (\<lambda>k. take (nat n) (drop (k * nat n) xs)) [0..<(length xs + nat n - 1) div nat n]))"

lemma concat_batches: "0 < n \<Longrightarrow> concat (map (\<lambda>k. take n (drop (k * n) xs)) [0..<m]) = take (m * n) xs"
proof (induction m)
  case (Suc m)
  have "take n (drop (m * n) xs) = drop (m * n) (take (m * n + n) xs)" by (simp add: drop_take)
  moreover have "take (m * n) xs @ drop (m * n) (take (m * n + n) xs) = take (m * n + n) xs"
    using append_take_drop_id [of "m * n" "take (m * n + n) xs"] by simp
  ultimately show ?case using Suc by (simp add: add.commute)
qed simp

lemma batches_cover: "0 < n \<Longrightarrow> length xs \<le> (length xs + n - 1) div n * n" for n :: nat
proof -
  assume n: "0 < n"
  let ?l = "length xs + n - 1"
  have "?l = ?l div n * n + ?l mod n" by simp
  moreover have "?l mod n \<le> n - 1" using n by (simp add: Suc_le_eq less_Suc_eq_le [symmetric])
  ultimately show ?thesis using n by linarith
qed

text \<open>
  One batch: the keys are fetched at once, with the sequence numbers of a pipeline's replies; a batch that
  is not exactly the expected values is an error.
\<close>

type_synonym 'w fetcher = "string list \<Rightarrow> ('w, byte list option list \<times> nat list option) sx"

definition RESP_KINDS :: "string list" where
  "RESP_KINDS = [''redis'', ''valkey'', ''dragonfly'', ''dragonfly_tiered'', ''garnet'', ''garnet_storage'', ''kvrocks'']"

text \<open>
  The fetch of a backend kind: the gRPC service pipelines or multi-gets, Redis and Valkey pipeline, and every
  other kind calls \<open>get_many\<close>, a method of the memcached client that the client of the other RESP kinds
  does not have.
\<close>

record 'w fetchers =
  ff_pipeline :: "'w fetcher"
  ff_multiget :: "'w fetcher"
  ff_resp_pipeline :: "'w fetcher"
  ff_get_many :: "'w fetcher"

definition batch_fetch :: "'w fetchers \<Rightarrow> string \<Rightarrow> string \<Rightarrow> 'w fetcher" where
  "batch_fetch F kind batch_kind =
     (if kind = ''grpc'' then (if batch_kind = ''pipeline'' then ff_pipeline F else ff_multiget F)
      else if kind \<in> {''redis'', ''valkey''} then ff_resp_pipeline F
      else if kind \<in> set RESP_KINDS then (\<lambda>keys. raiseS AttributeError)
      else ff_get_many F)"

definition batch_errors :: "byte list \<Rightarrow> string list \<Rightarrow> byte list option list \<times> nat list option \<Rightarrow> string list" where
  "batch_errors value keys = (\<lambda>(got, ids).
     (if ids \<noteq> None \<and> the ids \<noteq> [0..<length keys] then [''sequence mismatch''] else [])
     @ (if length got \<noteq> length keys \<or> (\<exists>v \<in> set got. v \<noteq> Some value) then [''missing or corrupt value''] else []))"

definition batch_call :: "'w backend \<Rightarrow> 'w fetcher \<Rightarrow> client_args \<Rightarrow> byte list \<Rightarrow> int list \<Rightarrow> ('w, real \<times> string list) sx" where
  "batch_call b fetch a value indices =
     (let keys = map (run_key a) indices in
      bindS (b_clock_ns b) (\<lambda>t. bindS (fetch keys) (\<lambda>r. bindS (b_clock_ns b) (\<lambda>t'.
      retS (fl (of_int (t' - t) / 1000000), batch_errors value keys r)))))"

record batch_result =
  br_operations :: nat
  br_batches :: nat
  br_errors :: nat
  br_error_examples :: "string list"
  br_successful_ops_s :: real
  br_payload_mib_s :: real
  br_latency_ms :: "(string \<times> real option) list"

definition client_batch ::
  "('s, 'm) trace_rng_scheme \<Rightarrow> 'w backend \<Rightarrow> 'w fetchers \<Rightarrow> string \<Rightarrow> string \<Rightarrow> client_args \<Rightarrow> ('w, batch_result) sx"
where
  "client_batch g b F kind batch_kind a =
     (let value = plain_payload (ca_value_bytes a) in
      bindS (mapS (\<lambda>i. bindS (b_set b (run_key a i) value 0) (\<lambda>ok. if ok then retS () else raiseS (AssertionError [])))
              (map int [0..<nat (ca_objects a)])) (\<lambda>_.
      bindS (liftS (make_trace g a)) (\<lambda>trace.
      bindS (liftS (batches_of (ca_batch_size a) trace)) (\<lambda>batches.
      bindS (b_clock_ns b) (\<lambda>start.
      bindS (mapS (batch_call b (batch_fetch F kind batch_kind) a value) batches) (\<lambda>rs.
      bindS (b_clock_ns b) (\<lambda>stop.
      let elapsed = fl (of_int (stop - start) / 1000000000); errors = concat (map snd rs) in
      if elapsed = 0 then raiseS ZeroDivisionError
      else bindS (liftS (mapR (\<lambda>(q, f). bindR (quantile (map fst rs) (fl f)) (\<lambda>v. Inr (q, v)))
                          [(''p50'', 0.5), (''p95'', 0.95), (''p99'', 0.99)])) (\<lambda>lat.
        retS \<lparr>br_operations = length trace, br_batches = length batches, br_errors = length errors,
          br_error_examples = take 5 errors,
          br_successful_ops_s = fl (of_nat (if errors = [] then length trace else 0) / elapsed),
          br_payload_mib_s = fl (fl (of_nat (length trace * ca_value_bytes a) / 1048576) / elapsed),
          br_latency_ms = lat\<rparr>))))))))"

text \<open>
  The batch command accepts the other RESP kinds and then always fails: every batch raises
  \<open>AttributeError\<close>.
\<close>

lemma batch_other_resp_kinds:
  assumes "kind \<in> set RESP_KINDS" and "kind \<notin> {''redis'', ''valkey''}" and "b_clock_ns b w = (Inr t, w')"
  shows "batch_call b (batch_fetch F kind batch_kind) a value indices w = (Inl AttributeError, w')"
  using assms by (auto simp: batch_call_def batch_fetch_def RESP_KINDS_def bindS_def raiseS_def Let_def)

text \<open>
  Batches partition the trace: for a positive batch size the batches, in order, are the whole trace, and
  each but the last has exactly the batch size; a batch is recorded without an error only if the backend
  returned the expected value for every one of its keys (and, for a pipeline, in order).
\<close>

theorem batches_partition:
  assumes "0 < n"
  shows "\<exists>bs. batches_of n xs = Inr bs \<and> concat bs = xs
    \<and> (\<forall>k. k + 1 < length bs \<longrightarrow> length (bs ! k) = nat n)
    \<and> (batch_errors value keys (got, ids) = [] \<longrightarrow>
        got = map (\<lambda>_. Some value) keys \<and> (ids = None \<or> ids = Some [0..<length keys]))"
proof -
  let ?n = "nat n" and ?m = "(length xs + nat n - 1) div nat n"
  let ?bs = "map (\<lambda>k. take ?n (drop (k * ?n) xs)) [0..<?m]"
  have n: "0 < ?n" using assms by simp
  have "concat ?bs = xs" using concat_batches [OF n, of xs ?m] batches_cover [OF n, of xs] by simp
  moreover have "length (?bs ! k) = ?n" if "k + 1 < length ?bs" for k
  proof -
    have "(k + 2) * ?n \<le> ?m * ?n" using that by (intro mult_right_mono) simp_all
    also have "\<dots> \<le> length xs + ?n - 1" by (rule div_times_less_eq_dividend)
    finally have "k * ?n + ?n \<le> length xs" using n by simp
    then show ?thesis using that by simp
  qed
  moreover have "got = map (\<lambda>_. Some value) keys \<and> (ids = None \<or> ids = Some [0..<length keys])"
    if e: "batch_errors value keys (got, ids) = []"
  proof -
    have l: "length got = length keys" and v: "\<And>x. x \<in> set got \<Longrightarrow> x = Some value"
      and i: "ids = None \<or> the ids = [0..<length keys]"
      using e by (auto simp: batch_errors_def split: if_splits)
    have "got = map (\<lambda>_. Some value) keys" using l v by (intro nth_equalityI) simp_all
    with i show ?thesis by (cases ids) simp_all
  qed
  ultimately show ?thesis using assms by (auto simp: batches_of_def)
qed

theorem batches_partition_witness:
  "\<exists>bs. batches_of 16 [0..<20] = Inr bs \<and> concat bs = [0..<20]"
  using batches_partition [of 16 "[0..<20]" "[]" "[]" "[]" None] by auto

section \<open>Statistics of a RESP server\<close>

definition RESP_STAT_FIELDS :: "string list" where
  "RESP_STAT_FIELDS = [''redis_version'', ''valkey_version'', ''dragonfly_version'', ''garnet_version'', ''kvrocks_version'',
     ''used_memory'', ''used_memory_rss'', ''used_memory_startup'', ''keyspace_hits'', ''keyspace_misses'', ''evicted_keys'',
     ''expired_keys'', ''total_commands_processed'', ''maxmemory'', ''maxmemory_policy'', ''db0'', ''proc_private_memory_size'',
     ''total_found'', ''total_notfound'', ''garnet_hit_rate'', ''IndexTotalMemorySizeBytes'', ''block_cache_usage'']"

definition RESP_STAT_PREFIXES :: "string list" where
  "RESP_STAT_PREFIXES = [''tiered_'', ''rocksdb.'', ''storage_'', ''Log.'', ''block_cache_data_'', ''sst_'']"

text \<open>A section map is dumped as text (the parameter \<open>dumps\<close>); \<open>info\<close> is a dictionary with distinct keys.\<close>

definition flat_info :: "(json \<Rightarrow> string) \<Rightarrow> dict \<Rightarrow> dict" where
  "flat_info dumps info = map (\<lambda>(k, v). (k, case v of JObj d \<Rightarrow> JStr (dumps v) | _ \<Rightarrow> v)) info"

definition resp_stats :: "(json \<Rightarrow> string) \<Rightarrow> dict \<Rightarrow> json \<Rightarrow> dict" where
  "resp_stats dumps info dbsize =
     (let flat = flat_info dumps info;
          out = List.map_filter (\<lambda>k. map_option (\<lambda>v. (k, v)) (map_of flat k)) RESP_STAT_FIELDS;
          out = out @ filter (\<lambda>(k, v). (\<exists>p \<in> set RESP_STAT_PREFIXES. prefix p k) \<and> map_of out k = None) flat
      in if out = [] then [(''resp_info_keys'', JNum (of_nat (length flat))), (''dbsize'', dbsize)] else out)"

text \<open>The statistics kept of memcached; a value that is bytes is recorded as the text it encodes.\<close>

definition memcached_stats :: "dict \<Rightarrow> dict" where
  "memcached_stats info =
     filter (\<lambda>(k, v). k \<in> {''version'', ''bytes'', ''curr_items'', ''get_hits'', ''get_misses'', ''evictions''} \<or> prefix ''extstore_'' k) info"

text \<open>Nothing is fabricated: every recorded field is one the server published.\<close>

lemma resp_stats_published:
  assumes "(k, v) \<in> set (resp_stats dumps info dbsize)" and "k \<notin> {''resp_info_keys'', ''dbsize''}"
  shows "(k, v) \<in> set (flat_info dumps info)"
  using assms by (auto simp: resp_stats_def Let_def List.map_filter_def split: if_splits dest: map_of_SomeD)

section \<open>The client on the cache server\<close>

text \<open>
  The gRPC backend: the server's state and a nanosecond clock that advances by \<open>tick\<close> with every
  reading. The server always finds room, and nothing is evicted; its \<open>Stats\<close> reply is a parameter.
\<close>

record cworld =
  cw_server :: server
  cw_ns :: int

definition cw_now :: "cworld \<Rightarrow> nat" where
  "cw_now w = nat (cw_ns w div 1000000000)"

definition grpc_get :: "string \<Rightarrow> (cworld, byte list option) sx" where
  "grpc_get k w =
     (case service_Get (cw_now w) k (cw_server w) of
        (Inl e, s) \<Rightarrow> (Inl (RuntimeError ''RpcError''), w\<lparr>cw_server := s\<rparr>)
      | (Inr r, s) \<Rightarrow> (Inr (if gr_found r then Some (gr_value r) else None), w\<lparr>cw_server := s\<rparr>))"

definition grpc_set :: "string \<Rightarrow> byte list \<Rightarrow> int \<Rightarrow> (cworld, bool) sx" where
  "grpc_set k v ttl w =
     (case service_Set (cw_now w) True k v (word_of_int ttl) (cw_server w) of
        (Inl e, s) \<Rightarrow> (Inl (RuntimeError ''RpcError''), w\<lparr>cw_server := s\<rparr>)
      | (Inr r, s) \<Rightarrow> (Inr (sr_success r), w\<lparr>cw_server := s\<rparr>))"

definition grpc_delete :: "string \<Rightarrow> (cworld, bool) sx" where
  "grpc_delete k w =
     (case service_Delete (cw_now w) k (cw_server w) of
        (Inl e, s) \<Rightarrow> (Inl (RuntimeError ''RpcError''), w\<lparr>cw_server := s\<rparr>)
      | (Inr r, s) \<Rightarrow> (Inr (de_success r), w\<lparr>cw_server := s\<rparr>))"

definition grpc_backend :: "(server \<Rightarrow> json) \<Rightarrow> int \<Rightarrow> cworld backend" where
  "grpc_backend stats tick =
     \<lparr>b_get = grpc_get, b_set = grpc_set, b_delete = grpc_delete, b_stats = (\<lambda>w. (Inr (stats (cw_server w)), w)),
      b_clock_ns = (\<lambda>w. (Inr (cw_ns w), w\<lparr>cw_ns := cw_ns w + tick\<rparr>)),
      b_sleep = (\<lambda>d w. (Inr (), w\<lparr>cw_ns := cw_ns w + \<lfloor>d * 1000000000\<rfloor>\<rparr>))\<rparr>"

text \<open>The first \<open>n\<close> objects are stored, without an expiry.\<close>

definition stored :: "client_args \<Rightarrow> int \<Rightarrow> cworld \<Rightarrow> bool" where
  "stored a n w \<longleftrightarrow> sv_ready (cw_server w) \<and> ca_value_bytes a \<le> sv_max_item_size (cw_server w)
     \<and> (\<forall>i. 0 \<le> i \<and> i < n \<longrightarrow>
         (\<exists>c. sv_items (cw_server w) (run_key a i) = Some (plain_payload (ca_value_bytes a), c, 0)))"

lemma length_plain_payload [simp]: "length (plain_payload n) = n"
  by (simp add: plain_payload_def length_cycle)

lemma run_key_ne [simp]: "run_key a i \<noteq> []"
  by (simp add: run_key_def)

lemma grpc_get_stored:
  assumes "stored a n w" and "0 \<le> i" and "i < n"
  shows "\<exists>w'. grpc_get (run_key a i) w = (Inr (Some (plain_payload (ca_value_bytes a))), w') \<and> stored a n w' \<and> cw_ns w' = cw_ns w"
proof -
  obtain c where c: "sv_items (cw_server w) (run_key a i) = Some (plain_payload (ca_value_bytes a), c, 0)"
    using assms by (auto simp: stored_def)
  show ?thesis using assms(1) c
    by (auto simp: grpc_get_def service_Get_def cm_get_def find_item_def expired_def stored_def Let_def)
qed

lemma narrow_ttl_0 [simp]: "narrow_ttl 0 = 0"
  by (simp add: narrow_ttl_def)

lemma grpc_set_stored:
  assumes "stored a n w" and "0 \<le> i" and "i \<le> n"
  shows "\<exists>w'. grpc_set (run_key a i) (plain_payload (ca_value_bytes a)) 0 w = (Inr True, w')
    \<and> stored a (if i = n then n + 1 else n) w' \<and> cw_ns w' = cw_ns w"
  using assms by (auto simp: grpc_set_def service_Set_def cm_set_def stored_def Let_def) (metis order_le_less)

lemma grpc_clock: "b_clock_ns (grpc_backend st tick) w = (Inr (cw_ns w), w\<lparr>cw_ns := cw_ns w + tick\<rparr>)"
  by (simp add: grpc_backend_def)

lemma stored_clock [simp]: "stored a n (w\<lparr>cw_ns := t\<rparr>) = stored a n w"
  by (simp add: stored_def)

definition clean_record :: "bool \<Rightarrow> crecord \<Rightarrow> bool" where
  "clean_record wr r \<longleftrightarrow> cr_error r = None \<and> cr_hit r = (\<not> wr) \<and> cr_write r = wr"

lemma client_call_stored:
  assumes "stored a n w" and "0 \<le> i" and "i < n" and "ca_mode a \<in> {''hit'', ''mixed''}" and "0 < tick"
  shows "\<exists>r w'. client_call (grpc_backend st tick) a (plain_payload (ca_value_bytes a)) (i, wr) w = (Inr r, w')
    \<and> (stored a n w' \<and> cw_ns w < cw_ns w') \<and> clean_record wr r"
proof -
  let ?w = "w\<lparr>cw_ns := cw_ns w + tick\<rparr>"
  have s: "stored a n ?w" using assms(1) by simp
  obtain w1 where w1: "grpc_get (run_key a i) ?w = (Inr (Some (plain_payload (ca_value_bytes a))), w1)" "stored a n w1"
      "cw_ns w1 = cw_ns w + tick"
    using grpc_get_stored [OF s assms(2,3)] by auto
  obtain w2 where w2: "grpc_set (run_key a i) (plain_payload (ca_value_bytes a)) 0 ?w = (Inr True, w2)" "stored a n w2"
      "cw_ns w2 = cw_ns w + tick"
    using grpc_set_stored [OF s assms(2)] assms(3) by fastforce
  have b: "b_get (grpc_backend st tick) = grpc_get" "b_set (grpc_backend st tick) = grpc_set"
    by (simp_all add: grpc_backend_def)
  show ?thesis using assms(4,5) w1 w2
    by (auto simp: client_call_def Let_def bindS_def grpc_clock b finish_call_def retS_def clean_record_def)
qed

lemma preload_stored:
  assumes "stored a n w" and "0 \<le> n"
  shows "\<exists>w'. preload_one (grpc_backend st tick) a (plain_payload (ca_value_bytes a)) n w = (Inr (), w') \<and> stored a (n + 1) w'"
  using grpc_set_stored [OF assms(1,2)] by (auto simp: preload_one_def bindS_def retS_def grpc_backend_def)

lemma preload_all:
  assumes "stored a 0 w"
  shows "\<exists>xs w'. mapS (preload_one (grpc_backend st tick) a (plain_payload (ca_value_bytes a))) (map int [0..<n]) w = (Inr xs, w')
    \<and> stored a (int n) w'"
proof -
  have app: "mapS f (xs @ [x]) w = bindS (mapS f xs) (\<lambda>ys. bindS (f x) (\<lambda>y. retS (ys @ [y]))) w" for f :: "int \<Rightarrow> (cworld, unit) sx" and xs x w
    by (induction xs arbitrary: w) (auto simp: bindS_def retS_def split: prod.splits sum.splits)
  show ?thesis
  proof (induction n)
    case (Suc n)
    then obtain xs w' where i: "mapS (preload_one (grpc_backend st tick) a (plain_payload (ca_value_bytes a))) (map int [0..<n]) w = (Inr xs, w')"
        "stored a (int n) w'" by blast
    obtain w'' where "preload_one (grpc_backend st tick) a (plain_payload (ca_value_bytes a)) (int n) w' = (Inr (), w'')"
        "stored a (int n + 1) w''" using preload_stored [OF i(2)] by auto
    with i(1) show ?case by (simp add: app bindS_def retS_def add.commute)
  qed (use assms in \<open>simp add: retS_def\<close>)
qed

lemma pool_clean:
  assumes "\<And>x w. x \<in> set xs \<Longrightarrow> I w \<Longrightarrow> \<exists>y w'. f x w = (Inr y, w') \<and> I w' \<and> P x y" and "I w"
    and "set sched = {0..<length xs}" and "0 < workers"
  shows "\<exists>ys w'. pool_map workers sched f xs w = (Inr ys, w') \<and> I w' \<and> list_all2 P xs ys"
proof -
  have "\<exists>zs w'. mapS (\<lambda>i. f (xs ! i)) sched w = (Inr zs, w') \<and> I w' \<and> list_all2 (\<lambda>i. P (xs ! i)) sched zs"
  proof (rule mapS_invariant [where I = I, OF _ assms(2)])
    show "\<exists>y w'. f (xs ! i) w = (Inr y, w') \<and> I w' \<and> P (xs ! i) y" if "i \<in> set sched" "I w" for i w
      using assms(1) [OF _ that(2)] that(1) assms(3) by simp
  qed
  then obtain zs w' where z: "mapS (\<lambda>i. f (xs ! i)) sched w = (Inr zs, w')" "I w'" "list_all2 (\<lambda>i. P (xs ! i)) sched zs"
    by blast
  from list_all2_same_index [OF z(3) assms(3)] z(1,2) assms(4) show ?thesis
    by (simp add: pool_map_def bindS_def retS_def list_all2_conv_all_nth)
qed

lemma latency_table_defined:
  assumes "length lat \<le> 2 ^ 53" shows "\<exists>t. latency_table lat = Inr t"
proof -
  have q: "\<exists>v. quantile lat (fl f) = Inr v" if "0 \<le> f" "f \<le> 1" for f
  proof (cases "lat = []")
    case False
    have "0 \<le> fl f" "fl f \<le> 1" using fl_mono [OF that(1)] fl_mono [OF that(2)] by simp_all
    with quantile_Some [OF False assms] show ?thesis by blast
  qed (simp add: quantile_def)
  obtain v1 v2 v3 v4 where "quantile lat (fl 0.5) = Inr v1" "quantile lat (fl 0.95) = Inr v2"
      "quantile lat (fl 0.99) = Inr v3" "quantile lat (fl 0.999) = Inr v4"
    using q [of "0.5"] q [of "0.95"] q [of "0.99"] q [of "0.999"] by auto
  then show ?thesis unfolding latency_table_def by simp
qed

lemma elapsed_positive: "t < t' \<Longrightarrow> fl (of_int (t' - t) / 1000000000) \<noteq> 0"
proof -
  assume "t < t'"
  then have "1 \<le> t' - t" by simp
  then have "(1 :: real) \<le> of_int (t' - t)" by (simp only: of_int_1_le_iff)
  then have "(1 :: real) / 1000000000 \<le> of_int (t' - t) / 1000000000" by (rule divide_right_mono) simp
  moreover have p: "(2 :: real) powr - 30 = 1 / 1073741824" by (simp add: powr_minus_divide powr_numeral)
  ultimately have "(2 :: real) powr - 30 \<le> of_int (t' - t) / 1000000000" by simp
  then have "fl (2 powr - 30) \<le> fl (of_int (t' - t) / 1000000000)" by (rule fl_mono)
  moreover have "is_float (2 powr - 30)" using fl_scaled [of 1 "- 30"] by simp
  ultimately have "2 powr - 30 \<le> fl (of_int (t' - t) / 1000000000)" by simp
  then show "fl (of_int (t' - t) / 1000000000) \<noteq> 0" unfolding p by auto
qed

lemma clean_counts:
  assumes "list_all2 (\<lambda>op r. clean_record (snd op) r) ops rs"
  shows "errors_of rs = []" and "length (filter cr_hit rs) + length (filter cr_write rs) = length rs"
    and "length rs = length ops"
  using assms by (induction ops rs rule: list_all2_induct)
    (auto simp: errors_of_def List.map_filter_simps clean_record_def)

lemma operations_index: "op \<in> set (operations a xs) \<Longrightarrow> fst op \<in> set xs"
  by (auto simp: operations_def in_set_enumerate_eq)

lemma grpc_stats: "b_stats (grpc_backend st tick) w = (Inr (st (cw_server w)), w)"
  by (simp add: grpc_backend_def)

lemma mapS_map: "mapS f (map h xs) = mapS (\<lambda>x. f (h x)) xs"
  by (induction xs) simp_all

lemma calls_stored:
  assumes "ca_mode a \<in> {''hit'', ''mixed''}" and "0 < tick" and "\<And>op. op \<in> set ops \<Longrightarrow> 0 \<le> fst op \<and> fst op < n"
    and "stored a n w" and "k < cw_ns w" and "seq \<or> set sched = {0..<length ops}" and "0 < workers"
    and f: "f = client_call (grpc_backend st tick) a (plain_payload (ca_value_bytes a))"
  shows "\<exists>rs w'. (if seq then mapS f ops else pool_map workers sched f ops) w = (Inr rs, w')
    \<and> (stored a n w' \<and> k < cw_ns w') \<and> list_all2 (\<lambda>op. clean_record (snd op)) ops rs"
proof -
  have inv: "\<exists>y u'. f op u = (Inr y, u') \<and> (stored a n u' \<and> k < cw_ns u') \<and> clean_record (snd op) y"
    if "op \<in> set ops" "stored a n u \<and> k < cw_ns u" for op u
    using client_call_stored [of a n u "fst op" tick st "snd op"] that assms(1-3) unfolding f by fastforce
  have i0: "stored a n w \<and> k < cw_ns w" using assms(4,5) by simp
  show ?thesis
  proof (cases seq)
    case True
    then show ?thesis
      using mapS_invariant [where I = "\<lambda>u. stored a n u \<and> k < cw_ns u" and P = "\<lambda>op. clean_record (snd op)", OF inv i0] by simp
  next
    case False
    with assms(6) have "set sched = {0..<length ops}" by simp
    from pool_clean [where I = "\<lambda>u. stored a n u \<and> k < cw_ns u" and P = "\<lambda>op. clean_record (snd op)", OF inv i0 this assms(7)] False
    show ?thesis by simp
  qed
qed

lemma clean_run:
  assumes "in_range_rng g" and "beta_in_range g" and "0 < ca_objects a" and "ca_objects a \<le> 2 ^ 53"
    and "ca_mode a \<in> {''hit'', ''mixed''}" and "ca_pattern a \<noteq> ''one_pass''"
    and "stored a 0 w" and "0 < tick" and "nat (ca_requests a) \<le> 2 ^ 53" and "0 < ca_concurrency a"
    and "\<And>trace. make_trace g a = Inr trace \<Longrightarrow> valid_schedule sched a trace
      \<and> (ca_pattern a = ''skew'' \<longrightarrow> ca_objects a \<notin> set trace)"
  shows "\<exists>r w'. client_run g (grpc_backend st tick) sched a w = (Inr r, w') \<and> rr_errors r = 0
    \<and> rr_object_hits r + rr_write_operations r = rr_measured_operations r
    \<and> rr_measured_operations r = nat (ca_requests a)"
proof -
  let ?b = "grpc_backend st tick" and ?v = "plain_payload (ca_value_bytes a)"
  obtain trace where t: "make_trace g a = Inr trace" and len: "length trace = nat (ca_requests a)"
      and range: "\<And>x. x \<in> set trace \<Longrightarrow> 0 \<le> x \<and> x < ca_objects a"
    using make_trace_library [OF assms(1-4)] assms(6,11) by (fastforce split: if_splits simp: order_le_less)
  have sched: "valid_schedule sched a trace" using assms(11) [OF t] by simp
  have m: "measured_part a trace = trace" "preloads a" using assms(5) by (auto simp: measured_part_def preloads_def)
  obtain xs w1 where w1: "mapS (preload_one ?b a ?v) (map int [0..<nat (ca_objects a)]) w = (Inr xs, w1)" "stored a (ca_objects a) w1"
    using preload_all [OF assms(7), of st tick "nat (ca_objects a)"] assms(3) by auto
  have "set (warm_part a trace) \<subseteq> set trace" by (simp add: warm_part_def py_take_def set_take_subset)
  then obtain ws w2 where w2: "mapS (\<lambda>i. client_call ?b a ?v (i, False)) (warm_part a trace) w1 = (Inr ws, w2)" "stored a (ca_objects a) w2"
    using calls_stored [OF assms(5,8) _ w1(2), of "map (\<lambda>i. (i, False)) (warm_part a trace)" "cw_ns w1 - 1" True "[]" 1, OF _ _ _ _ refl] range
    by (fastforce simp: mapS_map)
  let ?ops = "operations a trace" and ?w = "w2\<lparr>cw_ns := cw_ns w2 + tick\<rparr>"
  have "stored a (ca_objects a) ?w" "cw_ns w2 < cw_ns ?w" using w2(2) assms(8) by simp_all
  moreover have "ca_concurrency a = 1 \<or> set sched = {0..<length ?ops}" using sched by (simp add: valid_schedule_def m)
  ultimately obtain rs w3 where w3:
      "(if ca_concurrency a = 1 then mapS (client_call ?b a ?v) ?ops else pool_map (ca_concurrency a) sched (client_call ?b a ?v) ?ops) ?w = (Inr rs, w3)"
      "cw_ns w2 < cw_ns w3" "list_all2 (\<lambda>op. clean_record (snd op)) ?ops rs"
    using calls_stored [OF assms(5,8), of ?ops "ca_objects a" ?w "cw_ns w2" "ca_concurrency a = 1" sched "ca_concurrency a", OF _ _ _ _ assms(10) refl]
      range operations_index [of _ a trace] by blast
  have "length rs \<le> 2 ^ 53" using clean_counts(3) [OF w3(3)] len assms(9) by simp
  then obtain lat where lat: "latency_table (map cr_ms rs) = Inr lat" using latency_table_defined [of "map cr_ms rs"] by auto
  have "client_run g ?b sched a w = liftS (run_report a (length (warm_part a trace)) rs
      (fl (of_int (cw_ns w3 - cw_ns w2) / 1000000000)) (st (cw_server w2)) (st (cw_server (w3\<lparr>cw_ns := cw_ns w3 + tick\<rparr>))))
      (w3\<lparr>cw_ns := cw_ns w3 + tick\<rparr>)"
    unfolding client_run_def Let_def
    by (simp only: m if_True bindS_def w1(1) t sx_simps retS_def w2(1) grpc_clock grpc_stats w3(1) prod.case sum.case)
  moreover have "\<exists>r. run_report a (length (warm_part a trace)) rs (fl (of_int (cw_ns w3 - cw_ns w2) / 1000000000)) s1 s2 = Inr r
      \<and> rr_errors r = length (errors_of rs) \<and> rr_object_hits r = length (filter cr_hit rs)
      \<and> rr_write_operations r = length (filter cr_write rs) \<and> rr_measured_operations r = length rs" for s1 s2
    using lat elapsed_positive [OF w3(2)] by (simp add: run_report_def Let_def)
  ultimately show ?thesis using clean_counts [OF w3(3)] len by (auto simp: liftS_def) metis
qed

text \<open>
  C16. Client and server together: a run of the hit or the mixed mode with the uniform, the shifting or the skewed
  pattern, sequential or on a pool of workers in any order, on a ready server that has room for all objects, comes back
  without a single error: every read is a hit with the right bytes, and all requested operations are
  measured. The one-pass pattern asks for objects that are not preloaded and is left out, as is a skewed trace with a draw that rounds to the object after
  the last one.
\<close>

theorem hit_run_clean:
  assumes "in_range_rng g" and "beta_in_range g" and "0 < ca_objects a" and "ca_objects a \<le> 2 ^ 53"
    and "ca_mode a \<in> {''hit'', ''mixed''}" and "ca_pattern a \<noteq> ''one_pass''"
    and "stored a 0 w" and "0 < tick" and "nat (ca_requests a) \<le> 2 ^ 53" and "0 < ca_concurrency a"
    and "\<And>trace. make_trace g a = Inr trace \<Longrightarrow> valid_schedule sched a trace
      \<and> (ca_pattern a = ''skew'' \<longrightarrow> ca_objects a \<notin> set trace)"
  shows "\<exists>r w'. client_run g (grpc_backend st tick) sched a w = (Inr r, w') \<and> rr_errors r = 0
    \<and> rr_object_hits r + rr_write_operations r = rr_measured_operations r
    \<and> rr_measured_operations r = nat (ca_requests a)"
  using assms by (rule clean_run)

section \<open>An example run\<close>

definition zero_trace_rng :: "unit trace_rng" where
  "zero_trace_rng = \<lparr>seed_rng = (\<lambda>seed. ()), randbelow = (\<lambda>n s. (0, s)), betavariate = (\<lambda>s. (0, s))\<rparr>"

definition sample_client :: client_args where
  "sample_client = \<lparr>ca_run_id = ''pilot'', ca_mode = ''mixed'', ca_pattern = ''skew'', ca_objects = 4, ca_requests = 3,
     ca_value_bytes = 16, ca_concurrency = 8, ca_batch_size = 16, ca_warmup = 1, ca_preload = False, ca_origin_ms = 5, ca_seed = 1\<rparr>"

definition sample_cworld :: cworld where
  "sample_cworld = \<lparr>cw_server = empty_server, cw_ns = 0\<rparr>"

lemma zero_trace_rng_range: "in_range_rng zero_trace_rng" "beta_in_range zero_trace_rng"
  by (simp_all add: zero_trace_rng_def in_range_rng_def beta_in_range_def)

lemma sample_trace: "make_trace zero_trace_rng sample_client = Inr [0, 0, 0]"
  by (simp add: make_trace_def sample_client_def zero_trace_rng_def trace_index_def py_trunc_def eval_nat_numeral)

lemma sample_schedule: "make_trace zero_trace_rng sample_client = Inr trace \<Longrightarrow> valid_schedule [2, 0, 1] sample_client trace
    \<and> (ca_pattern sample_client = ''skew'' \<longrightarrow> ca_objects sample_client \<notin> set trace)"
proof -
  assume "make_trace zero_trace_rng sample_client = Inr trace"
  then have "trace = [0, 0, 0]" by (simp add: sample_trace)
  moreover have "measured_part sample_client [0, 0, 0] = [0, 0, 0]" by (simp add: measured_part_def sample_client_def)
  ultimately show ?thesis by (auto simp: valid_schedule_def sample_client_def)
qed

lemma sample_stored: "stored sample_client 0 sample_cworld"
  by (simp add: stored_def sample_client_def sample_cworld_def empty_server_def)

lemma sample_client_run: "\<exists>r w'. client_run zero_trace_rng (grpc_backend (\<lambda>s. JNull) 1) [2, 0, 1] sample_client sample_cworld = (Inr r, w')
    \<and> rr_measured_operations r = 3"
  using clean_run [OF zero_trace_rng_range _ _ _ _ sample_stored _ _ _ sample_schedule, of 1 "\<lambda>s. JNull"]
  by (fastforce simp: sample_client_def)

theorem make_trace_range_witness:
  "\<exists>trace. make_trace zero_trace_rng sample_client = Inr trace \<and> length trace = 3 \<and> (\<forall>x \<in> set trace. 0 \<le> x \<and> x \<le> 4)"
  using make_trace_range [OF zero_trace_rng_range, of sample_client] by (auto simp: sample_client_def)

theorem client_run_accounting_witness:
  "\<exists>r w'. client_run zero_trace_rng (grpc_backend (\<lambda>s. JNull) 1) [2, 0, 1] sample_client sample_cworld = (Inr r, w')
    \<and> rr_origin_requests r = 0 \<and> rr_read_operations r + int (rr_write_operations r) = 3"
proof -
  obtain r w' where r: "client_run zero_trace_rng (grpc_backend (\<lambda>s. JNull) 1) [2, 0, 1] sample_client sample_cworld = (Inr r, w')"
      "rr_measured_operations r = 3"
    using sample_client_run by blast
  from client_run_accounting [OF r(1), OF sample_schedule [THEN conjunct1]] r show ?thesis by (auto simp: sample_client_def)
qed

theorem hit_run_clean_witness:
  "\<exists>r w'. client_run zero_trace_rng (grpc_backend (\<lambda>s. JNull) 1) [2, 0, 1] sample_client sample_cworld = (Inr r, w')
    \<and> rr_errors r = 0 \<and> rr_measured_operations r = 3"
  using hit_run_clean [OF zero_trace_rng_range _ _ _ _ sample_stored _ _ _ sample_schedule, of 1 "\<lambda>s. JNull"]
  by (fastforce simp: sample_client_def)

end
