(* ===== verification/Http_Service.thy ===== *)
theory Http_Service
  imports Cache_Server
begin

text \<open>
  The HTTP origin and the HTTP-to-gRPC adapter: \<open>bench/strong/http_service.py\<close>, its predecessor
  \<open>provenance/http_service.before_reuse.py\<close> and \<open>bench/investigation/http_service.py\<close>. Requests are
  classified, answered by the origin or by the adapter through the cache contract; the adapter that keeps its connection to
  the origin is compared with its predecessor over sessions in which the connection may be lost; and requests are served by many
  threads at once: the adapter, its cache and the origin form a step relation in which every
  interleaving, eviction, expiry and lost connection is a step.
\<close>

section \<open>Requests\<close>

text \<open>
  \<open>re.fullmatch(r"/obj/(\d+)/(\d+)", path)\<close>. The path is Latin-1 text, in which the digits \<open>\d\<close> matches
  are the ASCII digits.
\<close>

definition all_digits :: "string \<Rightarrow> bool" where
  "all_digits s \<longleftrightarrow> s \<noteq> [] \<and> list_all is_digit s"

definition match_obj :: "string \<Rightarrow> (string \<times> string) option" where
  "match_obj path =
     (if prefix ''/obj/'' path
      then (case split_on CHR ''/'' (drop 5 path) of
              [a, b] \<Rightarrow> if all_digits a \<and> all_digits b then Some (a, b) else None
            | _ \<Rightarrow> None)
      else None)"

text \<open>\<open>int(digits)\<close>, which refuses more than 4300 digits.\<close>

definition int_digits :: "string \<Rightarrow> nat res" where
  "int_digits ds = (if length ds > 4300 then Inl (ValueError ''Exceeds the limit (4300 digits)'')
                    else Inr (nat_of_digits ds))"

datatype request = StatsPage | NoSuchPath | TooLarge | BadNumber exn | Object nat nat

definition object_request :: "nat \<Rightarrow> nat \<Rightarrow> request" where
  "object_request bytes index = (if bytes < 8 \<or> bytes > 1048576 then TooLarge else Object bytes index)"

definition classify :: "string \<Rightarrow> request" where
  "classify path =
     (if path = ''/stats'' then StatsPage
      else case match_obj path of
        None \<Rightarrow> NoSuchPath
      | Some (a, b) \<Rightarrow>
          (case bindR (int_digits a) (\<lambda>n. bindR (int_digits b) (\<lambda>k. Inr (n, k))) of
             Inl e \<Rightarrow> BadNumber e
           | Inr (n, k) \<Rightarrow> object_request n k))"

text \<open>The investigation's service reads the size only and has no lower bound.\<close>

definition classify_investigation :: "string \<Rightarrow> request" where
  "classify_investigation path =
     (if path = ''/stats'' then StatsPage
      else case match_obj path of
        None \<Rightarrow> NoSuchPath
      | Some (a, b) \<Rightarrow>
          (case int_digits a of
             Inl e \<Rightarrow> BadNumber e
           | Inr n \<Rightarrow> if n > 1048576 then TooLarge else Object n 0))"

definition object_path :: "nat \<Rightarrow> nat \<Rightarrow> string" where
  "object_path bytes index = ''/obj/'' @ str_nat bytes @ ''/'' @ str_nat index"

section \<open>The origin\<close>

text \<open>
  The answer of a handler: a status with a body and the \<open>X-Cache\<close> header, the counter of the
  statistics page, an error status, or an exception that closes the connection.
\<close>

datatype reply = Reply nat "byte list" string | Counter nat | Failed nat | Aborted exn

definition origin_GET :: "string \<Rightarrow> nat \<Rightarrow> reply \<times> nat" where
  "origin_GET path served =
     (case classify path of
        StatsPage \<Rightarrow> (Counter served, served)
      | NoSuchPath \<Rightarrow> (Failed 404, served)
      | BadNumber e \<Rightarrow> (Aborted e, served)
      | TooLarge \<Rightarrow> (Failed 413, served)
      | Object n k \<Rightarrow>
          (case payload n k of Inl e \<Rightarrow> (Aborted e, served + 1) | Inr body \<Rightarrow> (Reply 200 body ''ORIGIN'', served + 1)))"

definition investigation_origin_GET :: "string \<Rightarrow> nat \<Rightarrow> reply \<times> nat" where
  "investigation_origin_GET path served =
     (case classify_investigation path of
        StatsPage \<Rightarrow> (Counter served, served)
      | NoSuchPath \<Rightarrow> (Failed 404, served)
      | BadNumber e \<Rightarrow> (Aborted e, served)
      | TooLarge \<Rightarrow> (Failed 413, served)
      | Object n k \<Rightarrow> (Reply 200 (plain_payload n) ''ORIGIN'', served + 1))"

section \<open>The adapter\<close>

text \<open>
  \<open>fetch_origin\<close>: at most two attempts, the second on a new connection, and only after an \<open>OSError\<close> or
  an \<open>HTTPException\<close> (both \<open>IOFailure\<close> here). \<open>attempt c\<close> is one request and response on connection \<open>c\<close>;
  connections are numbered, \<open>opened\<close> is the next number. The result carries the connection the handler
  keeps and the number of attempts.
\<close>

definition fetch_origin ::
  "(nat \<Rightarrow> nat \<Rightarrow> (nat \<times> byte list) res) \<Rightarrow> nat option \<Rightarrow> nat \<Rightarrow> (nat \<times> byte list) res \<times> nat option \<times> nat"
where
  "fetch_origin attempt conn opened =
     (let (c, opened) = (case conn of Some c \<Rightarrow> (c, opened) | None \<Rightarrow> (opened, opened + 1)) in
      case attempt 0 c of
        Inr r \<Rightarrow> (Inr r, Some c, 1)
      | Inl (IOFailure m) \<Rightarrow>
          (case attempt 1 opened of Inr r \<Rightarrow> (Inr r, Some opened, 2) | Inl e \<Rightarrow> (Inl e, conn, 2))
      | Inl e \<Rightarrow> (Inl e, conn, 1))"

definition media_key :: "string \<Rightarrow> string" where
  "media_key path = ''media:'' @ path"

datatype cached = FromCache "byte list" | Missed | RpcFailed

definition cache_lookup :: "nat \<Rightarrow> string \<Rightarrow> server \<Rightarrow> cached \<times> server" where
  "cache_lookup now path s = (case service_Get now (media_key path) s of
     (Inl e, s') \<Rightarrow> (RpcFailed, s')
   | (Inr r, s') \<Rightarrow> (if gr_found r then FromCache (gr_value r) else Missed, s'))"

definition cache_fill :: "nat \<Rightarrow> bool \<Rightarrow> 64 word \<Rightarrow> string \<Rightarrow> byte list \<Rightarrow> server \<Rightarrow> reply \<times> server" where
  "cache_fill now room ttl path body s = (case service_Set now room (media_key path) body ttl s of
     (Inl e, s') \<Rightarrow> (Aborted (RuntimeError ''RPC''), s')
   | (Inr stored, s') \<Rightarrow> (Reply 200 body (if sr_success stored then ''MISS'' else ''FILL_FAILED''), s'))"

text \<open>
  The whole handler in adapter mode, for one request alone: \<open>adapter_object\<close> is the branch behind the
  classification, \<open>fetched\<close> the status and body from the origin.
\<close>

definition adapter_object ::
  "64 word \<Rightarrow> nat \<Rightarrow> bool \<Rightarrow> (nat \<times> byte list) res \<Rightarrow> string \<Rightarrow> server \<Rightarrow> reply \<times> server"
where
  "adapter_object ttl now room fetched path s =
     (case cache_lookup now path s of
        (RpcFailed, s1) \<Rightarrow> (Aborted (RuntimeError ''RPC''), s1)
      | (FromCache v, s1) \<Rightarrow> (Reply 200 v ''HIT'', s1)
      | (Missed, s1) \<Rightarrow>
          (case fetched of
             Inl e \<Rightarrow> (Aborted e, s1)
           | Inr (status, body) \<Rightarrow>
               if status \<noteq> 200 then (Failed 502, s1) else cache_fill now room ttl path body s1))"

definition adapter_ttl :: "64 word" where
  "adapter_ttl = 3600"

definition adapter_GET ::
  "nat \<Rightarrow> bool \<Rightarrow> (nat \<Rightarrow> nat \<Rightarrow> (nat \<times> byte list) res) \<Rightarrow> nat option \<Rightarrow> nat \<Rightarrow> string \<Rightarrow> nat \<Rightarrow> server \<Rightarrow> reply \<times> server"
where
  "adapter_GET now room attempt conn opened path served s =
     (case classify path of
        StatsPage \<Rightarrow> (Counter served, s)
      | NoSuchPath \<Rightarrow> (Failed 404, s)
      | BadNumber e \<Rightarrow> (Aborted e, s)
      | TooLarge \<Rightarrow> (Failed 413, s)
      | Object n k \<Rightarrow> adapter_object adapter_ttl now room (fst (fetch_origin attempt conn opened)) path s)"

text \<open>
  The predecessor's handler: a miss opens a connection (\<open>opened\<close>), sends one request on it and closes it, without a
  second attempt.
\<close>

definition before_adapter_GET ::
  "nat \<Rightarrow> bool \<Rightarrow> (nat \<Rightarrow> nat \<Rightarrow> (nat \<times> byte list) res) \<Rightarrow> nat \<Rightarrow> string \<Rightarrow> nat \<Rightarrow> server \<Rightarrow> reply \<times> server"
where
  "before_adapter_GET now room attempt opened path served s =
     (if path = ''/stats'' then (Counter served, s)
      else case match_obj path of
        None \<Rightarrow> (Failed 404, s)
      | Some (a, b) \<Rightarrow>
          (case (int_digits a, int_digits b) of
             (Inl e, _) \<Rightarrow> (Aborted e, s)
           | (Inr bytes, Inl e) \<Rightarrow> (Aborted e, s)
           | (Inr bytes, Inr index) \<Rightarrow>
               if bytes < 8 \<or> bytes > 1048576 then (Failed 413, s)
               else (case service_Get now (media_key path) s of
                 (Inl e, s1) \<Rightarrow> (Aborted (RuntimeError ''RPC''), s1)
               | (Inr found, s1) \<Rightarrow>
                   if gr_found found then (Reply 200 (gr_value found) ''HIT'', s1)
                   else (case attempt 0 opened of
                     Inl e \<Rightarrow> (Aborted e, s1)
                   | Inr (status, body) \<Rightarrow>
                       if status \<noteq> 200 then (Failed 502, s1)
                       else (case service_Set now room (media_key path) body adapter_ttl s1 of
                         (Inl e, s2) \<Rightarrow> (Aborted (RuntimeError ''RPC''), s2)
                       | (Inr stored, s2) \<Rightarrow> (Reply 200 body (if sr_success stored then ''MISS'' else ''FILL_FAILED''), s2))))))"

text \<open>
  The investigation's adapter also fetches on a new connection per miss, classifies requests by size only and
  stores without an expiry.
\<close>

definition investigation_adapter_GET ::
  "nat \<Rightarrow> bool \<Rightarrow> (nat \<times> byte list) res \<Rightarrow> string \<Rightarrow> nat \<Rightarrow> server \<Rightarrow> reply \<times> server"
where
  "investigation_adapter_GET now room fetched path served s =
     (case classify_investigation path of
        StatsPage \<Rightarrow> (Counter served, s)
      | NoSuchPath \<Rightarrow> (Failed 404, s)
      | BadNumber e \<Rightarrow> (Aborted e, s)
      | TooLarge \<Rightarrow> (Failed 413, s)
      | Object n k \<Rightarrow> adapter_object 0 now room fetched path s)"

section \<open>Requests and replies, one at a time\<close>

lemma split_object_path:
  "split_on CHR ''/'' (str_nat n @ CHR ''/'' # str_nat k) = [str_nat n, str_nat k]"
  by (simp add: split_on_append split_on_none)

lemma match_object_path: "match_obj (object_path n k) = Some (str_nat n, str_nat k)"
  by (simp add: match_obj_def object_path_def split_object_path all_digits_def)

lemma classify_object_path:
  assumes "8 \<le> n" and "n \<le> 1048576" and "length (str_nat n) \<le> 4300" and "length (str_nat k) \<le> 4300"
  shows "classify (object_path n k) = Object n k"
proof -
  have "object_path n k \<noteq> ''/stats''" by (simp add: object_path_def)
  with assms show ?thesis
    by (simp add: classify_def match_object_path int_digits_def object_request_def)
qed

text \<open>
  Round trip of the request path: the path the clients build for an object is read back as that
  object, for every size the service accepts, as long as the numbers have at most 4300 digits.
\<close>

theorem object_path_roundtrip:
  assumes "8 \<le> n" and "n \<le> 1048576" and "length (str_nat n) \<le> 4300" and "length (str_nat k) \<le> 4300"
  shows "classify (object_path n k) = Object n k"
  using assms by (rule classify_object_path)

theorem object_path_roundtrip_witness: "classify (object_path 262144 63) = Object 262144 63"
proof -
  have "length (str_nat 262144) \<le> 4300" "length (str_nat 63) \<le> 4300"
    by (simp_all add: str_nat.simps)
  then show ?thesis using object_path_roundtrip [of 262144 63] by simp
qed

lemma classify_Object: "classify path = Object n k \<Longrightarrow> 8 \<le> n \<and> n \<le> 1048576"
  by (auto simp: classify_def object_request_def split: if_splits option.splits sum.splits prod.splits)

text \<open>
  What the origin serves: an object request is answered with status 200 and the object's bytes,
  exactly as many as requested and at most 1 MiB, unless the index has more than 64 bits; every other
  request gets 404, 413, the counter or a closed connection; the counter counts the object requests.
\<close>

theorem origin_GET_replies:
  "case origin_GET path served of (reply, served') \<Rightarrow>
     served' = served + (case classify path of Object n k \<Rightarrow> 1 | _ \<Rightarrow> 0)
     \<and> (case classify path of
          Object n k \<Rightarrow>
            if k < 2 ^ 64
            then (\<exists>body. payload n k = Inr body \<and> reply = Reply 200 body ''ORIGIN''
              \<and> length body = n \<and> length body \<le> 1048576)
            else reply = Aborted OverflowError
        | StatsPage \<Rightarrow> reply = Counter served | NoSuchPath \<Rightarrow> reply = Failed 404
        | TooLarge \<Rightarrow> reply = Failed 413 | BadNumber e \<Rightarrow> reply = Aborted e)"
proof (cases "classify path")
  case (Object n k)
  then have n: "8 \<le> n" "n \<le> 1048576" using classify_Object by auto
  show ?thesis
  proof (cases "k < 2 ^ 64")
    case True
    then obtain body where b: "payload n k = Inr body" using media.gen_defined by blast
    with n Object True media.gen_length [OF b] show ?thesis by (simp add: origin_GET_def)
  next
    case False
    with Object show ?thesis by (simp add: origin_GET_def media.gen_overflow)
  qed
qed (simp_all add: origin_GET_def)

definition first_conn :: "nat option \<Rightarrow> nat \<Rightarrow> nat" where
  "first_conn conn opened = (case conn of Some c \<Rightarrow> c | None \<Rightarrow> opened)"

definition second_conn :: "nat option \<Rightarrow> nat \<Rightarrow> nat" where
  "second_conn conn opened = (case conn of Some c \<Rightarrow> opened | None \<Rightarrow> opened + 1)"

text \<open>
  The adapter retries a lost connection once and no more: it makes at most two attempts; its
  result is that of the first attempt, or of the second one after an I/O error; an error that is no
  I/O error is not retried; on success it keeps the connection that answered.
\<close>

theorem fetch_origin_attempts:
  "case fetch_origin attempt conn opened of (result, kept, attempts) \<Rightarrow>
    attempts \<le> 2
    \<and> result = (case attempt 0 (first_conn conn opened) of
        Inl (IOFailure m) \<Rightarrow> attempt 1 (second_conn conn opened) | r \<Rightarrow> r)
    \<and> (case result of Inl e \<Rightarrow> kept = conn
       | Inr r \<Rightarrow> kept = Some (if attempts = 1 then first_conn conn opened else second_conn conn opened)
           \<and> attempt (attempts - 1) (the kept) = Inr r)"
  by (cases conn; cases "attempt 0 (first_conn conn opened)"; cases "attempt 1 (second_conn conn opened)")
    (simp_all add: fetch_origin_def first_conn_def second_conn_def split: exn.split)

section \<open>Reused and new connections\<close>

text \<open>
  A client's handler over a keep-alive session: the connection to the origin it has kept (\<open>origin_conn\<close>), the number of
  connections opened so far, the requests the origin has counted, and the cache. A visit is the time, whether
  the fill finds room, the path, and whether the origin has dropped the kept connection since the visit before: a request on a dropped connection fails
  before it reaches the origin, and a request on any other one is answered by the origin.
\<close>

record handler =
  hn_conn :: "nat option"
  hn_opened :: nat
  hn_count :: nat
  hn_cache :: server

type_synonym visit = "nat \<times> bool \<times> string \<times> bool"

definition fresh_handler :: "server \<Rightarrow> handler" where
  "fresh_handler s = \<lparr>hn_conn = None, hn_opened = 0, hn_count = 0, hn_cache = s\<rparr>"

text \<open>What the client of the origin reads; a handler that raises closes the connection.\<close>

definition origin_answer :: "reply \<Rightarrow> (nat \<times> byte list) res" where
  "origin_answer r = (case r of Reply status body x \<Rightarrow> Inr (status, body) | Failed status \<Rightarrow> Inr (status, []) | Counter n \<Rightarrow> Inr (200, [])
     | Aborted e \<Rightarrow> Inl (IOFailure ''connection closed''))"

definition conn_attempt :: "handler \<Rightarrow> string \<Rightarrow> bool \<Rightarrow> nat \<Rightarrow> nat \<Rightarrow> (nat \<times> byte list) res" where
  "conn_attempt h path dropped j c =
     (if dropped \<and> hn_conn h = Some c then Inl (IOFailure ''Remote end closed connection without response'')
      else origin_answer (fst (origin_GET path (hn_count h))))"

definition origin_counts :: "string \<Rightarrow> nat \<Rightarrow> nat \<Rightarrow> nat" where
  "origin_counts path requests served = ((\<lambda>c. snd (origin_GET path c)) ^^ requests) served"

definition asks_origin :: "nat \<Rightarrow> string \<Rightarrow> server \<Rightarrow> bool" where
  "asks_origin now path s \<longleftrightarrow> (case classify path of Object n k \<Rightarrow> fst (cache_lookup now path s) = Missed | _ \<Rightarrow> False)"

definition reuse_request :: "visit \<Rightarrow> handler \<Rightarrow> reply \<times> handler" where
  "reuse_request v h = (case v of (now, room, path, dropped) \<Rightarrow>
     let attempt = conn_attempt h path dropped;
         (result, kept, attempts) = fetch_origin attempt (hn_conn h) (hn_opened h);
         (r, s) = adapter_GET now room attempt (hn_conn h) (hn_opened h) path 0 (hn_cache h) in
     if asks_origin now path (hn_cache h)
     then (r, \<lparr>hn_conn = kept, hn_opened = hn_opened h + (if hn_conn h = None then 1 else 0) + (attempts - 1),
               hn_count = origin_counts path (attempts - (if dropped \<and> hn_conn h \<noteq> None then 1 else 0)) (hn_count h),
               hn_cache = s\<rparr>)
     else (r, h\<lparr>hn_cache := s\<rparr>))"

definition before_request :: "visit \<Rightarrow> handler \<Rightarrow> reply \<times> handler" where
  "before_request v h = (case v of (now, room, path, dropped) \<Rightarrow>
     let (r, s) = before_adapter_GET now room (conn_attempt h path dropped) (hn_opened h) path 0 (hn_cache h) in
     if asks_origin now path (hn_cache h)
     then (r, h\<lparr>hn_opened := hn_opened h + 1, hn_count := origin_counts path 1 (hn_count h), hn_cache := s\<rparr>)
     else (r, h\<lparr>hn_cache := s\<rparr>))"

fun session :: "(visit \<Rightarrow> handler \<Rightarrow> reply \<times> handler) \<Rightarrow> visit list \<Rightarrow> handler \<Rightarrow> reply list \<times> handler" where
  "session request [] h = ([], h)"
| "session request (v # vs) h = (let (r, h) = request v h; (rs, h) = session request vs h in (r # rs, h))"

definition index_fits :: "visit \<Rightarrow> bool" where
  "index_fits v = (case v of (now, room, path, dropped) \<Rightarrow> case classify path of Object n k \<Rightarrow> k < 2 ^ 64 | _ \<Rightarrow> True)"

abbreviation visit_dropped :: "visit \<Rightarrow> bool" where
  "visit_dropped v \<equiv> snd (snd (snd v))"

text \<open>The two handlers hold the same cache and origin; the kept connection is one that was opened.\<close>

definition alike :: "handler \<Rightarrow> handler \<Rightarrow> bool" where
  "alike h b \<longleftrightarrow> hn_cache h = hn_cache b \<and> hn_count h = hn_count b \<and> hn_conn b = None
     \<and> (case hn_conn h of None \<Rightarrow> True | Some c \<Rightarrow> c < hn_opened h)"

definition unconnected :: "handler \<Rightarrow> nat" where
  "unconnected h = (if hn_conn h = None then 1 else 0)"

lemma before_adapter_classified:
  "before_adapter_GET now room attempt opened path served s =
     (case classify path of StatsPage \<Rightarrow> (Counter served, s) | NoSuchPath \<Rightarrow> (Failed 404, s) | BadNumber e \<Rightarrow> (Aborted e, s)
      | TooLarge \<Rightarrow> (Failed 413, s) | Object n k \<Rightarrow> adapter_object adapter_ttl now room (attempt 0 opened) path s)"
proof (cases "match_obj path")
  case None
  then show ?thesis by (simp add: before_adapter_GET_def classify_def)
next
  case (Some ab)
  obtain a b where ab: "ab = (a, b)" by (cases ab)
  have "(case service_Get now (media_key path) s of (Inl e, s1) \<Rightarrow> (Aborted (RuntimeError ''RPC''), s1)
      | (Inr found, s1) \<Rightarrow> if gr_found found then (Reply 200 (gr_value found) ''HIT'', s1)
          else (case attempt 0 opened of Inl e \<Rightarrow> (Aborted e, s1)
            | Inr (status, body) \<Rightarrow> if status \<noteq> 200 then (Failed 502, s1)
                else (case service_Set now room (media_key path) body adapter_ttl s1 of
                  (Inl e, s2) \<Rightarrow> (Aborted (RuntimeError ''RPC''), s2)
                | (Inr stored, s2) \<Rightarrow> (Reply 200 body (if sr_success stored then ''MISS'' else ''FILL_FAILED''), s2))))
      = adapter_object adapter_ttl now room (attempt 0 opened) path s"
    unfolding adapter_object_def cache_lookup_def cache_fill_def
    by (cases "service_Get now (media_key path) s"; cases "fst (service_Get now (media_key path) s)"; cases "attempt 0 opened") auto
  then show ?thesis using Some ab
    by (cases "int_digits a"; cases "int_digits b") (simp_all add: before_adapter_GET_def classify_def object_request_def bindR_def)
qed

lemma adapter_object_unfetched:
  "fst (cache_lookup now path s) \<noteq> Missed \<Longrightarrow> adapter_object ttl now room x path s = adapter_object ttl now room y path s"
  by (auto simp: adapter_object_def split: prod.split cached.split)

text \<open>A miss ends with the origin's answer on both sides, whatever has become of the kept connection.\<close>

lemma fetch_origin_conn:
  assumes "classify path = Object n k" and "k < 2 ^ 64" and "alike h b"
  shows "\<exists>body kept attempts. fetch_origin (conn_attempt h path dropped) (hn_conn h) (hn_opened h) = (Inr (200, body), Some kept, attempts)
    \<and> conn_attempt b path dropped 0 (hn_opened b) = Inr (200, body)
    \<and> attempts = (if dropped \<and> hn_conn h \<noteq> None then 2 else 1)
    \<and> kept < hn_opened h + (if hn_conn h = None then 1 else 0) + (attempts - 1)"
proof -
  obtain body where "payload n k = Inr body" using assms(2) media.gen_defined by blast
  then have "origin_answer (fst (origin_GET path c)) = Inr (200, body)" for c
    using assms(1) by (simp add: origin_GET_def origin_answer_def)
  with assms(3) show ?thesis
    by (auto simp: fetch_origin_def conn_attempt_def alike_def Let_def split: option.splits)
qed

lemma request_alike:
  assumes "index_fits v" and "alike h b" and "reuse_request v h = (r, h')" and "before_request v b = (q, b')"
  shows "r = q \<and> alike h' b' \<and> hn_opened b' + hn_count b = hn_opened b + hn_count b'
    \<and> hn_opened h' + hn_opened b \<le> hn_opened h + hn_opened b'
    \<and> hn_opened h' + unconnected h' \<le> hn_opened h + unconnected h + length (filter visit_dropped [v])"
proof -
  obtain now room path dropped where v: "v = (now, room, path, dropped)" by (cases v)
  have s: "hn_cache b = hn_cache h" "hn_count b = hn_count h" using assms(2) by (simp_all add: alike_def)
  show ?thesis
  proof (cases "asks_origin now path (hn_cache h)")
    case False
    have "adapter_GET now room x (hn_conn h) (hn_opened h) path 0 (hn_cache h)
        = before_adapter_GET now room y (hn_opened b) path 0 (hn_cache h)" for x y
      using False adapter_object_unfetched [of now path "hn_cache h"]
      by (auto simp: adapter_GET_def before_adapter_classified asks_origin_def split: request.split)
    then obtain a u where a: "adapter_GET now room x (hn_conn h) (hn_opened h) path 0 (hn_cache h) = (a, u)"
        "before_adapter_GET now room y (hn_opened b) path 0 (hn_cache h) = (a, u)" for x y
      by (metis surj_pair)
    have "r = a \<and> h' = h\<lparr>hn_cache := u\<rparr>"
      using assms(3) False unfolding v reuse_request_def by (simp add: Let_def a case_prod_beta)
    moreover have "q = a \<and> b' = b\<lparr>hn_cache := u\<rparr>"
      using assms(4) False unfolding v before_request_def by (simp add: Let_def a s)
    ultimately show ?thesis using assms(2) by (simp add: alike_def unconnected_def split: option.splits)
  next
    case True
    then obtain n k where c: "classify path = Object n k" by (auto simp: asks_origin_def split: request.splits)
    then have k: "k < 2 ^ 64" using assms(1) by (simp add: v index_fits_def)
    obtain body kept attempts where f:
        "fetch_origin (conn_attempt h path dropped) (hn_conn h) (hn_opened h) = (Inr (200, body), Some kept, attempts)"
        "conn_attempt b path dropped 0 (hn_opened b) = Inr (200, body)" "attempts = (if dropped \<and> hn_conn h \<noteq> None then 2 else 1)"
        "kept < hn_opened h + (if hn_conn h = None then 1 else 0) + (attempts - 1)"
      using fetch_origin_conn [OF c k assms(2), of dropped] by blast
    have one: "attempts - (if dropped \<and> hn_conn h \<noteq> None then 1 else 0) = 1" using f(3) by simp
    have count: "origin_counts path 1 x = x + 1" for x
      using c by (simp add: origin_counts_def origin_GET_def split: sum.split)
    obtain a u where a: "adapter_object adapter_ttl now room (Inr (200, body)) path (hn_cache h) = (a, u)" by fastforce
    have "r = a \<and> h' = \<lparr>hn_conn = Some kept, hn_opened = hn_opened h + (if hn_conn h = None then 1 else 0) + (attempts - 1),
        hn_count = hn_count h + 1, hn_cache = u\<rparr>"
      using assms(3) True a f(1) unfolding v reuse_request_def
      by (simp only: Let_def adapter_GET_def c one count prod.case fst_conv request.case if_True prod.inject simp_thms)
    moreover have "q = a \<and> b' = b\<lparr>hn_opened := hn_opened b + 1, hn_count := hn_count b + 1, hn_cache := u\<rparr>"
      using assms(4) True a f(2) unfolding v before_request_def by (simp add: Let_def before_adapter_classified c s count del: One_nat_def)
    ultimately show ?thesis using f(3,4) assms(2) by (auto simp: alike_def unconnected_def v s)
  qed
qed

lemma session_alike:
  "list_all index_fits vs \<Longrightarrow> alike h b \<Longrightarrow> session reuse_request vs h = (rs, h') \<Longrightarrow> session before_request vs b = (qs, b') \<Longrightarrow>
    rs = qs \<and> alike h' b' \<and> hn_opened b' + hn_count b = hn_opened b + hn_count b'
    \<and> hn_opened h' + hn_opened b \<le> hn_opened h + hn_opened b'
    \<and> hn_opened h' + unconnected h' \<le> hn_opened h + unconnected h + length (filter visit_dropped vs)"
proof (induction vs arbitrary: h b rs qs)
  case (Cons v vs)
  obtain r h1 where r: "reuse_request v h = (r, h1)" by fastforce
  obtain q b1 where q: "before_request v b = (q, b1)" by fastforce
  obtain rs1 where rs: "session reuse_request vs h1 = (rs1, h')" "rs = r # rs1"
    using Cons.prems(3) r by (auto split: prod.splits)
  obtain qs1 where qs: "session before_request vs b1 = (qs1, b')" "qs = q # qs1"
    using Cons.prems(4) q by (auto split: prod.splits)
  have one: "index_fits v" "list_all index_fits vs" using Cons.prems(1) by simp_all
  note step = request_alike [OF one(1) Cons.prems(2) r q]
  have "alike h1 b1" using step by blast
  note rest = Cons.IH [OF one(2) this rs(1) qs(1)]
  have "filter visit_dropped (v # vs) = filter visit_dropped [v] @ filter visit_dropped vs" by simp
  then have "length (filter visit_dropped (v # vs)) = length (filter visit_dropped [v]) + length (filter visit_dropped vs)"
    by (metis length_append)
  then show ?case using step rest rs(2) qs(2) by (elim conjE, intro conjI) (simp, assumption, linarith+)
qed simp

text \<open>
  C32. Reusing the origin's connection changed the connections and nothing else. For every sequence of requests a client makes,
  in which the origin may drop the kept connection before any of them, the adapter and its predecessor give the same replies, leave the same cache and cause the
  same number of requests at the origin, as long as the indices fit 64 bits (for a larger one the origin closes the
  connection, and the adapter asks it twice). The predecessor opens one connection per origin request; the adapter never opens more, and at
  most one and one per dropped connection.
\<close>

theorem reuse_preserves_replies:
  assumes "list_all index_fits vs" and "session reuse_request vs (fresh_handler s) = (rs, h)"
    and "session before_request vs (fresh_handler s) = (qs, b)"
  shows "rs = qs \<and> hn_cache h = hn_cache b \<and> hn_count h = hn_count b \<and> hn_opened b = hn_count b
    \<and> hn_opened h \<le> hn_opened b \<and> hn_opened h \<le> 1 + length (filter visit_dropped vs)"
proof -
  have "alike (fresh_handler s) (fresh_handler s)" by (simp add: alike_def fresh_handler_def)
  from session_alike [OF assms(1) this assms(2,3)] show ?thesis by (simp add: alike_def fresh_handler_def unconnected_def)
qed

section \<open>Many requests at once\<close>

text \<open>
  The adapter's threads, each at one of its three blocking calls, with the cache, the origin's request
  counter and the replies sent. \<open>Fetching\<close> carries the number of the attempt.
\<close>

datatype phase = Looking string | Fetching string nat | Storing string "byte list"

record adapter =
  ad_cache :: server
  ad_threads :: "nat \<rightharpoonup> phase"
  ad_origin_count :: nat
  ad_replies :: "(string \<times> reply) list"

inductive adapter_step :: "adapter \<Rightarrow> adapter \<Rightarrow> bool" where
  arrive: "ad_threads a i = None \<Longrightarrow> classify path = Object n k \<Longrightarrow>
     adapter_step a (a\<lparr>ad_threads := (ad_threads a)(i \<mapsto> Looking path)\<rparr>)"
| hit: "ad_threads a i = Some (Looking path) \<Longrightarrow> cache_lookup now path (ad_cache a) = (FromCache v, s) \<Longrightarrow>
     adapter_step a (a\<lparr>ad_cache := s, ad_threads := (ad_threads a)(i := None),
       ad_replies := ad_replies a @ [(path, Reply 200 v ''HIT'')]\<rparr>)"
| miss: "ad_threads a i = Some (Looking path) \<Longrightarrow> cache_lookup now path (ad_cache a) = (Missed, s) \<Longrightarrow>
     adapter_step a (a\<lparr>ad_cache := s, ad_threads := (ad_threads a)(i \<mapsto> Fetching path 0)\<rparr>)"
| lookup_fails: "ad_threads a i = Some (Looking path) \<Longrightarrow> cache_lookup now path (ad_cache a) = (RpcFailed, s) \<Longrightarrow>
     adapter_step a (a\<lparr>ad_cache := s, ad_threads := (ad_threads a)(i := None)\<rparr>)"
| fetched: "ad_threads a i = Some (Fetching path j) \<Longrightarrow>
     origin_GET path (ad_origin_count a) = (Reply 200 body x, c) \<Longrightarrow>
     adapter_step a (a\<lparr>ad_origin_count := c, ad_threads := (ad_threads a)(i \<mapsto> Storing path body)\<rparr>)"
| lost: "ad_threads a i = Some (Fetching path j) \<Longrightarrow> c = ad_origin_count a \<or> c = snd (origin_GET path (ad_origin_count a)) \<Longrightarrow>
     adapter_step a (a\<lparr>ad_origin_count := c,
       ad_threads := (ad_threads a)(i := (if j = 0 then Some (Fetching path 1) else None))\<rparr>)"
| stored: "ad_threads a i = Some (Storing path body) \<Longrightarrow>
     cache_fill now room adapter_ttl path body (ad_cache a) = (r, s) \<Longrightarrow>
     adapter_step a (a\<lparr>ad_cache := s, ad_threads := (ad_threads a)(i := None),
       ad_replies := ad_replies a @ [(path, r)]\<rparr>)"
| evicted: "adapter_step a (a\<lparr>ad_cache := evict key (ad_cache a)\<rparr>)"

definition start_adapter :: "server \<Rightarrow> adapter" where
  "start_adapter s = \<lparr>ad_cache = s, ad_threads = Map.empty, ad_origin_count = 0, ad_replies = []\<rparr>"

text \<open>The bytes a path stands for, and the values the cache may hold under the path's key.\<close>

definition object_bytes :: "string \<Rightarrow> byte list \<Rightarrow> bool" where
  "object_bytes path v \<longleftrightarrow> (\<exists>n k. classify path = Object n k \<and> payload n k = Inr v)"

definition media_value :: "string \<Rightarrow> byte list \<Rightarrow> bool" where
  "media_value key v \<longleftrightarrow> (\<forall>path. key = media_key path \<longrightarrow> object_bytes path v)"

lemma media_value_key: "media_value (media_key path) v \<longleftrightarrow> object_bytes path v"
  by (auto simp: media_value_def media_key_def)

lemma lookup_stub:
  "cache_lookup now path s = (FromCache v, s') \<Longrightarrow> stub_get (now, room) (media_key path) s = (Some v, s')"
  "snd (cache_lookup now path s) = snd (stub_get (now, room) (media_key path) s)"
  by (auto simp: cache_lookup_def stub_get_def split: prod.splits sum.splits if_splits)

lemma fill_stub:
  "snd (cache_fill now room ttl path body s) = snd (stub_set ttl (now, room) (media_key path) body s)"
  "fst (cache_fill now room ttl path body s) = Reply status v x \<Longrightarrow> v = body \<and> status = 200 \<and> x \<noteq> ''HIT''"
  by (auto simp: cache_fill_def stub_set_def split: prod.splits sum.splits if_splits)

lemma origin_GET_bytes:
  "origin_GET path c = (Reply status v x, c') \<Longrightarrow> object_bytes path v \<and> c' = c + 1"
  by (auto simp: origin_GET_def object_bytes_def split: request.splits sum.splits)

lemma origin_GET_count: "c \<le> snd (origin_GET path c)"
  by (auto simp: origin_GET_def split: request.splits sum.splits)

text \<open>The invariant: cache, threads and replies hold only the bytes their path stands for.\<close>

definition coherent :: "adapter \<Rightarrow> bool" where
  "coherent a \<longleftrightarrow>
     server_cache.obeys media_value (ad_cache a)
     \<and> (\<forall>i path body. ad_threads a i = Some (Storing path body) \<longrightarrow> object_bytes path body)
     \<and> list_all (\<lambda>(path, r). case r of Reply status v x \<Rightarrow> object_bytes path v | _ \<Rightarrow> True) (ad_replies a)"

lemma coherent_step:
  assumes "adapter_step a a'" and "coherent a"
  shows "coherent a'"
  using assms
proof (induction rule: adapter_step.induct)
  case (hit a i path now v s)
  have o: "server_cache.obeys media_value (ad_cache a)" using hit.prems by (simp add: coherent_def)
  have g: "stub_get (now, True) (media_key path) (ad_cache a) = (Some v, s)" using lookup_stub(1) hit.hyps(2) by blast
  have "object_bytes path v" using server_cache.obeys_get_value [OF o g] by (simp add: media_value_key)
  moreover have "server_cache.obeys media_value s" using server_cache.obeys_get [OF o, of "(now, True)" "media_key path"] g by simp
  ultimately show ?case using hit by (auto simp: coherent_def split: if_splits)
next
  case (stored a i path body now room r s)
  have b: "object_bytes path body" using stored by (auto simp: coherent_def)
  then have "server_cache.obeys media_value s"
    using stored.hyps(2) stored.prems fill_stub(1) [of now room adapter_ttl path body "ad_cache a"]
      server_cache.obeys_set [of media_value "ad_cache a" "media_key path" body]
    by (simp add: coherent_def media_value_key)
  moreover have "case r of Reply status v x \<Rightarrow> object_bytes path v | _ \<Rightarrow> True"
    using b fill_stub(2) [of now room adapter_ttl path body "ad_cache a"] stored.hyps(2) by (cases r) auto
  ultimately show ?case using stored by (auto simp: coherent_def split: if_splits)
next
  case (miss a i path now s)
  have "server_cache.obeys media_value s"
    using miss lookup_stub(2) [of now path "ad_cache a" True] server_cache.obeys_get [of media_value "ad_cache a"]
    by (simp add: coherent_def)
  with miss show ?case by (auto simp: coherent_def split: if_splits)
next
  case (lookup_fails a i path now s)
  have "server_cache.obeys media_value s"
    using lookup_fails lookup_stub(2) [of now path "ad_cache a" True] server_cache.obeys_get [of media_value "ad_cache a"]
    by (simp add: coherent_def)
  with lookup_fails show ?case by (auto simp: coherent_def split: if_splits)
next
  case (fetched a i path j body x c)
  then show ?case using origin_GET_bytes by (fastforce simp: coherent_def split: if_splits)
next
  case (evicted a key)
  then show ?case using server_cache.obeys_drop by (auto simp: coherent_def)
qed (auto simp: coherent_def split: if_splits)

lemma coherent_start: "(\<And>path v. \<not> server_holds s (media_key path) v) \<Longrightarrow> coherent (start_adapter s)"
  by (auto simp: coherent_def start_adapter_def server_cache.obeys_def media_value_def)

text \<open>
  C5. The adapter serves only the right bytes: in every state reachable by any interleaving of requests
  with evictions, expiries, failed fills and lost connections, every object reply carries exactly the
  bytes the origin generates for that path.
\<close>

theorem adapter_serves_object_bytes:
  assumes "adapter_step\<^sup>*\<^sup>* (start_adapter s) a" and "\<And>path v. \<not> server_holds s (media_key path) v"
    and "(path, Reply status v x) \<in> set (ad_replies a)"
  shows "object_bytes path v"
proof -
  have "coherent a" using assms(1)
    by (induction rule: rtranclp_induct) (use coherent_start assms(2) coherent_step in blast)+
  with assms(3) show ?thesis by (fastforce simp: coherent_def list_all_iff)
qed

text \<open>The replies that were not served from the cache, and the threads about to send one.\<close>

definition origin_replies :: "(string \<times> reply) list \<Rightarrow> nat" where
  "origin_replies rs = length (filter (\<lambda>(path, r). case r of Reply st v x \<Rightarrow> x \<noteq> ''HIT'' | _ \<Rightarrow> False) rs)"

definition storing :: "(nat \<rightharpoonup> phase) \<Rightarrow> nat set" where
  "storing m = {i. \<exists>path body. m i = Some (Storing path body)}"

definition accounted :: "adapter \<Rightarrow> bool" where
  "accounted a \<longleftrightarrow> finite (storing (ad_threads a))
     \<and> origin_replies (ad_replies a) + card (storing (ad_threads a)) \<le> ad_origin_count a"

lemma storing_upd [simp]:
  "storing (m(i \<mapsto> Storing path body)) = insert i (storing m)" "storing (m(i \<mapsto> Looking path)) = storing m - {i}"
  "storing (m(i \<mapsto> Fetching path j)) = storing m - {i}" "storing (m(i := None)) = storing m - {i}"
  by (auto simp: storing_def)

lemma card_remove_bound: "r + card S \<le> c \<Longrightarrow> r + card (S - {i}) \<le> (c :: nat)"
  by (meson add_left_mono card_Diff1_le le_trans)

lemma origin_replies_snoc [simp]:
  "origin_replies (rs @ [(path, Reply 200 v ''HIT'')]) = origin_replies rs"
  "origin_replies (rs @ [(path, r)]) \<le> origin_replies rs + 1"
  by (auto simp: origin_replies_def)

lemma accounted_step:
  assumes "adapter_step a a'" and "accounted a"
  shows "accounted a'"
  using assms
proof (induction rule: adapter_step.induct)
  case (fetched a i path j body x c)
  have "card (insert i (storing (ad_threads a))) \<le> card (storing (ad_threads a)) + 1"
    using fetched.prems by (simp add: accounted_def card_insert_if)
  with fetched origin_GET_bytes [OF fetched.hyps(2)] show ?case by (simp add: accounted_def)
next
  case (stored a i path body now room r s)
  have "i \<in> storing (ad_threads a)" "finite (storing (ad_threads a))"
    using stored.prems stored.hyps(1) by (auto simp: accounted_def storing_def)
  then have "card (storing (ad_threads a) - {i}) + 1 = card (storing (ad_threads a))"
    using card_Suc_Diff1 [of "storing (ad_threads a)" i] by simp
  with stored.prems origin_replies_snoc(2) [of "ad_replies a" path r] show ?case
    by (simp add: accounted_def)
next
  case (lost a i path j c)
  have "ad_origin_count a \<le> c" using lost.hyps(2) origin_GET_count by auto
  with lost.prems have "origin_replies (ad_replies a) + card (storing (ad_threads a) - {i}) \<le> c"
    by (intro card_remove_bound) (simp add: accounted_def)
  with lost.prems show ?case by (cases "j = 0") (auto simp: accounted_def)
qed (simp_all add: accounted_def card_remove_bound)

text \<open>
  C31. The origin's counter never undercounts: in every reachable state the replies that did not come from
  the cache are at most the requests the origin counted. A measurement that sees no origin request has
  therefore served every reply from the cache. (The converse fails: a request whose response is lost
  is counted and retried.)
\<close>

theorem origin_counter_bounds_misses:
  assumes "adapter_step\<^sup>*\<^sup>* (start_adapter s) a"
  shows "origin_replies (ad_replies a) \<le> ad_origin_count a"
proof -
  have "accounted (start_adapter s)"
    by (simp add: accounted_def start_adapter_def storing_def origin_replies_def)
  with assms have "accounted a"
    by (induction rule: rtranclp_induct) (use accounted_step in blast)+
  then show ?thesis by (simp add: accounted_def)
qed

text \<open>A miss, its fill and the hit that follows.\<close>

definition sample_object :: "byte list" where
  "sample_object = projr (payload 100 7)"

lemma sample_object_path: "classify (object_path 100 7) = Object 100 7" "payload 100 7 = Inr sample_object"
proof -
  have "length (str_nat 100) \<le> 4300" "length (str_nat 7) \<le> 4300" by (simp_all add: str_nat.simps)
  then show "classify (object_path 100 7) = Object 100 7"
    by (simp add: classify_object_path)
  obtain body where "payload 100 7 = Inr body" using media.gen_defined [of 7 100] by auto
  then show "payload 100 7 = Inr sample_object" by (simp add: sample_object_def)
qed

lemma sample_history:
  "\<exists>a. adapter_step\<^sup>*\<^sup>* (start_adapter empty_server) a
     \<and> ad_replies a = [(object_path 100 7, Reply 200 sample_object ''MISS'')] \<and> ad_origin_count a = 1"
proof -
  let ?p = "object_path 100 7" and ?s = empty_server
  define s1 where "s1 = snd (cache_lookup 0 ?p ?s)"
  have l: "cache_lookup 0 ?p ?s = (Missed, s1)"
    by (simp add: s1_def cache_lookup_def service_Get_def cm_get_def find_item_def empty_server_def media_key_def)
  have r1: "sv_ready s1" "sv_max_item_size s1 = 4194304"
    by (simp_all add: s1_def cache_lookup_def service_Get_def cm_get_def find_item_def empty_server_def media_key_def)
  have "length sample_object = 100" using media.gen_length [OF sample_object_path(2)] by simp
  with r1 obtain s2 where f: "cache_fill 0 True adapter_ttl ?p sample_object s1 = (Reply 200 sample_object ''MISS'', s2)"
    by (simp add: cache_fill_def service_Set_def cm_set_def media_key_def)
  have o: "origin_GET ?p 0 = (Reply 200 sample_object ''ORIGIN'', 1)"
    by (simp add: origin_GET_def sample_object_path)
  let ?a0 = "start_adapter ?s"
  let ?a1 = "?a0\<lparr>ad_threads := (ad_threads ?a0)(0 \<mapsto> Looking ?p)\<rparr>"
  let ?a2 = "?a1\<lparr>ad_cache := s1, ad_threads := (ad_threads ?a1)(0 \<mapsto> Fetching ?p 0)\<rparr>"
  let ?a3 = "?a2\<lparr>ad_origin_count := 1, ad_threads := (ad_threads ?a2)(0 \<mapsto> Storing ?p sample_object)\<rparr>"
  let ?a4 = "?a3\<lparr>ad_cache := s2, ad_threads := (ad_threads ?a3)(0 := None),
      ad_replies := ad_replies ?a3 @ [(?p, Reply 200 sample_object ''MISS'')]\<rparr>"
  have "adapter_step ?a0 ?a1" by (rule adapter_step.arrive) (simp_all add: start_adapter_def sample_object_path)
  moreover have "adapter_step ?a1 ?a2" by (rule adapter_step.miss [where now = 0]) (simp_all add: start_adapter_def l)
  moreover have "adapter_step ?a2 ?a3"
    by (rule adapter_step.fetched [where j = 0 and x = "''ORIGIN''"]) (simp_all add: start_adapter_def o)
  moreover have "adapter_step ?a3 ?a4"
    by (rule adapter_step.stored [where now = 0 and room = True]) (simp_all add: start_adapter_def, rule f)
  ultimately have "adapter_step\<^sup>*\<^sup>* ?a0 ?a4" by (meson converse_rtranclp_into_rtranclp rtranclp.rtrancl_refl)
  then show ?thesis by (intro exI [of _ ?a4]) (simp add: start_adapter_def)
qed

theorem reuse_preserves_replies_witness:
  "\<exists>rs h b. session reuse_request [(0, True, object_path 100 7, False), (9000, True, object_path 100 7, True)] (fresh_handler empty_server) = (rs, h)
    \<and> session before_request [(0, True, object_path 100 7, False), (9000, True, object_path 100 7, True)] (fresh_handler empty_server) = (rs, b)
    \<and> hn_cache h = hn_cache b \<and> hn_opened h \<le> 2"
proof -
  let ?vs = "[(0, True, object_path 100 7, False), (9000, True, object_path 100 7, True)]"
  obtain rs h where h: "session reuse_request ?vs (fresh_handler empty_server) = (rs, h)" by fastforce
  obtain qs b where b: "session before_request ?vs (fresh_handler empty_server) = (qs, b)" by fastforce
  have "list_all index_fits ?vs" by (simp add: index_fits_def sample_object_path)
  from reuse_preserves_replies [OF this h b] h b show ?thesis by (simp del: session.simps)
qed

theorem adapter_serves_object_bytes_witness: "object_bytes (object_path 100 7) sample_object"
proof -
  obtain a where a: "adapter_step\<^sup>*\<^sup>* (start_adapter empty_server) a"
    "(object_path 100 7, Reply 200 sample_object ''MISS'') \<in> set (ad_replies a)"
    using sample_history by force
  show ?thesis by (rule adapter_serves_object_bytes [OF a(1) _ a(2)]) (simp add: server_holds_def empty_server_def)
qed

theorem origin_counter_bounds_misses_witness:
  "\<exists>a. adapter_step\<^sup>*\<^sup>* (start_adapter empty_server) a \<and> length (ad_replies a) = 1
     \<and> origin_replies (ad_replies a) \<le> ad_origin_count a"
  using sample_history origin_counter_bounds_misses by (metis length_Cons list.size(3) One_nat_def)

end
