(* ===== verification/Http_Client.thy ===== *)
theory Http_Client
  imports Trace_Client Http_Service
begin

text \<open>
  The HTTP client of the investigation, \<open>bench/investigation/http_client.py\<close>, on an abstract target and origin, and its
  composition with the adapter, the cache server and the origin of \<open>bench/investigation/http_service.py\<close>. The
  locale \<open>object_service\<close> says what a measurement relies on: an object request is answered with the object's bytes, and it
  costs the origin one request exactly when the object was not held. What the client then reports is proved once in
  the locale and holds of the modelled path, in which a request is served as one step.
\<close>

section \<open>The client\<close>

record http_client_args =
  hc_size :: nat
  hc_objects :: nat
  hc_requests :: nat
  hc_concurrency :: int
  hc_pattern :: string

text \<open>A GET at the target, the counter on the origin's statistics page, and \<open>time.perf_counter_ns\<close>.\<close>

record 'w web =
  wb_get :: "string \<Rightarrow> ('w, reply) sx"
  wb_origin :: "('w, nat) sx"
  wb_clock :: "('w, int) sx"

definition client_keys :: "('s, 'm) rng_scheme \<Rightarrow> http_client_args \<Rightarrow> nat list res" where
  "client_keys g a =
     (if hc_pattern a = ''repeated''
      then if hc_objects a = 0 \<and> hc_requests a \<noteq> 0 then Inl (ValueError ''empty range for randrange()'')
           else Inr (fst (draws g (hc_objects a) (hc_requests a) (seed_rng g 20260923)))
      else Inr (map (\<lambda>i. hc_objects a + i) [0..<hc_requests a]))"

type_synonym fetched = "real \<times> string option \<times> bool"

text \<open>An error page has no \<open>X-Cache\<close> header; a closed connection raises.\<close>

definition reply_fields :: "nat \<Rightarrow> reply \<Rightarrow> (string option \<times> bool) res" where
  "reply_fields bytes r =
     (case r of
        Reply status body x \<Rightarrow> Inr (Some x, status = 200 \<and> body = plain_payload bytes)
      | Counter n \<Rightarrow> Inr (None, False)
      | Failed status \<Rightarrow> Inr (None, False)
      | Aborted e \<Rightarrow> Inl (IOFailure ''connection closed''))"

definition http_get :: "'w web \<Rightarrow> nat \<Rightarrow> nat \<Rightarrow> ('w, fetched) sx" where
  "http_get web bytes index =
     bindS (wb_clock web) (\<lambda>t.
     bindS (wb_get web (object_path bytes index)) (\<lambda>r.
     bindS (liftS (reply_fields bytes r)) (\<lambda>(x, ok).
     bindS (wb_clock web) (\<lambda>u.
       retS (fl (of_int (u - t) / 1000000), x, ok)))))"

definition preload_object :: "'w web \<Rightarrow> nat \<Rightarrow> nat \<Rightarrow> ('w, unit) sx" where
  "preload_object web bytes i = bindS (http_get web bytes i) (\<lambda>(ms, x, ok). if ok then retS () else raiseS (AssertionError []))"

text \<open>
  The counts per \<open>X-Cache\<close> value; \<open>json.dumps(..., sort_keys=True)\<close> cannot order \<open>None\<close> and strings, and prints a
  single \<open>None\<close> as \<open>null\<close>.
\<close>

definition cache_status :: "fetched list \<Rightarrow> json res" where
  "cache_status results =
     (let xs = map (\<lambda>r. fst (snd r)) results; named = sort (remdups [x. Some x \<leftarrow> xs]);
          number = (\<lambda>x. JNum (real (length (filter (\<lambda>y. y = x) xs)))) in
      if None \<in> set xs \<and> named \<noteq> [] then Inl TypeError
      else Inr (JObj (map (\<lambda>x. (x, number (Some x))) named @ (if None \<in> set xs then [(''null'', number None)] else []))))"

definition args_json :: "http_client_args \<Rightarrow> string \<Rightarrow> string \<Rightarrow> json" where
  "args_json a host origin =
     JObj [(''concurrency'', JNum (of_int (hc_concurrency a))), (''host'', JStr host), (''objects'', JNum (real (hc_objects a))),
           (''origin'', JStr origin), (''pattern'', JStr (hc_pattern a)), (''requests'', JNum (real (hc_requests a))),
           (''size'', JNum (real (hc_size a)))]"

definition http_report :: "http_client_args \<Rightarrow> string \<Rightarrow> string \<Rightarrow> fetched list \<Rightarrow> real \<Rightarrow> nat \<Rightarrow> nat \<Rightarrow> dict res" where
  "http_report a host origin results elapsed before after =
     (let lat = map fst results; n = length results; asked = int after - int before in
      if elapsed = 0 then Inl ZeroDivisionError
      else bindR (cache_status results) (\<lambda>status.
        bindR (http_quantile lat (fl 0.5)) (\<lambda>p50. bindR (http_quantile lat (fl 0.95)) (\<lambda>p95. bindR (http_quantile lat (fl 0.99)) (\<lambda>p99.
        Inr [(''args'', args_json a host origin), (''cache_status'', status), (''elapsed_s'', JNum elapsed),
             (''errors'', JNum (real (length (filter (\<lambda>r. \<not> snd (snd r)) results)))), (''ops_s'', JNum (fl (real n / elapsed))),
             (''origin_bytes_delta'', JNum (of_int (asked * int (hc_size a)))), (''origin_requests_delta'', JNum (of_int asked)),
             (''p50_ms'', JNum p50), (''p95_ms'', JNum p95), (''p99_ms'', JNum p99),
             (''payload_mib_s'', JNum (fl (fl (real (n * hc_size a) / 1048576) / elapsed))), (''requests'', JNum (real n))])))))"

text \<open>With more than one worker the requests are served in the order \<open>sched\<close> and the results listed in that of the keys.\<close>

definition http_client_run ::
  "('s, 'm) rng_scheme \<Rightarrow> 'w web \<Rightarrow> nat list \<Rightarrow> string \<Rightarrow> string \<Rightarrow> http_client_args \<Rightarrow> ('w, dict) sx"
where
  "http_client_run g web sched host origin a =
     bindS (liftS (client_keys g a)) (\<lambda>keys.
     bindS (if hc_pattern a = ''repeated'' then mapS (preload_object web (hc_size a)) [0..<hc_objects a] else retS []) (\<lambda>_.
     bindS (wb_origin web) (\<lambda>before.
     bindS (wb_clock web) (\<lambda>start.
     bindS (if hc_concurrency a = 1 then mapS (http_get web (hc_size a)) keys
            else pool_map (hc_concurrency a) sched (http_get web (hc_size a)) keys) (\<lambda>results.
     bindS (wb_clock web) (\<lambda>stop.
     bindS (wb_origin web) (\<lambda>after.
     liftS (http_report a host origin results (fl (of_int (stop - start) / 1000000000)) before after))))))))"

lemma object_path_inject: "object_path n i = object_path n j \<Longrightarrow> i = j"
  using match_object_path [of n i] match_object_path [of n j] nat_of_digits_str_nat by (metis option.inject prod.inject)

text \<open>The requests in the order in which they are served.\<close>

definition serving_order :: "http_client_args \<Rightarrow> nat list \<Rightarrow> nat list \<Rightarrow> nat list" where
  "serving_order a sched keys = (if hc_concurrency a = 1 then keys else map (\<lambda>i. keys ! i) sched)"

text \<open>At least one worker, and with more of them an order that serves every request once.\<close>

definition complete_schedule :: "http_client_args \<Rightarrow> nat list \<Rightarrow> bool" where
  "complete_schedule a sched \<longleftrightarrow> 0 < hc_concurrency a \<and> (hc_concurrency a = 1 \<or> distinct sched \<and> set sched = {0..<hc_requests a})"

lemma pooled_results:
  assumes "mapS f (serving_order a sched keys) w = (Inr rs, w')" and "complete_schedule a sched" and "length keys = hc_requests a"
    and "length rs = length (serving_order a sched keys)" and "list_all P rs"
  shows "\<exists>rs'. (if hc_concurrency a = 1 then mapS f keys else pool_map (hc_concurrency a) sched f keys) w = (Inr rs', w')
    \<and> list_all P rs' \<and> length rs' = hc_requests a"
proof (cases "hc_concurrency a = 1")
  case True
  with assms show ?thesis by (auto simp: serving_order_def)
next
  case False
  then have s: "set sched = {0..<length keys}" using assms(2,3) by (auto simp: complete_schedule_def)
  have len: "length rs = length sched" using assms(4) False by (simp add: serving_order_def)
  have "P (the (map_of (zip sched rs) i))" if "i < length keys" for i
  proof -
    have "i \<in> set sched" using that s by simp
    then obtain r where r: "map_of (zip sched rs) i = Some r" using len by (metis map_of_zip_is_Some)
    then have "r \<in> set rs" by (auto dest: map_of_SomeD set_zip_rightD)
    with r assms(5) show ?thesis by (auto simp: list_all_iff)
  qed
  then have "list_all P (map (\<lambda>i. the (map_of (zip sched rs) i)) [0..<length keys])" by (simp add: list_all_length)
  moreover have "mapS (\<lambda>i. f (keys ! i)) sched w = (Inr rs, w')" using assms(1) False by (simp add: serving_order_def mapS_map)
  ultimately show ?thesis using False assms(2,3) by (simp add: pool_map_def bindS_def retS_def complete_schedule_def)
qed

text \<open>The report of a run in which every request was answered rightly and with the same \<open>X-Cache\<close> value.\<close>

lemma uniform_report:
  assumes "list_all (\<lambda>r. snd r = (Some x, True)) rs" and "rs \<noteq> []" and "length rs \<le> 2 ^ 53" and "elapsed \<noteq> 0"
  shows "\<exists>d. http_report a host origin rs elapsed before after = Inr d \<and> map_of d ''errors'' = Some (JNum 0)
    \<and> map_of d ''requests'' = Some (JNum (real (length rs))) \<and> map_of d ''origin_requests_delta'' = Some (JNum (of_int (int after - int before)))
    \<and> map_of d ''cache_status'' = Some (JObj [(x, JNum (real (length rs)))])"
proof -
  have xs: "map (\<lambda>r. fst (snd r)) rs = replicate (length rs) (Some x)" using assms(1) by (induction rs) auto
  have e: "filter (\<lambda>r. \<not> snd (snd r)) rs = []" using assms(1) by (auto simp: list_all_iff filter_empty_conv)
  have k: "concat (replicate k [x]) = replicate k x" for k by (induction k) auto
  have d: "remdups (replicate (Suc k) x) = [x]" for k by (induction k) auto
  obtain k where k': "length rs = Suc k" using assms(2) by (cases rs) auto
  have status: "cache_status rs = Inr (JObj [(x, JNum (real (length rs)))])"
    unfolding cache_status_def Let_def xs k' using d [of k] by (simp add: k)
  have "\<exists>v. http_quantile (map fst rs) q = Inr v" if "0 \<le> q" "q \<le> 1" for q
    using interpolate_eq [of "sort (map fst rs)" q] assms(2,3) that by (auto simp: http_quantile_def)
  then have q: "\<exists>v. http_quantile (map fst rs) (fl q) = Inr v" if "0 \<le> q" "q \<le> 1" for q
    using that fl_nonneg [of q] fl_mono [of q 1] by simp
  obtain p50 p95 p99 where "http_quantile (map fst rs) (fl 0.5) = Inr p50" "http_quantile (map fst rs) (fl 0.95) = Inr p95"
      "http_quantile (map fst rs) (fl 0.99) = Inr p99" using q [of "0.5"] q [of "0.95"] q [of "0.99"] by auto
  then show ?thesis using assms(4) by (simp add: http_report_def Let_def status e)
qed

section \<open>What a measurement relies on\<close>

locale object_service =
  fixes web :: "'w web" and good :: "'w \<Rightarrow> bool" and holds :: "'w \<Rightarrow> string \<Rightarrow> bool" and asked :: "'w \<Rightarrow> nat" and now :: "'w \<Rightarrow> int"
    and fits :: "nat \<Rightarrow> bool"
  assumes get_object: "good w \<Longrightarrow> fits n \<Longrightarrow> \<exists>w'. wb_get web (object_path n i) w
      = (Inr (Reply 200 (plain_payload n) (if holds w (object_path n i) then ''HIT'' else ''MISS'')), w')
      \<and> good w' \<and> asked w' = asked w + (if holds w (object_path n i) then 0 else 1)
      \<and> holds w' = (holds w)(object_path n i := True) \<and> now w \<le> now w'"
    and read_origin: "wb_origin web w = (Inr (asked w), w)"
    and read_clock: "good w \<Longrightarrow> \<exists>w'. wb_clock web w = (Inr (now w), w') \<and> good w' \<and> asked w' = asked w \<and> holds w' = holds w \<and> now w < now w'"
begin

text \<open>One request, with both clock readings.\<close>

lemma http_get_object:
  assumes "good w" and "fits n"
  shows "\<exists>ms w'. http_get web n i w = (Inr (ms, Some (if holds w (object_path n i) then ''HIT'' else ''MISS''), True), w')
    \<and> good w' \<and> asked w' = asked w + (if holds w (object_path n i) then 0 else 1)
    \<and> holds w' = (holds w)(object_path n i := True) \<and> now w < now w'"
proof -
  obtain w1 where w1: "wb_clock web w = (Inr (now w), w1)" "good w1" "asked w1 = asked w" "holds w1 = holds w" "now w < now w1"
    using read_clock [OF assms(1)] by blast
  obtain w2 where w2: "wb_get web (object_path n i) w1
      = (Inr (Reply 200 (plain_payload n) (if holds w1 (object_path n i) then ''HIT'' else ''MISS'')), w2)" "good w2"
      "asked w2 = asked w1 + (if holds w1 (object_path n i) then 0 else 1)" "holds w2 = (holds w1)(object_path n i := True)" "now w1 \<le> now w2"
    using get_object [OF w1(2) assms(2)] by blast
  obtain w3 where w3: "wb_clock web w2 = (Inr (now w2), w3)" "good w3" "asked w3 = asked w2" "holds w3 = holds w2" "now w2 < now w3"
    using read_clock [OF w2(2)] by blast
  have "http_get web n i w = (Inr (fl (of_int (now w2 - now w) / 1000000), Some (if holds w (object_path n i) then ''HIT'' else ''MISS''), True), w3)"
    using w1(1,4) w2(1) w3(1) by (simp add: http_get_def bindS_def reply_fields_def retS_def liftS_def)
  then show ?thesis using w1 w2 w3 by fastforce
qed

text \<open>Requests for objects that are held ask the origin for nothing.\<close>

lemma gets_held:
  assumes "good w" and "fits n" and "\<And>i. i \<in> set is \<Longrightarrow> holds w (object_path n i)"
  shows "\<exists>rs w'. mapS (http_get web n) is w = (Inr rs, w') \<and> good w' \<and> asked w' = asked w \<and> now w \<le> now w'
    \<and> list_all (\<lambda>r. snd r = (Some ''HIT'', True)) rs \<and> length rs = length is"
proof -
  let ?I = "\<lambda>u. good u \<and> asked u = asked w \<and> now w \<le> now u \<and> (\<forall>i \<in> set is. holds u (object_path n i))"
  have "\<exists>rs w'. mapS (http_get web n) is w = (Inr rs, w') \<and> ?I w' \<and> list_all2 (\<lambda>i r. snd r = (Some ''HIT'', True)) is rs"
  proof (rule mapS_invariant)
    fix i u assume i: "i \<in> set is" and u: "?I u"
    then have h: "holds u (object_path n i)" and g: "good u" by blast+
    obtain ms u' where u': "http_get web n i u = (Inr (ms, Some ''HIT'', True), u')" "good u'" "asked u' = asked u"
        "holds u' = (holds u)(object_path n i := True)" "now u < now u'"
      using http_get_object [OF g assms(2), of i] h by auto
    with u have "?I u'" by auto
    with u'(1) show "\<exists>r u'. http_get web n i u = (Inr r, u') \<and> ?I u' \<and> snd r = (Some ''HIT'', True)"
      by (intro exI [of _ "(ms, Some ''HIT'', True)"] exI [of _ u']) simp
  qed (use assms in simp)
  then obtain rs w' where rs: "mapS (http_get web n) is w = (Inr rs, w')" "?I w'" "list_all2 (\<lambda>i r. snd r = (Some ''HIT'', True)) is rs" by blast
  then have "list_all (\<lambda>r. snd r = (Some ''HIT'', True)) rs" "length rs = length is" by (auto simp: list_all2_conv_all_nth list_all_length)
  with rs show ?thesis by blast
qed

text \<open>Requests for distinct objects that are not held ask the origin once each.\<close>

lemma gets_fresh:
  assumes "good w" and "fits n" and "distinct is" and "\<And>i. i \<in> set is \<Longrightarrow> \<not> holds w (object_path n i)"
  shows "\<exists>rs w'. mapS (http_get web n) is w = (Inr rs, w') \<and> good w' \<and> asked w' = asked w + length is \<and> now w \<le> now w'
    \<and> list_all (\<lambda>r. snd r = (Some ''MISS'', True)) rs \<and> length rs = length is \<and> (\<forall>i \<in> set is. holds w' (object_path n i))
    \<and> (\<forall>p. holds w p \<longrightarrow> holds w' p)"
  using assms
proof (induction "is" arbitrary: w)
  case (Cons i "is")
  obtain ms w1 where w1: "http_get web n i w = (Inr (ms, Some ''MISS'', True), w1)" "good w1" "asked w1 = asked w + 1"
      "holds w1 = (holds w)(object_path n i := True)" "now w < now w1"
    using http_get_object [OF Cons.prems(1,2), of i] Cons.prems(4) by auto
  have fresh: "\<not> holds w1 (object_path n j)" if "j \<in> set is" for j
    using that Cons.prems(3,4) w1(4) object_path_inject [of n j i] by auto
  have d: "distinct is" using Cons.prems(3) by simp
  obtain rs w2 where w2: "mapS (http_get web n) is w1 = (Inr rs, w2)" "good w2" "asked w2 = asked w1 + length is" "now w1 \<le> now w2"
      "list_all (\<lambda>r. snd r = (Some ''MISS'', True)) rs" "length rs = length is" "\<forall>i \<in> set is. holds w2 (object_path n i)"
      "\<forall>p. holds w1 p \<longrightarrow> holds w2 p"
    using Cons.IH [OF w1(2) Cons.prems(2) d fresh] by blast
  have "mapS (http_get web n) (i # is) w = (Inr ((ms, Some ''MISS'', True) # rs), w2)" using w1(1) w2(1) by (simp add: bindS_def retS_def)
  then show ?case using w1 w2 by fastforce
qed (simp add: retS_def)

lemma preloaded_all:
  assumes "good w" and "fits n"
  shows "\<exists>ys w'. mapS (preload_object web n) is w = (Inr ys, w') \<and> good w' \<and> (\<forall>i \<in> set is. holds w' (object_path n i))
    \<and> (\<forall>p. holds w p \<longrightarrow> holds w' p)"
  using assms
proof (induction "is" arbitrary: w)
  case (Cons i "is")
  obtain ms x w1 where w1: "http_get web n i w = (Inr (ms, x, True), w1)" "good w1" "holds w1 = (holds w)(object_path n i := True)"
    using http_get_object [OF Cons.prems, of i] by blast
  then have p: "preload_object web n i w = (Inr (), w1)" by (simp add: preload_object_def bindS_def retS_def)
  obtain ys w2 where w2: "mapS (preload_object web n) is w1 = (Inr ys, w2)" "good w2" "\<forall>i \<in> set is. holds w2 (object_path n i)"
      "\<forall>p. holds w1 p \<longrightarrow> holds w2 p"
    using Cons.IH [OF w1(2) Cons.prems(2)] by blast
  have "mapS (preload_object web n) (i # is) w = (Inr (() # ys), w2)" using p w2(1) by (simp add: bindS_def retS_def)
  then show ?case using w1(3) w2 by auto
qed (simp add: retS_def)

text \<open>The measured part of a run, once the keys are known and the objects are preloaded.\<close>

lemma measured_run:
  assumes keys: "client_keys g a = Inr keys" "length keys = hc_requests a" "0 < hc_requests a" "hc_requests a \<le> 2 ^ 53"
    and pre: "(if hc_pattern a = ''repeated'' then mapS (preload_object web (hc_size a)) [0..<hc_objects a] else retS []) w = (Inr ys, w0)" "good w0"
    and sched: "complete_schedule a sched"
    and run: "\<And>u. good u \<Longrightarrow> holds u = holds w0 \<Longrightarrow> \<exists>rs u'. mapS (http_get web (hc_size a)) (serving_order a sched keys) u = (Inr rs, u')
      \<and> good u' \<and> asked u' = asked u + extra \<and> now u \<le> now u' \<and> list_all (\<lambda>r. snd r = (Some x, True)) rs
      \<and> length rs = length (serving_order a sched keys)"
  shows "\<exists>d w'. http_client_run g web sched host origin a w = (Inr d, w') \<and> map_of d ''errors'' = Some (JNum 0)
    \<and> map_of d ''requests'' = Some (JNum (real (hc_requests a))) \<and> map_of d ''origin_requests_delta'' = Some (JNum (real extra))
    \<and> map_of d ''cache_status'' = Some (JObj [(x, JNum (real (hc_requests a)))])"
proof -
  obtain w1 where w1: "wb_clock web w0 = (Inr (now w0), w1)" "good w1" "asked w1 = asked w0" "holds w1 = holds w0" "now w0 < now w1"
    using read_clock [OF pre(2)] by blast
  obtain rs w2 where w2: "mapS (http_get web (hc_size a)) (serving_order a sched keys) w1 = (Inr rs, w2)" "good w2" "asked w2 = asked w1 + extra"
      "now w1 \<le> now w2" "list_all (\<lambda>r. snd r = (Some x, True)) rs" "length rs = length (serving_order a sched keys)"
    using run [OF w1(2,4)] by blast
  obtain rs' where rs': "(if hc_concurrency a = 1 then mapS (http_get web (hc_size a)) keys else pool_map (hc_concurrency a) sched (http_get web (hc_size a)) keys) w1
      = (Inr rs', w2)" "list_all (\<lambda>r. snd r = (Some x, True)) rs'" "length rs' = hc_requests a"
    using pooled_results [OF w2(1) sched keys(2) w2(6,5)] by blast
  obtain w3 where w3: "wb_clock web w2 = (Inr (now w2), w3)" "asked w3 = asked w2" using read_clock [OF w2(2)] by blast
  have e: "fl (of_int (now w2 - now w0) / 1000000000) \<noteq> 0" using w1(5) w2(4) by (intro elapsed_positive) simp
  have ne: "rs' \<noteq> []" "length rs' \<le> 2 ^ 53" using rs'(3) keys(3,4) by auto
  obtain d where d: "http_report a host origin rs' (fl (of_int (now w2 - now w0) / 1000000000)) (asked w0) (asked w3) = Inr d"
      "map_of d ''errors'' = Some (JNum 0)" "map_of d ''requests'' = Some (JNum (real (length rs')))"
      "map_of d ''origin_requests_delta'' = Some (JNum (of_int (int (asked w3) - int (asked w0))))"
      "map_of d ''cache_status'' = Some (JObj [(x, JNum (real (length rs')))])"
    using uniform_report [OF rs'(2) ne e] by blast
  have "http_client_run g web sched host origin a w = (Inr d, w3)"
    unfolding http_client_run_def using keys(1) pre(1) w1(1) rs'(1) w3(1) d(1)
    by (simp add: bindS_def liftS_def retS_def read_origin)
  then show ?thesis using d w1(3) w2(3) w3(2) rs'(3) by simp
qed

lemma repeated_run:
  assumes "good w" and "fits (hc_size a)" and "in_range_rng g" and "hc_pattern a = ''repeated''" and "0 < hc_objects a" and "0 < hc_requests a"
    and "hc_requests a \<le> 2 ^ 53" and "complete_schedule a sched"
  shows "\<exists>d w'. http_client_run g web sched host origin a w = (Inr d, w') \<and> map_of d ''errors'' = Some (JNum 0)
    \<and> map_of d ''requests'' = Some (JNum (real (hc_requests a))) \<and> map_of d ''origin_requests_delta'' = Some (JNum 0)
    \<and> map_of d ''cache_status'' = Some (JObj [(''HIT'', JNum (real (hc_requests a)))])"
proof -
  define keys where "keys = fst (draws g (hc_objects a) (hc_requests a) (seed_rng g 20260923))"
  have k: "client_keys g a = Inr keys" "length keys = hc_requests a" "\<And>i. i \<in> set keys \<Longrightarrow> i < hc_objects a"
    using assms(3-5) draws_range [OF assms(3,5)] by (auto simp: client_keys_def keys_def length_draws)
  obtain ys w0 where w0: "mapS (preload_object web (hc_size a)) [0..<hc_objects a] w = (Inr ys, w0)" "good w0"
      "\<forall>i \<in> set [0..<hc_objects a]. holds w0 (object_path (hc_size a) i)"
    using preloaded_all [OF assms(1,2)] by blast
  have so: "set (serving_order a sched keys) \<subseteq> set keys"
    using assms(8) k(2) by (auto simp: serving_order_def complete_schedule_def)
  have "\<exists>rs u'. mapS (http_get web (hc_size a)) (serving_order a sched keys) u = (Inr rs, u') \<and> good u' \<and> asked u' = asked u + 0
      \<and> now u \<le> now u' \<and> list_all (\<lambda>r. snd r = (Some ''HIT'', True)) rs \<and> length rs = length (serving_order a sched keys)"
    if "good u" "holds u = holds w0" for u
  proof -
    have "holds u (object_path (hc_size a) i)" if "i \<in> set (serving_order a sched keys)" for i
      using that so k(3) w0(3) \<open>holds u = holds w0\<close> by auto
    from gets_held [OF that(1) assms(2) this] show ?thesis by simp
  qed
  from measured_run [OF k(1,2) assms(6,7) _ w0(2) assms(8) this] w0(1) assms(4) show ?thesis by simp
qed

lemma one_pass_run:
  assumes "good w" and "fits (hc_size a)" and "hc_pattern a \<noteq> ''repeated''" and "0 < hc_requests a" and "hc_requests a \<le> 2 ^ 53"
    and "complete_schedule a sched" and "\<And>i. hc_objects a \<le> i \<Longrightarrow> \<not> holds w (object_path (hc_size a) i)"
  shows "\<exists>d w'. http_client_run g web sched host origin a w = (Inr d, w') \<and> map_of d ''errors'' = Some (JNum 0)
    \<and> map_of d ''requests'' = Some (JNum (real (hc_requests a))) \<and> map_of d ''origin_requests_delta'' = Some (JNum (real (hc_requests a)))
    \<and> map_of d ''cache_status'' = Some (JObj [(''MISS'', JNum (real (hc_requests a)))])"
proof -
  define keys where "keys = map (\<lambda>i. hc_objects a + i) [0..<hc_requests a]"
  have k: "client_keys g a = Inr keys" "length keys = hc_requests a" using assms(3) by (simp_all add: client_keys_def keys_def)
  have dk: "distinct keys" by (simp add: keys_def distinct_map inj_on_def)
  have so: "distinct (serving_order a sched keys)" "set (serving_order a sched keys) \<subseteq> set keys" "length (serving_order a sched keys) = hc_requests a"
    using assms(6) k(2) dk
    by (auto simp: serving_order_def complete_schedule_def distinct_map inj_on_def nth_eq_iff_index_eq dest: distinct_card)
  have fresh: "\<not> holds w (object_path (hc_size a) i)" if "i \<in> set (serving_order a sched keys)" for i
    using that so(2) assms(7) by (auto simp: keys_def)
  have "\<exists>rs u'. mapS (http_get web (hc_size a)) (serving_order a sched keys) u = (Inr rs, u') \<and> good u' \<and> asked u' = asked u + hc_requests a
      \<and> now u \<le> now u' \<and> list_all (\<lambda>r. snd r = (Some ''MISS'', True)) rs \<and> length rs = length (serving_order a sched keys)"
    if "good u" "holds u = holds w" for u
    using gets_fresh [OF that(1) assms(2) so(1)] that(2) fresh so(3) by auto
  from measured_run [OF k(1,2) assms(4,5) _ assms(1,6) this] assms(3) show ?thesis by (simp add: retS_def)
qed

end

section \<open>The modelled path\<close>

text \<open>
  The adapter of the investigation before the cache server, with the origin behind it: the origin is asked, and counts
  the request, exactly when the lookup missed. The allocator always finds room and nothing is evicted, which is
  what the harness arranges by its choice of object counts. A clock reading advances the clock by more than \<open>tick\<close> nanoseconds.
\<close>

record media_world =
  mw_cache :: server
  mw_origin :: nat
  mw_ns :: int

definition media_seconds :: "media_world \<Rightarrow> nat" where
  "media_seconds w = nat (mw_ns w div 1000000000)"

definition lookup_missed :: "string \<Rightarrow> media_world \<Rightarrow> bool" where
  "lookup_missed path w =
     (case classify_investigation path of Object n k \<Rightarrow> fst (cache_lookup (media_seconds w) path (mw_cache w)) = Missed | _ \<Rightarrow> False)"

definition media_GET :: "string \<Rightarrow> (media_world, reply) sx" where
  "media_GET path w =
     (let (answer, served) = investigation_origin_GET path (mw_origin w);
          (r, s) = investigation_adapter_GET (media_seconds w) True (origin_answer answer) path 0 (mw_cache w) in
      (Inr r, w\<lparr>mw_cache := s, mw_origin := (if lookup_missed path w then served else mw_origin w)\<rparr>))"

definition media_web :: "nat \<Rightarrow> media_world web" where
  "media_web tick =
     \<lparr>wb_get = media_GET, wb_origin = (\<lambda>w. (Inr (mw_origin w), w)),
      wb_clock = (\<lambda>w. (Inr (mw_ns w), w\<lparr>mw_ns := mw_ns w + 1 + int tick\<rparr>))\<rparr>"

definition media_good :: "media_world \<Rightarrow> bool" where
  "media_good w \<longleftrightarrow> sv_ready (mw_cache w) \<and> 1048576 \<le> sv_max_item_size (mw_cache w)
     \<and> (\<forall>n i v c ttl. sv_items (mw_cache w) (media_key (object_path n i)) = Some (v, c, ttl) \<longrightarrow> v = plain_payload n \<and> ttl = 0)"

definition media_holds :: "media_world \<Rightarrow> string \<Rightarrow> bool" where
  "media_holds w path \<longleftrightarrow> sv_items (mw_cache w) (media_key path) \<noteq> None"

lemma classify_investigation_path: "n \<le> 1048576 \<Longrightarrow> classify_investigation (object_path n i) = Object n 0"
proof -
  assume n: "n \<le> 1048576"
  then have "length (str_nat n) \<le> 7" using length_str_nat [of n 7] by simp
  moreover have "object_path n i \<noteq> ''/stats''" by (simp add: object_path_def)
  ultimately show ?thesis using n by (simp add: classify_investigation_def match_object_path int_digits_def)
qed

lemma object_path_bytes: "object_path n i = object_path m j \<Longrightarrow> n = m"
  using match_object_path [of n i] match_object_path [of m j] nat_of_digits_str_nat by (metis option.inject prod.inject)

lemma media_key_ne [simp]: "media_key p \<noteq> []"
  by (simp add: media_key_def)

lemma media_key_inject [simp]: "media_key p = media_key q \<longleftrightarrow> p = q"
  by (simp add: media_key_def)

lemma media_GET_object:
  fixes w :: media_world and n i :: nat and p :: string
  assumes "media_good w" and "n \<le> 1048576"
  defines "p \<equiv> object_path n i"
  shows "\<exists>w'. media_GET p w = (Inr (Reply 200 (plain_payload n) (if media_holds w p then ''HIT'' else ''MISS'')), w')
    \<and> media_good w' \<and> mw_origin w' = mw_origin w + (if media_holds w p then 0 else 1) \<and> media_holds w' = (media_holds w)(p := True) \<and> mw_ns w' = mw_ns w"
proof -
  let ?s = "mw_cache w" and ?t = "media_seconds w"
  have c: "classify_investigation p = Object n 0" unfolding p_def using assms(2) by (rule classify_investigation_path)
  have ready: "sv_ready ?s" "n \<le> sv_max_item_size ?s" using assms(1,2) by (auto simp: media_good_def)
  have zero: "narrow_ttl 0 = 0" by (simp add: narrow_ttl_def)
  have origin: "investigation_origin_GET p (mw_origin w) = (Reply 200 (plain_payload n) ''ORIGIN'', mw_origin w + 1)"
    by (simp add: investigation_origin_GET_def c)
  show ?thesis
  proof (cases "sv_items ?s (media_key p)")
    case None
    let ?s1 = "?s\<lparr>sv_get_count := sv_get_count ?s + 1, sv_miss_count := sv_miss_count ?s + 1\<rparr>"
    let ?s2 = "?s1\<lparr>sv_set_count := sv_set_count ?s + 1, sv_items := (sv_items ?s)(media_key p \<mapsto> (plain_payload n, ?t, 0))\<rparr>"
    have l: "cache_lookup ?t p ?s = (Missed, ?s1)"
      using None ready by (simp add: cache_lookup_def service_Get_def cm_get_def find_item_def Let_def)
    have f: "cache_fill ?t True 0 p (plain_payload n) ?s1 = (Reply 200 (plain_payload n) ''MISS'', ?s2)"
      using ready by (simp add: cache_fill_def service_Set_def cm_set_def zero Let_def)
    have "media_GET p w = (Inr (Reply 200 (plain_payload n) ''MISS''), w\<lparr>mw_cache := ?s2, mw_origin := mw_origin w + 1\<rparr>)"
      using f by (simp add: media_GET_def origin investigation_adapter_GET_def adapter_object_def c l origin_answer_def lookup_missed_def)
    moreover have "media_good (w\<lparr>mw_cache := ?s2, mw_origin := mw_origin w + 1\<rparr>)"
      using assms(1) object_path_bytes unfolding p_def by (fastforce simp: media_good_def split: if_splits)
    moreover have "media_holds (w\<lparr>mw_cache := ?s2, mw_origin := mw_origin w + 1\<rparr>) = (media_holds w)(p := True)"
      by (auto simp: media_holds_def fun_eq_iff)
    moreover have "\<not> media_holds w p" using None by (simp add: media_holds_def)
    ultimately show ?thesis by (intro exI [of _ "w\<lparr>mw_cache := ?s2, mw_origin := mw_origin w + 1\<rparr>"]) simp
  next
    case (Some e)
    then obtain created where e: "sv_items ?s (media_key p) = Some (plain_payload n, created, 0)"
      using assms(1) unfolding p_def media_good_def by (cases e) auto
    let ?s1 = "?s\<lparr>sv_get_count := sv_get_count ?s + 1, sv_hit_count := sv_hit_count ?s + 1\<rparr>"
    have l: "cache_lookup ?t p ?s = (FromCache (plain_payload n), ?s1)"
      using e ready by (simp add: cache_lookup_def service_Get_def cm_get_def find_item_def expired_def Let_def)
    have "media_GET p w = (Inr (Reply 200 (plain_payload n) ''HIT''), w\<lparr>mw_cache := ?s1\<rparr>)"
      by (simp add: media_GET_def origin investigation_adapter_GET_def adapter_object_def c l lookup_missed_def)
    moreover have "media_good (w\<lparr>mw_cache := ?s1\<rparr>)" using assms(1) by (simp add: media_good_def)
    moreover have h: "media_holds w p" using e by (simp add: media_holds_def)
    moreover have "media_holds (w\<lparr>mw_cache := ?s1\<rparr>) = (media_holds w)(p := True)" using h by (auto simp: media_holds_def fun_eq_iff)
    ultimately show ?thesis by (intro exI [of _ "w\<lparr>mw_cache := ?s1\<rparr>"]) simp
  qed
qed

interpretation media_path: object_service "media_web tick" media_good media_holds mw_origin mw_ns "\<lambda>n. n \<le> 1048576" for tick
proof unfold_locales
  show "\<exists>w'. wb_get (media_web tick) (object_path n i) w
      = (Inr (Reply 200 (plain_payload n) (if media_holds w (object_path n i) then ''HIT'' else ''MISS'')), w')
      \<and> media_good w' \<and> mw_origin w' = mw_origin w + (if media_holds w (object_path n i) then 0 else 1)
      \<and> media_holds w' = (media_holds w)(object_path n i := True) \<and> mw_ns w \<le> mw_ns w'"
    if "media_good w" "n \<le> 1048576" for w n i
    using media_GET_object [OF that, of i] by (fastforce simp: media_web_def)
  show "wb_origin (media_web tick) w = (Inr (mw_origin w), w)" for w by (simp add: media_web_def)
  show "\<exists>w'. wb_clock (media_web tick) w = (Inr (mw_ns w), w') \<and> media_good w' \<and> mw_origin w' = mw_origin w
      \<and> media_holds w' = media_holds w \<and> mw_ns w < mw_ns w'" if "media_good w" for w
    using that by (simp add: media_web_def media_good_def media_holds_def fun_eq_iff)
qed

text \<open>
  C17. What the HTTP comparison reports of the adapter path is what the cache did: on a cache with room, a run over repeated objects
  reports no error, a hit for every request and not one request at the origin, because they were all preloaded; a
  run over new objects reports no error, a miss for every request and exactly as many requests at the origin; with one worker, or with
  more in any order in which they serve the requests. Objects have at most 1 MiB, and at least one request is made.
\<close>

theorem media_run_reports:
  assumes "media_good w" and "hc_size a \<le> 1048576" and "0 < hc_requests a" and "hc_requests a \<le> 2 ^ 53" and "complete_schedule a sched"
    and "if hc_pattern a = ''repeated'' then 0 < hc_objects a \<and> in_range_rng g
      else \<forall>i. hc_objects a \<le> i \<longrightarrow> \<not> media_holds w (object_path (hc_size a) i)"
  shows "\<exists>d w'. http_client_run g (media_web tick) sched host origin a w = (Inr d, w') \<and> map_of d ''errors'' = Some (JNum 0)
    \<and> map_of d ''requests'' = Some (JNum (real (hc_requests a)))
    \<and> map_of d ''cache_status'' = Some (JObj [(if hc_pattern a = ''repeated'' then ''HIT'' else ''MISS'', JNum (real (hc_requests a)))])
    \<and> map_of d ''origin_requests_delta'' = Some (JNum (if hc_pattern a = ''repeated'' then 0 else real (hc_requests a)))"
proof (cases "hc_pattern a = ''repeated''")
  case True
  with assms(6) have "in_range_rng g" "0 < hc_objects a" by simp_all
  from media_path.repeated_run [OF assms(1,2) this(1) True this(2) assms(3-5), of tick host origin] True show ?thesis by auto
next
  case False
  with assms(6) have "\<And>i. hc_objects a \<le> i \<Longrightarrow> \<not> media_holds w (object_path (hc_size a) i)" by simp
  from media_path.one_pass_run [OF assms(1,2) False assms(3-5) this, of g tick host origin] False show ?thesis by auto
qed

definition sample_media_args :: http_client_args where
  "sample_media_args = \<lparr>hc_size = 262144, hc_objects = 64, hc_requests = 150, hc_concurrency = 1, hc_pattern = ''one_pass''\<rparr>"

definition sample_media_world :: media_world where
  "sample_media_world = \<lparr>mw_cache = empty_server, mw_origin = 0, mw_ns = 0\<rparr>"

theorem media_run_reports_witness:
  "\<exists>d w'. http_client_run zero_rng (media_web 5) [] ''target'' ''origin'' sample_media_args sample_media_world = (Inr d, w')
    \<and> map_of d ''errors'' = Some (JNum 0) \<and> map_of d ''origin_requests_delta'' = Some (JNum 150)"
proof -
  have "media_good sample_media_world" "\<not> media_holds sample_media_world p" for p
    by (simp_all add: media_good_def media_holds_def sample_media_world_def empty_server_def)
  moreover have "complete_schedule sample_media_args []" by (simp add: complete_schedule_def sample_media_args_def)
  ultimately show ?thesis
    using media_run_reports [of sample_media_world sample_media_args "[]" zero_rng 5 "''target''" "''origin''"]
    by (simp add: sample_media_args_def) blast
qed

end
