(* ===== verification/Charts.thy ===== *)
theory Charts
  imports Figures Statistics Json "HOL-Library.Product_Lexorder"
begin

text \<open>
  The bar charts of the summaries, \<open>chart\<close> of \<open>bench/investigation/summarize.py\<close> and \<open>svg_chart\<close> of
  \<open>bench/strong/summarize.py\<close>: the text of the SVG files, with the widths of the bars computed in floating point as the
  code does. The theorems say that the bars keep to the drawing area.
\<close>

section \<open>What a summary writes\<close>

text \<open>
  The contents of the files: a CSV table with its columns and rows, a JSON document or a picture. A summary returns
  what it wrote before it ended, with or without an exception.
\<close>

datatype artefact = Csv "string list" "dict list" | Json json | Svg string

type_synonym written = "(string \<times> artefact) list"

text \<open>Pictures are drawn one after the other; one without bars is not written.\<close>

fun write_charts :: "(string \<times> string option res) list \<Rightarrow> written \<times> unit res" where
  "write_charts [] = ([], Inr ())"
| "write_charts ((name, r) # cs) =
     (case r of
        Inl e \<Rightarrow> ([], Inl e)
      | Inr drawing \<Rightarrow> (case write_charts cs of (out, q) \<Rightarrow>
          ((case drawing of None \<Rightarrow> [] | Some s \<Rightarrow> [(name, Svg s)]) @ out, q)))"

section \<open>SVG elements\<close>

definition attr :: "string \<Rightarrow> string \<Rightarrow> string" where
  "attr name v = '' '' @ name @ ''='' @ [CHR 0x22] @ v @ [CHR 0x22]"

definition svg_open :: "nat \<Rightarrow> nat \<Rightarrow> string" where
  "svg_open width height =
     ''<svg'' @ attr ''xmlns'' ''http://www.w3.org/2000/svg'' @ attr ''width'' (str_nat width) @ attr ''height'' (str_nat height)
     @ attr ''viewBox'' (''0 0 '' @ str_nat width @ '' '' @ str_nat height) @ ''>''"

definition svg_background :: string where
  "svg_background = ''<rect'' @ attr ''width'' ''100%'' @ attr ''height'' ''100%'' @ attr ''fill'' ''white'' @ ''/>''"

definition svg_text :: "int \<Rightarrow> int \<Rightarrow> string \<Rightarrow> nat \<Rightarrow> string \<Rightarrow> string" where
  "svg_text x y family points body =
     ''<text'' @ attr ''x'' (str_int x) @ attr ''y'' (str_int y) @ attr ''font-family'' family @ attr ''font-size'' (str_nat points)
     @ ''>'' @ body @ ''</text>''"

definition svg_bar :: "int \<Rightarrow> int \<Rightarrow> int \<Rightarrow> nat \<Rightarrow> string \<Rightarrow> string" where
  "svg_bar x y width height colour =
     ''<rect'' @ attr ''x'' (str_int x) @ attr ''y'' (str_int y) @ attr ''width'' (str_int width) @ attr ''height'' (str_nat height)
     @ attr ''fill'' colour @ ''/>''"

section \<open>The width of a bar\<close>

text \<open>\<open>max(...) or 1\<close>, and \<open>int(scale * value / peak)\<close>, which truncates towards zero.\<close>

definition peak_of :: "real list \<Rightarrow> real" where
  "peak_of vs = (let m = Max (set vs) in if m = 0 then 1 else m)"

definition truncate :: "real \<Rightarrow> int" where
  "truncate x = (if x < 0 then \<lceil>x\<rceil> else \<lfloor>x\<rfloor>)"

definition bar_width :: "nat \<Rightarrow> real \<Rightarrow> real \<Rightarrow> int" where
  "bar_width scale v peak = truncate (fl (fl (real scale * v) / peak))"

lemma fl_error: "\<bar>fl x - x\<bar> \<le> ulp x / 2"
proof (cases "x = 0")
  case False
  have "\<bar>of_int (rne (x / ulp x)) - x / ulp x\<bar> * ulp x \<le> 1 / 2 * ulp x"
    by (intro mult_right_mono rne_error) (simp add: less_imp_le)
  also have "\<bar>of_int (rne (x / ulp x)) - x / ulp x\<bar> * ulp x = \<bar>(of_int (rne (x / ulp x)) - x / ulp x) * ulp x\<bar>"
    by (simp add: abs_mult less_imp_le)
  also have "(of_int (rne (x / ulp x)) - x / ulp x) * ulp x = fl x - x" using False by (simp add: fl_def left_diff_distrib)
  finally show ?thesis by simp
qed (simp add: less_imp_le)

lemma float_ge_least:
  assumes "is_float x" and "0 < x" shows "2 powr (- 1074) \<le> x"
proof -
  have x: "x = of_int (rne (x / ulp x)) * ulp x" using assms by (simp add: is_float_def fl_def)
  then have "0 < of_int (rne (x / ulp x)) * ulp x" using assms(2) by simp
  then have "0 < rne (x / ulp x)" using ulp_pos(1) [of x] by (auto simp: zero_less_mult_iff)
  then have "1 * ulp x \<le> of_int (rne (x / ulp x)) * ulp x" by (intro mult_right_mono) (simp_all add: less_imp_le)
  then have "ulp x \<le> x" using x by simp
  moreover have "2 powr (- 1074) \<le> ulp x" by (simp add: ulp_def flexp_def)
  ultimately show ?thesis by linarith
qed

lemma half_ulp_product:
  assumes "is_float p" and "0 < p" and "0 < n" and "n \<le> 2 ^ 52" shows "ulp (real n * p) \<le> p"
proof (cases "\<lfloor>log 2 \<bar>real n * p\<bar>\<rfloor> - 52 \<le> - 1074")
  case True
  then have "flexp (real n * p) = - 1074" by (simp add: flexp_def)
  then show ?thesis using float_ge_least [OF assms(1,2)] by (simp add: ulp_def)
next
  case False
  then have "ulp (real n * p) = 2 powr (of_int \<lfloor>log 2 (real n * p)\<rfloor> - 52)" using assms by (simp add: ulp_def flexp_def)
  also have "\<dots> = 2 powr of_int \<lfloor>log 2 (real n * p)\<rfloor> / 2 ^ 52" by (simp add: powr_diff)
  also have "\<dots> \<le> real n * p / 2 ^ 52" using assms by (intro divide_right_mono above_binade) simp_all
  also have "\<dots> \<le> p"
  proof -
    have "real n \<le> 2 ^ 52" using assms(4) by (metis of_nat_le_iff of_nat_numeral of_nat_power)
    then have "real n * p \<le> 2 ^ 52 * p" using assms(2) by (intro mult_right_mono) simp_all
    then show ?thesis by (simp add: field_simps)
  qed
  finally show ?thesis .
qed

lemma product_error:
  assumes "is_float p" and "0 < p" and "0 < n" and "n \<le> 2 ^ 52" shows "\<bar>fl (real n * p) - real n * p\<bar> \<le> p / 2"
  using fl_error [of "real n * p"] half_ulp_product [OF assms] by linarith

lemma is_float_half: "n \<le> 2 ^ 51 \<Longrightarrow> is_float (real n + 1 / 2)" "n \<le> 2 ^ 51 \<Longrightarrow> is_float (real n - 1 / 2)"
proof -
  assume n: "n \<le> 2 ^ 51"
  have h: "2 powr of_int (- 1) = (1 / 2 :: real)" by (simp add: powr_minus)
  have "is_float (of_int (2 * int n + 1) * 2 powr of_int (- 1))" by (rule fl_scaled) (use n in simp_all)
  then show "is_float (real n + 1 / 2)" unfolding h by (simp add: add_divide_distrib)
  have "is_float (of_int (2 * int n - 1) * 2 powr of_int (- 1))" by (rule fl_scaled) (use n in \<open>simp_all add: abs_le_iff\<close>)
  then show "is_float (real n - 1 / 2)" unfolding h by (simp add: diff_divide_distrib)
qed

text \<open>
  A value between 0 and the peak gets a bar between 0 and the full width, and the peak itself one that is at most one unit
  short of it: rounding the product up cannot push a bar out of the drawing.
\<close>

lemma bar_width_bounds:
  assumes "is_float peak" and "0 < peak" and "0 \<le> v" and "v \<le> peak" and "0 < n" and "n \<le> 2 ^ 51"
  shows "0 \<le> bar_width n v peak" and "bar_width n v peak \<le> int n"
proof -
  have nn: "n \<le> 2 ^ 52" using assms(6) by simp
  have "fl (real n * v) \<le> fl (real n * peak)" using assms(4) by (intro fl_mono mult_left_mono) simp_all
  also have "\<dots> \<le> (real n + 1 / 2) * peak"
    using product_error [OF assms(1,2,5) nn] by (simp only: distrib_right)
  finally have "fl (real n * v) / peak \<le> real n + 1 / 2" using assms(2) by (simp add: pos_divide_le_eq)
  then have u: "fl (fl (real n * v) / peak) \<le> real n + 1 / 2" using fl_mono is_float_half(1) [OF assms(6)] by (metis fl_is_float)
  have l: "0 \<le> fl (fl (real n * v) / peak)" using assms by (intro fl_nonneg divide_nonneg_pos) simp_all
  then show "0 \<le> bar_width n v peak" by (simp add: bar_width_def truncate_def)
  have "\<lfloor>fl (fl (real n * v) / peak)\<rfloor> \<le> int n" using u by linarith
  then show "bar_width n v peak \<le> int n" using l by (simp add: bar_width_def truncate_def)
qed

lemma bar_width_peak:
  assumes "is_float peak" and "0 < peak" and "0 < n" and "n \<le> 2 ^ 51"
  shows "int n - 1 \<le> bar_width n peak peak"
proof -
  have nn: "n \<le> 2 ^ 52" using assms(4) by simp
  have "(real n - 1 / 2) * peak \<le> fl (real n * peak)"
    using product_error [OF assms(1-3) nn] by (simp only: left_diff_distrib)
  then have "real n - 1 / 2 \<le> fl (real n * peak) / peak" using assms(2) by (simp add: pos_le_divide_eq)
  then have l: "real n - 1 / 2 \<le> fl (fl (real n * peak) / peak)" using fl_mono is_float_half(2) [OF assms(4)] by (metis fl_is_float)
  moreover have "1 / 2 \<le> real n - 1 / 2" using assms(3) by simp
  ultimately show ?thesis by (simp add: bar_width_def truncate_def) linarith
qed

section \<open>The chart of the investigation\<close>

type_synonym bars = "(string \<times> real) list"

definition bar_lines :: "string \<Rightarrow> real \<Rightarrow> nat \<times> string \<times> real \<Rightarrow> string list" where
  "bar_lines uni peak entry =
     (case entry of (i, engine, v) \<Rightarrow>
        let y = 55 + int i * 46; bar = bar_width 475 v peak in
        [svg_text 20 (y + 18) ''sans-serif'' 13 engine, svg_bar 165 y bar 25 ''#326baf'',
         svg_text (175 + bar) (y + 18) ''sans-serif'' 13 (fixed 3 v @ '' '' @ uni)])"

definition bars_text :: "string \<Rightarrow> string \<Rightarrow> bars \<Rightarrow> string" where
  "bars_text title uni vs =
     join newline ([svg_open 760 (85 + 46 * length vs), svg_background, svg_text 20 30 ''sans-serif'' 18 title]
       @ concat (map (bar_lines uni (peak_of (map snd vs))) (enumerate 0 vs)) @ [''</svg>'']) @ newline"

definition chart_row :: "string \<Rightarrow> string \<Rightarrow> dict \<Rightarrow> bool res" where
  "chart_row cs fld r =
     bindR (item r ''case'') (\<lambda>c. case c of
       JStr s \<Rightarrow> if prefix cs s then bindR (item r fld) (\<lambda>v. Inr (v \<noteq> JNull)) else Inr False
     | _ \<Rightarrow> Inl AttributeError)"

text \<open>The text of a value that is a string; the engine of a row always is.\<close>

fun name_of :: "json \<Rightarrow> string" where
  "name_of (JStr s) = s"
| "name_of _ = []"

definition engine_of :: "dict \<Rightarrow> string" where
  "engine_of r = name_of (get_or r ''engine'' JNull)"

definition engine_median :: "dict list \<Rightarrow> string \<Rightarrow> string \<Rightarrow> (string \<times> real) res" where
  "engine_median selected fld e =
     bindR (mapR (\<lambda>r. bindR (item r fld) num_of) (filter (\<lambda>r. engine_of r = e) selected)) (\<lambda>xs.
     bindR (py_median xs) (\<lambda>m. Inr (e, m)))"

definition chart_values :: "dict list \<Rightarrow> string \<Rightarrow> string \<Rightarrow> bars res" where
  "chart_values rows cs fld =
     bindR (filterR (chart_row cs fld) rows) (\<lambda>selected.
       mapR (engine_median selected fld) (sort (remdups (map engine_of selected))))"

text \<open>\<open>None\<close> when there is nothing to draw and no file is written.\<close>

definition chart :: "dict list \<Rightarrow> string \<Rightarrow> string \<Rightarrow> string \<Rightarrow> string \<Rightarrow> string option res" where
  "chart rows cs fld title uni =
     bindR (chart_values rows cs fld) (\<lambda>vs. Inr (if vs = [] then None else Some (bars_text title uni vs)))"

section \<open>The chart of the strong summary\<close>

definition CHART_COLORS :: "(string \<times> string) list" where
  "CHART_COLORS = [(''grpc'', ''#1d6fa5''), (''grpc_nvm'', ''#158b8b''), (''redis'', ''#b94a48''),
     (''valkey'', ''#8b5a9f''), (''memcached'', ''#d48524''),
     (''memcached_extstore'', ''#b59a1d''), (''nginx'', ''#367b45''),
     (''grpc_adapter'', ''#1d6fa5''), (''dragonfly'', ''#3f7f4f''),
     (''dragonfly_tiered'', ''#6a9e56''), (''garnet'', ''#a14a72''),
     (''garnet_storage'', ''#c0748f''), (''kvrocks'', ''#7a6a52'')]"

definition chart_color :: "string \<Rightarrow> string" where
  "chart_color engine = (case map_of CHART_COLORS engine of None \<Rightarrow> ''#666'' | Some c \<Rightarrow> c)"

type_synonym chart_groups = "((string \<times> string) \<times> (string \<times> real) list) list"

definition chart_entries :: "chart_groups \<Rightarrow> string \<Rightarrow> (string \<times> string \<times> real) list" where
  "chart_entries groups fld =
     sort [(cs, engine, v). ((cs, engine), medians) \<leftarrow> groups, v \<leftarrow> (case map_of medians fld of None \<Rightarrow> [] | Some v \<Rightarrow> [v])]"

definition entry_lines :: "real \<Rightarrow> nat \<times> string \<times> string \<times> real \<Rightarrow> string list" where
  "entry_lines maximum entry =
     (case entry of (i, cs, engine, v) \<Rightarrow>
        let y = 68 + int i * 27; bar = bar_width 550 v maximum in
        [svg_text 18 (y + 14) ''monospace'' 12 (cs @ '' / '' @ engine), svg_bar 400 y bar 18 (chart_color engine),
         svg_text (400 + bar + 8) (y + 14) ''sans-serif'' 12 (fixed_commas 1 v)])"

definition entries_text :: "string \<Rightarrow> string \<Rightarrow> (string \<times> string \<times> real) list \<Rightarrow> string" where
  "entries_text title uni selected =
     join newline ([svg_open 1100 (80 + 27 * length selected), svg_background, svg_text 18 30 ''sans-serif'' 18 title,
        svg_text 400 52 ''sans-serif'' 12 (uni @ ''; median of independent runs'')]
       @ concat (map (entry_lines (peak_of (map (\<lambda>x. snd (snd x)) selected))) (enumerate 0 selected)) @ [''</svg>'']) @ newline"

definition svg_chart :: "string \<Rightarrow> chart_groups \<Rightarrow> string \<Rightarrow> string \<Rightarrow> string option" where
  "svg_chart title groups fld uni =
     (let selected = chart_entries groups fld in if selected = [] then None else Some (entries_text title uni selected))"

section \<open>The bars keep to the drawing\<close>

lemma peak_of_facts:
  assumes "vs \<noteq> []" and "list_all is_float vs" and "list_all (\<lambda>v. 0 \<le> v) vs"
  shows "is_float (peak_of vs)" and "0 < peak_of vs" and "v \<in> set vs \<Longrightarrow> v \<le> peak_of vs"
proof -
  have m: "Max (set vs) \<in> set vs" using assms(1) by simp
  then have "is_float (Max (set vs))" "0 \<le> Max (set vs)" using assms(2,3) by (auto simp: list_all_iff)
  then show "is_float (peak_of vs)" "0 < peak_of vs" by (auto simp: peak_of_def Let_def)
  show "v \<le> peak_of vs" if "v \<in> set vs"
  proof -
    have "v \<le> Max (set vs)" using that by simp
    then show ?thesis unfolding peak_of_def Let_def by (cases "Max (set vs) = 0") auto
  qed
qed

text \<open>
  C37. No bar leaves its chart: for non-negative values every bar of the investigation's chart is at most 475 wide and ends left of the
  canvas's edge at 760, every bar of the strong chart is at most 550 wide and ends left of 1100, and the bar of the largest
  value comes within one unit of the full width, whatever the roundings.
\<close>

theorem bars_keep_to_chart:
  assumes "vs \<noteq> []" and "list_all is_float vs" and "list_all (\<lambda>v. 0 \<le> v) vs" and "v \<in> set vs"
  shows "0 \<le> bar_width 475 v (peak_of vs) \<and> 165 + bar_width 475 v (peak_of vs) \<le> 640
    \<and> 0 \<le> bar_width 550 v (peak_of vs) \<and> 400 + bar_width 550 v (peak_of vs) \<le> 950
    \<and> (v = peak_of vs \<longrightarrow> 474 \<le> bar_width 475 v (peak_of vs) \<and> 549 \<le> bar_width 550 v (peak_of vs))"
proof -
  note p = peak_of_facts [OF assms(1-3)]
  have v: "0 \<le> v" using assms(3,4) by (auto simp: list_all_iff)
  note b = bar_width_bounds [OF p(1,2) v p(3) [OF assms(4)]]
  have "int n - 1 \<le> bar_width n v (peak_of vs)" if "v = peak_of vs" "0 < n" "n \<le> 2 ^ 51" for n
    using bar_width_peak [OF p(1,2) that(2,3)] that(1) by simp
  from this [of 475] this [of 550] b [of 475] b [of 550] show ?thesis by simp
qed

theorem bars_keep_to_chart_witness:
  "165 + bar_width 475 3 (peak_of [3, 4]) \<le> 640"
  using bars_keep_to_chart [of "[3, 4]" 3] by simp

end
