(* ===== verification/Preview.thy ===== *)
theory Preview
  imports Charts Report
begin

text \<open>
  The card of \<open>bench/social_preview.py\<close>: two panels with the throughput and the tail latency of the concurrency sweep in the
  measurement file, under three headline figures. The logarithm of the C library is an argument; all else is computed in floating
  point as the code does. The theorems say that the points keep to their panels as long as the values keep to the axes,
  and that the headline figures are not those of the measurement file. Text is its UTF-8 encoding.
\<close>

section \<open>Positions\<close>

text \<open>The constants of the layout: the size of the card, the plot area, its top, and the left edges of the two panels.\<close>

definition CARD_W :: nat where "CARD_W = 1280"

definition CARD_H :: nat where "CARD_H = 640"

definition PW :: nat where "PW = 470"

definition PH :: nat where "PH = 228"

definition PY :: nat where "PY = 302"

definition LX :: nat where "LX = 90"

definition RX :: nat where "RX = 720"

lemmas layout_defs = CARD_W_def CARD_H_def PW_def PH_def PY_def LX_def RX_def

text \<open>\<open>math.log10\<close> of an integer.\<close>

definition log10 :: "(real \<Rightarrow> real) \<Rightarrow> int \<Rightarrow> real res" where
  "log10 lg c = (if c \<le> 0 then Inl (ValueError ''math domain error'') else Inr (lg (of_int c)))"

definition xpos :: "(real \<Rightarrow> real) \<Rightarrow> int list \<Rightarrow> int \<Rightarrow> nat \<Rightarrow> real res" where
  "xpos lg conc c left =
     bindR (log10 lg (if hd conc = 0 then 1 else hd conc)) (\<lambda>lo. bindR (log10 lg (last conc)) (\<lambda>hi. bindR (log10 lg c) (\<lambda>x.
       if fl (hi - lo) = 0 then Inl ZeroDivisionError
       else Inr (fl (real left + fl (fl (fl (x - lo) / fl (hi - lo)) * real PW))))))"

definition ypos :: "real \<Rightarrow> real \<Rightarrow> real" where
  "ypos v vmax = fl (real (PY + PH) - fl (fl (v / vmax) * real PH))"

section \<open>A panel\<close>

definition INK :: string where "INK = ''#ffffff''"

definition INK2 :: string where "INK2 = ''#c3c2b7''"

definition INK3 :: string where "INK3 = ''#807e74''"

definition SURFACE :: string where "SURFACE = ''#1a1a19''"

definition GRID :: string where "GRID = ''#2e2e2c''"

definition BLUE :: string where "BLUE = ''#3987e5''"

definition ORANGE :: string where "ORANGE = ''#d95926''"

definition FONT :: string where "FONT = attr ''font-family'' ''Helvetica,Arial,sans-serif''"

definition panel_title :: "nat \<Rightarrow> string \<Rightarrow> string \<Rightarrow> string list" where
  "panel_title left title color =
     [''<circle'' @ attr ''cx'' (str_nat (left + 4)) @ attr ''cy'' (str_nat (PY - 42)) @ attr ''r'' ''4.5'' @ attr ''fill'' color @ ''/>'',
      ''<text'' @ attr ''x'' (str_nat (left + 18)) @ attr ''y'' (str_nat (PY - 37)) @ attr ''fill'' INK @ attr ''font-size'' ''17'' @ FONT
        @ attr ''font-weight'' ''600'' @ ''>'' @ title @ ''</text>'']"

definition tick_lines :: "nat \<Rightarrow> real \<Rightarrow> (nat \<Rightarrow> string) \<Rightarrow> nat \<Rightarrow> string list" where
  "tick_lines left vmax fmt t =
     (let y = ypos (real t) vmax in
      [''<line'' @ attr ''x1'' (str_nat left) @ attr ''y1'' (fixed 1 y) @ attr ''x2'' (str_nat (left + PW)) @ attr ''y2'' (fixed 1 y)
         @ attr ''stroke'' GRID @ attr ''stroke-width'' ''1'' @ ''/>'',
       ''<text'' @ attr ''x'' (str_nat (left - 12)) @ attr ''y'' (fixed 1 (fl (y + 4))) @ attr ''fill'' INK3 @ attr ''font-size'' ''13''
         @ attr ''text-anchor'' ''end'' @ FONT @ ''>'' @ fmt t @ ''</text>''])"

definition point_text :: "real \<times> real \<Rightarrow> string" where
  "point_text p = fixed 1 (fst p) @ '','' @ fixed 1 (snd p)"

definition point_lines :: "string \<Rightarrow> (real \<times> real) list \<Rightarrow> string list" where
  "point_lines color pts =
     (''<polyline'' @ attr ''points'' (join '' '' (map point_text pts)) @ attr ''fill'' ''none'' @ attr ''stroke'' color
        @ attr ''stroke-width'' ''2.5'' @ attr ''stroke-linejoin'' ''round'' @ attr ''stroke-linecap'' ''round'' @ ''/>'')
     # map (\<lambda>(x, y). ''<circle'' @ attr ''cx'' (fixed 1 x) @ attr ''cy'' (fixed 1 y) @ attr ''r'' ''4.5'' @ attr ''fill'' color
         @ attr ''stroke'' SURFACE @ attr ''stroke-width'' ''2'' @ ''/>'') pts"

definition axis_label :: "int \<times> real \<Rightarrow> string" where
  "axis_label p = (case p of (c, x) \<Rightarrow>
     ''<text'' @ attr ''x'' (fixed 1 x) @ attr ''y'' (str_nat (PY + PH + 26)) @ attr ''fill'' INK3 @ attr ''font-size'' ''13''
     @ attr ''text-anchor'' ''middle'' @ FONT @ ''>'' @ str_int c @ ''</text>'')"

text \<open>\<open>left + PW / 2\<close> is a float and prints with its decimal.\<close>

definition axis_lines :: "nat \<Rightarrow> string list" where
  "axis_lines left =
     [''<line'' @ attr ''x1'' (str_nat left) @ attr ''y1'' (str_nat (PY + PH)) @ attr ''x2'' (str_nat (left + PW)) @ attr ''y2'' (str_nat (PY + PH))
        @ attr ''stroke'' INK3 @ attr ''stroke-width'' ''1'' @ ''/>'',
      ''<text'' @ attr ''x'' (str_nat (left + PW div 2) @ ''.0'') @ attr ''y'' (str_nat (PY + PH + 52)) @ attr ''fill'' INK3 @ attr ''font-size'' ''13''
        @ attr ''text-anchor'' ''middle'' @ FONT @ ''>concurrency</text>'']"

definition points_of :: "(real \<Rightarrow> real) \<Rightarrow> int list \<Rightarrow> nat \<Rightarrow> real list \<Rightarrow> real \<Rightarrow> (real \<times> real) list res" where
  "points_of lg conc left vs vmax = mapR (\<lambda>(c, v). bindR (xpos lg conc c left) (\<lambda>x. Inr (x, ypos v vmax))) (zip conc vs)"

definition panel ::
  "(real \<Rightarrow> real) \<Rightarrow> int list \<Rightarrow> nat \<Rightarrow> string \<Rightarrow> string \<Rightarrow> real list \<Rightarrow> real \<Rightarrow> (nat \<Rightarrow> string) \<Rightarrow> nat list \<Rightarrow> string list res"
where
  "panel lg conc left title color vs vmax fmt ticks =
     bindR (points_of lg conc left vs vmax) (\<lambda>pts.
     bindR (mapR (\<lambda>c. bindR (xpos lg conc c left) (\<lambda>x. Inr (c, x))) conc) (\<lambda>labels.
     Inr (panel_title left title color @ concat (map (tick_lines left vmax fmt) ticks) @ point_lines color pts
       @ map axis_label labels @ axis_lines left)))"

section \<open>The card\<close>

definition int_key :: "json \<Rightarrow> int res" where
  "int_key j = (case j of JStr s \<Rightarrow> int_of_string s | JNum x \<Rightarrow> Inr (truncate x) | JBool b \<Rightarrow> Inr (if b then 1 else 0) | _ \<Rightarrow> Inl TypeError)"

definition conc_of :: "json \<Rightarrow> int list res" where
  "conc_of by_level = bindR (elements by_level) (\<lambda>ks. bindR (mapR int_key ks) (\<lambda>cs. Inr (sort cs)))"

definition series :: "json \<Rightarrow> int list \<Rightarrow> string \<Rightarrow> json list res" where
  "series by_level conc field = mapR (\<lambda>c. bindR (subscript by_level (str_int c)) (\<lambda>entry. subscript entry field)) conc"

definition title_lines :: "string list" where
  "title_lines =
     [''<svg'' @ attr ''xmlns'' ''http://www.w3.org/2000/svg'' @ attr ''width'' (str_nat CARD_W) @ attr ''height'' (str_nat CARD_H)
        @ attr ''viewBox'' (''0 0 '' @ str_nat CARD_W @ '' '' @ str_nat CARD_H) @ ''>'',
      ''<rect'' @ attr ''width'' (str_nat CARD_W) @ attr ''height'' (str_nat CARD_H) @ attr ''fill'' SURFACE @ ''/>'',
      ''<text'' @ attr ''x'' (str_nat (LX - 4)) @ attr ''y'' ''88'' @ attr ''fill'' INK @ attr ''font-size'' ''46'' @ attr ''font-weight'' ''700'' @ FONT
        @ ''>cachelib-grpc-server</text>'',
      ''<text'' @ attr ''x'' (str_nat (LX - 4)) @ attr ''y'' ''124'' @ attr ''fill'' INK2 @ attr ''font-size'' ''20'' @ FONT
        @ ''>A standalone gRPC server for Meta'' @ [CHR 0xE2, CHR 0x80, CHR 0x99] @ ''s CacheLib '' @ [CHR 0xC2, CHR 0xB7] @ '' 19 RPCs ''
        @ [CHR 0xC2, CHR 0xB7] @ '' hybrid DRAM+SSD</text>'',
      ''<line'' @ attr ''x1'' (str_nat (LX - 4)) @ attr ''y1'' ''152'' @ attr ''x2'' (str_nat (CARD_W - LX + 4)) @ attr ''y2'' ''152''
        @ attr ''stroke'' GRID @ attr ''stroke-width'' ''1'' @ ''/>'']"

definition hero :: "(string \<times> string \<times> string) list" where
  "hero = [(''33,360'', ''req/s'', ''GET at concurrency 100''), (''6.81 ms'', ''p99'', ''at that throughput''),
           (''0.11 ms'', ''p50'', ''unloaded round trip'')]"

definition hero_lines :: "string list" where
  "hero_lines = concat (map (\<lambda>(i, big, unit, sub).
     let x = str_nat (LX - 4 + i * 300) in
     [''<text'' @ attr ''x'' x @ attr ''y'' ''212'' @ attr ''fill'' INK @ attr ''font-size'' ''38'' @ attr ''font-weight'' ''700'' @ FONT @ ''>'' @ big
        @ '' <tspan'' @ attr ''fill'' INK3 @ attr ''font-size'' ''19'' @ attr ''font-weight'' ''400'' @ ''>'' @ unit @ ''</tspan></text>'',
      ''<text'' @ attr ''x'' x @ attr ''y'' ''236'' @ attr ''fill'' INK3 @ attr ''font-size'' ''14'' @ FONT @ ''>'' @ sub @ ''</text>'']) (enumerate 0 hero))"

definition footer :: string where
  "footer = ''<text'' @ attr ''x'' (str_nat (LX - 4)) @ attr ''y'' (str_nat (CARD_H - 18)) @ attr ''fill'' INK3 @ attr ''font-size'' ''13'' @ FONT
     @ ''>Apple M2 Max, 12 vCPU, Docker Desktop '' @ [CHR 0xC2, CHR 0xB7] @ '' 4 GiB DRAM '' @ [CHR 0xC2, CHR 0xB7] @ '' 200k ''
     @ [CHR 0xC3, CHR 0x97] @ '' 1 KiB keys, 100% hits '' @ [CHR 0xC2, CHR 0xB7] @ '' median of 3 runs '' @ [CHR 0xC2, CHR 0xB7]
     @ '' harness in bench/</text>''"

text \<open>\<open>f"{v//1000:.0f}k" if v else "0"\<close> and \<open>f"{v:.0f} ms" if v else "0"\<close>, on the ticks.\<close>

definition thousands :: "nat \<Rightarrow> string" where
  "thousands v = (if v = 0 then ''0'' else str_nat (v div 1000) @ ''k'')"

definition millis :: "nat \<Rightarrow> string" where
  "millis v = (if v = 0 then ''0'' else str_nat v @ '' ms'')"

definition preview_lines :: "(real \<Rightarrow> real) \<Rightarrow> json \<Rightarrow> string list res" where
  "preview_lines lg data =
     bindR (subscript data ''get_concurrency_sweep'') (\<lambda>by_level. bindR (conc_of by_level) (\<lambda>conc.
     bindR (series by_level conc ''rps_median'') (\<lambda>rps. bindR (series by_level conc ''p99_median_ms'') (\<lambda>p99.
     bindR (mapR num_of rps) (\<lambda>rs. bindR (panel lg conc LX ''GET throughput'' BLUE rs 40000 thousands [0, 10000, 20000, 30000, 40000]) (\<lambda>left.
     bindR (mapR num_of p99) (\<lambda>ps. bindR (panel lg conc RX ''GET p99 latency'' ORANGE ps 30 millis [0, 10, 20, 30]) (\<lambda>right.
     Inr (title_lines @ hero_lines @ left @ right @ [footer, ''</svg>'']))))))))) "

definition social_preview :: "(real \<Rightarrow> real) \<Rightarrow> json \<Rightarrow> (string \<times> artefact) res" where
  "social_preview lg data = bindR (preview_lines lg data) (\<lambda>s. Inr (''social-preview.svg'', Svg (join newline s)))"

section \<open>The points keep to their panel\<close>

lemma xpos_on_panel:
  assumes lg: "\<And>a b. 0 < a \<Longrightarrow> a \<le> b \<Longrightarrow> lg a \<le> lg b" and "sorted conc" and "\<forall>c \<in> set conc. 0 < c"
    and "fl (lg (of_int (last conc)) - lg (of_int (hd conc))) \<noteq> 0" and "c \<in> set conc" and "left \<le> 1000"
  shows "\<exists>x. xpos lg conc c left = Inr x \<and> real left \<le> x \<and> x \<le> real (left + PW)"
proof -
  let ?lo = "lg (of_int (hd conc))" and ?hi = "lg (of_int (last conc))" and ?x = "lg (of_int c)"
  have ne: "conc \<noteq> []" using assms(5) by auto
  then have pos: "0 < hd conc" "0 < last conc" "0 < c" using assms(3,5) by auto
  have "hd conc \<le> c" "c \<le> last conc"
    using assms(2,5) ne by (auto simp: sorted_iff_nth_mono in_set_conv_nth hd_conv_nth last_conv_nth)
  then have l: "?lo \<le> ?x" "?x \<le> ?hi" using pos by (auto intro!: lg)
  define r where "r = fl (fl (?x - ?lo) / fl (?hi - ?lo))"
  have d: "0 \<le> fl (?x - ?lo)" "fl (?x - ?lo) \<le> fl (?hi - ?lo)" "0 < fl (?hi - ?lo)"
    using l assms(4) fl_nonneg [of "?x - ?lo"] fl_nonneg [of "?hi - ?lo"] by (auto intro!: fl_mono simp: less_le)
  then have "0 \<le> fl (?x - ?lo) / fl (?hi - ?lo)" "fl (?x - ?lo) / fl (?hi - ?lo) \<le> 1" by simp_all
  then have "0 \<le> r" "r \<le> 1" using fl_nonneg fl_mono [of _ 1] by (auto simp: r_def)
  then have "0 \<le> fl (r * real PW)" "fl (r * real PW) \<le> real PW"
    using fl_nonneg [of "r * real PW"] fl_mono [of "r * real PW" "real PW"] by (auto simp: PW_def)
  moreover have "is_float (real left)" "is_float (real (left + PW))"
    using is_float_int [of "int left"] is_float_int [of "int (left + PW)"] assms(6) by (simp_all add: PW_def)
  ultimately have "real left \<le> fl (real left + fl (r * real PW))" "fl (real left + fl (r * real PW)) \<le> real (left + PW)"
    using fl_mono [of "real left" "real left + fl (r * real PW)"] fl_mono [of "real left + fl (r * real PW)" "real (left + PW)"] by simp_all
  then show ?thesis using pos assms(4) by (auto simp: xpos_def log10_def r_def)
qed

lemma ypos_on_panel:
  assumes "0 \<le> v" and "v \<le> vmax" and "0 < vmax"
  shows "real PY \<le> ypos v vmax \<and> ypos v vmax \<le> real (PY + PH)"
proof -
  have "0 \<le> v / vmax" "v / vmax \<le> 1" using assms by simp_all
  then have r: "0 \<le> fl (v / vmax)" "fl (v / vmax) \<le> 1" using fl_nonneg fl_mono [of _ 1] by auto
  then have "0 \<le> fl (fl (v / vmax) * 228)" "fl (fl (v / vmax) * 228) \<le> 228"
    using fl_nonneg [of "fl (v / vmax) * 228"] fl_mono [of "fl (v / vmax) * 228" 228] by auto
  then show ?thesis
    using fl_mono [of 302 "530 - fl (fl (v / vmax) * 228)"] fl_mono [of "530 - fl (fl (v / vmax) * 228)" 530]
    by (simp add: ypos_def PY_def PH_def)
qed

text \<open>
  The points of a panel lie in its plot area: if the logarithm is monotone, the levels are positive and not all the same to the
  logarithm, and every value is between 0 and the end of the axis, the points can be computed and each lies between the edges of the area, with all
  roundings.
\<close>

theorem preview_points_on_panel:
  assumes "\<And>a b. 0 < a \<Longrightarrow> a \<le> b \<Longrightarrow> lg a \<le> lg b" and "sorted conc" and "\<forall>c \<in> set conc. 0 < c"
    and "fl (lg (of_int (last conc)) - lg (of_int (hd conc))) \<noteq> 0" and "left \<in> {LX, RX}" and "0 < vmax" and "\<forall>v \<in> set vs. 0 \<le> v \<and> v \<le> vmax"
  shows "\<exists>pts. points_of lg conc left vs vmax = Inr pts \<and> length pts = min (length conc) (length vs)
    \<and> (\<forall>(x, y) \<in> set pts. real left \<le> x \<and> x \<le> real (left + PW) \<and> real PY \<le> y \<and> y \<le> real (PY + PH))"
proof -
  let ?on = "\<lambda>(x, y). real left \<le> x \<and> x \<le> real (left + PW) \<and> real PY \<le> y \<and> y \<le> real (PY + PH)"
  have left: "left \<le> 1000" using assms(5) by (auto simp: layout_defs)
  have all: "\<exists>pts. mapR (\<lambda>(c, v). bindR (xpos lg conc c left) (\<lambda>x. Inr (x, ypos v vmax))) ps = Inr pts \<and> length pts = length ps \<and> (\<forall>p \<in> set pts. ?on p)"
    if "set ps \<subseteq> set conc \<times> set vs" for ps
    using that
  proof (induction ps)
    case (Cons p ps)
    obtain c v where p: "p = (c, v)" "c \<in> set conc" "v \<in> set vs" using Cons.prems by (cases p) auto
    obtain x where "xpos lg conc c left = Inr x" "real left \<le> x" "x \<le> real (left + PW)"
      using xpos_on_panel [OF assms(1-4) p(2) left] by blast
    moreover have "real PY \<le> ypos v vmax \<and> ypos v vmax \<le> real (PY + PH)" using ypos_on_panel assms(6,7) p(3) by blast
    ultimately show ?case using Cons p(1) by auto
  qed simp
  have "set (zip conc vs) \<subseteq> set conc \<times> set vs" by (auto dest: set_zip_leftD set_zip_rightD)
  from all [OF this] show ?thesis by (simp add: points_of_def)
qed

theorem preview_points_on_panel_witness:
  "\<exists>pts. points_of (\<lambda>x. fl (log 10 x)) [1, 8, 100] 90 [5222, 12515, 33359] 40000 = Inr pts \<and> length pts = 3
    \<and> (\<forall>(x, y) \<in> set pts. 90 \<le> x \<and> x \<le> 560 \<and> 302 \<le> y \<and> y \<le> 530)"
proof -
  have mono: "fl (log 10 a) \<le> fl (log 10 b)" if "0 < a" "a \<le> b" for a b :: real using that by (intro fl_mono) simp
  have "log 10 (100 :: real) = 2" using log_pow_cancel [of "10 :: real" 2] by simp
  then have "fl (fl (log 10 (of_int (last [1, 8, 100]))) - fl (log 10 (of_int (hd [1, 8, 100 :: int])))) \<noteq> (0 :: real)" by simp
  from preview_points_on_panel [of "\<lambda>x. fl (log 10 x)" "[1, 8, 100]" LX 40000 "[5222, 12515, 33359]", OF mono _ _ this]
  show ?thesis by (simp add: layout_defs numeral_3_eq_3)
qed

section \<open>The headline figures\<close>

text \<open>
  The headline figures of the card are not read from the measurement file: whatever it says, a card that is drawn begins with the same title
  and the same three figures, and a sweep of one level, or with a level of zero, which the position of the axis provides for, cannot be drawn.
\<close>

theorem preview_headlines_fixed:
  assumes "social_preview lg data = Inr (name, drawing)"
  shows "\<exists>rest. drawing = Svg (join newline (title_lines @ hero_lines @ rest))"
  using assms by (auto simp: social_preview_def preview_lines_def elim!: bindR_InrE)

theorem preview_headlines_fixed_witness:
  "\<exists>rest. social_preview lg (JObj [(''get_concurrency_sweep'', JObj [])]) = Inr (''social-preview.svg'', Svg (join newline (title_lines @ hero_lines @ rest)))"
proof -
  obtain name drawing where d: "social_preview lg (JObj [(''get_concurrency_sweep'', JObj [])]) = Inr (name, drawing)"
    by (auto simp: social_preview_def preview_lines_def subscript_def item_def conc_of_def elements_def series_def panel_def points_of_def)
  moreover have "name = ''social-preview.svg''" using d by (auto simp: social_preview_def elim!: bindR_InrE)
  ultimately show ?thesis using preview_headlines_fixed [OF d] by auto
qed

lemma xpos_zero_level: "\<exists>e. xpos lg conc 0 left = Inl e"
  by (auto simp: xpos_def log10_def)

lemma xpos_single_level: "0 < c \<Longrightarrow> xpos lg [c] c left = Inl ZeroDivisionError"
  by (auto simp: xpos_def log10_def)

end
