(* ===== verification/Cache_Batch.thy ===== *)
theory Cache_Batch
  imports Cache_Server
begin

text \<open>
  The batch and streaming calls of the server: \<open>exists\<close>, \<open>multiGet\<close>, \<open>multiSet\<close> and \<open>multiDelete\<close> of
  \<open>CacheManager.cc\<close> and the handlers \<open>Exists\<close>, \<open>MultiGet\<close>, \<open>MultiSet\<close>, \<open>MultiDelete\<close> and \<open>Pipeline\<close> of
  \<open>CacheServiceImpl.cc\<close>. Each is compared with the single calls it stands for. Counts are 32-bit integers
  as in the responses. Whether an allocation succeeds may depend on the key, the value and the state
  of the server at that moment (\<open>room\<close>).
\<close>

type_synonym allocator = "string \<Rightarrow> byte list \<Rightarrow> server \<Rightarrow> bool"

section \<open>CacheManager\<close>

definition cm_exists :: "nat \<Rightarrow> string \<Rightarrow> server \<Rightarrow> bool" where
  "cm_exists now key s \<longleftrightarrow> sv_ready s \<and> find_item now key s \<noteq> None"

fun cm_multiGet :: "nat \<Rightarrow> string list \<Rightarrow> server \<Rightarrow> get_result list \<times> server" where
  "cm_multiGet now [] s = ([], s)"
| "cm_multiGet now (k # ks) s =
     (let (r, s) = cm_get now k s; (rs, s) = cm_multiGet now ks s in (r # rs, s))"

fun cm_multiSet :: "nat \<Rightarrow> allocator \<Rightarrow> (string \<times> byte list \<times> 32 word) list \<Rightarrow> server \<Rightarrow> string list \<times> server" where
  "cm_multiSet now room [] s = ([], s)"
| "cm_multiSet now room ((k, v, ttl) # items) s =
     (let (ok, s) = cm_set now (room k v s) k v ttl s; (ks, s) = cm_multiSet now room items s
      in (if ok then ks else k # ks, s))"

fun cm_multiDelete :: "nat \<Rightarrow> string list \<Rightarrow> 32 word \<Rightarrow> server \<Rightarrow> 32 word \<times> server" where
  "cm_multiDelete now [] n s = (n, s)"
| "cm_multiDelete now (k # ks) n s =
     (let (ok, s) = cm_remove now k s in cm_multiDelete now ks (if ok then n + 1 else n) s)"

section \<open>CacheServiceImpl\<close>

definition service_Exists :: "nat \<Rightarrow> string \<Rightarrow> server \<Rightarrow> rpc_error + bool" where
  "service_Exists now key s =
     (if \<not> sv_ready s then Inl UNAVAILABLE
      else if key = [] then Inl INVALID_ARGUMENT
      else Inr (cm_exists now key s))"

text \<open>A result is the key with what \<open>get\<close> returned; the value and time of a miss keep their defaults.\<close>

definition service_MultiGet :: "nat \<Rightarrow> string list \<Rightarrow> server \<Rightarrow> (rpc_error + (string \<times> get_result) list) \<times> server" where
  "service_MultiGet now keys s =
     (if \<not> sv_ready s then (Inl UNAVAILABLE, s)
      else case cm_multiGet now keys s of (rs, s') \<Rightarrow> (Inr (zip keys rs), s'))"

record multi_set_response =
  ms_success :: bool
  ms_succeeded_count :: "32 word"
  ms_failed_count :: "32 word"
  ms_message :: string
  ms_failed_keys :: "string list"

definition attempted :: "(string \<times> byte list \<times> 64 word) list \<Rightarrow> (string \<times> byte list \<times> 32 word) list" where
  "attempted items = [(k, v, narrow_ttl ttl). (k, v, ttl) \<leftarrow> items, k \<noteq> []]"

definition service_MultiSet ::
  "nat \<Rightarrow> allocator \<Rightarrow> (string \<times> byte list \<times> 64 word) list \<Rightarrow> server \<Rightarrow> (rpc_error + multi_set_response) \<times> server"
where
  "service_MultiSet now room items s =
     (if \<not> sv_ready s then (Inl UNAVAILABLE, s)
      else case cm_multiSet now room (attempted items) s of (failed_keys, s') \<Rightarrow>
        (let succeeded = word_of_nat (length (attempted items) - length failed_keys);
             failed = word_of_nat (length failed_keys) in
         (Inr \<lparr>ms_success = (failed = 0), ms_succeeded_count = succeeded, ms_failed_count = failed,
            ms_message = (if failed = 0 then ''All items set successfully''
              else ''Some items failed: '' @ str_int (sint failed) @ '' failures''),
            ms_failed_keys = failed_keys\<rparr>, s')))"

record multi_delete_response =
  md_success :: bool
  md_deleted_count :: "32 word"
  md_not_found_count :: "32 word"
  md_message :: string

definition service_MultiDelete :: "nat \<Rightarrow> string list \<Rightarrow> server \<Rightarrow> (rpc_error + multi_delete_response) \<times> server" where
  "service_MultiDelete now keys s =
     (if \<not> sv_ready s then (Inl UNAVAILABLE, s)
      else case cm_multiDelete now keys 0 s of (deleted, s') \<Rightarrow>
        (let not_found = word_of_nat (length keys) - deleted in
         (Inr \<lparr>md_success = True, md_deleted_count = deleted, md_not_found_count = not_found,
            md_message = ''Deleted '' @ str_int (sint deleted) @ '' keys, '' @ str_int (sint not_found) @ '' not found''\<rparr>, s')))"

section \<open>The pipeline\<close>

datatype pipeline_operation =
    PGet string
  | PSet string "byte list" "64 word"
  | PDelete string
  | PExists string
  | PNone

datatype pipeline_result =
    RGet get_result
  | RSet set_response
  | RDelete delete_response
  | RExists bool
  | RError string

text \<open>One turn of the loop of \<open>Pipeline\<close>, for an operation read from the stream.\<close>

definition pipeline_step :: "nat \<Rightarrow> allocator \<Rightarrow> pipeline_operation \<Rightarrow> server \<Rightarrow> pipeline_result \<times> server" where
  "pipeline_step now room op s =
     (case op of
        PNone \<Rightarrow> (RError ''Unknown operation'', s)
      | PGet k \<Rightarrow>
          if k = [] then (RError ''Key cannot be empty'', s)
          else (case cm_get now k s of (r, s') \<Rightarrow> (RGet r, s'))
      | PSet k v ttl \<Rightarrow>
          if k = [] then (RError ''Key cannot be empty'', s)
          else (case cm_set now (room k v s) k v (narrow_ttl ttl) s of (ok, s') \<Rightarrow>
            (RSet \<lparr>sr_success = ok, sr_message = (if ok then ''OK'' else ''Failed to set value''),
                   sr_size_bytes = (if ok then int (length v) else 0)\<rparr>, s'))
      | PDelete k \<Rightarrow>
          if k = [] then (RError ''Key cannot be empty'', s)
          else (case cm_remove now k s of (existed, s') \<Rightarrow>
            (RDelete \<lparr>de_success = True, de_key_existed = existed,
                      de_message = (if existed then ''Key deleted'' else ''Key not found'')\<rparr>, s'))
      | PExists k \<Rightarrow>
          if k = [] then (RError ''Key cannot be empty'', s)
          else (RExists (cm_exists now k s), s))"

text \<open>A request of the stream carries the time at which the server reads it and its sequence id.\<close>

type_synonym pipeline_request = "nat \<times> 64 word \<times> pipeline_operation"

fun pipeline_loop ::
  "allocator \<Rightarrow> pipeline_request list \<Rightarrow> server \<Rightarrow> (64 word \<times> pipeline_result) list \<times> server"
where
  "pipeline_loop room [] s = ([], s)"
| "pipeline_loop room ((now, i, op) # requests) s =
     (let (r, s) = pipeline_step now room op s; (rs, s) = pipeline_loop room requests s
      in ((i, r) # rs, s))"

definition service_Pipeline ::
  "allocator \<Rightarrow> pipeline_request list \<Rightarrow> server \<Rightarrow> (rpc_error + (64 word \<times> pipeline_result) list) \<times> server"
where
  "service_Pipeline room requests s =
     (if \<not> sv_ready s then (Inl UNAVAILABLE, s)
      else case pipeline_loop room requests s of (rs, s') \<Rightarrow> (Inr rs, s'))"

section \<open>The pipeline is a sequence of single calls\<close>

text \<open>What the single RPC for an operation does, and when its reply says the same as a pipeline response.\<close>

definition single_state :: "allocator \<Rightarrow> pipeline_request \<Rightarrow> server \<Rightarrow> server" where
  "single_state room req s = (case req of (now, i, op) \<Rightarrow> case op of
     PGet k \<Rightarrow> snd (service_Get now k s)
   | PSet k v ttl \<Rightarrow> snd (service_Set now (room k v s) k v ttl s)
   | PDelete k \<Rightarrow> snd (service_Delete now k s)
   | PExists k \<Rightarrow> s
   | PNone \<Rightarrow> s)"

definition single_reply :: "allocator \<Rightarrow> pipeline_request \<Rightarrow> server \<Rightarrow> 64 word \<times> pipeline_result \<Rightarrow> bool" where
  "single_reply room req s resp = (case req of (now, i, op) \<Rightarrow> fst resp = i \<and> (case op of
     PGet k \<Rightarrow> (case fst (service_Get now k s) of
       Inl e \<Rightarrow> snd resp = RError ''Key cannot be empty'' | Inr r \<Rightarrow> snd resp = RGet r)
   | PSet k v ttl \<Rightarrow> (case fst (service_Set now (room k v s) k v ttl s) of
       Inl e \<Rightarrow> snd resp = RError ''Key cannot be empty'' | Inr r \<Rightarrow> snd resp = RSet r)
   | PDelete k \<Rightarrow> (case fst (service_Delete now k s) of
       Inl e \<Rightarrow> snd resp = RError ''Key cannot be empty'' | Inr r \<Rightarrow> snd resp = RDelete r)
   | PExists k \<Rightarrow> (case service_Exists now k s of
       Inl e \<Rightarrow> snd resp = RError ''Key cannot be empty'' | Inr b \<Rightarrow> snd resp = RExists b)
   | PNone \<Rightarrow> snd resp = RError ''Unknown operation''))"

lemma pipeline_step_single:
  assumes "sv_ready s"
  shows "snd (pipeline_step now room op s) = single_state room (now, i, op) s"
    and "single_reply room (now, i, op) s (i, fst (pipeline_step now room op s))"
    and "sv_ready (snd (pipeline_step now room op s))"
  using assms
  by (cases op; auto simp: pipeline_step_def single_state_def single_reply_def service_Get_def service_Set_def
      service_Delete_def set_reply_def delete_reply_def service_Exists_def cm_get_def cm_set_def cm_remove_def Let_def split: prod.splits option.splits)+

lemma pipeline_loop_single:
  "sv_ready s \<Longrightarrow> pipeline_loop room reqs s = (rs, s') \<Longrightarrow>
    length rs = length reqs \<and> s' = fold (single_state room) reqs s
    \<and> (\<forall>j < length reqs. single_reply room (reqs ! j) (fold (single_state room) (take j reqs) s) (rs ! j))"
proof (induction room reqs s arbitrary: rs s' rule: pipeline_loop.induct)
  case (2 room now i op reqs s)
  obtain r u where r: "pipeline_step now room op s = (r, u)" by fastforce
  obtain qs v where q: "pipeline_loop room reqs u = (qs, v)" by fastforce
  have step: "u = single_state room (now, i, op) s" "single_reply room (now, i, op) s (i, r)" "sv_ready u"
    using pipeline_step_single [OF "2.prems"(1)] r by (metis fst_conv snd_conv)+
  have rest: "length qs = length reqs" "v = fold (single_state room) reqs u"
      "\<And>j. j < length reqs \<Longrightarrow> single_reply room (reqs ! j) (fold (single_state room) (take j reqs) u) (qs ! j)"
    using "2.IH" [OF r [symmetric] refl step(3) q] by blast+
  have rs: "rs = (i, r) # qs" "s' = v" using "2.prems"(2) r q by simp_all
  have "single_reply room (((now, i, op) # reqs) ! j) (fold (single_state room) (take j ((now, i, op) # reqs)) s) (rs ! j)"
    if "j < length ((now, i, op) # reqs)" for j
    using that rest(3) step(1,2) rs(1) by (cases j) auto
  then show ?case using rs rest(1,2) step(1) by simp
qed simp

lemma single_reply_id: "single_reply room req s resp \<Longrightarrow> fst resp = (case req of (now, i, op) \<Rightarrow> i)"
  by (auto simp: single_reply_def split: prod.splits)

text \<open>
  C11. The pipeline correlates and orders: on a ready server every request of the stream gets exactly one
  response, in the order of the requests and with its sequence id; the j-th response says what the
  single call would have said on the state the first j single calls leave, and the stream as a whole
  leaves the state the single calls leave.
\<close>

theorem pipeline_sequential:
  assumes "sv_ready s"
  shows "\<exists>rs. service_Pipeline room reqs s = (Inr rs, fold (single_state room) reqs s)
    \<and> map fst rs = map (\<lambda>(now, i, op). i) reqs
    \<and> (\<forall>j < length reqs. single_reply room (reqs ! j) (fold (single_state room) (take j reqs) s) (rs ! j))"
proof -
  obtain rs s' where l: "pipeline_loop room reqs s = (rs, s')" by fastforce
  note p = pipeline_loop_single [OF assms l]
  have "fst (rs ! j) = (case reqs ! j of (now, i, op) \<Rightarrow> i)" if "j < length reqs" for j
    using p that single_reply_id by blast
  then have "map fst rs = map (\<lambda>(now, i, op). i) reqs" using p by (simp add: list_eq_iff_nth_eq)
  with p l assms show ?thesis by (auto simp: service_Pipeline_def)
qed

theorem pipeline_sequential_witness:
  "\<exists>rs. service_Pipeline (\<lambda>_ _ _. True) [(5, 41, PSet ''k'' [1, 2] 0), (5, 42, PGet ''k''), (6, 43, PDelete [])] empty_server
     = (Inr rs, fold (single_state (\<lambda>_ _ _. True)) [(5, 41, PSet ''k'' [1, 2] 0), (5, 42, PGet ''k''), (6, 43, PDelete [])] empty_server)
     \<and> map fst rs = [41, 42, 43]"
  using pipeline_sequential [of empty_server "\<lambda>_ _ _. True" "[(5, 41, PSet ''k'' [1, 2] 0), (5, 42, PGet ''k''), (6, 43, PDelete [])]"]
  by (auto simp: empty_server_def)

section \<open>The batch calls\<close>

lemma cm_get_reads:
  "fst (cm_get now k (snd (cm_get now' k' s))) = fst (cm_get now k s)"
  "sv_items (snd (cm_get now k s)) = sv_items s" "sv_ready (snd (cm_get now k s)) = sv_ready s"
  by (auto simp: cm_get_def find_item_def Let_def split: option.splits prod.splits)

lemma cm_multiGet_reads:
  "fst (cm_multiGet now ks s) = map (\<lambda>k. fst (cm_get now k s)) ks
    \<and> sv_items (snd (cm_multiGet now ks s)) = sv_items s \<and> sv_ready (snd (cm_multiGet now ks s)) = sv_ready s"
proof (induction ks arbitrary: s)
  case (Cons k ks)
  then show ?case using cm_get_reads [where s = s]
    by (auto simp: case_prod_beta Let_def)
qed simp

text \<open>A set without failures leaves, for every key, its last item.\<close>

lemma cm_multiSet_stored:
  "cm_multiSet now room items s = ([], s') \<Longrightarrow> sv_ready s \<Longrightarrow>
    sv_ready s' \<and> sv_items s' k =
      (case map_of (rev items) k of None \<Rightarrow> sv_items s k | Some (v, ttl) \<Rightarrow> Some (v, now, ttl))"
proof (induction now room items s arbitrary: s' rule: cm_multiSet.induct)
  case (2 now room k' v ttl items s)
  obtain ok u where u: "cm_set now (room k' v s) k' v ttl s = (ok, u)" by fastforce
  obtain ks v' where rest: "cm_multiSet now room items u = (ks, v')" by fastforce
  have ok: "ok" "ks = []" "s' = v'" using "2.prems"(1) u rest by (auto split: if_splits)
  then have "sv_ready u" "sv_items u = (sv_items s)(k' \<mapsto> (v, now, ttl))"
    using u "2.prems"(2) by (auto simp: cm_set_def Let_def split: if_splits)
  with "2.IH" [OF u [symmetric] refl] rest ok show ?case
    by (auto simp: map_add_def split: option.splits)
qed simp

lemma length_failed_keys: "length (fst (cm_multiSet now room items s)) \<le> length items"
proof (induction items arbitrary: s)
  case (Cons i items)
  obtain k v ttl where "i = (k, v, ttl)" by (cases i)
  with Cons show ?case by (auto simp: case_prod_beta Let_def le_SucI)
qed simp

lemma word_of_nat_small: "n < 2 ^ 32 \<Longrightarrow> word_of_nat n = (0 :: 32 word) \<longleftrightarrow> n = 0"
  using nat_dvd_not_less by (auto simp: word_of_nat_eq_0_iff)

lemma length_attempted: "length (attempted items) \<le> length items"
  by (induction items) (auto simp: attempted_def)

text \<open>
  What a batch stored can be read back in one batch: after a \<open>MultiSet\<close> of fewer than \<open>2 ^ 32\<close> items that
  reports success, a \<open>MultiGet\<close> of the keys it attempted (the nonempty ones), before any of the items expires, answers
  every key, in order, with a hit, whose bytes are those of the last item the batch had for the key.
\<close>

theorem multi_set_then_get:
  assumes "service_MultiSet t room items s = (Inr r, s')" and "ms_success r" and "length items < 2 ^ 32"
    and "list_all (\<lambda>(k, v, ttl). \<not> expired now (v, t, ttl)) (attempted items)"
  shows "\<exists>rs s''. service_MultiGet now (map fst (attempted items)) s' = (Inr rs, s'')
    \<and> map fst rs = map fst (attempted items)
    \<and> list_all (\<lambda>(k, r). gr_found r \<and> map_option fst (map_of (rev (attempted items)) k) = Some (gr_value r)) rs"
proof -
  let ?items = "attempted items" and ?keys = "map fst (attempted items)"
  obtain failed where f: "cm_multiSet t room ?items s = (failed, s')" "sv_ready s" "word_of_nat (length failed) = (0 :: 32 word)"
    using assms(1,2) by (auto simp: service_MultiSet_def Let_def split: if_splits prod.splits)
  moreover have "length failed < 2 ^ 32"
    using length_failed_keys [of t room ?items s] length_attempted [of items] assms(3) f(1) by simp
  ultimately have ok: "cm_multiSet t room ?items s = ([], s')" by (simp add: word_of_nat_small)
  have hit: "gr_found (fst (cm_get now k s')) \<and> map_option fst (map_of (rev ?items) k) = Some (gr_value (fst (cm_get now k s')))"
    if k: "k \<in> set ?keys" for k
  proof -
    have "k \<in> fst ` set (rev ?items)" using k by simp
    then obtain v ttl where m: "map_of (rev ?items) k = Some (v, ttl)"
      by (metis (no_types, lifting) map_of_eq_None_iff not_None_eq surj_pair)
    then have "(k, v, ttl) \<in> set ?items" using map_of_SomeD by fastforce
    then have "\<not> expired now (v, t, ttl)" using assms(4) by (auto simp: list_all_iff)
    then show ?thesis using cm_multiSet_stored [OF ok f(2), of k] m
      by (simp add: cm_get_def find_item_def Let_def)
  qed
  obtain s'' where get: "service_MultiGet now ?keys s' = (Inr (zip ?keys (map (\<lambda>k. fst (cm_get now k s')) ?keys)), s'')"
    using cm_multiGet_reads [of now ?keys s'] cm_multiSet_stored [OF ok f(2)]
    by (cases "cm_multiGet now ?keys s'") (simp add: service_MultiGet_def)
  have "list_all (\<lambda>(k, r). gr_found r \<and> map_option fst (map_of (rev ?items) k) = Some (gr_value r))
      (zip ?keys (map (\<lambda>k. fst (cm_get now k s')) ?keys))"
    using hit by (auto simp: list_all_iff set_zip)
  with get show ?thesis by (intro exI conjI) (assumption | simp)+
qed

theorem multi_set_then_get_witness:
  "\<exists>r s' rs s''. service_MultiSet 5 (\<lambda>_ _ _. True) [(''a'', [1], 0), ([], [2], 0), (''b'', [3], 60)] empty_server = (Inr r, s')
    \<and> service_MultiGet 9 [''a'', ''b''] s' = (Inr rs, s'') \<and> map fst rs = [''a'', ''b'']"
proof -
  let ?items = "[(''a'', [1], 0), ([], [2], 0), (''b'', [3], 60)]"
  have n: "narrow_ttl 0 = 0" "narrow_ttl 60 = 60" by (simp_all add: narrow_ttl_def word_sless_alt)
  then have a: "attempted ?items = [(''a'', [1], 0), (''b'', [3], 60)]" by (simp add: attempted_def)
  obtain r s' where r: "service_MultiSet 5 (\<lambda>_ _ _. True) ?items empty_server = (Inr r, s')" "ms_success r"
    by (simp add: service_MultiSet_def a cm_set_def empty_server_def)
  have "list_all (\<lambda>(k, v, ttl). \<not> expired 9 (v, 5, ttl)) (attempted ?items)" by (simp add: a expired_exact)
  from multi_set_then_get [OF r _ this] r(1) show ?thesis by (auto simp: a)
qed

end
