(* ===== verification/Client_Verify.thy ===== *)
theory Client_Verify
  imports Trace_Client Cache_Batch
begin

text \<open>
  The command \<open>verify\<close> of the client: miss, binary round trip, overwrite, delete and expiry on any backend,
  and the batch and pipeline calls of the gRPC service. The wait for the expiry polls every 0.1 s for
  at most 4 s; its iterations are bounded by the first argument, and 33 are enough. The stub of the
  batch calls is a record of three functions, instantiated with the handlers of the server.
\<close>

definition verify_key :: string where
  "verify_key = ''inv:verify:binary''"

definition verify_value :: "byte list" where
  "verify_value = plain_payload 1024 @ [0, 255, 128]"

definition verify_new :: "byte list" where
  "verify_new = map of_char ''new'' @ [0] @ map of_char ''value''"

definition assertS :: "bool \<Rightarrow> string \<Rightarrow> ('w, unit) sx" where
  "assertS p m = (if p then retS () else raiseS (AssertionError m))"

fun wait_expiry :: "nat \<Rightarrow> 'w backend \<Rightarrow> int \<Rightarrow> ('w, unit) sx" where
  "wait_expiry 0 b start = raiseS (RuntimeError ''out of iterations'')"
| "wait_expiry (Suc n) b start =
     bindS (b_get b verify_key) (\<lambda>found.
       if found = None then retS ()
       else bindS (b_clock_ns b) (\<lambda>now.
         if fl (of_int (now - start) / 1000000000) < 4
         then bindS (b_sleep b (fl 0.1)) (\<lambda>_. wait_expiry n b start)
         else retS ()))"

definition verify_basic :: "nat \<Rightarrow> 'w backend \<Rightarrow> ('w, real) sx" where
  "verify_basic fuel b =
     bindS (b_delete b verify_key) (\<lambda>_.
     bindS (b_get b verify_key) (\<lambda>v. bindS (assertS (v = None) ''miss'') (\<lambda>_.
     bindS (b_set b verify_key verify_value 0) (\<lambda>ok. bindS (assertS ok ''binary set'') (\<lambda>_.
     bindS (b_get b verify_key) (\<lambda>v. bindS (assertS (v = Some verify_value) ''binary round trip'') (\<lambda>_.
     bindS (b_set b verify_key verify_new 0) (\<lambda>ok. bindS (assertS ok ''overwrite'') (\<lambda>_.
     bindS (b_get b verify_key) (\<lambda>v. bindS (assertS (v = Some verify_new) ''overwrite read'') (\<lambda>_.
     bindS (b_delete b verify_key) (\<lambda>ok. bindS (assertS ok ''delete'') (\<lambda>_.
     bindS (b_get b verify_key) (\<lambda>v. bindS (assertS (v = None) ''deleted key'') (\<lambda>_.
     bindS (b_set b verify_key verify_value 1) (\<lambda>ok. bindS (assertS ok ''TTL set'') (\<lambda>_.
     bindS (b_clock_ns b) (\<lambda>start.
     bindS (wait_expiry fuel b start) (\<lambda>_.
     bindS (b_clock_ns b) (\<lambda>stop.
     bindS (b_get b verify_key) (\<lambda>v.
     bindS (assertS (v = None) ''TTL did not expire within 4 s (requested 1 s)'') (\<lambda>_.
     retS (fl (of_int (stop - start) / 1000000000))))))))))))))))))))))))"

text \<open>The calls of the gRPC stub that only \<open>verify\<close> makes.\<close>

record 'w batch_stub =
  st_MultiSet :: "(string \<times> byte list \<times> int) list \<Rightarrow> ('w, multi_set_response) sx"
  st_MultiGet :: "string list \<Rightarrow> ('w, (string \<times> get_result) list) sx"
  st_Pipeline :: "(64 word \<times> pipeline_operation) list \<Rightarrow> ('w, (64 word \<times> pipeline_result) list) sx"

text \<open>A field of a response whose oneof holds another message reads as the default of its type.\<close>

definition pipeline_set_success :: "pipeline_result \<Rightarrow> bool" where
  "pipeline_set_success r = (case r of RSet s \<Rightarrow> sr_success s | _ \<Rightarrow> False)"

definition pipeline_get_value :: "pipeline_result \<Rightarrow> byte list" where
  "pipeline_get_value r = (case r of RGet g \<Rightarrow> gr_value g | _ \<Rightarrow> [])"

definition pipeline_delete_success :: "pipeline_result \<Rightarrow> bool" where
  "pipeline_delete_success r = (case r of RDelete d \<Rightarrow> de_success d | _ \<Rightarrow> False)"

definition verify_items :: "(string \<times> byte list) list" where
  "verify_items = [(''inv:batch:a'', verify_value), (''inv:batch:b'', map of_char ''two'')]"

definition verify_requests :: "(64 word \<times> pipeline_operation) list" where
  "verify_requests =
     [(41, PSet ''inv:pipe'' verify_value 0), (42, PGet ''inv:pipe''), (43, PDelete ''inv:pipe'')]"

definition verify_batch :: "'w batch_stub \<Rightarrow> ('w, unit) sx" where
  "verify_batch c =
     bindS (st_MultiSet c (map (\<lambda>(k, v). (k, v, 0)) verify_items)) (\<lambda>s.
     bindS (assertS (ms_succeeded_count s = 2 \<and> ms_failed_count s = 0) ''MultiSet'') (\<lambda>_.
     bindS (st_MultiGet c (map fst verify_items)) (\<lambda>g.
     bindS (assertS (map (\<lambda>(k, r). (k, gr_value r)) g = verify_items) ''MultiGet order/bytes'') (\<lambda>_.
     bindS (st_Pipeline c verify_requests) (\<lambda>responses.
     bindS (assertS (map fst responses = [41, 42, 43]) ''Pipeline correlation/order'') (\<lambda>_.
     assertS (pipeline_set_success (snd (responses ! 0)) \<and> pipeline_get_value (snd (responses ! 1)) = verify_value
       \<and> pipeline_delete_success (snd (responses ! 2))) []))))))"

record verify_out =
  vo_ttl_observed_expiry_s :: real
  vo_batch_pipeline :: bool

definition verify :: "nat \<Rightarrow> string \<Rightarrow> 'w backend \<Rightarrow> 'w batch_stub \<Rightarrow> ('w, verify_out) sx" where
  "verify fuel kind b c =
     bindS (verify_basic fuel b) (\<lambda>expiry.
     if kind = ''grpc''
     then bindS (verify_batch c) (\<lambda>_. retS \<lparr>vo_ttl_observed_expiry_s = expiry, vo_batch_pipeline = True\<rparr>)
     else retS \<lparr>vo_ttl_observed_expiry_s = expiry, vo_batch_pipeline = False\<rparr>)"

text \<open>The stub on the server model, which has room for the values and answers at the time of the call.\<close>

definition served :: "(nat \<Rightarrow> server \<Rightarrow> (rpc_error + 'a) \<times> server) \<Rightarrow> (cworld, 'a) sx" where
  "served f w = (case f (cw_now w) (cw_server w) of
     (Inl e, s) \<Rightarrow> (Inl (RuntimeError ''RpcError''), w\<lparr>cw_server := s\<rparr>) | (Inr r, s) \<Rightarrow> (Inr r, w\<lparr>cw_server := s\<rparr>))"

definition grpc_stub :: "cworld batch_stub" where
  "grpc_stub =
     \<lparr>st_MultiSet = (\<lambda>items. served (\<lambda>now. service_MultiSet now (\<lambda>_ _ _. True) (map (\<lambda>(k, v, ttl). (k, v, word_of_int ttl)) items))),
      st_MultiGet = (\<lambda>keys. served (\<lambda>now. service_MultiGet now keys)),
      st_Pipeline = (\<lambda>reqs. served (\<lambda>now. service_Pipeline (\<lambda>_ _ _. True) (map (\<lambda>(i, op). (now, i, op)) reqs)))\<rparr>"

text \<open>What the steps do on a server, as long as it is ready and takes objects of 1027 bytes.\<close>

definition can_store :: "cworld \<Rightarrow> bool" where
  "can_store w \<longleftrightarrow> sv_ready (cw_server w) \<and> 1027 \<le> sv_max_item_size (cw_server w)"

definition holding :: "citem option \<Rightarrow> cworld \<Rightarrow> bool" where
  "holding i w \<longleftrightarrow> can_store w \<and> sv_items (cw_server w) verify_key = i"

lemma verify_key_ne [simp]: "verify_key \<noteq> []"
  by (simp add: verify_key_def)

lemma verify_lengths: "length verify_value = 1027" "length verify_new = 9"
  by (simp_all add: verify_value_def verify_new_def)

lemma grpc_delete_step:
  assumes "can_store w" shows "\<exists>w'. grpc_delete verify_key w = (Inr True, w') \<and> holding None w' \<and> cw_ns w' = cw_ns w"
  using assms by (simp add: grpc_delete_def service_Delete_def cm_remove_def can_store_def holding_def Let_def)

lemma grpc_get_step:
  assumes "holding i w"
  shows "\<exists>w'. grpc_get verify_key w = (Inr (case i of None \<Rightarrow> None | Some (v, c, t) \<Rightarrow> if expired (cw_now w) (v, c, t) then None else Some v), w')
    \<and> holding i w' \<and> cw_ns w' = cw_ns w"
  using assms by (cases i) (auto simp: grpc_get_def service_Get_def cm_get_def find_item_def holding_def can_store_def Let_def)

lemma grpc_set_step:
  assumes "can_store w" and "length v \<le> 1027"
  shows "\<exists>w'. grpc_set verify_key v ttl w = (Inr True, w') \<and> holding (Some (v, cw_now w, narrow_ttl (word_of_int ttl))) w' \<and> cw_ns w' = cw_ns w"
  using assms by (simp add: grpc_set_def service_Set_def cm_set_def can_store_def holding_def Let_def)

lemma holding_can_store: "holding i w \<Longrightarrow> can_store w"
  by (simp add: holding_def)

lemma holding_clock [simp]: "holding i (w\<lparr>cw_ns := t\<rparr>) = holding i w"
  by (simp add: holding_def can_store_def)


lemma sleep_step: "0.0625 \<le> fl 0.1"
proof -
  have "is_float (1 / 16 :: real)" using fl_scaled [of 1 "- 4"] by (simp add: powr_minus_divide)
  moreover have "fl (1 / 16) \<le> fl 0.1" by (rule fl_mono) simp
  ultimately show ?thesis by simp
qed

lemma sleep_ns: "62500000 \<le> \<lfloor>fl 0.1 * 1000000000\<rfloor>"
proof -
  have "(62500000 :: real) \<le> fl 0.1 * 1000000000" using sleep_step by simp
  then show ?thesis by (simp add: le_floor_iff)
qed

lemma sleep_ns_most: "\<lfloor>fl 0.1 * 1000000000\<rfloor> \<le> 125000000"
proof -
  have "is_float (1 / 8 :: real)" using fl_scaled [of 1 "- 3"] by (simp add: powr_minus_divide)
  moreover have "fl 0.1 \<le> fl (1 / 8)" by (rule fl_mono) simp
  ultimately have "fl 0.1 * 1000000000 \<le> (125000000 :: real)" by simp
  then show ?thesis by (simp add: floor_le_iff)
qed

text \<open>An item with a time to live of one second has expired two seconds after it was written, at the latest.\<close>

abbreviation brief_item :: "byte list \<Rightarrow> int \<Rightarrow> citem" where
  "brief_item v t0 \<equiv> (v, nat (t0 div 1000000000), 1)"

text \<open>The nanosecond at which the server's 32-bit clock of seconds wraps.\<close>

abbreviation clock_end :: int where
  "clock_end \<equiv> 4294967296000000000"

lemma cw_now_bound: "cw_ns w < clock_end \<Longrightarrow> cw_now w < 2 ^ 32"
proof -
  assume "cw_ns w < clock_end"
  then have "cw_ns w div 1000000000 \<le> (clock_end - 1) div 1000000000" by (intro zdiv_mono1) simp_all
  then show ?thesis by (simp add: cw_now_def)
qed

lemma brief_item_expired:
  assumes "0 \<le> t0" and "t0 + 1000000000 < clock_end" and "cw_ns w < clock_end"
  shows "expired (cw_now w) (brief_item v t0) \<longleftrightarrow> nat (t0 div 1000000000) + 1 < cw_now w"
proof -
  have "(t0 + 1 * 1000000000) div 1000000000 \<le> (clock_end - 1) div 1000000000" using assms(2) by (intro zdiv_mono1) simp_all
  then have "t0 div 1000000000 + 1 \<le> 4294967295" by simp
  then have "nat (t0 div 1000000000) + unat (1 :: 32 word) < 2 ^ 32" using assms(1) by simp
  from expired_exact [OF this cw_now_bound [OF assms(3)], of v] show ?thesis by simp
qed

lemma brief_expired:
  assumes "0 \<le> t0" and "t0 + 2000000000 \<le> cw_ns w" and "cw_ns w < clock_end"
  shows "expired (cw_now w) (brief_item v t0)"
proof -
  have "(t0 + 2 * 1000000000) div 1000000000 \<le> cw_ns w div 1000000000" using assms(2) by (intro zdiv_mono1) simp_all
  then have "t0 div 1000000000 + 2 \<le> cw_ns w div 1000000000" by simp
  then have "nat (t0 div 1000000000) + 2 \<le> cw_now w" using assms(1) unfolding cw_now_def by linarith
  then show ?thesis using brief_item_expired [of t0 w v] assms by simp
qed

lemma not_expired_elapsed:
  assumes "0 \<le> t0" and "\<not> expired (cw_now w) (brief_item v t0)" and "t0 \<le> start" and "cw_ns w < clock_end"
  shows "fl (of_int (cw_ns w - start) / 1000000000) < 4"
proof -
  have "cw_ns w - start \<le> 2000000000" using brief_expired [OF assms(1), of w v] assms(2-4) by linarith
  then have "of_int (cw_ns w - start) \<le> (2000000000 :: real)" by linarith
  then have "of_int (cw_ns w - start) / 1000000000 \<le> (2 :: real)" by simp
  then have "fl (of_int (cw_ns w - start) / 1000000000) \<le> fl 2" by (rule fl_mono)
  then show ?thesis by simp
qed

lemma wait_expiry_step:
  assumes "holding (Some (brief_item v t0)) w" and "0 \<le> t0" and "t0 \<le> start" and "cw_ns w < clock_end"
  shows "\<exists>w'. holding (Some (brief_item v t0)) w'
    \<and> (if expired (cw_now w) (brief_item v t0) then wait_expiry (Suc n) (grpc_backend st tick) start w = (Inr (), w') \<and> cw_ns w' = cw_ns w
       else wait_expiry (Suc n) (grpc_backend st tick) start w = wait_expiry n (grpc_backend st tick) start w'
         \<and> cw_ns w' = cw_ns w + tick + \<lfloor>fl 0.1 * 1000000000\<rfloor>)"
proof -
  obtain u where u: "grpc_get verify_key w = (Inr (if expired (cw_now w) (brief_item v t0) then None else Some v), u)"
      "holding (Some (brief_item v t0)) u" "cw_ns u = cw_ns w"
    using grpc_get_step [OF assms(1)] by auto
  have b: "b_get (grpc_backend st tick) = grpc_get"
      "b_sleep (grpc_backend st tick) d x = (Inr (), x\<lparr>cw_ns := cw_ns x + \<lfloor>d * 1000000000\<rfloor>\<rparr>)" for d x
    by (simp_all add: grpc_backend_def)
  show ?thesis
  proof (cases "expired (cw_now w) (brief_item v t0)")
    case True
    with u show ?thesis by (auto simp: bindS_def retS_def b)
  next
    case False
    let ?w = "u\<lparr>cw_ns := cw_ns u + tick + \<lfloor>fl 0.1 * 1000000000\<rfloor>\<rparr>"
    have "fl (of_int (cw_ns w - start) / 1000000000) < 4" using not_expired_elapsed [OF assms(2) False assms(3,4)] .
    with False u have "wait_expiry (Suc n) (grpc_backend st tick) start w = wait_expiry n (grpc_backend st tick) start ?w"
      by (simp add: bindS_def b grpc_clock)
    with False u show ?thesis by (intro exI [of _ ?w]) simp
  qed
qed

lemma wait_expiry_returns:
  assumes "0 \<le> tick" and "0 \<le> t0" and "t0 \<le> start" and "t0 + 3000000000 + 2 * tick < clock_end"
  shows "holding (Some (brief_item v t0)) w \<Longrightarrow> t0 + 2000000000 \<le> cw_ns w + int n * 62500000 \<Longrightarrow> cw_ns w \<le> t0 + 2125000000 + tick \<Longrightarrow>
    \<exists>w'. wait_expiry (Suc n) (grpc_backend st tick) start w = (Inr (), w')
      \<and> holding (Some (brief_item v t0)) w' \<and> expired (cw_now w') (brief_item v t0) \<and> cw_ns w' \<le> t0 + 2125000000 + tick"
proof (induction n arbitrary: w)
  case 0
  have c: "cw_ns w < clock_end" using 0(3) assms(1,4) by linarith
  then have "expired (cw_now w) (brief_item v t0)" using 0(2) brief_expired [OF assms(2), of w v] by simp
  with 0(3) wait_expiry_step [OF 0(1) assms(2,3) c, of 0 st tick] show ?case by (auto simp: cw_now_def)
next
  case (Suc n)
  have c: "cw_ns w < clock_end" using Suc.prems(3) assms(1,4) by linarith
  obtain w' where w': "holding (Some (brief_item v t0)) w'"
      "if expired (cw_now w) (brief_item v t0) then wait_expiry (Suc (Suc n)) (grpc_backend st tick) start w = (Inr (), w') \<and> cw_ns w' = cw_ns w
       else wait_expiry (Suc (Suc n)) (grpc_backend st tick) start w = wait_expiry (Suc n) (grpc_backend st tick) start w'
         \<and> cw_ns w' = cw_ns w + tick + \<lfloor>fl 0.1 * 1000000000\<rfloor>"
    using wait_expiry_step [OF Suc.prems(1) assms(2,3) c] by metis
  show ?case
  proof (cases "expired (cw_now w) (brief_item v t0)")
    case True
    with w' Suc.prems(3) show ?thesis by (auto simp: cw_now_def)
  next
    case False
    have ns: "cw_ns w' = cw_ns w + tick + \<lfloor>fl 0.1 * 1000000000\<rfloor>" using False w'(2) by metis
    moreover have "int (Suc n) * 62500000 = int n * 62500000 + 62500000" by simp
    ultimately have "t0 + 2000000000 \<le> cw_ns w' + int n * 62500000"
      using Suc.prems(2) sleep_ns assms(1) by linarith
    moreover have "cw_ns w < t0 + 2000000000" using False brief_expired [OF assms(2) _ c, of v] by linarith
    then have "cw_ns w' \<le> t0 + 2125000000 + tick" using ns sleep_ns_most by linarith
    ultimately show ?thesis using Suc.IH [OF w'(1)] False w'(2) by simp
  qed
qed

lemma verify_basic_passes:
  assumes "can_store w" and "0 \<le> cw_ns w" and "0 \<le> tick" and "cw_ns w + 3000000000 + 2 * tick < clock_end"
  shows "\<exists>expiry w'. verify_basic 33 (grpc_backend st tick) w = (Inr expiry, w') \<and> can_store w'"
proof -
  let ?b = "grpc_backend st tick"
  have b: "b_get ?b = grpc_get" "b_set ?b = grpc_set" "b_delete ?b = grpc_delete" by (simp_all add: grpc_backend_def)
  obtain w1 where w1: "grpc_delete verify_key w = (Inr True, w1)" "holding None w1" "cw_ns w1 = cw_ns w"
    using grpc_delete_step [OF assms(1)] by blast
  obtain w2 where w2: "grpc_get verify_key w1 = (Inr None, w2)" "holding None w2" "cw_ns w2 = cw_ns w"
    using grpc_get_step [OF w1(2)] w1(3) by auto
  obtain w3 where w3: "grpc_set verify_key verify_value 0 w2 = (Inr True, w3)" "holding (Some (verify_value, cw_now w2, 0)) w3" "cw_ns w3 = cw_ns w"
    using grpc_set_step [OF holding_can_store [OF w2(2)], of verify_value 0] w2(3) by (auto simp: verify_lengths)
  obtain w4 where w4: "grpc_get verify_key w3 = (Inr (Some verify_value), w4)" "can_store w4" "cw_ns w4 = cw_ns w"
    using grpc_get_step [OF w3(2)] w3(3) holding_can_store by (fastforce simp: expired_def)
  obtain w5 where w5: "grpc_set verify_key verify_new 0 w4 = (Inr True, w5)" "holding (Some (verify_new, cw_now w4, 0)) w5" "cw_ns w5 = cw_ns w"
    using grpc_set_step [OF w4(2), of verify_new 0] w4(3) by (auto simp: verify_lengths)
  obtain w6 where w6: "grpc_get verify_key w5 = (Inr (Some verify_new), w6)" "can_store w6" "cw_ns w6 = cw_ns w"
    using grpc_get_step [OF w5(2)] w5(3) holding_can_store by (fastforce simp: expired_def)
  obtain w7 where w7: "grpc_delete verify_key w6 = (Inr True, w7)" "holding None w7" "cw_ns w7 = cw_ns w"
    using grpc_delete_step [OF w6(2)] w6(3) by auto
  obtain w8 where w8: "grpc_get verify_key w7 = (Inr None, w8)" "can_store w8" "cw_ns w8 = cw_ns w"
    using grpc_get_step [OF w7(2)] w7(3) holding_can_store by fastforce
  have one: "narrow_ttl 1 = 1" by (simp add: narrow_ttl_def word_sless_alt)
  obtain w9 where w9: "grpc_set verify_key verify_value 1 w8 = (Inr True, w9)" "holding (Some (brief_item verify_value (cw_ns w))) w9" "cw_ns w9 = cw_ns w"
    using grpc_set_step [OF w8(2), of verify_value 1] w8(3) by (auto simp: verify_lengths one cw_now_def)
  let ?w = "w9\<lparr>cw_ns := cw_ns w + tick\<rparr>"
  obtain w10 where w10: "wait_expiry (Suc 32) ?b (cw_ns w) ?w = (Inr (), w10)" "holding (Some (brief_item verify_value (cw_ns w))) w10"
      "expired (cw_now w10) (brief_item verify_value (cw_ns w))" "cw_ns w10 \<le> cw_ns w + 2125000000 + tick"
    using wait_expiry_returns [OF assms(3,2) order_refl assms(4), of verify_value ?w 32 st] w9(2) assms(3) by auto
  let ?v = "w10\<lparr>cw_ns := cw_ns w10 + tick\<rparr>"
  have "cw_now w10 \<le> cw_now ?v" using assms(3) by (auto simp: cw_now_def intro!: nat_mono zdiv_mono1)
  moreover have "cw_ns w + 1000000000 < clock_end" "cw_ns w10 < clock_end" "cw_ns ?v < clock_end" using w10(4) assms(3,4) by auto
  ultimately have "expired (cw_now ?v) (brief_item verify_value (cw_ns w))"
    using w10(3) brief_item_expired [OF assms(2), of w10 verify_value] brief_item_expired [OF assms(2), of ?v verify_value] by simp
  then obtain w11 where w11: "grpc_get verify_key ?v = (Inr None, w11)" "can_store w11"
    using grpc_get_step [of "Some (brief_item verify_value (cw_ns w))" ?v] w10(2) holding_can_store by fastforce
  show ?thesis unfolding verify_basic_def
    using w1 w2 w3 w4 w5 w6 w7 w8 w9 w10(1) w11
    by (simp add: bindS_def b assertS_def retS_def grpc_clock del: wait_expiry.simps)
qed

lemma verify_batch_passes:
  assumes "can_store w"
  shows "\<exists>w'. verify_batch grpc_stub w = (Inr (), w')"
proof -
  have a: "attempted [(''inv:batch:a'', verify_value, 0), (''inv:batch:b'', [116, 119, 111], 0)]
      = [(''inv:batch:a'', verify_value, 0), (''inv:batch:b'', [116, 119, 111], 0)]"
    by (simp add: attempted_def narrow_ttl_def)
  show ?thesis
    using assms
    by (simp add: verify_batch_def grpc_stub_def served_def bindS_def assertS_def retS_def can_store_def service_MultiSet_def a
        cm_set_def verify_lengths service_MultiGet_def cm_get_def find_item_def verify_items_def
        service_Pipeline_def verify_requests_def pipeline_step_def cm_remove_def narrow_ttl_def
        pipeline_set_success_def pipeline_get_value_def pipeline_delete_success_def Let_def)
qed

text \<open>
  C39. The verification passes on the server: on a ready server that takes objects of 1027 bytes, whatever it
  holds, \<open>verify\<close> comes back without a failed assertion, batch and pipeline calls included, and its
  wait for the expiry of the 1 s item needs at most 33 polls; as long as the server's 32-bit clock does not
  wrap within the next seconds.
\<close>

theorem verify_passes:
  assumes "can_store w" and "0 \<le> cw_ns w" and "0 \<le> tick" and "cw_ns w + 3000000000 + 2 * tick < clock_end"
  shows "\<exists>out w'. verify 33 ''grpc'' (grpc_backend st tick) grpc_stub w = (Inr out, w') \<and> vo_batch_pipeline out"
proof -
  obtain e w' where e: "verify_basic 33 (grpc_backend st tick) w = (Inr e, w')" "can_store w'"
    using verify_basic_passes [OF assms] by blast
  obtain w'' where "verify_batch grpc_stub w' = (Inr (), w'')" using verify_batch_passes [OF e(2)] by blast
  with e show ?thesis by (simp add: verify_def bindS_def retS_def)
qed

theorem verify_passes_witness:
  "\<exists>out w'. verify 33 ''grpc'' (grpc_backend (\<lambda>s. JNull) 1) grpc_stub sample_cworld = (Inr out, w') \<and> vo_batch_pipeline out"
  using verify_passes [of sample_cworld 1 "\<lambda>s. JNull"] by (simp add: can_store_def sample_cworld_def empty_server_def)

end
