(* ===== verification/Client_Limits.thy ===== *)
theory Client_Limits
  imports Client_Verify
begin

text \<open>
  The command \<open>limits\<close> of \<open>bench/investigation/client.py\<close>: it stores keys and values of growing lengths and batches above the message limit, and
  reports for each what happened. A call of the stub gives its reply or the name of the status code of the \<open>RpcError\<close> it
  raises. The theorem composes the command with the modelled server behind a transport that refuses requests above its limit;
  how long a request is on the wire is an argument.
\<close>

section \<open>The command\<close>

record 'w limits_stub =
  li_Set :: "string \<Rightarrow> byte list \<Rightarrow> ('w, string + bool) sx"
  li_get :: "string \<Rightarrow> ('w, string + byte list option) sx"
  li_MultiSet :: "(string \<times> byte list) list \<Rightarrow> ('w, string + bool) sx"
  li_MultiGet :: "string list \<Rightarrow> ('w, string + nat) sx"

definition rpc_entry :: "string \<Rightarrow> json" where
  "rpc_entry code = JObj [(''rpc_error'', JStr code)]"

definition outcome_entry :: "bool \<Rightarrow> bool \<Rightarrow> json" where
  "outcome_entry success roundtrip = JObj [(''success'', JBool success), (''roundtrip'', JBool roundtrip)]"

text \<open>\<open>try: ... except grpc.RpcError as exc: ...\<close> around a Set and the read that follows a successful one.\<close>

definition probe_length :: "'w limits_stub \<Rightarrow> string \<Rightarrow> byte list \<Rightarrow> ('w, json) sx" where
  "probe_length c key v =
     bindS (li_Set c key v) (\<lambda>s. case s of
        Inl code \<Rightarrow> retS (rpc_entry code)
      | Inr False \<Rightarrow> retS (outcome_entry False False)
      | Inr True \<Rightarrow> bindS (li_get c key) (\<lambda>g. case g of
            Inl code \<Rightarrow> retS (rpc_entry code)
          | Inr x \<Rightarrow> retS (outcome_entry True (x = Some v))))"

definition KEY_LENGTHS :: "nat list" where
  "KEY_LENGTHS = [250, 255, 256, 512]"

definition VALUE_LENGTHS :: "nat list" where
  "VALUE_LENGTHS = [4193000, 4194303, 4194305, 4196000]"

definition limit_key :: "nat \<Rightarrow> string" where
  "limit_key n = ''limit:'' @ str_nat n"

definition batch_key :: "nat \<Rightarrow> string" where
  "batch_key i = ''limit:batch:'' @ str_nat i"

text \<open>\<open>assert b.set(...)\<close>, outside every \<open>try\<close>.\<close>

definition must_set :: "'w limits_stub \<Rightarrow> string \<Rightarrow> byte list \<Rightarrow> ('w, unit) sx" where
  "must_set c key v = bindS (li_Set c key v) (\<lambda>s. case s of Inl code \<Rightarrow> raiseS (RuntimeError ''RpcError'') | Inr ok \<Rightarrow> assertS ok [])"

definition limits :: "string \<Rightarrow> 'w limits_stub \<Rightarrow> ('w, dict) sx" where
  "limits kind c =
     (if kind \<noteq> ''grpc'' then raiseS (ValueError (''limits probes the wrapper'' @ [CHR 0x27] @ ''s gRPC and CacheLib boundaries''))
      else
        let big = plain_payload 2500000 in
        bindS (mapS (\<lambda>n. bindS (probe_length c (replicate n (CHR ''k'')) [122]) (\<lambda>e. retS (str_nat n, e))) KEY_LENGTHS) (\<lambda>ks.
        bindS (mapS (\<lambda>n. bindS (probe_length c (limit_key n) (plain_payload n)) (\<lambda>e. retS (str_nat n, e))) VALUE_LENGTHS) (\<lambda>vs.
        bindS (li_MultiSet c (map (\<lambda>i. (batch_key i, big)) [0, 1])) (\<lambda>r.
        bindS (mapS (\<lambda>i. must_set c (batch_key i) big) [0, 1]) (\<lambda>_.
        bindS (li_MultiGet c (map batch_key [0, 1])) (\<lambda>g.
        retS [(''key_lengths'', JObj ks), (''value_lengths'', JObj vs),
              (''multiset_over_message_limit'', case r of Inl code \<Rightarrow> rpc_entry code | Inr ok \<Rightarrow> JObj [(''success'', JBool ok)]),
              (''multiget_over_message_limit'', case g of Inl code \<Rightarrow> rpc_entry code | Inr n \<Rightarrow> JObj [(''results'', JNum (real n))])]))))))"

section \<open>The server behind a transport\<close>

text \<open>
  Requests longer than \<open>limit\<close> on the wire are refused before they reach the server, replies longer than \<open>reply\<close> before they reach the client;
  \<open>wire\<close> gives the length of a message from the lengths of the keys and values it carries.
\<close>

record transport =
  tp_limit :: nat
  tp_reply :: nat
  tp_wire :: "(nat \<times> nat) list \<Rightarrow> nat"

definition code_name :: "rpc_error \<Rightarrow> string" where
  "code_name e = (case e of UNAVAILABLE \<Rightarrow> ''UNAVAILABLE'' | INVALID_ARGUMENT \<Rightarrow> ''INVALID_ARGUMENT'' | INTERNAL m \<Rightarrow> ''INTERNAL'')"

definition called :: "transport \<Rightarrow> (nat \<times> nat) list \<Rightarrow> (nat \<Rightarrow> server \<Rightarrow> (rpc_error + 'a) \<times> server) \<Rightarrow> ('a \<Rightarrow> (nat \<times> nat) list) \<Rightarrow> (cworld, string + 'a) sx" where
  "called tp parts f reply w =
     (if tp_limit tp < tp_wire tp parts then (Inr (Inl ''RESOURCE_EXHAUSTED''), w)
      else case f (cw_now w) (cw_server w) of
        (Inl e, s) \<Rightarrow> (Inr (Inl (code_name e)), w\<lparr>cw_server := s\<rparr>)
      | (Inr r, s) \<Rightarrow> (Inr (if tp_reply tp < tp_wire tp (reply r) then Inl ''RESOURCE_EXHAUSTED'' else Inr r), w\<lparr>cw_server := s\<rparr>))"

definition mapI :: "('a \<Rightarrow> 'b) \<Rightarrow> ('w, string + 'a) sx \<Rightarrow> ('w, string + 'b) sx" where
  "mapI h m = bindS m (\<lambda>r. retS (map_sum (\<lambda>e. e) h r))"

definition limits_service :: "transport \<Rightarrow> cworld limits_stub" where
  "limits_service tp =
     \<lparr>li_Set = (\<lambda>k v. mapI sr_success (called tp [(length k, length v)] (\<lambda>now. service_Set now True k v 0) (\<lambda>r. []))),
      li_get = (\<lambda>k. mapI (\<lambda>r. if gr_found r then Some (gr_value r) else None)
        (called tp [(length k, 0)] (\<lambda>now. service_Get now k) (\<lambda>r. [(0, length (gr_value r))]))),
      li_MultiSet = (\<lambda>kvs. mapI ms_success (called tp (map (\<lambda>(k, v). (length k, length v)) kvs)
        (\<lambda>now. service_MultiSet now (\<lambda>_ _ _. True) (map (\<lambda>(k, v). (k, v, 0)) kvs)) (\<lambda>r. []))),
      li_MultiGet = (\<lambda>ks. mapI length (called tp (map (\<lambda>k. (length k, 0)) ks) (\<lambda>now. service_MultiGet now ks)
        (map (\<lambda>(k, r). (length k, length (gr_value r))))))\<rparr>"

section \<open>What the command reports of the server\<close>

text \<open>A message is as long as the keys and values it carries and at most 32 bytes longer per item and for itself.\<close>

definition framed :: "transport \<Rightarrow> bool" where
  "framed tp \<longleftrightarrow> (\<forall>parts. sum_list (map (\<lambda>(k, v). k + v) parts) \<le> tp_wire tp parts
     \<and> tp_wire tp parts \<le> sum_list (map (\<lambda>(k, v). k + v) parts) + 32 * (length parts + 1))"

definition standard_limits :: "transport \<Rightarrow> bool" where
  "standard_limits tp \<longleftrightarrow> framed tp \<and> tp_limit tp = 4194304 \<and> tp_reply tp = 8388608"

lemma wire_bounds:
  assumes "standard_limits tp"
  shows "sum_list (map (\<lambda>(k, v). k + v) parts) \<le> tp_wire tp parts"
    and "tp_wire tp parts \<le> sum_list (map (\<lambda>(k, v). k + v) parts) + 32 * (length parts + 1)" and "tp_limit tp = 4194304" and "tp_reply tp = 8388608"
  using assms unfolding standard_limits_def framed_def by auto

text \<open>A ready server with a given limit for items.\<close>

definition serving :: "nat \<Rightarrow> cworld \<Rightarrow> bool" where
  "serving most w \<longleftrightarrow> sv_ready (cw_server w) \<and> sv_max_item_size (cw_server w) = most"

lemma Set_refused: "tp_limit tp < tp_wire tp [(length k, length v)] \<Longrightarrow> li_Set (limits_service tp) k v w = (Inr (Inl ''RESOURCE_EXHAUSTED''), w)"
  by (simp add: limits_service_def called_def mapI_def bindS_def retS_def)

lemma Set_served:
  assumes "standard_limits tp" and "serving most w" and "k \<noteq> []" and "length k + length v + 64 \<le> 4194304"
  shows "\<exists>w'. li_Set (limits_service tp) k v w = (Inr (Inr (length v \<le> most)), w') \<and> serving most w'
    \<and> sv_items (cw_server w') = (if length v \<le> most then (sv_items (cw_server w))(k \<mapsto> (v, cw_now w, 0)) else sv_items (cw_server w))"
proof -
  have "tp_wire tp [(length k, length v)] \<le> tp_limit tp" "tp_wire tp [] \<le> tp_reply tp"
    using wire_bounds(3,4) [OF assms(1)] wire_bounds(1,2) [OF assms(1), of "[(length k, length v)]"] wire_bounds(2) [OF assms(1), of "[]"] assms(4) by simp_all
  then show ?thesis using assms(2,3)
    by (auto simp: limits_service_def called_def mapI_def bindS_def retS_def service_Set_def cm_set_def serving_def Let_def not_less)
qed

lemma get_served:
  assumes "standard_limits tp" and "serving most w" and "k \<noteq> []" and "length k \<le> 512" and "sv_items (cw_server w) k = Some (v, c, 0)" and "length v \<le> 4194304"
  shows "\<exists>w'. li_get (limits_service tp) k w = (Inr (Inr (Some v)), w') \<and> serving most w' \<and> sv_items (cw_server w') = sv_items (cw_server w)"
proof -
  have "tp_wire tp [(length k, 0)] \<le> tp_limit tp" "tp_wire tp [(0, length v)] \<le> tp_reply tp"
    using wire_bounds(3) [OF assms(1)] wire_bounds(1,2) [OF assms(1), of "[(length k, 0)]"] wire_bounds(2) [OF assms(1), of "[(0, length v)]"] wire_bounds(4) [OF assms(1)] assms(4,6) by simp_all
  then show ?thesis using assms(2,3,5)
    by (auto simp: limits_service_def called_def mapI_def bindS_def retS_def service_Get_def cm_get_def find_item_def expired_def serving_def Let_def not_less)
qed

lemma probe_served:
  assumes "standard_limits tp" and "serving most w" and "k \<noteq> []" and "length k \<le> 512" and "length k + length v + 64 \<le> 4194304"
  shows "\<exists>w'. probe_length (limits_service tp) k v w = (Inr (outcome_entry (length v \<le> most) (length v \<le> most)), w') \<and> serving most w'"
proof -
  obtain u where u: "li_Set (limits_service tp) k v w = (Inr (Inr (length v \<le> most)), u)" "serving most u"
      "length v \<le> most \<Longrightarrow> sv_items (cw_server u) k = Some (v, cw_now w, 0)"
    using Set_served [OF assms(1-3,5)] by auto
  show ?thesis
  proof (cases "length v \<le> most")
    case True
    obtain w' where "li_get (limits_service tp) k u = (Inr (Inr (Some v)), w')" "serving most w'"
      using get_served [OF assms(1) u(2) assms(3,4) u(3) [OF True]] assms(5) by auto
    with u True show ?thesis by (simp add: probe_length_def bindS_def retS_def)
  next
    case False
    with u show ?thesis by (simp add: probe_length_def bindS_def retS_def)
  qed
qed

lemma probe_refused:
  assumes "standard_limits tp" and "4194304 < length k + length v"
  shows "probe_length (limits_service tp) k v w = (Inr (rpc_entry ''RESOURCE_EXHAUSTED''), w)"
proof -
  have "tp_limit tp < tp_wire tp [(length k, length v)]" using wire_bounds(3,4) [OF assms(1)] wire_bounds(1,2) [OF assms(1), of "[(length k, length v)]"] assms(2) by simp
  then show ?thesis by (simp add: probe_length_def Set_refused bindS_def retS_def)
qed

lemma keys_probed:
  assumes "standard_limits tp" and "serving most w" and "1 \<le> most" and "\<forall>n \<in> set ns. 0 < n \<and> n \<le> 512"
  shows "\<exists>w'. mapS (\<lambda>n. bindS (probe_length (limits_service tp) (replicate n (CHR ''k'')) [122]) (\<lambda>e. retS (str_nat n, e))) ns w
      = (Inr (map (\<lambda>n. (str_nat n, outcome_entry True True)) ns), w') \<and> serving most w'"
  using assms(2,4)
proof (induction ns arbitrary: w)
  case (Cons n ns)
  then obtain u where u: "probe_length (limits_service tp) (replicate n (CHR ''k'')) [122] w = (Inr (outcome_entry True True), u)" "serving most u"
    using probe_served [OF assms(1) Cons.prems(1), of "replicate n (CHR ''k'')" "[122]"] assms(3) by auto
  with Cons.IH [OF u(2)] Cons.prems(2) show ?case by (auto simp: bindS_def retS_def)
qed (simp add: retS_def)

lemma must_set_served:
  assumes "standard_limits tp" and "serving most w" and "k \<noteq> []" and "length k + length v + 64 \<le> 4194304" and "length v \<le> most"
  shows "\<exists>w'. must_set (limits_service tp) k v w = (Inr (), w') \<and> serving most w'
    \<and> sv_items (cw_server w') = (sv_items (cw_server w))(k \<mapsto> (v, cw_now w, 0))"
  using Set_served [OF assms(1-4)] assms(5) by (auto simp: must_set_def bindS_def assertS_def retS_def)

lemma batches_probed:
  assumes "standard_limits tp" and "serving most w" and "2500000 \<le> most" and "length big = 2500000"
  shows "\<exists>w' w''. li_MultiSet (limits_service tp) (map (\<lambda>i. (batch_key i, big)) [0, 1]) w = (Inr (Inl ''RESOURCE_EXHAUSTED''), w)
    \<and> mapS (\<lambda>i. must_set (limits_service tp) (batch_key i) big) [0, 1] w = (Inr [(), ()], w')
    \<and> li_MultiGet (limits_service tp) (map batch_key [0, 1]) w' = (Inr (Inr 2), w'')"
proof -
  let ?c = "limits_service tp" and ?a = "batch_key 0" and ?b = "batch_key 1"
  have k: "?a \<noteq> []" "?b \<noteq> []" "?a \<noteq> ?b" "length ?a = 13" "length ?b = 13" by (simp_all add: batch_key_def str_nat.simps digit_def)
  have "tp_limit tp < tp_wire tp [(13, 2500000), (13, 2500000)]"
    using wire_bounds(3) [OF assms(1)] wire_bounds(1) [OF assms(1), of "[(13, 2500000), (13, 2500000)]"] by simp
  then have m: "li_MultiSet ?c (map (\<lambda>i. (batch_key i, big)) [0, 1]) w = (Inr (Inl ''RESOURCE_EXHAUSTED''), w)"
    using k assms(4) by (simp add: limits_service_def called_def mapI_def bindS_def retS_def)
  obtain u where u: "must_set ?c ?a big w = (Inr (), u)" "serving most u" "sv_items (cw_server u) = (sv_items (cw_server w))(?a \<mapsto> (big, cw_now w, 0))"
    using must_set_served [OF assms(1,2) k(1), of big] k assms(3,4) by auto
  obtain w' where w': "must_set ?c ?b big u = (Inr (), w')" "serving most w'" "sv_items (cw_server w') = (sv_items (cw_server u))(?b \<mapsto> (big, cw_now u, 0))"
    using must_set_served [OF assms(1) u(2) k(2), of big] k assms(3,4) by auto
  have "tp_wire tp [(13, 0), (13, 0)] \<le> tp_limit tp" "tp_wire tp [(13, 2500000), (13, 2500000)] \<le> tp_reply tp"
    using wire_bounds(3,4) [OF assms(1)] wire_bounds(2) [OF assms(1), of "[(13, 0), (13, 0)]"] wire_bounds(2) [OF assms(1), of "[(13, 2500000), (13, 2500000)]"] by simp_all
  then have "\<exists>w''. li_MultiGet ?c (map batch_key [0, 1]) w' = (Inr (Inr 2), w'')"
    using w'(2,3) u(3) k assms(4)
    by (simp add: limits_service_def called_def mapI_def bindS_def retS_def service_MultiGet_def cm_get_def find_item_def expired_def serving_def Let_def)
  with m u(1) w'(1) show ?thesis by (auto simp: bindS_def retS_def)
qed

text \<open>
  What \<open>limits\<close> reports is where the boundaries are: on a ready server that takes items of 2500000 bytes, behind a transport with the usual limits of 4 MiB for
  requests and 8 MiB for replies, the command comes back; all keys make the round trip, the value of 4193000 bytes does exactly if the server takes
  items of that size, the three longer values and the batch of 5 MB are refused by the transport, and the batch read returns both values.
\<close>

theorem limits_reports:
  assumes "standard_limits tp" and "sv_ready (cw_server w)" and "2500000 \<le> sv_max_item_size (cw_server w)"
  shows "\<exists>d w'. limits ''grpc'' (limits_service tp) w = (Inr d, w')
    \<and> map_of d ''key_lengths'' = Some (JObj (map (\<lambda>n. (str_nat n, outcome_entry True True)) KEY_LENGTHS))
    \<and> map_of d ''value_lengths'' = Some (JObj (map (\<lambda>n. (str_nat n,
        if n = 4193000 then let fits = 4193000 \<le> sv_max_item_size (cw_server w) in outcome_entry fits fits else rpc_entry ''RESOURCE_EXHAUSTED'')) VALUE_LENGTHS))
    \<and> map_of d ''multiset_over_message_limit'' = Some (rpc_entry ''RESOURCE_EXHAUSTED'')
    \<and> map_of d ''multiget_over_message_limit'' = Some (JObj [(''results'', JNum 2)])"
proof -
  let ?c = "limits_service tp" and ?most = "sv_max_item_size (cw_server w)"
  define big where "big = plain_payload 2500000"
  have w: "serving ?most w" using assms(2) by (simp add: serving_def)
  obtain w1 where w1: "mapS (\<lambda>n. bindS (probe_length ?c (replicate n (CHR ''k'')) [122]) (\<lambda>e. retS (str_nat n, e))) KEY_LENGTHS w
      = (Inr (map (\<lambda>n. (str_nat n, outcome_entry True True)) KEY_LENGTHS), w1)" "serving ?most w1"
    using keys_probed [OF assms(1) w, of KEY_LENGTHS] assms(3) by (auto simp: KEY_LENGTHS_def)
  have len: "length (limit_key 4193000) = 13" "6 \<le> length (limit_key n)" for n by (simp_all add: limit_key_def str_nat.simps [of "numeral k" for k])
  obtain w2 where w2: "probe_length ?c (limit_key 4193000) (plain_payload 4193000) w1 = (Inr (outcome_entry (4193000 \<le> ?most) (4193000 \<le> ?most)), w2)" "serving ?most w2"
    using probe_served [OF assms(1) w1(2), of "limit_key 4193000" "plain_payload 4193000"] len(1) by (auto simp: limit_key_def)
  have refused: "probe_length ?c (limit_key n) (plain_payload n) w2 = (Inr (rpc_entry ''RESOURCE_EXHAUSTED''), w2)" if "n \<in> {4194303, 4194305, 4196000}" for n
    using probe_refused [OF assms(1), of "limit_key n" "plain_payload n" w2] len(2) [of n] that by auto
  obtain w3 w4 where b: "li_MultiSet ?c (map (\<lambda>i. (batch_key i, big)) [0, 1]) w2 = (Inr (Inl ''RESOURCE_EXHAUSTED''), w2)"
      "mapS (\<lambda>i. must_set ?c (batch_key i) big) [0, 1] w2 = (Inr [(), ()], w3)" "li_MultiGet ?c (map batch_key [0, 1]) w3 = (Inr (Inr 2), w4)"
    using batches_probed [OF assms(1) w2(2) assms(3), of big] by (auto simp: big_def)
  have v: "mapS (\<lambda>n. bindS (probe_length ?c (limit_key n) (plain_payload n)) (\<lambda>e. retS (str_nat n, e))) VALUE_LENGTHS w1
      = (Inr (map (\<lambda>n. (str_nat n, if n = 4193000 then let fits = 4193000 \<le> ?most in outcome_entry fits fits else rpc_entry ''RESOURCE_EXHAUSTED'')) VALUE_LENGTHS), w2)"
    using w2(1) refused by (simp add: VALUE_LENGTHS_def bindS_def retS_def Let_def)
  show ?thesis unfolding limits_def using w1(1) v b
    by (simp add: bindS_def retS_def Let_def big_def [symmetric] del: mapS.simps list.map)
qed

definition sample_transport :: transport where
  "sample_transport = \<lparr>tp_limit = 4194304, tp_reply = 8388608, tp_wire = (\<lambda>parts. sum_list (map (\<lambda>(k, v). k + v + 5) parts))\<rparr>"

lemma sample_transport_standard: "standard_limits sample_transport"
proof -
  have "sum_list (map (\<lambda>(k, v). k + v + 5) parts) = sum_list (map (\<lambda>(k, v). k + v) parts) + 5 * length parts" for parts :: "(nat \<times> nat) list"
    by (induction parts) auto
  then show ?thesis by (simp add: standard_limits_def framed_def sample_transport_def)
qed

theorem limits_reports_witness:
  "\<exists>d w'. limits ''grpc'' (limits_service sample_transport) (sample_cworld\<lparr>cw_server := (cw_server sample_cworld)\<lparr>sv_ready := True, sv_max_item_size := 4194304\<rparr>\<rparr>) = (Inr d, w')
    \<and> map_of d ''multiget_over_message_limit'' = Some (JObj [(''results'', JNum 2)])"
  using limits_reports [OF sample_transport_standard, of "sample_cworld\<lparr>cw_server := (cw_server sample_cworld)\<lparr>sv_ready := True, sv_max_item_size := 4194304\<rparr>\<rparr>"]
  by auto

end
