(* ===== verification/Flash_Smoke.thy ===== *)
theory Flash_Smoke
  imports Client_Verify
begin

text \<open>
  The smoke test of the flash tier, \<open>bench/strong/flash_smoke.py\<close>: it fills a server until items are evicted and written to flash, reads
  objects back until flash hits are counted, and follows an item with a time to live through flash to its expiry. The service it calls is
  a record of functions on a world; the locale \<open>flash_counters\<close> is what the script's conclusions rely on (the counters of \<open>Stats\<close> never
  decrease), and the model of the server with any policy of its flash tier is an instance. The two waits take
  the number of their polls as first argument.
\<close>

section \<open>The script\<close>

record flash_stats =
  nvm_enabled :: bool
  eviction_count :: int
  nvm_used :: int
  nvm_hit_count :: int
  nvm_device_bytes_written :: int
  nvm_device_bytes_read :: int

text \<open>The calls of the stub, \<open>time.monotonic\<close> and \<open>time.sleep\<close>.\<close>

record 'w flash_stub =
  fs_Set :: "string \<Rightarrow> byte list \<Rightarrow> int \<Rightarrow> ('w, bool) sx"
  fs_Get :: "string \<Rightarrow> ('w, get_result) sx"
  fs_Stats :: "('w, flash_stats) sx"
  fs_monotonic :: "('w, real) sx"
  fs_sleep :: "real \<Rightarrow> ('w, unit) sx"

record flash_args =
  fa_objects :: nat
  fa_value_bytes :: nat

definition flash_key :: "nat \<Rightarrow> string" where
  "flash_key i = ''release:flash:'' @ replicate (8 - length (str_nat i)) (CHR ''0'') @ str_nat i"

definition fill_object :: "'w flash_stub \<Rightarrow> flash_args \<Rightarrow> nat \<Rightarrow> ('w, unit) sx" where
  "fill_object c args i =
     bindS (liftS (flash_value i (fa_value_bytes args))) (\<lambda>v. bindS (fs_Set c (flash_key i) v 0) (\<lambda>ok. assertS ok []))"

primrec await_traffic :: "nat \<Rightarrow> 'w flash_stub \<Rightarrow> real \<Rightarrow> flash_stats \<Rightarrow> ('w, flash_stats) sx" where
  "await_traffic 0 c deadline initial = raiseS (RuntimeError ''out of iterations'')"
| "await_traffic (Suc n) c deadline initial =
     bindS (fs_monotonic c) (\<lambda>now.
       if now < deadline
       then bindS (fs_Stats c) (\<lambda>state.
         if eviction_count initial < eviction_count state \<and> nvm_used initial < nvm_used state then retS state
         else bindS (fs_sleep c (fl 0.1)) (\<lambda>_. await_traffic n c deadline initial))
       else raiseS (AssertionError ''no DRAM eviction plus Navy write traffic''))"

primrec read_back :: "'w flash_stub \<Rightarrow> flash_args \<Rightarrow> nat list \<Rightarrow> int \<Rightarrow> int \<Rightarrow> ('w, int) sx" where
  "read_back c args [] hits_before found_flash = retS found_flash"
| "read_back c args (i # js) hits_before found_flash =
     bindS (fs_Get c (flash_key i)) (\<lambda>got.
     bindS (if gr_found got
            then bindS (liftS (flash_value i (fa_value_bytes args))) (\<lambda>v. assertS (gr_value got = v) (''corrupt binary value '' @ str_nat i))
            else retS ()) (\<lambda>_.
     bindS (fs_Stats c) (\<lambda>updated.
       if hits_before < nvm_hit_count updated
       then let found = found_flash + (nvm_hit_count updated - hits_before) in
            if 4 \<le> found then retS found else read_back c args js (nvm_hit_count updated) found
       else read_back c args js hits_before found_flash)))"

primrec await_gone :: "nat \<Rightarrow> 'w flash_stub \<Rightarrow> real \<Rightarrow> ('w, unit) sx" where
  "await_gone 0 c deadline = raiseS (RuntimeError ''out of iterations'')"
| "await_gone (Suc n) c deadline =
     bindS (fs_monotonic c) (\<lambda>now.
       if now < deadline
       then bindS (fs_Get c (flash_key 0)) (\<lambda>got.
         if \<not> gr_found got then retS () else bindS (fs_sleep c (fl 0.2)) (\<lambda>_. await_gone n c deadline))
       else raiseS (AssertionError ''TTL probe failed to expire''))"

definition probe_ttl :: "nat \<Rightarrow> 'w flash_stub \<Rightarrow> byte list \<Rightarrow> ('w, unit) sx" where
  "probe_ttl n c probe_value =
     bindS (fs_Stats c) (\<lambda>before.
     bindS (fs_Get c (flash_key 0)) (\<lambda>ttl_result.
     bindS (assertS (gr_found ttl_result \<and> gr_value ttl_result = probe_value) ''TTL probe lost or corrupt'') (\<lambda>_.
     bindS (assertS (0 < gr_ttl_remaining ttl_result \<and> gr_ttl_remaining ttl_result \<le> 60) ''TTL did not survive flash round trip'') (\<lambda>_.
     bindS (fs_Stats c) (\<lambda>after.
     bindS (assertS (nvm_hit_count before < nvm_hit_count after) ''TTL probe did not come from Navy'') (\<lambda>_.
     bindS (fs_monotonic c) (\<lambda>now. await_gone n c (fl (now + 65)))))))))"

definition smoke_report :: "flash_args \<Rightarrow> flash_stats \<Rightarrow> flash_stats \<Rightarrow> int \<Rightarrow> dict" where
  "smoke_report args initial final found_flash =
     [(''dram_evictions_delta'', JNum (of_int (eviction_count final - eviction_count initial))),
      (''navy_hits_delta'', JNum (of_int (nvm_hit_count final - nvm_hit_count initial))),
      (''navy_read_bytes_delta'', JNum (of_int (nvm_device_bytes_read final - nvm_device_bytes_read initial))),
      (''navy_written_bytes_delta'', JNum (of_int (nvm_used final - nvm_used initial))),
      (''objects_written'', JNum (real (fa_objects args))), (''physical_ssd_io_proven'', JBool False), (''status'', JStr ''passed''),
      (''ttl_expired'', JBool True), (''value_bytes'', JNum (real (fa_value_bytes args))), (''verified_flash_hits'', JNum (of_int found_flash))]"

definition final_checks :: "flash_stats \<Rightarrow> flash_stats \<Rightarrow> ('w, unit) sx" where
  "final_checks initial final =
     bindS (assertS (nvm_device_bytes_written initial < nvm_device_bytes_written final) []) (\<lambda>_.
     bindS (assertS (nvm_device_bytes_read initial < nvm_device_bytes_read final)
       ''Navy did not issue a device read for flash-resident objects'') (\<lambda>_.
     assertS (nvm_device_bytes_written final = nvm_used final) ''legacy nvm_used disagrees with device bytes written''))"

definition flash_smoke :: "nat \<Rightarrow> 'w flash_stub \<Rightarrow> flash_args \<Rightarrow> ('w, dict) sx" where
  "flash_smoke n c args =
     bindS (assertS (1024 < fa_objects args \<and> 8 \<le> fa_value_bytes args \<and> fa_value_bytes args \<le> 1048576) []) (\<lambda>_.
     bindS (fs_Stats c) (\<lambda>initial.
     bindS (assertS (nvm_enabled initial) ''NVM config flag absent'') (\<lambda>_.
     bindS (liftS (flash_value 0 (fa_value_bytes args))) (\<lambda>probe_value.
     bindS (fs_Set c (flash_key 0) probe_value 60) (\<lambda>ok. bindS (assertS ok []) (\<lambda>_.
     bindS (mapS (fill_object c args) [1..<fa_objects args + 1]) (\<lambda>_.
     bindS (fs_monotonic c) (\<lambda>now.
     bindS (await_traffic n c (fl (now + 20)) initial) (\<lambda>state.
     bindS (read_back c args [1..<min (fa_objects args) 1024 + 1] (nvm_hit_count state) 0) (\<lambda>found_flash.
     bindS (assertS (4 \<le> found_flash) ''no verified Navy hits after DRAM eviction'') (\<lambda>_.
     bindS (probe_ttl n c probe_value) (\<lambda>_.
     bindS (fs_Stats c) (\<lambda>final.
     bindS (final_checks initial final) (\<lambda>_.
     retS (smoke_report args initial final found_flash)))))))))))))))"

section \<open>What a passed test shows\<close>

definition no_less :: "flash_stats \<Rightarrow> flash_stats \<Rightarrow> bool" where
  "no_less s t \<longleftrightarrow> eviction_count s \<le> eviction_count t \<and> nvm_used s \<le> nvm_used t \<and> nvm_hit_count s \<le> nvm_hit_count t
     \<and> nvm_device_bytes_written s \<le> nvm_device_bytes_written t \<and> nvm_device_bytes_read s \<le> nvm_device_bytes_read t"

lemma no_less_refl [simp]: "no_less s s"
  by (simp add: no_less_def)

lemma no_less_trans [trans]: "no_less s t \<Longrightarrow> no_less t u \<Longrightarrow> no_less s u"
  by (auto simp: no_less_def)

lemma assertS_Inr [simp]: "assertS p m w = (Inr u, w') \<longleftrightarrow> p \<and> w' = w"
  by (auto simp: assertS_def)

text \<open>
  The counters never go back: \<open>snap\<close> is what they are in a world, a reply of \<open>Stats\<close> lies between those before and after the call, and
  no call decreases them. Evictions and writes to flash may happen during any call.
\<close>

locale flash_counters =
  fixes c :: "'w flash_stub" and snap :: "'w \<Rightarrow> flash_stats"
  assumes Stats: "fs_Stats c w = (Inr s, w') \<Longrightarrow> no_less (snap w) s \<and> no_less s (snap w')"
    and Set: "fs_Set c k v ttl w = (Inr ok, w') \<Longrightarrow> no_less (snap w) (snap w')"
    and Get: "fs_Get c k w = (Inr r, w') \<Longrightarrow> no_less (snap w) (snap w')"
    and monotonic: "fs_monotonic c w = (Inr now, w') \<Longrightarrow> no_less (snap w) (snap w')"
    and sleep: "fs_sleep c d w = (Inr u, w') \<Longrightarrow> no_less (snap w) (snap w')"
begin

lemmas calls = Set Get monotonic sleep

lemma Stats_snap: "fs_Stats c w = (Inr s, w') \<Longrightarrow> no_less (snap w) (snap w')"
  using Stats no_less_trans by blast

lemma fill: "mapS (fill_object c args) js w = (Inr us, w') \<Longrightarrow> no_less (snap w) (snap w')"
proof (induction js arbitrary: w us)
  case (Cons j js)
  then obtain u v where "fill_object c args j w = (Inr u, v)" "\<exists>ys. mapS (fill_object c args) js v = (Inr ys, w')"
    by (auto elim!: bindS_InrE)
  moreover from this(1) have "no_less (snap w) (snap v)" by (auto simp: fill_object_def dest: Set elim!: bindS_InrE)
  ultimately show ?case using Cons.IH no_less_trans by blast
qed simp

lemma traffic:
  assumes "await_traffic n c deadline initial w = (Inr state, w')"
  shows "no_less (snap w) state \<and> no_less state (snap w') \<and> eviction_count initial < eviction_count state \<and> nvm_used initial < nvm_used state"
  using assms
proof (induction n arbitrary: w)
  case (Suc n)
  then obtain now u where now: "fs_monotonic c w = (Inr now, u)" "now < deadline"
    and rest: "bindS (fs_Stats c) (\<lambda>state.
         if eviction_count initial < eviction_count state \<and> nvm_used initial < nvm_used state then retS state
         else bindS (fs_sleep c (fl 0.1)) (\<lambda>_. await_traffic n c deadline initial)) u = (Inr state, w')"
    by (auto elim!: bindS_InrE split: if_splits)
  from rest obtain st v where st: "fs_Stats c u = (Inr st, v)"
    and tail: "(if eviction_count initial < eviction_count st \<and> nvm_used initial < nvm_used st then retS st
         else bindS (fs_sleep c (fl 0.1)) (\<lambda>_. await_traffic n c deadline initial)) v = (Inr state, w')"
    by (rule bindS_InrE)
  have uv: "no_less (snap w) st" "no_less st (snap v)" using monotonic [OF now(1)] Stats [OF st] no_less_trans by blast+
  show ?case
  proof (cases "eviction_count initial < eviction_count st \<and> nvm_used initial < nvm_used st")
    case True
    with tail uv show ?thesis by simp
  next
    case False
    with tail obtain d x where "fs_sleep c (fl 0.1) v = (Inr d, x)" "await_traffic n c deadline initial x = (Inr state, w')"
      by (auto elim!: bindS_InrE split: if_splits)
    with Suc.IH [of x] uv sleep no_less_trans show ?thesis by metis
  qed
qed simp

lemma reread:
  assumes "read_back c args js h found w = (Inr found', w')" and "h \<le> nvm_hit_count (snap w)"
  shows "no_less (snap w) (snap w') \<and> found \<le> found' \<and> found' - found \<le> nvm_hit_count (snap w') - h"
  using assms
proof (induction js arbitrary: h found w)
  case (Cons j js)
  from Cons.prems(1) obtain got w1 where got: "fs_Get c (flash_key j) w = (Inr got, w1)"
    and r1: "bindS (if gr_found got
            then bindS (liftS (flash_value j (fa_value_bytes args))) (\<lambda>v. assertS (gr_value got = v) (''corrupt binary value '' @ str_nat j))
            else retS ()) (\<lambda>_.
     bindS (fs_Stats c) (\<lambda>updated.
       if h < nvm_hit_count updated
       then let n = found + (nvm_hit_count updated - h) in if 4 \<le> n then retS n else read_back c args js (nvm_hit_count updated) n
       else read_back c args js h found)) w1 = (Inr found', w')"
    unfolding read_back.simps by (rule bindS_InrE)
  from r1 obtain st w2 where st: "fs_Stats c w1 = (Inr st, w2)"
    and r2: "(if h < nvm_hit_count st
       then let n = found + (nvm_hit_count st - h) in if 4 \<le> n then retS n else read_back c args js (nvm_hit_count st) n
       else read_back c args js h found) w2 = (Inr found', w')"
    by (auto elim!: bindS_InrE split: if_splits simp: Let_def)
  have m: "no_less (snap w) (snap w2)" "no_less st (snap w2)" using Get [OF got] Stats [OF st] no_less_trans by blast+
  then have h: "h \<le> nvm_hit_count (snap w2)" "nvm_hit_count st \<le> nvm_hit_count (snap w2)" using Cons.prems(2) by (auto simp: no_less_def)
  show ?case
  proof (cases "h < nvm_hit_count st \<and> found + (nvm_hit_count st - h) < 4")
    case True
    then have "read_back c args js (nvm_hit_count st) (found + (nvm_hit_count st - h)) w2 = (Inr found', w')" using r2 by (simp add: Let_def)
    from Cons.IH [OF this h(2)] m(1) True show ?thesis by (auto simp: no_less_def)
  next
    case False
    show ?thesis
    proof (cases "h < nvm_hit_count st")
      case True
      with False r2 m h show ?thesis by (simp add: Let_def)
    next
      case False
      with r2 have "read_back c args js h found w2 = (Inr found', w')" by simp
      from Cons.IH [OF this h(1)] m(1) show ?thesis by (auto simp: no_less_def)
    qed
  qed
qed simp

lemma gone: "await_gone n c deadline w = (Inr u, w') \<Longrightarrow> no_less (snap w) (snap w')"
proof (induction n arbitrary: w)
  case (Suc n)
  then obtain now v where "fs_monotonic c w = (Inr now, v)"
    and "bindS (fs_Get c (flash_key 0)) (\<lambda>got.
         if \<not> gr_found got then retS () else bindS (fs_sleep c (fl 0.2)) (\<lambda>_. await_gone n c deadline)) v = (Inr u, w')"
    by (auto elim!: bindS_InrE split: if_splits)
  moreover from this(2) obtain got x where "fs_Get c (flash_key 0) v = (Inr got, x)"
    and "x = w' \<or> (\<exists>d y. fs_sleep c (fl 0.2) x = (Inr d, y) \<and> await_gone n c deadline y = (Inr u, w'))"
    by (auto elim!: bindS_InrE split: if_splits)
  ultimately show ?case using Suc.IH monotonic Get sleep no_less_trans by metis
qed simp

lemma probe:
  assumes "probe_ttl n c v w = (Inr u, w')"
  shows "no_less (snap w) (snap w') \<and> nvm_hit_count (snap w) < nvm_hit_count (snap w')"
proof -
  obtain s1 w1 r w2 s2 w3 now w4 where e: "fs_Stats c w = (Inr s1, w1)" "fs_Get c (flash_key 0) w1 = (Inr r, w2)" "fs_Stats c w2 = (Inr s2, w3)"
      "nvm_hit_count s1 < nvm_hit_count s2" "fs_monotonic c w3 = (Inr now, w4)" "await_gone n c (fl (now + 65)) w4 = (Inr u, w')"
    using assms by (auto simp: probe_ttl_def elim!: bindS_InrE)
  have m: "no_less (snap w) s1" "no_less s1 (snap w1)" "no_less (snap w1) (snap w2)" "no_less (snap w2) s2" "no_less s2 (snap w3)"
      "no_less (snap w3) (snap w4)" "no_less (snap w4) (snap w')"
    using Stats [OF e(1)] Get [OF e(2)] Stats [OF e(3)] monotonic [OF e(5)] gone [OF e(6)] by auto
  then show ?thesis using e(4) by (auto simp: no_less_def)
qed

lemma smoke:
  assumes "flash_smoke n c args w = (Inr d, w')"
  shows "\<exists>initial final found. d = smoke_report args initial final found \<and> no_less initial final \<and> 4 \<le> found
    \<and> found < nvm_hit_count final - nvm_hit_count initial \<and> eviction_count initial < eviction_count final
    \<and> nvm_used initial < nvm_used final \<and> nvm_device_bytes_read initial < nvm_device_bytes_read final"
proof -
  obtain initial w1 v ok w2 us w3 now w4 state w5 found w6 u w7 final w8 where
    e: "fs_Stats c w = (Inr initial, w1)" "fs_Set c (flash_key 0) v 60 w1 = (Inr ok, w2)"
      "mapS (fill_object c args) [1..<fa_objects args + 1] w2 = (Inr us, w3)" "fs_monotonic c w3 = (Inr now, w4)"
      "await_traffic n c (fl (now + 20)) initial w4 = (Inr state, w5)"
      "read_back c args [1..<min (fa_objects args) 1024 + 1] (nvm_hit_count state) 0 w5 = (Inr found, w6)" "4 \<le> found"
      "probe_ttl n c v w6 = (Inr u, w7)" "fs_Stats c w7 = (Inr final, w8)"
      "nvm_device_bytes_read initial < nvm_device_bytes_read final" "d = smoke_report args initial final found"
    using assms unfolding flash_smoke_def by (auto simp: final_checks_def simp del: upt_Suc elim!: bindS_InrE)
  note t = traffic [OF e(5)]
  have "nvm_hit_count state \<le> nvm_hit_count (snap w5)" using t by (simp add: no_less_def)
  note b = reread [OF e(6) this]
  have m: "no_less initial (snap w1)" "no_less (snap w1) (snap w2)" "no_less (snap w2) (snap w3)" "no_less (snap w3) (snap w4)" "no_less (snap w7) final"
    using Stats [OF e(1)] Set [OF e(2)] fill [OF e(3)] monotonic [OF e(4)] Stats [OF e(9)] by auto
  have i: "no_less initial state" "no_less state (snap w5)" using m t no_less_trans by blast+
  then have i6: "no_less initial (snap w6)" using b no_less_trans by blast
  have f: "nvm_hit_count (snap w6) < nvm_hit_count final" "no_less (snap w6) final"
    using probe [OF e(8)] m(5) no_less_trans by (auto simp: no_less_def)
  have "no_less state final" "no_less initial final" using i b f(2) i6 no_less_trans by blast+
  moreover from this have "eviction_count initial < eviction_count final" "nvm_used initial < nvm_used final" using t by (auto simp: no_less_def)
  moreover have "found < nvm_hit_count final - nvm_hit_count initial" using b f(1) i(1) by (auto simp: no_less_def)
  ultimately show ?thesis using e(7,10,11) by blast
qed

end

section \<open>The server with a flash tier\<close>

text \<open>
  The modelled server with a tier below its memory. What a call moves between the two is CacheLib's decision: \<open>tier\<close> says by how much the evictions,
  the bytes written to flash, the hits on flash and the bytes read from it grow. The server reports the bytes written as \<open>nvm_used\<close>, too.
\<close>

datatype access = Wrote nat | Found nat | Missing

record fworld =
  fw_cache :: cworld
  fw_stats :: flash_stats

fun grow :: "nat \<times> nat \<times> nat \<times> nat \<Rightarrow> flash_stats \<Rightarrow> flash_stats" where
  "grow (evicted, written, hits, bytes) s =
     s\<lparr>eviction_count := eviction_count s + int evicted, nvm_used := nvm_used s + int written, nvm_hit_count := nvm_hit_count s + int hits,
       nvm_device_bytes_written := nvm_device_bytes_written s + int written, nvm_device_bytes_read := nvm_device_bytes_read s + int bytes\<rparr>"

type_synonym tier = "access \<Rightarrow> fworld \<Rightarrow> nat \<times> nat \<times> nat \<times> nat"

definition moved :: "tier \<Rightarrow> access \<Rightarrow> cworld \<Rightarrow> fworld \<Rightarrow> fworld" where
  "moved tier a u w = \<lparr>fw_cache = u, fw_stats = grow (tier a w) (fw_stats w)\<rparr>"

definition tier_Set :: "tier \<Rightarrow> string \<Rightarrow> byte list \<Rightarrow> int \<Rightarrow> (fworld, bool) sx" where
  "tier_Set tier k v ttl w =
     (case served (\<lambda>now. service_Set now True k v (word_of_int ttl)) (fw_cache w) of (r, u) \<Rightarrow>
        (map_sum (\<lambda>e. e) sr_success r, moved tier (Wrote (length v)) u w))"

definition tier_Get :: "tier \<Rightarrow> string \<Rightarrow> (fworld, get_result) sx" where
  "tier_Get tier k w =
     (case served (\<lambda>now. service_Get now k) (fw_cache w) of (r, u) \<Rightarrow>
        (r, moved tier (case r of Inr g \<Rightarrow> if gr_found g then Found (length (gr_value g)) else Missing | Inl e \<Rightarrow> Missing) u w))"

definition pass_time :: "int \<Rightarrow> fworld \<Rightarrow> fworld" where
  "pass_time ns w = w\<lparr>fw_cache := (fw_cache w)\<lparr>cw_ns := cw_ns (fw_cache w) + ns\<rparr>\<rparr>"

definition flash_service :: "tier \<Rightarrow> int \<Rightarrow> fworld flash_stub" where
  "flash_service tier tick =
     \<lparr>fs_Set = tier_Set tier, fs_Get = tier_Get tier, fs_Stats = (\<lambda>w. (Inr (fw_stats w), w)),
      fs_monotonic = (\<lambda>w. (Inr (fl (of_int (cw_ns (fw_cache w)) / 1000000000)), pass_time tick w)),
      fs_sleep = (\<lambda>d w. (Inr (), pass_time \<lfloor>d * 1000000000\<rfloor> w))\<rparr>"

lemma no_less_grow [simp]: "no_less s (grow g s)"
  by (cases g) (simp add: no_less_def)

lemma fw_stats_moved [simp]: "fw_stats (moved tier a u w) = grow (tier a w) (fw_stats w)" "fw_cache (moved tier a u w) = u"
  by (simp_all add: moved_def)

lemma pass_time_simps [simp]: "fw_stats (pass_time ns w) = fw_stats w" "cw_server (fw_cache (pass_time ns w)) = cw_server (fw_cache w)"
    "cw_ns (fw_cache (pass_time ns w)) = cw_ns (fw_cache w) + ns"
  by (simp_all add: pass_time_def)

interpretation tiered: flash_counters "flash_service tier tick" fw_stats for tier tick
  by unfold_locales (auto simp: flash_service_def tier_Set_def tier_Get_def split: prod.splits)

text \<open>
  C38. A passed test is evidence of the flash tier: if the counters of the service never decrease and the script ends without an exception, then its report
  says so, at least four of the reads were flash hits, and the hits, evictions and bytes it reports for the whole test account for them: the hits on flash are more than those verified, since the
  probe with the time to live came from flash as well, and items were evicted, written to flash and read from it.
\<close>

theorem smoke_pass_accounts:
  assumes "flash_counters c snap" and "flash_smoke n c args w = (Inr d, w')"
  shows "\<exists>found hits evicted written bytes. map_of d ''status'' = Some (JStr ''passed'')
    \<and> map_of d ''verified_flash_hits'' = Some (JNum (of_int found)) \<and> map_of d ''navy_hits_delta'' = Some (JNum (of_int hits))
    \<and> map_of d ''dram_evictions_delta'' = Some (JNum (of_int evicted)) \<and> map_of d ''navy_written_bytes_delta'' = Some (JNum (of_int written))
    \<and> map_of d ''navy_read_bytes_delta'' = Some (JNum (of_int bytes))
    \<and> (4 :: int) \<le> found \<and> found < hits \<and> (0 :: int) < evicted \<and> (0 :: int) < written \<and> (0 :: int) < bytes"
proof -
  obtain initial final found where f: "d = smoke_report args initial final found" "4 \<le> found"
      "found < nvm_hit_count final - nvm_hit_count initial" "eviction_count initial < eviction_count final"
      "nvm_used initial < nvm_used final" "nvm_device_bytes_read initial < nvm_device_bytes_read final"
    using flash_counters.smoke [OF assms] by blast
  show ?thesis
    by (rule exI [of _ found], rule exI [of _ "nvm_hit_count final - nvm_hit_count initial"], rule exI [of _ "eviction_count final - eviction_count initial"],
        rule exI [of _ "nvm_used final - nvm_used initial"], rule exI [of _ "nvm_device_bytes_read final - nvm_device_bytes_read initial"])
      (use f in \<open>simp add: smoke_report_def\<close>)
qed

section \<open>The test passes on a tier that takes every write and serves every read\<close>

text \<open>Every write evicts an item and goes to flash, every hit comes from it.\<close>

definition spill :: tier where
  "spill a w = (case a of Wrote n \<Rightarrow> (1, n, 0, 0) | Found n \<Rightarrow> (0, 0, 1, n) | Missing \<Rightarrow> (0, 0, 0, 0))"

lemma nat_of_digits_zeros: "nat_of_digits (replicate k (CHR ''0'') @ s) = nat_of_digits s"
  by (induction k) (simp_all add: nat_of_digits_def digit_val_def)

lemma flash_key_inject: "flash_key i = flash_key j \<longleftrightarrow> i = j"
proof
  assume "flash_key i = flash_key j"
  then have "nat_of_digits (replicate (8 - length (str_nat i)) (CHR ''0'') @ str_nat i) = nat_of_digits (replicate (8 - length (str_nat j)) (CHR ''0'') @ str_nat j)"
    by (simp add: flash_key_def)
  then show "i = j" unfolding nat_of_digits_zeros by (simp add: nat_of_digits_str_nat)
qed simp

lemma flash_key_ne [simp]: "flash_key i \<noteq> []"
  by (simp add: flash_key_def)

text \<open>The probe and the objects below \<open>i\<close> are stored, and the counters have moved since \<open>s0\<close>.\<close>

definition filled :: "flash_args \<Rightarrow> flash_stats \<Rightarrow> nat \<Rightarrow> nat \<Rightarrow> fworld \<Rightarrow> bool" where
  "filled args s0 created i w \<longleftrightarrow>
     (let s = cw_server (fw_cache w); st = fw_stats w; bytes = fa_value_bytes args in
      sv_ready s \<and> bytes \<le> sv_max_item_size s
      \<and> (\<exists>v. flash_value 0 bytes = Inr v \<and> sv_items s (flash_key 0) = Some (v, created, 60))
      \<and> (\<forall>j. 1 \<le> j \<and> j < i \<longrightarrow> (\<exists>v c. flash_value j bytes = Inr v \<and> sv_items s (flash_key j) = Some (v, c, 0)))
      \<and> eviction_count s0 < eviction_count st \<and> nvm_used s0 < nvm_used st \<and> nvm_device_bytes_written s0 < nvm_device_bytes_written st
      \<and> nvm_device_bytes_written st = nvm_used st \<and> nvm_device_bytes_read s0 \<le> nvm_device_bytes_read st)"

lemma filled_pass_time [simp]: "filled args s0 created i (pass_time ns w) = filled args s0 created i w"
  by (simp add: filled_def)

lemma flash_value_length: "flash_value i n = Inr v \<Longrightarrow> 8 \<le> n \<Longrightarrow> length v = n"
  by (rule flash.gen_length)

lemma fill_step:
  assumes "filled args s0 created i w" and "1 \<le> i" and "i < 2 ^ 64" and "8 \<le> fa_value_bytes args"
  shows "\<exists>w'. fill_object (flash_service spill tick) args i w = (Inr (), w') \<and> filled args s0 created (Suc i) w'
    \<and> cw_ns (fw_cache w') = cw_ns (fw_cache w)"
proof -
  obtain v where v: "flash_value i (fa_value_bytes args) = Inr v" using flash.gen_defined [OF assms(3)] by blast
  have n: "length v = fa_value_bytes args" by (rule flash_value_length [OF v assms(4)])
  have k: "flash_key 0 \<noteq> flash_key i" "j \<noteq> i \<Longrightarrow> flash_key j \<noteq> flash_key i" for j using assms(2) by (auto simp: flash_key_inject)
  have items: "\<exists>u c. flash_value j (fa_value_bytes args) = Inr u \<and> (if j = i then Some (v, now, 0) else items (flash_key j)) = Some (u, c, 0)"
    if "1 \<le> j" "j < Suc i" "\<And>j. 1 \<le> j \<and> j < i \<Longrightarrow> \<exists>u c. flash_value j (fa_value_bytes args) = Inr u \<and> items (flash_key j) = Some (u, c, 0)"
    for j now and items :: "string \<Rightarrow> citem option"
    using that v by (cases "j = i") auto
  show ?thesis
    using assms(1) v n k items
    by (auto simp: fill_object_def flash_service_def tier_Set_def served_def service_Set_def cm_set_def bindS_def assertS_def retS_def filled_def
        Let_def spill_def flash_key_inject)
qed

lemma fill_all:
  assumes "filled args s0 created 1 w" and "m < 2 ^ 64" and "8 \<le> fa_value_bytes args"
  shows "\<exists>us w'. mapS (fill_object (flash_service spill tick) args) [1..<m + 1] w = (Inr us, w') \<and> filled args s0 created (m + 1) w'
    \<and> cw_ns (fw_cache w') = cw_ns (fw_cache w)"
proof -
  have "\<exists>us w'. mapS (fill_object (flash_service spill tick) args) [i..<i + k] w = (Inr us, w') \<and> filled args s0 created (i + k) w'
      \<and> cw_ns (fw_cache w') = cw_ns (fw_cache w)"
    if "filled args s0 created i w" "1 \<le> i" "i + k \<le> 2 ^ 64" for i k w
    using that
  proof (induction k arbitrary: i w)
    case (Suc k)
    obtain u where u: "fill_object (flash_service spill tick) args i w = (Inr (), u)" "filled args s0 created (Suc i) u" "cw_ns (fw_cache u) = cw_ns (fw_cache w)"
      using fill_step [OF Suc.prems(1,2) _ assms(3), of tick] Suc.prems(3) by auto
    obtain us w' where "mapS (fill_object (flash_service spill tick) args) [Suc i..<Suc i + k] u = (Inr us, w')" "filled args s0 created (Suc i + k) w'"
        "cw_ns (fw_cache w') = cw_ns (fw_cache u)"
      using Suc.IH [OF u(2)] Suc.prems(2,3) by auto
    moreover have "[i..<i + Suc k] = i # [Suc i..<Suc i + k]" by (simp add: upt_conv_Cons del: upt_Suc)
    ultimately show ?case using u by (simp add: bindS_def retS_def del: upt_Suc)
  qed (simp add: retS_def)
  from this [OF assms(1), of m] assms(2) show ?thesis by (simp add: add.commute)
qed

lemma get_object:
  assumes "filled args s0 created m w" and "1 \<le> i" and "i < m" and "8 \<le> fa_value_bytes args"
  shows "\<exists>v g w'. fs_Get (flash_service spill tick) (flash_key i) w = (Inr g, w') \<and> gr_found g \<and> gr_value g = v
    \<and> flash_value i (fa_value_bytes args) = Inr v \<and> filled args s0 created m w' \<and> cw_ns (fw_cache w') = cw_ns (fw_cache w)
    \<and> nvm_hit_count (fw_stats w') = nvm_hit_count (fw_stats w) + 1 \<and> nvm_device_bytes_read s0 < nvm_device_bytes_read (fw_stats w')"
proof -
  obtain v c where v: "flash_value i (fa_value_bytes args) = Inr v" "sv_items (cw_server (fw_cache w)) (flash_key i) = Some (v, c, 0)"
    using assms(1-3) unfolding filled_def Let_def by blast
  have n: "length v = fa_value_bytes args" by (rule flash_value_length [OF v(1) assms(4)])
  show ?thesis
    using assms(1,4) v n
    by (auto simp: flash_service_def tier_Get_def served_def service_Get_def cm_get_def find_item_def filled_def Let_def spill_def)
qed

lemma read_step:
  assumes "filled args s0 created m w" and "1 \<le> i" and "i < m" and "8 \<le> fa_value_bytes args" and "found < 4"
  shows "\<exists>w'. read_back (flash_service spill tick) args (i # js) (nvm_hit_count (fw_stats w)) found w =
      (if found = 3 then (Inr 4, w') else read_back (flash_service spill tick) args js (nvm_hit_count (fw_stats w')) (found + 1) w')
    \<and> filled args s0 created m w' \<and> cw_ns (fw_cache w') = cw_ns (fw_cache w) \<and> nvm_device_bytes_read s0 < nvm_device_bytes_read (fw_stats w')"
proof -
  let ?c = "flash_service spill tick"
  obtain g w' where g: "fs_Get ?c (flash_key i) w = (Inr g, w')" "gr_found g" "flash_value i (fa_value_bytes args) = Inr (gr_value g)"
      "filled args s0 created m w'" "cw_ns (fw_cache w') = cw_ns (fw_cache w)" "nvm_hit_count (fw_stats w') = nvm_hit_count (fw_stats w) + 1"
      "nvm_device_bytes_read s0 < nvm_device_bytes_read (fw_stats w')"
    using get_object [OF assms(1-4), of tick] by auto
  have st: "fs_Stats ?c w' = (Inr (fw_stats w'), w')" by (simp add: flash_service_def)
  have "found = 3 \<or> found + 1 < 4" using assms(5) by linarith
  then have "read_back ?c args (i # js) (nvm_hit_count (fw_stats w)) found w =
      (if found = 3 then (Inr 4, w') else read_back ?c args js (nvm_hit_count (fw_stats w')) (found + 1) w')"
    using g st by (auto simp: bindS_def assertS_def retS_def Let_def)
  with g(4,5,7) show ?thesis by blast
qed

lemma read_four:
  assumes "filled args s0 created m w" and "5 \<le> b" and "b \<le> m" and "8 \<le> fa_value_bytes args"
  shows "\<exists>w'. read_back (flash_service spill tick) args [1..<b] (nvm_hit_count (fw_stats w)) 0 w = (Inr 4, w')
    \<and> filled args s0 created m w' \<and> cw_ns (fw_cache w') = cw_ns (fw_cache w) \<and> nvm_device_bytes_read s0 < nvm_device_bytes_read (fw_stats w')"
proof -
  let ?c = "flash_service spill tick"
  define js where "js = [5..<b]"
  have l: "[1..<b] = 1 # 2 # 3 # 4 # js" using assms(2) by (simp add: upt_conv_Cons js_def numeral_eq_Suc)
  obtain w1 where w1: "read_back ?c args (1 # 2 # 3 # 4 # js) (nvm_hit_count (fw_stats w)) 0 w
      = read_back ?c args (2 # 3 # 4 # js) (nvm_hit_count (fw_stats w1)) 1 w1" "filled args s0 created m w1" "cw_ns (fw_cache w1) = cw_ns (fw_cache w)"
    using read_step [OF assms(1), of 1 0 tick "2 # 3 # 4 # js"] assms(2-4) by (auto simp del: read_back.simps)
  obtain w2 where w2: "read_back ?c args (2 # 3 # 4 # js) (nvm_hit_count (fw_stats w1)) 1 w1
      = read_back ?c args (3 # 4 # js) (nvm_hit_count (fw_stats w2)) 2 w2" "filled args s0 created m w2" "cw_ns (fw_cache w2) = cw_ns (fw_cache w)"
    using read_step [OF w1(2), of 2 1 tick "3 # 4 # js"] assms(2-4) w1(3) by (auto simp del: read_back.simps)
  obtain w3 where w3: "read_back ?c args (3 # 4 # js) (nvm_hit_count (fw_stats w2)) 2 w2
      = read_back ?c args (4 # js) (nvm_hit_count (fw_stats w3)) 3 w3" "filled args s0 created m w3" "cw_ns (fw_cache w3) = cw_ns (fw_cache w)"
    using read_step [OF w2(2), of 3 2 tick "4 # js"] assms(2-4) w2(3) by (auto simp del: read_back.simps)
  show ?thesis
    using read_step [OF w3(2), of 4 3 tick js] assms(2-4) w1(1) w2(1) w3(1,3) unfolding l by (auto simp del: read_back.simps)
qed

text \<open>A deadline \<open>m\<close> seconds after a reading of the clock lies after every reading up to two seconds before it.\<close>

lemma before_deadline:
  assumes "0 \<le> t" and "t < 4000000000000000000" and "s < t + int k * 1000000000" and "k + 2 \<le> m" and "m \<le> 100"
  shows "fl (of_int s / 1000000000) < fl (fl (of_int t / 1000000000) + real m)"
proof -
  let ?q = "t div 1000000000"
  have "?q \<le> 4000000000000000000 div 1000000000" using assms(2) by (intro zdiv_mono1) simp_all
  then have q: "0 \<le> ?q" "?q \<le> 5000000000" using assms(1) by (simp_all add: pos_imp_zdiv_nonneg_iff)
  have fq: "fl (of_int (?q + j)) = of_int (?q + j)" if "0 \<le> j" "j \<le> 200" for j using q that by (intro fl_is_float is_float_int) simp
  have "s < (?q + 1 + int k) * 1000000000" using assms(3) by (simp add: distrib_right)
  then have "of_int s \<le> (of_int ((?q + 1 + int k) * 1000000000) :: real)" by linarith
  then have "of_int s / 1000000000 \<le> (of_int (?q + (1 + int k)) :: real)" by simp
  from fl_mono [OF this] have u: "fl (of_int s / 1000000000) \<le> of_int (?q + (1 + int k))" using fq [of "1 + int k"] assms(4,5) by linarith
  have "?q * 1000000000 \<le> t" by simp
  then have "(of_int (?q * 1000000000) :: real) \<le> of_int t" by linarith
  then have "(of_int (?q + 0) :: real) \<le> of_int t / 1000000000" by simp
  from fl_mono [OF this] have "of_int (?q + int m) \<le> fl (of_int t / 1000000000) + real m" using fq [of 0] by simp
  from fl_mono [OF this] have "of_int (?q + int m) \<le> fl (fl (of_int t / 1000000000) + real m)" using fq [of "int m"] assms(5) by linarith
  moreover have "(of_int (?q + (1 + int k)) :: real) < of_int (?q + int m)" using assms(4) by simp
  ultimately show ?thesis using u by linarith
qed

lemma nap_bounds: "187500000 \<le> \<lfloor>fl 0.2 * 1000000000\<rfloor>" "\<lfloor>fl 0.2 * 1000000000\<rfloor> \<le> 250000000"
proof -
  have "is_float (3 / 16 :: real)" "is_float (1 / 4 :: real)" using fl_scaled [of 3 "- 4"] fl_scaled [of 1 "- 2"] by (simp_all add: powr_minus_divide)
  moreover have "fl (3 / 16) \<le> fl 0.2" "fl 0.2 \<le> fl (1 / 4)" by (auto intro!: fl_mono)
  ultimately have "187500000 \<le> fl 0.2 * 1000000000" "fl 0.2 * 1000000000 \<le> 250000000" by simp_all
  then show "187500000 \<le> \<lfloor>fl 0.2 * 1000000000\<rfloor>" "\<lfloor>fl 0.2 * 1000000000\<rfloor> \<le> 250000000" by linarith+
qed

text \<open>A read of the probe finds it until its 60 seconds are over, which they are 61 seconds after the second of its creation.\<close>

lemma get_probe:
  assumes "filled args s0 (nat (t div 1000000000)) m w" and "0 \<le> t" and "t < 4000000000000000000" and "t \<le> cw_ns (fw_cache w)"
    and "cw_ns (fw_cache w) < clock_end" and "8 \<le> fa_value_bytes args"
  shows "\<exists>g w'. fs_Get (flash_service spill tick) (flash_key 0) w = (Inr g, w') \<and> filled args s0 (nat (t div 1000000000)) m w'
    \<and> cw_ns (fw_cache w') = cw_ns (fw_cache w) \<and> nvm_device_bytes_read (fw_stats w) \<le> nvm_device_bytes_read (fw_stats w')
    \<and> (gr_found g \<longrightarrow> cw_ns (fw_cache w) < t + 61000000000)
    \<and> (cw_ns (fw_cache w) = t \<longrightarrow> gr_found g \<and> flash_value 0 (fa_value_bytes args) = Inr (gr_value g) \<and> gr_ttl_remaining g = 60
        \<and> nvm_hit_count (fw_stats w) < nvm_hit_count (fw_stats w'))"
proof -
  let ?t = "nat (t div 1000000000)" and ?now = "nat (cw_ns (fw_cache w) div 1000000000)"
  obtain v where v: "flash_value 0 (fa_value_bytes args) = Inr v" "sv_items (cw_server (fw_cache w)) (flash_key 0) = Some (v, ?t, 60)"
    using assms(1) unfolding filled_def Let_def by blast
  have n: "length v = fa_value_bytes args" by (rule flash_value_length [OF v(1) assms(6)])
  have late: "cw_ns (fw_cache w) < t + 61000000000" if "\<not> ?t + 60 < ?now"
  proof (rule ccontr)
    assume "\<not> ?thesis"
    then have "(t + 61 * 1000000000) div 1000000000 \<le> cw_ns (fw_cache w) div 1000000000" by (intro zdiv_mono1) simp_all
    then have "t div 1000000000 + 61 \<le> cw_ns (fw_cache w) div 1000000000" by simp
    with that assms(2) show False by (simp add: nat_add_distrib [symmetric] pos_imp_zdiv_nonneg_iff not_less)
  qed
  have "t div 1000000000 \<le> 4000000000000000000 div 1000000000" using assms(3) by (intro zdiv_mono1) simp_all
  then have fits: "?t + unat (60 :: 32 word) < 2 ^ 32" by simp
  have now: "?now < 2 ^ 32" using cw_now_bound [OF assms(5)] by (simp add: cw_now_def)
  have ex: "expired ?now (v, ?t, 60) \<longleftrightarrow> ?t + 60 < ?now" using expired_exact [OF fits now, of v] by simp
  have left: "ttl_remaining ?now (v, ?t, 60) = int (?t + 60 - ?now)" using ttl_remaining_exact [OF fits now, of v] by simp
  show ?thesis
  proof (cases "?t + 60 < ?now")
    case True
    then show ?thesis using assms(1) v
      by (auto simp: flash_service_def tier_Get_def served_def service_Get_def cm_get_def find_item_def ex left filled_def Let_def spill_def cw_now_def)
  next
    case False
    then show ?thesis using assms(1) v n late
      by (auto simp: flash_service_def tier_Get_def served_def service_Get_def cm_get_def find_item_def ex left filled_def Let_def spill_def cw_now_def)
  qed
qed

lemma gone_returns:
  assumes "0 \<le> t" and "t < 4000000000000000000" and "8 \<le> fa_value_bytes args"
  shows "filled args s0 (nat (t div 1000000000)) m w \<Longrightarrow> t \<le> cw_ns (fw_cache w) \<Longrightarrow> cw_ns (fw_cache w) < t + 62000000000 \<Longrightarrow>
    t + 61000000000 \<le> cw_ns (fw_cache w) + int n * 187500000 \<Longrightarrow>
    \<exists>w'. await_gone (Suc n) (flash_service spill 0) (fl (fl (of_int t / 1000000000) + 65)) w = (Inr (), w')
      \<and> filled args s0 (nat (t div 1000000000)) m w' \<and> nvm_device_bytes_read (fw_stats w) \<le> nvm_device_bytes_read (fw_stats w')"
proof (induction n arbitrary: w)
  case (Suc n)
  let ?c = "flash_service spill 0" and ?dl = "fl (fl (of_int t / 1000000000) + 65)" and ?s = "cw_ns (fw_cache w)"
  have now: "fs_monotonic ?c w = (Inr (fl (of_int ?s / 1000000000)), pass_time 0 w)" by (simp add: flash_service_def)
  have dl: "fl (of_int ?s / 1000000000) < ?dl" using before_deadline [OF assms(1,2), of ?s 62 65] Suc.prems(3) by simp
  obtain g u where g: "fs_Get ?c (flash_key 0) (pass_time 0 w) = (Inr g, u)" "filled args s0 (nat (t div 1000000000)) m u" "cw_ns (fw_cache u) = ?s"
      "nvm_device_bytes_read (fw_stats w) \<le> nvm_device_bytes_read (fw_stats u)" "gr_found g \<Longrightarrow> ?s < t + 61000000000"
    using get_probe [of args s0 t m "pass_time 0 w" 0] Suc.prems(1-3) assms by auto
  show ?case
  proof (cases "gr_found g")
    case True
    define nap where "nap = \<lfloor>fl 0.2 * 1000000000\<rfloor>"
    let ?u = "pass_time nap u"
    have nap: "187500000 \<le> nap" "nap \<le> 250000000" using nap_bounds by (simp_all only: nap_def)
    have n: "int (Suc n) * 187500000 = int n * 187500000 + 187500000" by simp
    have "t \<le> cw_ns (fw_cache ?u)" "cw_ns (fw_cache ?u) < t + 62000000000" "t + 61000000000 \<le> cw_ns (fw_cache ?u) + int n * 187500000"
      unfolding pass_time_simps using g(3,5) True nap Suc.prems(2,4) n by linarith+
    then obtain w' where "await_gone (Suc n) ?c ?dl ?u = (Inr (), w')" "filled args s0 (nat (t div 1000000000)) m w'"
        "nvm_device_bytes_read (fw_stats ?u) \<le> nvm_device_bytes_read (fw_stats w')"
      using Suc.IH [of ?u] g(2) by auto
    moreover have "await_gone (Suc (Suc n)) ?c ?dl w = await_gone (Suc n) ?c ?dl ?u"
    proof -
      have "fs_sleep ?c (fl 0.2) u = (Inr (), ?u)" by (simp add: flash_service_def nap_def)
      with True now dl g(1) show ?thesis by (subst await_gone.simps(2)) (simp add: bindS_def del: await_gone.simps)
    qed
    ultimately show ?thesis using g(4) by (auto simp del: await_gone.simps)
  next
    case False
    with now dl g show ?thesis by (auto simp: bindS_def retS_def)
  qed
next
  case 0
  let ?c = "flash_service spill 0" and ?dl = "fl (fl (of_int t / 1000000000) + 65)" and ?s = "cw_ns (fw_cache w)"
  have now: "fs_monotonic ?c w = (Inr (fl (of_int ?s / 1000000000)), pass_time 0 w)" by (simp add: flash_service_def)
  have dl: "fl (of_int ?s / 1000000000) < ?dl" using before_deadline [OF assms(1,2), of ?s 62 65] 0(3) by simp
  obtain g u where g: "fs_Get ?c (flash_key 0) (pass_time 0 w) = (Inr g, u)" "filled args s0 (nat (t div 1000000000)) m u"
      "nvm_device_bytes_read (fw_stats w) \<le> nvm_device_bytes_read (fw_stats u)" "\<not> gr_found g"
    using get_probe [of args s0 t m "pass_time 0 w" 0] 0 assms by fastforce
  with now dl show ?case by (auto simp: bindS_def retS_def)
qed

lemma probe_stored:
  assumes "sv_ready (cw_server (fw_cache w))" and "fa_value_bytes args \<le> sv_max_item_size (cw_server (fw_cache w))" and "8 \<le> fa_value_bytes args"
    and "nvm_device_bytes_written (fw_stats w) = nvm_used (fw_stats w)"
  shows "\<exists>v w'. flash_value 0 (fa_value_bytes args) = Inr v \<and> fs_Set (flash_service spill tick) (flash_key 0) v 60 w = (Inr True, w')
    \<and> filled args (fw_stats w) (nat (cw_ns (fw_cache w) div 1000000000)) 1 w' \<and> cw_ns (fw_cache w') = cw_ns (fw_cache w)"
proof -
  obtain v where v: "flash_value 0 (fa_value_bytes args) = Inr v" using flash.gen_defined [of 0] by auto
  have n: "length v = fa_value_bytes args" by (rule flash_value_length [OF v assms(3)])
  have "narrow_ttl 60 = 60" by (simp add: narrow_ttl_def word_sless_alt)
  then show ?thesis using assms v n
    by (auto simp: flash_service_def tier_Set_def served_def service_Set_def cm_set_def filled_def Let_def spill_def cw_now_def)
qed

lemma probe_passes:
  assumes "filled args s0 (nat (t div 1000000000)) m w" and "0 \<le> t" and "t < 4000000000000000000" and "cw_ns (fw_cache w) = t" and "8 \<le> fa_value_bytes args"
    and "flash_value 0 (fa_value_bytes args) = Inr v"
  shows "\<exists>w'. probe_ttl 327 (flash_service spill 0) v w = (Inr (), w') \<and> filled args s0 (nat (t div 1000000000)) m w'
    \<and> nvm_device_bytes_read (fw_stats w) \<le> nvm_device_bytes_read (fw_stats w')"
proof -
  let ?c = "flash_service spill 0"
  obtain g u where g: "fs_Get ?c (flash_key 0) w = (Inr g, u)" "filled args s0 (nat (t div 1000000000)) m u" "cw_ns (fw_cache u) = t"
      "nvm_device_bytes_read (fw_stats w) \<le> nvm_device_bytes_read (fw_stats u)" "gr_found g" "gr_value g = v" "gr_ttl_remaining g = 60"
      "nvm_hit_count (fw_stats w) < nvm_hit_count (fw_stats u)"
    using get_probe [OF assms(1-3), of 0] assms(3-6) by auto
  have c: "fs_Stats ?c x = (Inr (fw_stats x), x)" "fs_monotonic ?c u = (Inr (fl (of_int t / 1000000000)), pass_time 0 u)" for x
    using g(3) by (simp_all add: flash_service_def)
  obtain w' where "await_gone (Suc 326) ?c (fl (fl (of_int t / 1000000000) + 65)) (pass_time 0 u) = (Inr (), w')"
      "filled args s0 (nat (t div 1000000000)) m w'" "nvm_device_bytes_read (fw_stats u) \<le> nvm_device_bytes_read (fw_stats w')"
    using gone_returns [OF assms(2,3,5), of s0 m "pass_time 0 u" 326] g(2,3) by (auto simp del: await_gone.simps)
  with g c show ?thesis by (auto simp: probe_ttl_def bindS_def assertS_def retS_def simp del: await_gone.simps)
qed

lemma traffic_passes:
  assumes "filled args s0 created m w" and "0 \<le> cw_ns (fw_cache w)" and "cw_ns (fw_cache w) < 4000000000000000000"
  shows "await_traffic 327 (flash_service spill 0) (fl (fl (of_int (cw_ns (fw_cache w)) / 1000000000) + 20)) s0 w = (Inr (fw_stats w), pass_time 0 w)"
proof -
  have "fl (of_int (cw_ns (fw_cache w)) / 1000000000) < fl (fl (of_int (cw_ns (fw_cache w)) / 1000000000) + 20)"
    using before_deadline [OF assms(2,3), of "cw_ns (fw_cache w)" 1 20] by simp
  moreover have "eviction_count s0 < eviction_count (fw_stats w)" "nvm_used s0 < nvm_used (fw_stats w)" using assms(1) by (simp_all add: filled_def Let_def)
  moreover have "(327 :: nat) = Suc 326" by simp
  ultimately show ?thesis by (simp only: await_traffic.simps) (simp add: flash_service_def bindS_def retS_def)
qed

lemma smoke_returns:
  assumes "1024 < fa_objects args" and "fa_objects args < 2 ^ 64" and "8 \<le> fa_value_bytes args" and "fa_value_bytes args \<le> 1048576"
    and "sv_ready (cw_server (fw_cache w))" and "fa_value_bytes args \<le> sv_max_item_size (cw_server (fw_cache w))"
    and "nvm_enabled (fw_stats w)" and "nvm_device_bytes_written (fw_stats w) = nvm_used (fw_stats w)"
    and "0 \<le> cw_ns (fw_cache w)" and "cw_ns (fw_cache w) < 4000000000000000000"
  shows "\<exists>w'. flash_smoke 327 (flash_service spill 0) args w = (Inr (smoke_report args (fw_stats w) (fw_stats w') 4), w')"
proof -
  let ?c = "flash_service spill 0" and ?t = "cw_ns (fw_cache w)" and ?s0 = "fw_stats w"
  let ?created = "nat (?t div 1000000000)" and ?m = "fa_objects args + 1"
  have stats: "fs_Stats ?c x = (Inr (fw_stats x), x)" for x by (simp add: flash_service_def)
  obtain v w1 where w1: "flash_value 0 (fa_value_bytes args) = Inr v" "fs_Set ?c (flash_key 0) v 60 w = (Inr True, w1)"
      "filled args ?s0 ?created 1 w1" "cw_ns (fw_cache w1) = ?t"
    using probe_stored [OF assms(5,6,3,8), of 0] by blast
  obtain us w2 where w2: "mapS (fill_object ?c args) [1..<?m] w1 = (Inr us, w2)" "filled args ?s0 ?created ?m w2" "cw_ns (fw_cache w2) = ?t"
    using fill_all [OF w1(3) assms(2,3), of 0] w1(4) by auto
  have now: "fs_monotonic ?c w2 = (Inr (fl (of_int ?t / 1000000000)), pass_time 0 w2)" using w2(3) by (simp add: flash_service_def)
  have tr: "await_traffic 327 ?c (fl (fl (of_int ?t / 1000000000) + 20)) ?s0 (pass_time 0 w2) = (Inr (fw_stats w2), pass_time 0 (pass_time 0 w2))"
    using traffic_passes [of args ?s0 ?created ?m "pass_time 0 w2"] w2(2,3) assms(9,10) by simp
  obtain w3 where w3: "read_back ?c args [1..<min (fa_objects args) 1024 + 1] (nvm_hit_count (fw_stats w2)) 0 (pass_time 0 (pass_time 0 w2)) = (Inr 4, w3)"
      "filled args ?s0 ?created ?m w3" "cw_ns (fw_cache w3) = ?t" "nvm_device_bytes_read ?s0 < nvm_device_bytes_read (fw_stats w3)"
    using read_four [of args ?s0 ?created ?m "pass_time 0 (pass_time 0 w2)" "min (fa_objects args) 1024 + 1" 0] w2(2,3) assms(1,3) by auto
  obtain w4 where w4: "probe_ttl 327 ?c v w3 = (Inr (), w4)" "filled args ?s0 ?created ?m w4"
      "nvm_device_bytes_read (fw_stats w3) \<le> nvm_device_bytes_read (fw_stats w4)"
    using probe_passes [OF w3(2) assms(9,10) w3(3) assms(3) w1(1)] by blast
  have f: "final_checks ?s0 (fw_stats w4) w4 = (Inr (), w4)"
    using w3(4) w4(2,3) by (simp add: final_checks_def assertS_def filled_def Let_def)
  show ?thesis
    unfolding flash_smoke_def using assms(1,3,4,7) w1(1,2) w2(1) now tr w3(1) w4(1) f
    by (simp add: bindS_def assertS_def retS_def stats)
qed

text \<open>
  The test passes on a server whose tier takes every write and serves every read: whatever the server held before, the script ends with its report,
  and it has verified exactly four objects from flash. Its waits for traffic and for the expiry of the probe need at most 327 polls: every poll of the
  second sleeps at least 3/16 s, and the probe is gone after 61 s, before the deadline at 65 s. The clock is below \<open>4 * 10 ^ 18\<close> ns, where the server's
  32-bit times do not wrap.
\<close>

theorem flash_smoke_passes:
  assumes "1024 < fa_objects args" and "fa_objects args < 2 ^ 64" and "8 \<le> fa_value_bytes args" and "fa_value_bytes args \<le> 1048576"
    and "sv_ready (cw_server (fw_cache w))" and "fa_value_bytes args \<le> sv_max_item_size (cw_server (fw_cache w))"
    and "nvm_enabled (fw_stats w)" and "nvm_device_bytes_written (fw_stats w) = nvm_used (fw_stats w)"
    and "0 \<le> cw_ns (fw_cache w)" and "cw_ns (fw_cache w) < 4000000000000000000"
  shows "\<exists>d w'. flash_smoke 327 (flash_service spill 0) args w = (Inr d, w') \<and> map_of d ''status'' = Some (JStr ''passed'')
    \<and> map_of d ''verified_flash_hits'' = Some (JNum 4)"
  using smoke_returns [OF assms] by (auto simp: smoke_report_def)

section \<open>Examples\<close>

definition sample_flash :: flash_args where
  "sample_flash = \<lparr>fa_objects = 4096, fa_value_bytes = 65536\<rparr>"

definition sample_fworld :: fworld where
  "sample_fworld = \<lparr>fw_cache = sample_cworld\<lparr>cw_server := (cw_server sample_cworld)\<lparr>sv_ready := True, sv_max_item_size := 4194304\<rparr>, cw_ns := 0\<rparr>,
     fw_stats = \<lparr>nvm_enabled = True, eviction_count = 0, nvm_used = 0, nvm_hit_count = 0, nvm_device_bytes_written = 0, nvm_device_bytes_read = 0\<rparr>\<rparr>"

theorem flash_smoke_passes_witness:
  "\<exists>d w'. flash_smoke 327 (flash_service spill 0) sample_flash sample_fworld = (Inr d, w') \<and> map_of d ''status'' = Some (JStr ''passed'')
    \<and> map_of d ''verified_flash_hits'' = Some (JNum 4)"
  by (rule flash_smoke_passes) (simp_all add: sample_flash_def sample_fworld_def)

lemma sample_smoke: "\<exists>d w'. flash_smoke 327 (flash_service spill 0) sample_flash sample_fworld = (Inr d, w')"
  by (rule exE [OF smoke_returns [of sample_flash sample_fworld]]) (auto simp: sample_flash_def sample_fworld_def)

theorem smoke_pass_accounts_witness:
  "\<exists>d w' found hits. flash_smoke 327 (flash_service spill 0) sample_flash sample_fworld = (Inr d, w')
    \<and> map_of d ''verified_flash_hits'' = Some (JNum (of_int found)) \<and> map_of d ''navy_hits_delta'' = Some (JNum (of_int hits)) \<and> (4 :: int) \<le> found \<and> found < hits"
proof -
  obtain d w' where d: "flash_smoke 327 (flash_service spill 0) sample_flash sample_fworld = (Inr d, w')" using sample_smoke by blast
  from smoke_pass_accounts [OF tiered.flash_counters_axioms d] d show ?thesis by blast
qed

end
