(* ===== verification/Strong_Summary.thy ===== *)
theory Strong_Summary
  imports Statistics Json Py_Random "HOL-Library.Product_Lexorder"
begin

text \<open>
  The summary of a strong campaign, \<open>bench/strong/summarize.py\<close>: the counters it reads from cgroup files and
  server statistics, the rows of KV and HTTP runs, the collection of rows and failures, the groups with their
  medians and the bootstrap interval. A row is a dictionary as the code has it, in the order of its columns.
\<close>

section \<open>Counters\<close>

record cgroup_rows =
  cg_usage_usec :: "int option"
  cg_memory_current :: "int option"
  cg_memory_peak :: "int option"

text \<open>
  \<open>str.isdigit\<close> on the text of a counter (ASCII digits), \<open>dict.setdefault\<close> for the current memory and
  assignment for the peak, so that the first and the last number of the text are kept.
\<close>

definition cgroup_line :: "string \<Rightarrow> cgroup_rows \<Rightarrow> cgroup_rows res" where
  "cgroup_line line rows =
     (case words line of
        [a, b] \<Rightarrow>
          if a = ''usage_usec'' then bindR (int_of_string b) (\<lambda>n. Inr (rows\<lparr>cg_usage_usec := Some n\<rparr>)) else Inr rows
      | [a] \<Rightarrow>
          if a \<noteq> [] \<and> list_all is_digit a
          then bindR (int_of_string a) (\<lambda>n.
            Inr (rows\<lparr>cg_memory_current := (case cg_memory_current rows of None \<Rightarrow> Some n | c \<Rightarrow> c), cg_memory_peak := Some n\<rparr>))
          else Inr rows
      | _ \<Rightarrow> Inr rows)"

fun foldR :: "('a \<Rightarrow> 'b \<Rightarrow> 'b res) \<Rightarrow> 'a list \<Rightarrow> 'b \<Rightarrow> 'b res" where
  "foldR f [] s = Inr s"
| "foldR f (x # xs) s = bindR (f x s) (foldR f xs)"

definition no_rows :: cgroup_rows where
  "no_rows = \<lparr>cg_usage_usec = None, cg_memory_current = None, cg_memory_peak = None\<rparr>"

definition summary_cgroup :: "string \<Rightarrow> cgroup_rows res" where
  "summary_cgroup s = foldR cgroup_line (splitlines s) no_rows"

text \<open>\<open>int(x)\<close> of a JSON value.\<close>

definition int_of_json :: "json \<Rightarrow> int res" where
  "int_of_json j = (case j of JNum x \<Rightarrow> Inr (if x < 0 then \<lceil>x\<rceil> else \<lfloor>x\<rfloor>) | JBool b \<Rightarrow> Inr (if b then 1 else 0)
     | JStr s \<Rightarrow> int_of_string s | _ \<Rightarrow> Inl TypeError)"

fun counter_delta :: "dict \<Rightarrow> dict \<Rightarrow> string list \<Rightarrow> int option res" where
  "counter_delta before after [] = Inr None"
| "counter_delta before after (name # names) =
     (case map_of after name of
        Some v \<Rightarrow> bindR (int_of_json v) (\<lambda>a. bindR (int_of_json (get_or before name (JNum 0))) (\<lambda>b. Inr (Some (a - b))))
      | None \<Rightarrow> counter_delta before after names)"

definition IO_NAMES :: "string list" where
  "IO_NAMES = [''rbytes'', ''wbytes'', ''rios'', ''wios'']"

text \<open>One field \<open>name=value\<close> of an \<open>io.stat\<close> line; \<open>partition\<close> cuts at the first \<open>=\<close>.\<close>

definition io_field :: "string \<Rightarrow> (string \<Rightarrow> int) \<Rightarrow> (string \<Rightarrow> int) res" where
  "io_field fld totals =
     (case split_once ''='' fld of
        None \<Rightarrow> Inr totals
      | Some (name, value) \<Rightarrow>
          if name \<in> set IO_NAMES then bindR (int_of_string value) (\<lambda>n. Inr (totals(name := totals name + n)))
          else Inr totals)"

definition io_line :: "string \<Rightarrow> (string \<Rightarrow> int) \<Rightarrow> (string \<Rightarrow> int) res" where
  "io_line line totals =
     (case words line of
        [] \<Rightarrow> Inr totals
      | dev # fs \<Rightarrow> if CHR '':'' \<in> set dev then foldR io_field fs totals else Inr totals)"

definition io_counters :: "string \<Rightarrow> (string \<Rightarrow> int) res" where
  "io_counters s = foldR io_line (splitlines s) (\<lambda>_. 0)"

section \<open>The bootstrap interval\<close>

text \<open>One resample of \<open>n\<close> indices and its median.\<close>

fun resamples :: "('s, 'm) rng_scheme \<Rightarrow> real list \<Rightarrow> nat \<Rightarrow> 's \<Rightarrow> real list res" where
  "resamples g values 0 s = Inr []"
| "resamples g values (Suc k) s =
     (let (js, s') = draws g (length values) (length values) s in
      bindR (py_median (map (\<lambda>j. values ! j) js)) (\<lambda>m. bindR (resamples g values k s') (\<lambda>ms. Inr (m # ms))))"

definition bootstrap_median :: "('s, 'm) rng_scheme \<Rightarrow> real list \<Rightarrow> (real \<times> real) option res" where
  "bootstrap_median g values =
     (if length values < 5 then Inr None
      else bindR (resamples g values 10000 (seed_rng g 20260923)) (\<lambda>ms.
        let samples = sort ms in
        bindR (py_at samples 250) (\<lambda>a. bindR (py_at samples 9749) (\<lambda>b. Inr (Some (a, b))))))"

lemma resamples_range:
  assumes "in_range_rng g" and "values \<noteq> []" and "list_all is_float values" and "length values \<le> 2 ^ 51"
  shows "\<exists>ms. resamples g values k s = Inr ms \<and> length ms = k \<and> (\<forall>m \<in> set ms. Min (set values) \<le> m \<and> m \<le> Max (set values))"
proof (induction k arbitrary: s)
  case (Suc k)
  obtain js s' where js: "draws g (length values) (length values) s = (js, s')" by fastforce
  have n: "0 < length values" using assms(2) by simp
  have l: "length js = length values" using length_draws [of g "length values" "length values" s] js by simp
  have r: "\<And>j. j \<in> set js \<Longrightarrow> j < length values" using draws_range [OF assms(1) n] js by (metis fst_conv)
  let ?d = "map (\<lambda>j. values ! j) js"
  have d: "x \<in> set values" if "x \<in> set ?d" for x using that r by auto
  obtain m where m: "py_median ?d = Inr m" "Min (set values) \<le> m" "m \<le> Max (set values)"
  proof (rule median.stat_within [of ?d "Min (set values)" "Max (set values)"])
    show "?d \<noteq> []" "length ?d \<le> 2 ^ 51" using l n assms(4) by auto
    show "list_all is_float ?d" using assms(3) d by (auto simp: list_all_iff)
    show "Min (set values) \<le> x \<and> x \<le> Max (set values)" if "x \<in> set ?d" for x using d [OF that] by simp
  qed (use that in blast)
  obtain ms where ms: "resamples g values k s' = Inr ms" "length ms = k" "\<forall>m \<in> set ms. Min (set values) \<le> m \<and> m \<le> Max (set values)"
    using Suc by blast
  then show ?case using js m by simp
qed simp

lemma bootstrap_bounds:
  assumes "in_range_rng g" and "list_all is_float values" and "length values \<le> 2 ^ 51"
  shows "if length values < 5 then bootstrap_median g values = Inr None
    else \<exists>a b. bootstrap_median g values = Inr (Some (a, b)) \<and> a \<le> b
      \<and> Min (set values) \<le> a \<and> b \<le> Max (set values)"
proof (cases "length values < 5")
  case False
  then have "values \<noteq> []" by auto
  from resamples_range [OF assms(1) this assms(2,3)] obtain ms
    where ms: "resamples g values 10000 (seed_rng g 20260923) = Inr ms" "length ms = 10000"
      "\<forall>m \<in> set ms. Min (set values) \<le> m \<and> m \<le> Max (set values)" by blast
  have at: "py_at (sort ms) 250 = Inr (sort ms ! 250)" "py_at (sort ms) 9749 = Inr (sort ms ! 9749)"
    using ms(2) by (simp_all add: py_at_def)
  have le: "sort ms ! 250 \<le> sort ms ! 9749" using ms(2) by (intro sorted_nth_mono) simp_all
  have "sort ms ! 250 \<in> set ms" "sort ms ! 9749 \<in> set ms"
    using ms(2) nth_mem [of 250 "sort ms"] nth_mem [of 9749 "sort ms"] by simp_all
  with ms(3) have b: "Min (set values) \<le> sort ms ! 250" "sort ms ! 9749 \<le> Max (set values)" by blast+
  have "bootstrap_median g values = Inr (Some (sort ms ! 250, sort ms ! 9749))"
    using False ms(1) at by (simp add: bootstrap_median_def Let_def)
  with False le b show ?thesis by simp
qed (simp add: bootstrap_median_def)

text \<open>
  The reported interval is one: with at least five runs the 95% bootstrap interval of the median exists
  for every generator that draws in range, its ends are in order, and it lies between the slowest and the
  fastest run; with fewer there is none.
\<close>

theorem bootstrap_interval:
  assumes "in_range_rng g" and "list_all is_float values" and "length values \<le> 2 ^ 51"
  shows "if length values < 5 then bootstrap_median g values = Inr None
    else \<exists>a b. bootstrap_median g values = Inr (Some (a, b)) \<and> a \<le> b
      \<and> Min (set values) \<le> a \<and> b \<le> Max (set values)"
  using assms by (rule bootstrap_bounds)

theorem bootstrap_interval_witness:
  "\<exists>a b. bootstrap_median zero_rng [1, 2, 3, 4, 5] = Inr (Some (a, b)) \<and> a \<le> b \<and> 1 \<le> a \<and> b \<le> 5"
  using bootstrap_interval [OF zero_rng_in_range, of "[1, 2, 3, 4, 5]"] by auto

section \<open>The row of a KV run\<close>

text \<open>
  The files of a run's directory: \<open>result.json\<close> and \<open>error.txt\<close> if they exist, the texts of the other files and of
  those named after a container (\<open>f"{name}.cgroup-before.txt"\<close>), the recorded
  flash usage if it exists, and size and 512-byte blocks of every file under \<open>flash\<close> and \<open>cache-files\<close>.
\<close>

record run_files =
  rf_case :: string
  rf_repeat :: string
  rf_engine :: string
  rf_result :: "dict res option"
  rf_error :: "string option"
  rf_text :: "string \<Rightarrow> string res"
  rf_part :: "json \<Rightarrow> string \<Rightarrow> string res"
  rf_usage :: "dict res option"
  rf_flash_files :: "(int \<times> int) list"
  rf_cache_files :: "(int \<times> int) list"

definition num_at :: "dict \<Rightarrow> string \<Rightarrow> real res" where
  "num_at d k = bindR (item d k) num_of"

definition dict_at :: "dict \<Rightarrow> string \<Rightarrow> dict res" where
  "dict_at d k = bindR (item d k) dict_of"

definition opt_int :: "int option \<Rightarrow> json" where
  "opt_int x = (case x of None \<Rightarrow> JNull | Some n \<Rightarrow> JNum (of_int n))"

text \<open>\<open>a / n if n else None\<close>.\<close>

definition ratio :: "real \<Rightarrow> real \<Rightarrow> json" where
  "ratio a n = (if n = 0 then JNull else JNum (fl (a / n)))"

definition usage_of :: "cgroup_rows \<Rightarrow> int" where
  "usage_of c = (case cg_usage_usec c of None \<Rightarrow> 0 | Some n \<Rightarrow> n)"

definition file_bytes :: "(int \<times> int) list \<Rightarrow> json \<times> json" where
  "file_bytes fs = (JNum (of_int (sum_list (map fst fs))), JNum (of_int (sum_list (map (\<lambda>x. snd x * 512) fs))))"

definition flash_bytes :: "run_files \<Rightarrow> (json \<times> json) res" where
  "flash_bytes f =
     (case rf_usage f of
        Some r \<Rightarrow> bindR r (\<lambda>u. bindR (item u ''flash_file_logical_bytes'') (\<lambda>l.
          bindR (item u ''flash_file_allocated_bytes'') (\<lambda>a. Inr (l, a))))
      | None \<Rightarrow> Inr (file_bytes (rf_flash_files f)))"

definition stat_delta :: "dict \<Rightarrow> dict \<Rightarrow> string \<Rightarrow> int res" where
  "stat_delta before after name =
     bindR (int_of_json (get_or after name (JNum 0))) (\<lambda>a. bindR (int_of_json (get_or before name (JNum 0))) (\<lambda>b. Inr (a - b)))"

fun first_stat :: "dict \<Rightarrow> string list \<Rightarrow> int option res" where
  "first_stat d [] = Inr None"
| "first_stat d (name # names) =
     (case map_of d name of Some v \<Rightarrow> bindR (int_of_json v) (\<lambda>n. Inr (Some n)) | None \<Rightarrow> first_stat d names)"

text \<open>Fields taken over as they are: name in the row and in the result.\<close>

definition COPIED :: "(string \<times> string) list" where
  "COPIED = [(''objects_s'', ''successful_ops_s''), (''payload_mib_s'', ''payload_mib_s''), (''operations'', ''operations''),
     (''batches'', ''batches''), (''hits'', ''hits''), (''origins'', ''origins''), (''origin_bytes'', ''origin_bytes''),
     (''origin_bytes_avoided'', ''origin_bytes_avoided''), (''samples'', ''latency_samples''),
     (''warmup_stable'', ''warmup_stable''), (''dropped_arrivals'', ''dropped_arrivals'')]"

definition NVM_DELTAS :: "(string \<times> string) list" where
  "NVM_DELTAS = [(''nvm_written_bytes_delta'', ''nvm_used''),
     (''nvm_device_bytes_written_delta'', ''nvm_device_bytes_written''),
     (''nvm_device_bytes_read_delta'', ''nvm_device_bytes_read''), (''extstore_objects_read_delta'', ''extstore_objects_read''),
     (''extstore_bytes_written_delta'', ''extstore_bytes_written'')]"

definition hit_sources :: "string \<Rightarrow> real \<Rightarrow> real \<Rightarrow> int \<Rightarrow> dict" where
  "hit_sources engine hits gets nvm =
     (if engine = ''grpc_nvm'' then
        [(''flash_hits'', JNum (of_int nvm)), (''inferred_dram_hits'', JNum (hits - of_int nvm)),
         (''flash_hit_ratio'', ratio (of_int nvm) gets), (''inferred_dram_hit_ratio'', ratio (hits - of_int nvm) gets)]
      else if engine = ''grpc'' then
        [(''flash_hits'', JNum 0), (''inferred_dram_hits'', JNum hits), (''flash_hit_ratio'', JNum 0),
         (''inferred_dram_hit_ratio'', ratio hits gets)]
      else [])"

definition base_row :: "run_files \<Rightarrow> dict \<Rightarrow> dict res" where
  "base_row f d =
     bindR (item d ''errors'') (\<lambda>e. bindR (item d ''elapsed_s'') (\<lambda>t.
     Inr [(''case'', JStr (rf_case f)), (''repetition'', JStr (rf_repeat f)), (''engine'', JStr (rf_engine f)),
          (''errors'', e), (''elapsed_s'', t)]))"

definition latency_fields :: "dict \<Rightarrow> dict" where
  "latency_fields l = map (\<lambda>q. (q @ ''_ms'', get_or l q JNull)) [''p50'', ''p95'', ''p99'', ''p999'']"

definition kv_row :: "run_files \<Rightarrow> dict \<Rightarrow> dict res" where
  "kv_row f d =
     bindR (base_row f d) (\<lambda>base.
     bindR (bindR (rf_text f ''server-cgroup-before.txt'') summary_cgroup) (\<lambda>before.
     bindR (bindR (rf_text f ''server-cgroup-after.txt'') summary_cgroup) (\<lambda>after.
     bindR (bindR (rf_text f ''server-cgroup-before.txt'') io_counters) (\<lambda>io_before.
     bindR (bindR (rf_text f ''server-cgroup-after.txt'') io_counters) (\<lambda>io_after.
     bindR (dict_at d ''server_stats_before'') (\<lambda>sb. bindR (dict_at d ''server_stats_after'') (\<lambda>sa.
     bindR (flash_bytes f) (\<lambda>(logical, allocated).
     bindR (num_at d ''operations'') (\<lambda>ops. bindR (num_at d ''errors'') (\<lambda>errs.
     bindR (num_of (get_or d ''get_attempts'' (JNum ops))) (\<lambda>gets.
     bindR (mapR (\<lambda>(k, src). bindR (item d src) (\<lambda>v. Inr (k, v))) COPIED) (\<lambda>copied.
     bindR (num_at d ''hits'') (\<lambda>hits. bindR (num_at d ''origins'') (\<lambda>origins.
     bindR (dict_at d ''latency_ms'') (\<lambda>lat.
     bindR (dict_at d ''client_cgroup_after'') (\<lambda>ca. bindR (dict_at d ''client_cgroup_before'') (\<lambda>cb.
     bindR (num_of (get_or ca ''usage_usec'' (JNum 0))) (\<lambda>ua. bindR (num_of (get_or cb ''usage_usec'' (JNum 0))) (\<lambda>ub.
     bindR (stat_delta sb sa ''nvm_hit_count'') (\<lambda>nvm.
     bindR (mapR (\<lambda>(k, name). bindR (stat_delta sb sa name) (\<lambda>n. Inr (k, JNum (of_int n)))) NVM_DELTAS) (\<lambda>deltas.
     bindR (counter_delta sb sa [''extstore_bytes_read'']) (\<lambda>ext.
     bindR (counter_delta sb sa [''eviction_count'', ''evicted_keys'', ''evictions'']) (\<lambda>evictions.
     bindR (first_stat sa [''item_count'', ''curr_items'']) (\<lambda>items.
     bindR (first_stat sa [''used_size'', ''bytes'', ''used_memory'']) (\<lambda>used.
     let cpu = fl (of_int (usage_of after - usage_of before) / 1000000); completed = ops - errs in
     Inr (base @ take 4 copied @ [(''get_attempts'', JNum gets)] @ take 2 (drop 4 copied) @
       [(''hit_ratio'', ratio hits gets), (''byte_hit_ratio'', ratio hits gets), (''origin_per_1000_gets'', ratio (1000 * origins) gets)]
       @ take 2 (drop 6 copied) @ latency_fields lat @ drop 8 copied @
       [(''server_cpu_s'', JNum cpu), (''server_cpu_us_per_object'', ratio (fl (cpu * 1000000)) completed),
        (''server_memory_current_bytes'', opt_int (cg_memory_current after)),
        (''server_memory_peak_bytes'', opt_int (cg_memory_peak after))]
       @ map (\<lambda>n. (''cgroup_io_'' @ n @ ''_delta'', JNum (of_int (io_after n - io_before n)))) IO_NAMES @
       [(''client_cpu_s'', JNum (fl ((ua - ub) / 1000000))),
        (''client_memory_peak_bytes'', get_or ca ''memory.peak'' JNull),
        (''flash_file_logical_bytes'', logical), (''flash_file_allocated_bytes'', allocated),
        (''nvm_hits_delta'', JNum (of_int nvm))] @ deltas @
       [(''extstore_bytes_read_delta'', opt_int ext),
        (''evictions_delta'', opt_int evictions), (''cache_item_count_after'', opt_int items),
        (''cache_used_bytes_after'', opt_int used)]
       @ hit_sources (rf_engine f) hits gets nvm))))))))))))))))))))))))))"

section \<open>The row of an HTTP run\<close>

text \<open>Iteration over a JSON value: the items of a list, the characters of a string, the keys of a dictionary.\<close>

definition iterate :: "json \<Rightarrow> json list res" where
  "iterate j = (case j of JArr xs \<Rightarrow> Inr xs | JStr s \<Rightarrow> Inr (map (\<lambda>c. JStr [c]) s) | JObj d \<Rightarrow> Inr (map (\<lambda>kv. JStr (fst kv)) d)
     | _ \<Rightarrow> Inl TypeError)"

definition part_cgroups :: "run_files \<Rightarrow> json \<Rightarrow> (cgroup_rows \<times> cgroup_rows) res" where
  "part_cgroups f name =
     bindR (bindR (rf_part f name ''.cgroup-before.txt'') summary_cgroup) (\<lambda>before.
     bindR (bindR (rf_part f name ''.cgroup-after.txt'') summary_cgroup) (\<lambda>after. Inr (before, after)))"

definition cpu_seconds :: "cgroup_rows \<Rightarrow> cgroup_rows \<Rightarrow> real" where
  "cpu_seconds before after = fl (of_int (usage_of after - usage_of before) / 1000000)"

text \<open>CPU seconds and peak memory of one container on the path.\<close>

definition component :: "run_files \<Rightarrow> json \<Rightarrow> (real \<times> int) res" where
  "component f name =
     bindR (part_cgroups f name) (\<lambda>(before, after).
       Inr (cpu_seconds before after, case cg_memory_peak after of None \<Rightarrow> 0 | Some n \<Rightarrow> n))"

definition origin_parts_of :: "run_files \<Rightarrow> json \<Rightarrow> (json \<times> json) res" where
  "origin_parts_of f name =
     (if \<not> truthy name then Inr (JNull, JNull)
      else bindR (part_cgroups f name) (\<lambda>(before, after). Inr (JNum (cpu_seconds before after), opt_int (cg_memory_peak after))))"

text \<open>\<open>components[i] if engine == name else None\<close>.\<close>

definition if_engine :: "run_files \<Rightarrow> string \<Rightarrow> ('a \<Rightarrow> real) \<Rightarrow> 'a list \<Rightarrow> int \<Rightarrow> json res" where
  "if_engine f name value parts i =
     (if rf_engine f = name then bindR (py_at parts i) (\<lambda>c. Inr (JNum (value c))) else Inr JNull)"

definition http_row :: "run_files \<Rightarrow> dict \<Rightarrow> dict res" where
  "http_row f d =
     bindR (base_row f d) (\<lambda>base.
     bindR (origin_parts_of f (get_or d ''origin_container'' JNull)) (\<lambda>(origin_cpu, origin_memory).
     bindR (bindR (item d ''path_containers'') iterate) (\<lambda>names.
     bindR (mapR (component f) names) (\<lambda>parts.
     let cpu = foldl (\<lambda>s c. fl (s + fst c)) 0 parts; memory = of_int (sum_list (map snd parts)) in
     bindR (item d ''objects_s'') (\<lambda>objects. bindR (item d ''payload_mib_s'') (\<lambda>payload.
     bindR (num_at d ''successful_objects'') (\<lambda>ok_n. bindR (num_at d ''origin_requests_delta'') (\<lambda>origins.
     bindR (item d ''origin_bytes_delta'') (\<lambda>origin_bytes. bindR (num_at d ''size_bytes'') (\<lambda>bytes.
     bindR (mapR (item d) [''p50_ms'', ''p95_ms'', ''p99_ms'']) (\<lambda>percentiles.
     bindR (item d ''latency_samples'') (\<lambda>samples.
     bindR (num_at d ''client_cpu_usage_usec'') (\<lambda>client_cpu. bindR (item d ''client_memory_peak_bytes'') (\<lambda>client_memory.
     bindR (if_engine f ''nginx'' fst parts 0) (\<lambda>nginx_cpu.
     bindR (if_engine f ''grpc_adapter'' fst parts 1) (\<lambda>adapter_cpu.
     bindR (if_engine f ''grpc_adapter'' fst parts 0) (\<lambda>grpc_cpu.
     bindR (if_engine f ''grpc_adapter'' (\<lambda>c. of_int (snd c)) parts 1) (\<lambda>adapter_memory.
     bindR (if_engine f ''grpc_adapter'' (\<lambda>c. of_int (snd c)) parts 0) (\<lambda>grpc_memory.
     let share = fl (1 - fl (origins / max 1 ok_n)) in
     Inr (base @
       [(''objects_s'', objects), (''payload_mib_s'', payload), (''operations'', JNum ok_n), (''origins'', JNum origins),
        (''origin_bytes'', origin_bytes), (''origin_bytes_avoided'', JNum (max 0 (ok_n - origins) * bytes)),
        (''hit_ratio'', JNum share), (''byte_hit_ratio'', JNum share)]
       @ zip [''p50_ms'', ''p95_ms'', ''p99_ms''] percentiles @
       [(''p999_ms'', get_or d ''p999_ms'' JNull), (''samples'', samples), (''server_cpu_s'', JNum cpu),
        (''server_cpu_us_per_object'', JNum (fl (fl (cpu * 1000000) / max 1 ok_n))),
        (''server_memory_peak_bytes'', JNum memory), (''path_component_peak_sum_upper_bound_bytes'', JNum memory),
        (''client_cpu_s'', JNum (fl (client_cpu / 1000000))), (''client_memory_peak_bytes'', client_memory),
        (''cache_file_logical_bytes'', fst (file_bytes (rf_cache_files f))),
        (''cache_file_allocated_bytes'', snd (file_bytes (rf_cache_files f))),
        (''origin_cpu_s'', origin_cpu), (''origin_memory_peak_bytes'', origin_memory), (''nginx_cpu_s'', nginx_cpu),
        (''adapter_cpu_s'', adapter_cpu), (''grpc_server_cpu_s'', grpc_cpu), (''adapter_memory_peak_bytes'', adapter_memory),
        (''grpc_server_memory_peak_bytes'', grpc_memory)]))))))))))))))))))))"

definition row_of :: "string \<Rightarrow> run_files \<Rightarrow> dict \<Rightarrow> dict res" where
  "row_of kind f d = (if kind = ''kv'' then kv_row f d else http_row f d)"

section \<open>Collecting the runs\<close>

record failure =
  fa_case :: string
  fa_repeat :: string
  fa_engine :: string
  fa_error :: string

definition failure_of :: "run_files \<Rightarrow> string \<Rightarrow> failure" where
  "failure_of f e = \<lparr>fa_case = rf_case f, fa_repeat = rf_repeat f, fa_engine = rf_engine f, fa_error = e\<rparr>"

text \<open>The loop over the run directories in path order.\<close>

fun collect_runs :: "string \<Rightarrow> run_files list \<Rightarrow> (dict list \<times> failure list) res" where
  "collect_runs kind [] = Inr ([], [])"
| "collect_runs kind (f # fs) =
     (case rf_result f of
        None \<Rightarrow>
          bindR (collect_runs kind fs) (\<lambda>(rows, failures).
            Inr (rows, failure_of f (case rf_error f of Some e \<Rightarrow> e | None \<Rightarrow> ''missing result.json'') # failures))
      | Some r \<Rightarrow>
          bindR r (\<lambda>d. bindR (row_of kind f d) (\<lambda>row.
          bindR (collect_runs kind fs) (\<lambda>(rows, failures).
            Inr (row # rows, (case rf_error f of Some e \<Rightarrow> [failure_of f e] | None \<Rightarrow> []) @ failures)))))"

section \<open>Groups\<close>

definition NUMERIC :: "string list" where
  "NUMERIC = [''objects_s'', ''payload_mib_s'', ''p50_ms'', ''p95_ms'', ''p99_ms'', ''p999_ms'', ''hit_ratio'', ''byte_hit_ratio'',
     ''origins'', ''origin_bytes'', ''origin_bytes_avoided'', ''origin_per_1000_gets'', ''server_cpu_us_per_object'',
     ''server_memory_current_bytes'', ''server_memory_peak_bytes'', ''client_cpu_s'', ''client_memory_peak_bytes'',
     ''evictions_delta'', ''cache_item_count_after'', ''cache_used_bytes_after'', ''nvm_hits_delta'',
     ''nvm_device_bytes_read_delta'', ''nvm_device_bytes_written_delta'', ''cgroup_io_rbytes_delta'',
     ''cgroup_io_wbytes_delta'', ''cgroup_io_rios_delta'', ''cgroup_io_wios_delta'', ''flash_hits'', ''inferred_dram_hits'',
     ''flash_hit_ratio'', ''inferred_dram_hit_ratio'', ''extstore_objects_read_delta'', ''extstore_bytes_read_delta'',
     ''extstore_bytes_written_delta'', ''flash_file_allocated_bytes'', ''cache_file_allocated_bytes'', ''nginx_cpu_s'',
     ''adapter_cpu_s'', ''grpc_server_cpu_s'', ''adapter_memory_peak_bytes'', ''grpc_server_memory_peak_bytes'',
     ''origin_cpu_s'', ''origin_memory_peak_bytes'', ''path_component_peak_sum_upper_bound_bytes'']"

fun text_of :: "json \<Rightarrow> string" where
  "text_of (JStr s) = s"
| "text_of _ = []"

definition group_key :: "dict \<Rightarrow> string \<times> string" where
  "group_key row = (text_of (get_or row ''case'' JNull), text_of (get_or row ''engine'' JNull))"

text \<open>\<open>sorted(groups.items())\<close>: the groups in the order of their keys, the rows of a group in their order.\<close>

definition groups_of :: "dict list \<Rightarrow> ((string \<times> string) \<times> dict list) list" where
  "groups_of rows = map (\<lambda>k. (k, filter (\<lambda>r. group_key r = k) rows)) (sort (remdups (map group_key rows)))"

definition present :: "dict list \<Rightarrow> string \<Rightarrow> json list" where
  "present rs fld = filter (\<lambda>v. v \<noteq> JNull) (map (\<lambda>r. get_or r fld JNull) rs)"

definition medians_of :: "dict list \<Rightarrow> (string \<times> real) list res" where
  "medians_of rs =
     mapR (\<lambda>fld. bindR (mapR num_of (present rs fld)) (\<lambda>xs. bindR (py_median xs) (\<lambda>m. Inr (fld, m))))
       (filter (\<lambda>fld. present rs fld \<noteq> []) NUMERIC)"

record group_summary =
  gs_n :: nat
  gs_medians :: "(string \<times> real) list"
  gs_range :: "real \<times> real"
  gs_bootstrap :: "(real \<times> real) option"
  gs_repetitions :: "json list"
  gs_errors :: real

definition summarize_group :: "('s, 'm) rng_scheme \<Rightarrow> dict list \<Rightarrow> group_summary res" where
  "summarize_group g rs =
     bindR (medians_of rs) (\<lambda>ms.
     bindR (mapR (\<lambda>r. num_at r ''objects_s'') rs) (\<lambda>os.
     bindR (bootstrap_median g os) (\<lambda>b.
     bindR (mapR (\<lambda>r. item r ''repetition'') rs) (\<lambda>reps.
     bindR (mapR (\<lambda>r. num_at r ''errors'') rs) (\<lambda>errs.
     Inr \<lparr>gs_n = length rs, gs_medians = ms, gs_range = (Min (set os), Max (set os)), gs_bootstrap = b,
          gs_repetitions = reps, gs_errors = sum_list errs\<rparr>)))))"

definition summarize_groups :: "('s, 'm) rng_scheme \<Rightarrow> dict list \<Rightarrow> ((string \<times> string) \<times> group_summary) list res" where
  "summarize_groups g rows =
     mapR (\<lambda>(k, rs). bindR (summarize_group g rs) (\<lambda>s. Inr (k, s))) (groups_of rows)"

section \<open>Properties of the summary\<close>

lemma length_filter_keys:
  "distinct ks \<Longrightarrow> (\<And>r. r \<in> set rows \<Longrightarrow> key r \<in> set ks) \<Longrightarrow>
     sum_list (map (\<lambda>k. length (filter (\<lambda>r. key r = k) rows)) ks) = length rows"
proof (induction rows)
  case (Cons r rows)
  have split: "sum_list (map (\<lambda>k. length (filter (\<lambda>x. key x = k) (r # rows))) ks) =
      sum_list (map (\<lambda>k. if k = key r then 1 else 0) ks) + sum_list (map (\<lambda>k. length (filter (\<lambda>x. key x = k) rows)) ks)"
    unfolding sum_list_addf [symmetric] by (intro arg_cong [where f = sum_list] map_cong) auto
  have "sum_list (map (\<lambda>k. if k = key r then 1 else (0 :: nat)) ks) = 1"
    using Cons.prems by (simp add: sum_list_distinct_conv_sum_set sum.delta')
  with split Cons show ?case by simp
qed (simp add: sum_list_0)

definition run_ident :: "run_files \<Rightarrow> string \<times> string \<times> string" where
  "run_ident f = (rf_case f, rf_repeat f, rf_engine f)"

definition row_ident :: "dict \<Rightarrow> string \<times> string \<times> string" where
  "row_ident r = (text_of (get_or r ''case'' JNull), text_of (get_or r ''repetition'' JNull), text_of (get_or r ''engine'' JNull))"

definition failure_ident :: "failure \<Rightarrow> string \<times> string \<times> string" where
  "failure_ident x = (fa_case x, fa_repeat x, fa_engine x)"

definition failed :: "run_files \<Rightarrow> bool" where
  "failed f \<longleftrightarrow> rf_result f = None \<or> rf_error f \<noteq> None"

lemma base_row_prefix:
  "kv_row f d = Inr row \<Longrightarrow> \<exists>base rest. base_row f d = Inr base \<and> row = base @ rest"
  "http_row f d = Inr row \<Longrightarrow> \<exists>base rest. base_row f d = Inr base \<and> row = base @ rest"
  unfolding kv_row_def http_row_def by (elim bindR_InrE; auto simp: Let_def elim!: bindR_InrE)+

lemma row_of_ident: "row_of kind f d = Inr row \<Longrightarrow> row_ident row = run_ident f"
  using base_row_prefix [of f d row]
  by (auto simp: row_of_def base_row_def row_ident_def run_ident_def get_or_def split: if_splits)

lemma failure_ident_of [simp]: "failure_ident (failure_of f e) = run_ident f"
  by (simp add: failure_ident_def failure_of_def run_ident_def)

lemma collect_runs_facts:
  assumes "collect_runs kind fs = Inr (rows, failures)"
  shows "map row_ident rows = map run_ident (filter (\<lambda>f. rf_result f \<noteq> None) fs)
    \<and> map failure_ident failures = map run_ident (filter failed fs)"
  using assms
proof (induction fs arbitrary: rows failures)
  case (Cons f fs)
  show ?case
  proof (cases "rf_result f")
    case None
    with Cons show ?thesis by (auto simp: failed_def split: option.splits)
  next
    case (Some r)
    with Cons show ?thesis by (auto simp: failed_def row_of_ident split: option.splits)
  qed
qed simp

text \<open>
  No run disappears from a summary: the rows are, in order, the runs with a \<open>result.json\<close>, and the list of
  failures names exactly the runs without one and those with an \<open>error.txt\<close>. A run that left both is in
  both lists, and is counted as successful and as failed in the line printed at the end.
\<close>

theorem collect_runs_complete:
  assumes "collect_runs kind fs = Inr (rows, failures)"
  shows "map row_ident rows = map run_ident (filter (\<lambda>f. rf_result f \<noteq> None) fs)
    \<and> map failure_ident failures = map run_ident (filter failed fs)"
  using assms by (rule collect_runs_facts)

lemma groups_of_counts: "sum_list (map (\<lambda>x. length (snd x)) (groups_of rows)) = length rows"
  using length_filter_keys [of "sort (remdups (map group_key rows))" rows group_key]
  by (simp add: groups_of_def comp_def)

lemma groups_of_nonempty: "(k, rs) \<in> set (groups_of rows) \<Longrightarrow> rs \<noteq> []"
  by (auto simp: groups_of_def filter_empty_conv)

lemma summarize_group_parts:
  assumes "summarize_group g rs = Inr s"
  obtains os where "mapR (\<lambda>r. num_at r ''objects_s'') rs = Inr os" and "gs_n s = length rs" and "gs_range s = (Min (set os), Max (set os))"
    and "bootstrap_median g os = Inr (gs_bootstrap s)"
  using assms unfolding summarize_group_def by auto

lemma summarize_groups_counts:
  "mapR (\<lambda>(k, rs). bindR (summarize_group g rs) (\<lambda>s. Inr (k, s))) gs = Inr out \<Longrightarrow>
     map (\<lambda>(k, s). (k, gs_n s)) out = map (\<lambda>(k, rs). (k, length rs)) gs"
  by (induction gs arbitrary: out) (auto elim!: summarize_group_parts)

lemma summarize_groups_member:
  "mapR (\<lambda>(k, rs). bindR (summarize_group g rs) (\<lambda>s. Inr (k, s))) gs = Inr out \<Longrightarrow> (k, s) \<in> set out \<Longrightarrow>
     \<exists>rs. (k, rs) \<in> set gs \<and> summarize_group g rs = Inr s"
  by (induction gs arbitrary: out) (auto, blast+)

lemma groups_of_member: "(k, rs) \<in> set (groups_of rows) \<Longrightarrow> rs = filter (\<lambda>r. group_key r = k) rows"
  by (auto simp: groups_of_def)

definition float_objects :: "dict list \<Rightarrow> bool" where
  "float_objects rows \<longleftrightarrow> (\<forall>r \<in> set rows. \<forall>x. num_at r ''objects_s'' = Inr x \<longrightarrow> is_float x)"

definition good_summary :: "dict list \<Rightarrow> string \<times> string \<Rightarrow> group_summary \<Rightarrow> bool" where
  "good_summary rows k s \<longleftrightarrow>
     gs_n s = length (filter (\<lambda>r. group_key r = k) rows) \<and> 0 < gs_n s
     \<and> (gs_bootstrap s = None \<longleftrightarrow> gs_n s < 5)
     \<and> (\<forall>a b. gs_bootstrap s = Some (a, b) \<longrightarrow> fst (gs_range s) \<le> a \<and> a \<le> b \<and> b \<le> snd (gs_range s))"

lemma mapR_floats:
  assumes "mapR f xs = Inr ys" and "\<forall>x \<in> set xs. \<forall>y. f x = Inr y \<longrightarrow> P y" shows "list_all P ys"
  using assms by (induction xs arbitrary: ys) auto

lemma good_group:
  assumes "in_range_rng g" and "float_objects rows" and "length rows \<le> 2 ^ 51"
    and "(k, rs) \<in> set (groups_of rows)" and "summarize_group g rs = Inr s"
  shows "good_summary rows k s"
proof -
  obtain os where o: "mapR (\<lambda>r. num_at r ''objects_s'') rs = Inr os" "gs_n s = length rs" "gs_range s = (Min (set os), Max (set os))"
      "bootstrap_median g os = Inr (gs_bootstrap s)"
    by (rule summarize_group_parts [OF assms(5)])
  have rs: "rs = filter (\<lambda>r. group_key r = k) rows" using groups_of_member [OF assms(4)] .
  have "list_all is_float os" using assms(2) by (intro mapR_floats [OF o(1)]) (auto simp: rs float_objects_def)
  moreover have len: "length os = length rs" using mapR_length [OF o(1)] .
  moreover have "length rs \<le> length rows" by (simp add: rs)
  ultimately have b: "if length os < 5 then bootstrap_median g os = Inr None
      else \<exists>a b. bootstrap_median g os = Inr (Some (a, b)) \<and> a \<le> b \<and> Min (set os) \<le> a \<and> b \<le> Max (set os)"
    using bootstrap_bounds [OF assms(1), of os] assms(3) by simp
  have "rs \<noteq> []" using groups_of_nonempty [OF assms(4)] .
  with b o len show ?thesis by (auto simp: good_summary_def rs split: if_splits)
qed

text \<open>
  C34. Every row is in exactly one group: the group sizes add up to the number of rows, each group holds the
  rows of its case and engine and is not empty; its bootstrap interval is missing exactly below five runs
  and otherwise lies within the group's range of throughputs.
\<close>

theorem group_summaries:
  assumes "in_range_rng g" and "float_objects rows" and "length rows \<le> 2 ^ 51" and "summarize_groups g rows = Inr out"
  shows "sum_list (map (\<lambda>x. gs_n (snd x)) out) = length rows \<and> (\<forall>(k, s) \<in> set out. good_summary rows k s)"
proof -
  have m: "mapR (\<lambda>(k, rs). bindR (summarize_group g rs) (\<lambda>s. Inr (k, s))) (groups_of rows) = Inr out"
    using assms(4) by (simp add: summarize_groups_def)
  from arg_cong [OF summarize_groups_counts [OF m], of "map snd"]
  have "map (\<lambda>x. gs_n (snd x)) out = map (\<lambda>x. length (snd x)) (groups_of rows)" by (simp add: case_prod_beta comp_def)
  then have "sum_list (map (\<lambda>x. gs_n (snd x)) out) = length rows" using groups_of_counts [of rows] by simp
  moreover have "good_summary rows k s" if "(k, s) \<in> set out" for k s
    using summarize_groups_member [OF m that] good_group [OF assms(1-3)] by blast
  ultimately show ?thesis by blast
qed

section \<open>Examples\<close>

definition lost_run :: run_files where
  "lost_run = \<lparr>rf_case = ''hit_1k_c8'', rf_repeat = ''r1'', rf_engine = ''redis'', rf_result = None, rf_error = Some ''timeout'',
     rf_text = (\<lambda>name. Inl (FileNotFoundError name)), rf_part = (\<lambda>part suffix. Inl (FileNotFoundError suffix)), rf_usage = None,
     rf_flash_files = [], rf_cache_files = []\<rparr>"

theorem collect_runs_complete_witness:
  "\<exists>rows failures. collect_runs ''kv'' [lost_run] = Inr (rows, failures)
     \<and> map failure_ident failures = [(''hit_1k_c8'', ''r1'', ''redis'')]"
proof -
  have "\<exists>rows failures. collect_runs ''kv'' [lost_run] = Inr (rows, failures)" by (simp add: lost_run_def)
  then obtain rows failures where c: "collect_runs ''kv'' [lost_run] = Inr (rows, failures)" by blast
  from collect_runs_complete [OF c] c show ?thesis by (auto simp: lost_run_def failed_def run_ident_def)
qed

definition sample_row :: dict where
  "sample_row = [(''case'', JStr ''hit_1k_c8''), (''engine'', JStr ''redis''), (''repetition'', JStr ''r1''), (''errors'', JNum 0),
     (''objects_s'', JNum 5)]"

lemma py_median_one: "py_median [x] = Inr x"
  using py_median_odd [of "[x]" 0] by simp

lemma sample_medians: "medians_of [sample_row] = Inr [(''objects_s'', 5)]"
  by (simp add: medians_of_def NUMERIC_def present_def sample_row_def get_or_def py_median_one)

lemma sample_groups: "\<exists>out. summarize_groups zero_rng [sample_row] = Inr out"
  by (simp add: summarize_groups_def groups_of_def summarize_group_def sample_medians bootstrap_median_def)
    (simp add: sample_row_def num_at_def item_def)

theorem group_summaries_witness:
  "\<exists>out. summarize_groups zero_rng [sample_row] = Inr out \<and> sum_list (map (\<lambda>x. gs_n (snd x)) out) = 1"
proof -
  obtain out where o: "summarize_groups zero_rng [sample_row] = Inr out" using sample_groups by blast
  have f: "float_objects [sample_row]" by (simp add: float_objects_def sample_row_def num_at_def item_def)
  from group_summaries [OF zero_rng_in_range f _ o] o show ?thesis by auto
qed

end
