(* ===== verification/Strong_Output.thy ===== *)
theory Strong_Output
  imports Strong_Summary Charts
begin

text \<open>
  What \<open>bench/strong/summarize.py\<close> writes from the rows and groups of \<open>Strong_Summary\<close>: the run-level CSV, the summary
  document and the two charts; and the figures of an HTTP row.
\<close>

section \<open>The files\<close>

text \<open>\<open>list(dict.fromkeys(key for row in rows for key in row))\<close>: every column once, in the order of first appearance.\<close>

definition columns_of :: "dict list \<Rightarrow> string list" where
  "columns_of rows = rev (remdups (rev (concat (map (map fst) rows))))"

definition pair_json :: "real \<times> real \<Rightarrow> json" where
  "pair_json p = JArr [JNum (fst p), JNum (snd p)]"

definition group_json :: "group_summary \<Rightarrow> json" where
  "group_json s =
     JObj [(''n'', JNum (real (gs_n s))), (''medians'', JObj (map (\<lambda>(k, v). (k, JNum v)) (gs_medians s))),
           (''range_objects_s'', pair_json (gs_range s)),
           (''bootstrap95_median_objects_s'', case gs_bootstrap s of None \<Rightarrow> JNull | Some p \<Rightarrow> pair_json p),
           (''repetitions'', JArr (gs_repetitions s)), (''errors'', JNum (gs_errors s))]"

definition failure_json :: "failure \<Rightarrow> json" where
  "failure_json x =
     JObj [(''case'', JStr (fa_case x)), (''repetition'', JStr (fa_repeat x)), (''engine'', JStr (fa_engine x)), (''error'', JStr (fa_error x))]"

definition summary_key :: "string \<times> string \<Rightarrow> string" where
  "summary_key k = fst k @ ''/'' @ snd k"

definition summary_method :: string where
  "summary_method = ''Per-run p50/p95/p99/p999 are not pooled. Group medians use run values; ''
     @ ''95% intervals are 10,000 seeded bootstrap resamples of run medians when n>=5. ''
     @ ''Small-n bootstrap intervals are descriptive, not a guarantee of coverage.''"

definition summary_document :: "string \<Rightarrow> string \<Rightarrow> ((string \<times> string) \<times> group_summary) list \<Rightarrow> failure list \<Rightarrow> json" where
  "summary_document input kind groups failures =
     JObj [(''source'', JStr input), (''kind'', JStr kind),
           (''groups'', JObj (map (\<lambda>(k, s). (summary_key k, group_json s)) groups)),
           (''failed_runs'', JArr (map failure_json failures)), (''method'', JStr summary_method)]"

text \<open>
  The medians the charts draw. A key of the summary is taken apart again with \<open>split("/")\<close>; one that does not give two
  parts fails to unpack in \<open>svg_chart\<close>.
\<close>

definition chart_group :: "string \<times> group_summary \<Rightarrow> (string list \<times> (string \<times> real) list) res" where
  "chart_group entry =
     (case entry of (k, s) \<Rightarrow>
        (case map_of (gs_medians s) ''objects_s'' of
           None \<Rightarrow> Inl (KeyError ''objects_s'')
         | Some x \<Rightarrow> Inr (split_on CHR ''/'' k, (''objects_s'', x) #
             (case map_of (gs_medians s) ''hit_ratio'' of None \<Rightarrow> [] | Some h \<Rightarrow> [(''hit_ratio'', h)]))))"

definition unpack_key :: "string list \<times> 'a \<Rightarrow> ((string \<times> string) \<times> 'a) res" where
  "unpack_key entry = (case entry of ([cs, engine], m) \<Rightarrow> Inr ((cs, engine), m) | _ \<Rightarrow> Inl (ValueError ''unpack''))"

definition draw :: "(string list \<times> (string \<times> real) list) list \<Rightarrow> string \<Rightarrow> string \<Rightarrow> string \<Rightarrow> string option res" where
  "draw groups title fld uni = bindR (mapR unpack_key groups) (\<lambda>gs. Inr (svg_chart title gs fld uni))"

definition strong_summary :: "('s, 'm) rng_scheme \<Rightarrow> string \<Rightarrow> string \<Rightarrow> run_files list \<Rightarrow> written \<times> unit res" where
  "strong_summary g input kind runs =
     (case collect_runs kind runs of
        Inl e \<Rightarrow> ([], Inl e)
      | Inr (rows, failures) \<Rightarrow>
          let csv = (''runs.csv'', Csv (columns_of rows) rows) in
          (case summarize_groups g rows of
             Inl e \<Rightarrow> ([csv], Inl e)
           | Inr groups \<Rightarrow>
               let doc = (''summary.json'', Json (summary_document input kind groups failures)) in
               (case mapR chart_group (map (\<lambda>(k, s). (summary_key k, s)) groups) of
                  Inl e \<Rightarrow> ([csv, doc], Inl e)
                | Inr gs \<Rightarrow>
                    (case write_charts [(''throughput.svg'', draw gs ''Successful objects per second'' ''objects_s'' ''objects/s''),
                                        (''hit-ratio.svg'', draw gs ''Object hit ratio'' ''hit_ratio'' ''fraction'')] of
                       (out, q) \<Rightarrow> ([csv, doc] @ out, q)))))"

section \<open>The columns\<close>

lemma columns_of_facts: "distinct (columns_of rows)" "r \<in> set rows \<Longrightarrow> set (map fst r) \<subseteq> set (columns_of rows)"
  by (auto simp: columns_of_def)

text \<open>
  C35. The CSV of the runs is complete and well formed: whenever the rows and groups can be computed, the first file written is the table with one
  row per run with a result, in order; its columns are distinct and hold every field of every row; and the document that follows names
  the failed runs.
\<close>

theorem strong_summary_written:
  assumes "collect_runs kind runs = Inr (rows, failures)" and "summarize_groups g rows = Inr groups"
  shows "\<exists>columns out q. strong_summary g input kind runs =
      ((''runs.csv'', Csv columns rows) # (''summary.json'', Json (summary_document input kind groups failures)) # out, q)
    \<and> distinct columns \<and> list_all (\<lambda>r. set (map fst r) \<subseteq> set columns) rows
    \<and> map row_ident rows = map run_ident (filter (\<lambda>f. rf_result f \<noteq> None) runs)
    \<and> map failure_ident failures = map run_ident (filter failed runs)"
proof -
  have c: "list_all (\<lambda>r. set (map fst r) \<subseteq> set (columns_of rows)) rows" using columns_of_facts(2) by (auto simp: list_all_iff)
  have "\<exists>out q. strong_summary g input kind runs =
      ((''runs.csv'', Csv (columns_of rows) rows) # (''summary.json'', Json (summary_document input kind groups failures)) # out, q)"
    using assms by (simp add: strong_summary_def Let_def split: sum.splits prod.splits)
  then show ?thesis using collect_runs_facts [OF assms(1)] columns_of_facts(1) [of rows] c by blast
qed

section \<open>The figures of an HTTP run\<close>

text \<open>
  The reported hit ratio of an HTTP run is a share: when the origin was asked at most once per object served, the ratio lies between 0 and 1, with
  all roundings, and the bytes avoided are those of the objects it was not asked for.
\<close>

theorem http_row_shares:
  assumes "http_row f d = Inr row" and "num_at d ''successful_objects'' = Inr n" and "num_at d ''origin_requests_delta'' = Inr k"
    and "num_at d ''size_bytes'' = Inr b" and "0 \<le> k" and "k \<le> n" and "0 \<le> b"
  shows "(\<exists>x. get_or row ''hit_ratio'' JNull = JNum x \<and> 0 \<le> x \<and> x \<le> 1)
    \<and> get_or row ''origin_bytes_avoided'' JNull = JNum ((n - k) * b) \<and> 0 \<le> (n - k) * b"
proof -
  let ?x = "fl (1 - fl (k / max 1 n))"
  have q: "0 \<le> k / max 1 n" "k / max 1 n \<le> 1" using assms(5,6) by (auto simp: max_def divide_le_eq)
  have "0 \<le> fl (k / max 1 n)" using fl_nonneg [OF q(1)] .
  moreover have "fl (k / max 1 n) \<le> 1" using fl_mono [OF q(2)] by simp
  ultimately have "0 \<le> 1 - fl (k / max 1 n)" "1 - fl (k / max 1 n) \<le> 1" by simp_all
  then have x: "0 \<le> ?x" "?x \<le> 1" using fl_nonneg fl_mono [of "1 - fl (k / max 1 n)" 1] by simp_all
  have "get_or row ''hit_ratio'' JNull = JNum ?x \<and> get_or row ''origin_bytes_avoided'' JNull = JNum (max 0 (n - k) * b)"
    using assms(1-4) unfolding http_row_def base_row_def Let_def by (elim bindR_InrE) (auto simp: get_or_def Let_def elim!: bindR_InrE)
  then show ?thesis using x assms(6,7) by simp
qed

section \<open>Examples\<close>

definition direct_run :: run_files where
  "direct_run = lost_run\<lparr>rf_engine := ''origin_direct''\<rparr>"

definition direct_result :: dict where
  "direct_result = [(''errors'', JNum 0), (''elapsed_s'', JNum 60), (''path_containers'', JArr []), (''objects_s'', JNum 100), (''payload_mib_s'', JNum 25),
     (''successful_objects'', JNum 6000), (''origin_requests_delta'', JNum 1500), (''origin_bytes_delta'', JNum 0), (''size_bytes'', JNum 256),
     (''p50_ms'', JNum 5), (''p95_ms'', JNum 6), (''p99_ms'', JNum 7), (''latency_samples'', JNum 6000), (''client_cpu_usage_usec'', JNum 1000000),
     (''client_memory_peak_bytes'', JNum 1048576)]"

text \<open>A run with a result and one without: the table has a row, and the document names the other.\<close>

definition direct_files :: run_files where
  "direct_files = direct_run\<lparr>rf_result := Some (Inr direct_result), rf_error := None\<rparr>"

definition measured_field :: "string \<times> json \<Rightarrow> bool" where
  "measured_field e \<longleftrightarrow> snd e = JNull \<or> (\<exists>x. snd e = JNum x) \<or> fst e \<in> {''case'', ''engine'', ''repetition''}"

lemma one_row_medians:
  assumes "list_all measured_field r"
  shows "\<exists>m. medians_of [r] = Inr m"
proof -
  have one: "\<exists>y. bindR (mapR num_of (present [r] fld)) (\<lambda>xs. bindR (py_median xs) (\<lambda>m. Inr (fld, m))) = Inr y"
    if f: "fld \<in> set NUMERIC" "present [r] fld \<noteq> []" for fld
  proof -
    have n: "fld \<notin> {''case'', ''engine'', ''repetition''}" using f(1) by (auto simp: NUMERIC_def)
    have p: "get_or r fld JNull \<noteq> JNull" using f(2) by (simp add: present_def split: if_splits)
    then obtain v where v: "map_of r fld = Some v" "get_or r fld JNull = v" by (auto simp: get_or_def split: option.splits)
    have "measured_field (fld, v)" using assms map_of_SomeD [OF v(1)] by (simp add: list_all_iff)
    then obtain x where "v = JNum x" using n p v(2) by (auto simp: measured_field_def)
    then show ?thesis using v(2) by (simp add: present_def py_median_one)
  qed
  have ex: "\<exists>ys. mapR f xs = Inr ys" if "\<And>x. x \<in> set xs \<Longrightarrow> \<exists>y. f x = Inr y" for f :: "string \<Rightarrow> (string \<times> real) res" and xs
    using that by (induction xs) fastforce+
  show ?thesis unfolding medians_of_def by (rule ex) (rule one, simp_all)
qed

lemma direct_row: "\<exists>row. http_row direct_files direct_result = Inr row \<and> list_all measured_field row
    \<and> num_at row ''objects_s'' = Inr 100 \<and> num_at row ''errors'' = Inr 0 \<and> item row ''repetition'' = Inr (JStr ''r1'')"
  by (simp add: http_row_def base_row_def direct_files_def direct_run_def lost_run_def direct_result_def num_at_def item_def get_or_def origin_parts_of_def
      iterate_def if_engine_def Let_def file_bytes_def measured_field_def)

theorem strong_summary_written_witness:
  "\<exists>row groups columns out q. strong_summary zero_rng ''runs'' ''http'' [direct_files, lost_run] =
      ((''runs.csv'', Csv columns [row]) # (''summary.json'', Json (summary_document ''runs'' ''http'' groups [failure_of lost_run ''timeout''])) # out, q)
    \<and> distinct columns \<and> set (map fst row) \<subseteq> set columns"
proof -
  obtain row where row: "http_row direct_files direct_result = Inr row" "list_all measured_field row" "num_at row ''objects_s'' = Inr 100"
      "num_at row ''errors'' = Inr 0" "item row ''repetition'' = Inr (JStr ''r1'')" using direct_row by blast
  have "collect_runs ''http'' [direct_files, lost_run] = Inr ([row], [failure_of lost_run ''timeout''])"
    using row(1) by (simp add: direct_files_def lost_run_def row_of_def)
  moreover obtain groups where "summarize_groups zero_rng [row] = Inr groups"
    using one_row_medians [OF row(2)] row(3-) by (auto simp: summarize_groups_def groups_of_def summarize_group_def bootstrap_median_def)
  ultimately show ?thesis
    using strong_summary_written [of "''http''" "[direct_files, lost_run]" "[row]" "[failure_of lost_run ''timeout'']" zero_rng groups "''runs''"] by fastforce
qed

theorem http_row_shares_witness:
  "\<exists>row. http_row direct_run direct_result = Inr row \<and> get_or row ''origin_bytes_avoided'' JNull = JNum (4500 * 256)"
proof -
  have f: "num_at direct_result ''successful_objects'' = Inr 6000" "num_at direct_result ''origin_requests_delta'' = Inr 1500"
      "num_at direct_result ''size_bytes'' = Inr 256"
    by (simp_all add: direct_result_def num_at_def item_def)
  have "\<exists>row. http_row direct_run direct_result = Inr row"
    by (simp add: http_row_def base_row_def direct_run_def lost_run_def direct_result_def num_at_def item_def get_or_def origin_parts_of_def iterate_def
        if_engine_def Let_def)
  then obtain row where row: "http_row direct_run direct_result = Inr row" ..
  from http_row_shares [OF row f] row show ?thesis by simp
qed

end
