(* ===== verification/Matrix_Summary.thy ===== *)
theory Matrix_Summary
  imports Strong_Summary Charts Report Investigation_Http
begin

text \<open>
  The summaries of the investigation, \<open>bench/investigation/summarize.py\<close> and \<open>summarize_http.py\<close>: the counters found in
  the cgroup texts, the row of a run, the rule that a later run of an engine and case replaces an earlier one, and
  the files written. The last section connects the HTTP summary with the harness whose files it reads.
\<close>

section \<open>Counters\<close>

text \<open>
  \<open>re.search(rf"^{key} (\d+)$", text, re.M)\<close>: the first line, between line feeds, that is the key, a space and digits;
  and \<open>^(\d+)$\<close>, the first line of digits only.
\<close>

definition digits_after :: "string \<Rightarrow> string \<Rightarrow> int option" where
  "digits_after pre line =
     (let ds = drop (length pre) line in
      if prefix pre line \<and> ds \<noteq> [] \<and> list_all is_digit ds then Some (int (nat_of_digits ds)) else None)"

fun first_match :: "('a \<Rightarrow> 'b option) \<Rightarrow> 'a list \<Rightarrow> 'b option" where
  "first_match f [] = None"
| "first_match f (x # xs) = (case f x of None \<Rightarrow> first_match f xs | Some y \<Rightarrow> Some y)"

definition search_counter :: "string \<Rightarrow> string \<Rightarrow> int option" where
  "search_counter pre s = first_match (digits_after pre) (split_on (CHR 0x0A) s)"

text \<open>
  \<open>re.findall(rf"\b{key}=(\d+)", text)\<close>: scanning from the left, a match begins where the key follows a character that is not
  part of a word and its digits are taken as far as they go.
\<close>

definition is_word :: "char \<Rightarrow> bool" where
  "is_word c = (let code = of_char c :: nat in is_digit c \<or> code = 95 \<or> code \<in> {65..90} \<or> code \<in> {97..122})"

function find_counters :: "string \<Rightarrow> bool \<Rightarrow> string \<Rightarrow> int list" where
  "find_counters key boundary [] = []"
| "find_counters key boundary (c # cs) =
     (let rest = drop (length key + 1) (c # cs); ds = takeWhile is_digit rest in
      if boundary \<and> prefix (key @ ''='') (c # cs) \<and> ds \<noteq> []
      then int (nat_of_digits ds) # find_counters key False (dropWhile is_digit rest)
      else find_counters key (\<not> is_word c) cs)"
  by pat_completeness auto

termination
proof (relation "measure (\<lambda>(key, b, s). length s)")
  fix key :: string and b c cs and rest ds :: string
  assume rest: "rest = drop (length key + 1) (c # cs)"
  have "length (dropWhile is_digit rest) \<le> length rest" by (rule length_dropWhile_le)
  then show "((key, False, dropWhile is_digit rest), (key, b, c # cs)) \<in> measure (\<lambda>(key, b, s). length s)" using rest by simp
qed auto

definition counters :: "string option \<Rightarrow> (string \<times> int) list" where
  "counters t =
     (case t of None \<Rightarrow> [] | Some s \<Rightarrow>
        [(key, n). key \<leftarrow> [''usage_usec'', ''user_usec'', ''system_usec''],
                   n \<leftarrow> (case search_counter (key @ '' '') s of None \<Rightarrow> [] | Some n \<Rightarrow> [n])]
        @ (case search_counter [] s of None \<Rightarrow> [] | Some n \<Rightarrow> [(''memory_current'', n)])
        @ map (\<lambda>key. (key, sum_list (find_counters key True s))) IO_NAMES)"

definition counter_of :: "(string \<times> int) list \<Rightarrow> string \<Rightarrow> int" where
  "counter_of cs key = (case map_of cs key of None \<Rightarrow> 0 | Some n \<Rightarrow> n)"

section \<open>The row of a run\<close>

record raw_run =
  rr_engine :: string
  rr_case :: string
  rr_path :: string
  rr_result :: "json res"
  rr_before :: "string option"
  rr_after :: "string option"

text \<open>\<open>a or b\<close> on values.\<close>

definition or_else :: "json \<Rightarrow> json \<Rightarrow> json" where
  "or_else a b = (if truthy a then a else b)"

definition version_of :: "dict \<Rightarrow> json" where
  "version_of d =
     or_else (get_or d ''valkey_version'' JNull)
       (or_else (get_or d ''version'' JNull) (get_or d ''redis_version'' (JStr [])))"

definition to_mib :: "int \<Rightarrow> json" where
  "to_mib n = JNum (fl (of_int n / 1048576))"

definition inv_row :: "raw_run \<Rightarrow> dict res" where
  "inv_row f =
     bindR (rr_result f) (\<lambda>j. bindR (subscript j ''args'') (\<lambda>args. bindR (dict_of j) (\<lambda>r.
     let before = counters (rr_before f); after = counters (rr_after f); delta = (\<lambda>k. counter_of after k - counter_of before k);
         n = get_or r ''measured_operations'' (get_or r ''operations'' (JNum 0)); hits = get_or r ''object_hits'' (JNum 0);
         reads = get_or r ''read_operations'' n in
     bindR (dict_of (get_or r ''stats_after'' (JObj []))) (\<lambda>sa. bindR (dict_of (get_or r ''stats_before'' (JObj []))) (\<lambda>sb.
     bindR (dict_of (get_or r ''latency_ms'' (get_or r ''batch_latency_ms'' (JObj [])))) (\<lambda>latency.
     bindR (mapR (subscript args) [''value_bytes'', ''pattern'', ''mode'', ''concurrency'']) (\<lambda>options.
     bindR (item r ''successful_ops_s'') (\<lambda>ops_s. bindR (item r ''payload_mib_s'') (\<lambda>payload. bindR (item r ''errors'') (\<lambda>errors.
     bindR (if truthy reads \<and> map_of r ''object_hits'' \<noteq> None
            then bindR (num_of hits) (\<lambda>h. bindR (num_of reads) (\<lambda>k. Inr (JNum (fl (h / k))))) else Inr JNull) (\<lambda>hit_ratio.
     bindR (num_of (get_or sa ''nvm_hit_count'' (JNum 0))) (\<lambda>na. bindR (num_of (get_or sb ''nvm_hit_count'' (JNum 0))) (\<lambda>nb.
     bindR (if truthy n then bindR (num_of n) (\<lambda>k. Inr (JNum (fl (of_int (delta ''usage_usec'') / k)))) else Inr JNull) (\<lambda>cpu_op.
     bindR (if truthy (get_or r ''elapsed_s'' JNull)
            then bindR (num_of (get_or r ''elapsed_s'' (JNum 0))) (\<lambda>e. Inr (JNum (fl (of_int (delta ''usage_usec'') / fl (e * 1000000)))))
            else Inr JNull) (\<lambda>cores.
     Inr ([(''engine'', JStr (rr_engine f)), (''case'', JStr (rr_case f)), (''version'', version_of sa)]
       @ zip [''value_bytes'', ''pattern'', ''mode'', ''concurrency''] options @
       [(''operations'', n), (''batches'', get_or r ''batches'' (JStr [])), (''ops_s'', ops_s), (''payload_mib_s'', payload)]
       @ latency_fields latency @
       [(''errors'', errors), (''hits'', hits), (''read_operations'', reads), (''hit_ratio'', hit_ratio),
        (''origin_requests'', get_or r ''origin_requests'' (JStr [])), (''origin_bytes_avoided'', get_or r ''origin_bytes_avoided'' (JStr [])),
        (''nvm_hits_delta'', JNum (na - nb)), (''cpu_us_per_op'', cpu_op), (''server_cpu_cores'', cores),
        (''memory_after_mib'', to_mib (counter_of after ''memory_current'')), (''disk_read_mib'', to_mib (delta ''rbytes'')),
        (''disk_write_mib'', to_mib (delta ''wbytes'')), (''raw_path'', JStr (rr_path f))]))))))))))))))))"

section \<open>Selecting the runs\<close>

type_synonym selection_key = "string \<times> string"

definition key_of_run :: "raw_run \<Rightarrow> selection_key" where
  "key_of_run f = (rr_engine f, rr_case f)"

definition key_of_row :: "dict \<Rightarrow> selection_key" where
  "key_of_row r = (engine_of r, name_of (get_or r ''case'' JNull))"

text \<open>\<open>selected[k] = v\<close>: a known key keeps its place.\<close>

definition put :: "'k \<Rightarrow> 'v \<Rightarrow> ('k \<times> 'v) list \<Rightarrow> ('k \<times> 'v) list" where
  "put k v d = (if k \<in> fst ` set d then map (\<lambda>(k', w). (k', if k' = k then v else w)) d else d @ [(k, v)])"

definition select_run :: "raw_run \<Rightarrow> (selection_key \<times> dict) list \<Rightarrow> (selection_key \<times> dict) list res" where
  "select_run f selected = bindR (inv_row f) (\<lambda>r. Inr (put (key_of_row r) r selected))"

definition selected_rows :: "raw_run list \<Rightarrow> dict list res" where
  "selected_rows runs =
     bindR (foldR select_run runs []) (\<lambda>selected. Inr (sort_key (\<lambda>r. (snd (key_of_row r), fst (key_of_row r))) (map snd selected)))"

text \<open>
  \<open>main\<close> on the result files of every input directory, each directory's in the order of their paths; \<open>dirs\<close> are
  the directories as given.
\<close>

definition summary_charts :: "dict list \<Rightarrow> (string \<times> string option res) list" where
  "summary_charts rows =
     [(''chart-hit-1k.svg'', chart rows ''hit_1k_c1'' ''p50_ms'' ''1 KiB RAM hit, unary p50'' ''ms''),
      (''chart-origin-skew.svg'', chart rows ''origin_skew_64k'' ''hit_ratio'' ''64 KiB skewed origin workload: object hit ratio'' ''fraction''),
      (''chart-steady-hit.svg'', chart rows ''steady_uniform_64k'' ''hit_ratio'' ''Prefilled 64 KiB uniform workload: object hit ratio'' ''fraction''),
      (''chart-steady-memory.svg'', chart rows ''steady_uniform_64k'' ''memory_after_mib'' ''Prefilled 64 KiB uniform workload: container memory'' ''MiB'')]"

definition inv_summary :: "string list \<Rightarrow> raw_run list list \<Rightarrow> written \<times> unit res" where
  "inv_summary dirs runs =
     (case selected_rows (concat runs) of
        Inl e \<Rightarrow> ([], Inl e)
      | Inr rows \<Rightarrow>
          (case rows of
             [] \<Rightarrow> ([], Inl (SystemExit ''No raw results''))
           | first # others \<Rightarrow>
               (case write_charts (summary_charts rows) of (out, q) \<Rightarrow>
                  ([(''summary.csv'', Csv (map fst first) rows), (''summary.json'', Json (JArr (map JObj rows))),
                    (''selection.json'', Json (JObj [(''input_directories'', JStrs dirs),
                       (''selection_rule'', JStr ''later engine/case result replaces earlier; raw inputs preserved'')]))] @ out, q))))"

section \<open>The HTTP summary\<close>

record http_file =
  hf_name :: string
  hf_path :: string
  hf_json :: "json res"

definition skipped_name :: "string \<Rightarrow> bool" where
  "skipped_name name \<longleftrightarrow> name = ''manifest.json'' \<or> suffix ''.command.json'' name \<or> suffix ''.server-command.json'' name"

text \<open>\<open>"ops_s" in raw\<close>: a key of a dictionary, an item of a list, a part of a string.\<close>

definition mentions :: "string \<Rightarrow> json \<Rightarrow> bool res" where
  "mentions k j = (case j of JObj d \<Rightarrow> Inr (map_of d k \<noteq> None) | JArr xs \<Rightarrow> Inr (JStr k \<in> set xs) | JStr s \<Rightarrow> Inr (contains k s)
     | _ \<Rightarrow> Inl TypeError)"

text \<open>\<open>path.stem\<close> of a name that ends in \<open>.json\<close>.\<close>

definition engine_title :: "string \<Rightarrow> string" where
  "engine_title name = (if prefix ''nginx-'' (take (length name - 5) name) then ''NGINX disk cache'' else ''gRPC HTTP adapter'')"

definition str_at :: "pyrepr \<Rightarrow> json \<Rightarrow> string \<Rightarrow> string res" where
  "str_at P j k = bindR (subscript j k) (\<lambda>v. Inr (case v of JStr s \<Rightarrow> s | _ \<Rightarrow> str_json P v))"

definition HTTP_COPIED :: "(string \<times> string) list" where
  "HTTP_COPIED = [(''requests'', ''requests''), (''ops_s'', ''ops_s''), (''payload_mib_s'', ''payload_mib_s''), (''p50_ms'', ''p50_ms''),
     (''p95_ms'', ''p95_ms''), (''p99_ms'', ''p99_ms''), (''errors'', ''errors''), (''origin_requests'', ''origin_requests_delta''),
     (''origin_bytes'', ''origin_bytes_delta'')]"

definition http_file_row :: "pyrepr \<Rightarrow> http_file \<Rightarrow> dict option res" where
  "http_file_row P f =
     (if skipped_name (hf_name f) then Inr None
      else bindR (hf_json f) (\<lambda>raw. bindR (mentions ''ops_s'' raw) (\<lambda>measured.
        if \<not> measured then Inr None
        else bindR (subscript raw ''args'') (\<lambda>options.
          bindR (str_at P options ''pattern'') (\<lambda>pattern. bindR (str_at P options ''size'') (\<lambda>bytes.
          bindR (str_at P options ''concurrency'') (\<lambda>concurrency.
          bindR (mapR (\<lambda>(k, src). bindR (subscript raw src) (\<lambda>v. Inr (k, v))) HTTP_COPIED) (\<lambda>copied.
          bindR (mentions ''cache_path_memory_after_bytes'' raw) (\<lambda>has_memory.
          bindR (if has_memory then bindR (bindR (subscript raw ''cache_path_memory_after_bytes'') num_of) (\<lambda>m. Inr (JNum (fl (m / 1048576))))
                 else Inr JNull) (\<lambda>memory.
            Inr (Some ([(''engine'', JStr (engine_title (hf_name f))), (''case'', JStr (pattern @ ''-'' @ bytes @ ''-'' @ concurrency))] @ copied
              @ [(''cache_path_memory_after_mib'', memory), (''raw_path'', JStr (hf_path f))]))))))))))))"

definition http_charts :: "dict list \<Rightarrow> (string \<times> string option res) list" where
  "http_charts rows =
     map (\<lambda>(cs, title). (''chart-'' @ cs @ ''.svg'', chart rows cs ''ops_s'' title ''HTTP requests/s''))
       [(''repeated-262144-1'', ''Repeated 256 KiB objects, one reader''), (''repeated-1048576-1'', ''Repeated 1 MiB objects, one reader''),
        (''one_pass-262144-1'', ''One-pass 256 KiB objects, one reader'')]
     @ [(''chart-repeated-256k-memory.svg'',
         chart rows ''repeated-262144-1'' ''cache_path_memory_after_mib'' ''Repeated 256 KiB: cache-path container memory'' ''MiB'')]"

definition http_summary :: "pyrepr \<Rightarrow> http_file list \<Rightarrow> written \<times> unit res" where
  "http_summary P fs =
     (case mapR (http_file_row P) fs of
        Inl e \<Rightarrow> ([], Inl e)
      | Inr kept \<Rightarrow>
          (case sort_key (\<lambda>r. (snd (key_of_row r), fst (key_of_row r))) [r. Some r \<leftarrow> kept] of
             [] \<Rightarrow> ([], Inl (SystemExit ''No HTTP result files''))
           | first # others \<Rightarrow>
               (case write_charts (http_charts (first # others)) of (out, q) \<Rightarrow>
                  ([(''summary.csv'', Csv (map fst first) (first # others)), (''summary.json'', Json (JArr (map JObj (first # others))))] @ out, q))))"

section \<open>The latest run of an engine and case is the one summarized\<close>

definition latest :: "raw_run list \<Rightarrow> selection_key \<Rightarrow> raw_run option" where
  "latest runs k = find (\<lambda>f. key_of_run f = k) (rev runs)"

lemma latest_Cons: "latest (f # fs) k = (case latest fs k of None \<Rightarrow> if key_of_run f = k then Some f else None | Some g \<Rightarrow> Some g)"
proof -
  have "find P (xs @ ys) = (case find P xs of None \<Rightarrow> find P ys | Some x \<Rightarrow> Some x)" for P :: "raw_run \<Rightarrow> bool" and xs ys
    by (induction xs) auto
  then show ?thesis by (simp add: latest_def split: option.splits)
qed

lemma latest_None: "latest runs k = None \<longleftrightarrow> k \<notin> set (map key_of_run runs)"
  by (auto simp: latest_def find_None_iff)

lemma replace_value:
  "map fst (map (\<lambda>(k', w). (k', if k' = k then v else w)) d) = map fst d"
  "map_of (map (\<lambda>(k', w). (k', if k' = k then v else w)) d) k' = (if k' = k then map_option (\<lambda>w. v) (map_of d k) else map_of d k')"
  by (induction d) auto

lemma put_keys: "set (map fst (put k v d)) = insert k (set (map fst d))" "distinct (map fst d) \<Longrightarrow> distinct (map fst (put k v d))"
proof -
  have "map fst (put k v d) = (if k \<in> set (map fst d) then map fst d else map fst d @ [k])" unfolding put_def by (simp add: replace_value(1) del: map_map)
  then show "set (map fst (put k v d)) = insert k (set (map fst d))" "distinct (map fst d) \<Longrightarrow> distinct (map fst (put k v d))" by auto
qed

lemma map_of_put: "map_of (put k v d) k' = (if k' = k then Some v else map_of d k')"
proof (cases "k \<in> fst ` set d")
  case True
  then obtain w where "map_of d k = Some w" by (metis map_of_eq_None_iff not_Some_eq)
  with True show ?thesis unfolding put_def by (simp add: replace_value(2))
next
  case False
  then have "map_of d k = None" by (simp add: map_of_eq_None_iff)
  with False show ?thesis by (auto simp: put_def map_add_def split: option.splits)
qed

lemma inv_row_key: "inv_row f = Inr r \<Longrightarrow> key_of_row r = key_of_run f"
  unfolding inv_row_def by (elim bindR_InrE) (auto simp: Let_def key_of_row_def key_of_run_def engine_of_def get_or_def elim!: bindR_InrE)

lemma select_runs:
  assumes "foldR select_run runs d = Inr sel" and "distinct (map fst d)"
  shows "distinct (map fst sel)" and "set (map fst sel) = set (map fst d) \<union> set (map key_of_run runs)"
    and "map_of sel k = (case latest runs k of None \<Rightarrow> map_of d k | Some f \<Rightarrow> (case inv_row f of Inl e \<Rightarrow> None | Inr r \<Rightarrow> Some r))"
proof -
  have "distinct (map fst sel) \<and> set (map fst sel) = set (map fst d) \<union> set (map key_of_run runs)
    \<and> map_of sel k = (case latest runs k of None \<Rightarrow> map_of d k | Some f \<Rightarrow> (case inv_row f of Inl e \<Rightarrow> None | Inr r \<Rightarrow> Some r))"
    using assms
  proof (induction runs arbitrary: d)
    case (Cons f runs)
    from Cons.prems(1) obtain d1 where d1: "select_run f d = Inr d1" "foldR select_run runs d1 = Inr sel" by auto
    then obtain r where r: "inv_row f = Inr r" and "d1 = put (key_of_run f) r d" using inv_row_key by (auto simp: select_run_def)
    with d1(2) have s: "foldR select_run runs (put (key_of_run f) r d) = Inr sel" by simp
    note ih = Cons.IH [OF s put_keys(2) [OF Cons.prems(2)]]
    have "map_of sel k = (case latest (f # runs) k of None \<Rightarrow> map_of d k | Some f \<Rightarrow> (case inv_row f of Inl e \<Rightarrow> None | Inr r \<Rightarrow> Some r))"
      using ih r by (cases "latest runs k") (auto simp: latest_Cons map_of_put)
    then show ?case using ih put_keys(1) [of "key_of_run f" r d] by simp
  qed (simp add: latest_def)
  then show "distinct (map fst sel)" "set (map fst sel) = set (map fst d) \<union> set (map key_of_run runs)"
    "map_of sel k = (case latest runs k of None \<Rightarrow> map_of d k | Some f \<Rightarrow> (case inv_row f of Inl e \<Rightarrow> None | Inr r \<Rightarrow> Some r))"
    by blast+
qed

text \<open>
  C36. The stated selection rule is followed: the rows of the summary are in the order of their case and engine, there is one row
  for every engine and case with a run and no other, and it is the row of the last run of that engine and case,
  in the order in which the input directories are given.
\<close>

theorem later_run_replaces_earlier:
  assumes "selected_rows runs = Inr rows"
  shows "sorted (map (\<lambda>r. (snd (key_of_row r), fst (key_of_row r))) rows) \<and> distinct (map key_of_row rows)
    \<and> set (map key_of_row rows) = set (map key_of_run runs)
    \<and> (\<forall>r \<in> set rows. \<exists>f. latest runs (key_of_row r) = Some f \<and> inv_row f = Inr r)"
proof -
  obtain sel where sel: "foldR select_run runs [] = Inr sel" and rows: "rows = sort_key (\<lambda>r. (snd (key_of_row r), fst (key_of_row r))) (map snd sel)"
    using assms by (auto simp: selected_rows_def)
  have s: "distinct (map fst sel)" "set (map fst sel) = set (map key_of_run runs)" using select_runs(1,2) [OF sel] by simp_all
  have row: "\<exists>f. latest runs k = Some f \<and> inv_row f = Inr r" if "(k, r) \<in> set sel" for k r
  proof -
    have "map_of sel k = Some r" using s that by (simp add: map_of_eq_Some_iff)
    then show ?thesis using select_runs(3) [OF sel, of k] by (cases "latest runs k") (auto split: sum.splits)
  qed
  have key: "key_of_row r = k" if "(k, r) \<in> set sel" for k r
  proof -
    from row [OF that] obtain f where f: "latest runs k = Some f" "inv_row f = Inr r" by blast
    then have "key_of_run f = k" by (auto simp: latest_def find_Some_iff)
    with inv_row_key [OF f(2)] show ?thesis by simp
  qed
  then have keys: "map key_of_row (map snd sel) = map fst sel" by (induction sel) auto
  have m: "mset rows = mset (map snd sel)" by (simp add: rows)
  then have mk: "mset (map key_of_row rows) = mset (map fst sel)" unfolding keys [symmetric] by (metis mset_map)
  have "distinct (map key_of_row rows)" using s mset_eq_imp_distinct_iff [OF mk] by simp
  moreover have "set (map key_of_row rows) = set (map key_of_run runs)" using s mset_eq_setD [OF mk] by simp
  moreover have "\<exists>f. latest runs (key_of_row r) = Some f \<and> inv_row f = Inr r" if "r \<in> set rows" for r
  proof -
    from that mset_eq_setD [OF m] obtain k where "(k, r) \<in> set sel" by auto
    with row key show ?thesis by blast
  qed
  ultimately show ?thesis by (simp add: rows)
qed

definition sample_raw :: "string \<Rightarrow> raw_run" where
  "sample_raw path =
     \<lparr>rr_engine = ''redis'', rr_case = ''hit_1k_c1-0'', rr_path = path,
      rr_result = Inr (JObj [(''args'', JObj [(''value_bytes'', JNum 1024), (''pattern'', JStr ''uniform''), (''mode'', JStr ''hit''), (''concurrency'', JNum 1)]),
        (''successful_ops_s'', JNum 5), (''payload_mib_s'', JNum 1), (''errors'', JNum 0)]),
      rr_before = None, rr_after = None\<rparr>"

lemma sample_raw_row: "\<exists>r. inv_row (sample_raw path) = Inr r"
  by (simp add: inv_row_def sample_raw_def subscript_def item_def get_or_def Let_def)

lemma distinct_singleton_list: "distinct xs \<Longrightarrow> set xs = {a} \<Longrightarrow> xs = [a]"
  by (cases xs; cases "tl xs") auto

theorem later_run_replaces_earlier_witness:
  "\<exists>rows. selected_rows [sample_raw ''first'', sample_raw ''second''] = Inr rows \<and> map key_of_row rows = [(''redis'', ''hit_1k_c1-0'')]"
proof -
  obtain r q where r: "inv_row (sample_raw ''first'') = Inr r" "inv_row (sample_raw ''second'') = Inr q" using sample_raw_row by blast
  have k: "key_of_run (sample_raw p) = (''redis'', ''hit_1k_c1-0'')" for p by (simp add: key_of_run_def sample_raw_def)
  obtain rows where rows: "selected_rows [sample_raw ''first'', sample_raw ''second''] = Inr rows"
    using r by (simp add: selected_rows_def select_run_def)
  note l = later_run_replaces_earlier [OF rows, THEN conjunct2]
  have d: "distinct (map key_of_row rows)" by (rule l [THEN conjunct1])
  have "set (map key_of_row rows) = set (map key_of_run [sample_raw ''first'', sample_raw ''second''])"
    by (rule l [THEN conjunct2, THEN conjunct1])
  also have "\<dots> = {(''redis'', ''hit_1k_c1-0'')}" by (simp add: k)
  finally have s: "set (map key_of_row rows) = {(''redis'', ''hit_1k_c1-0'')}" .
  from d s have "map key_of_row rows = [(''redis'', ''hit_1k_c1-0'')]" by (rule distinct_singleton_list)
  then show ?thesis by (intro exI [of _ rows] conjI rows)
qed

section \<open>The summary reads what the harness wrote\<close>

text \<open>
  Of the JSON files the HTTP harness writes, the summary skips the commands of servers and clients and the manifest and reads the
  result of every case of both backends, under the title of the backend that served it.
\<close>

theorem http_summary_reads_results:
  assumes "backend \<in> {''nginx'', ''grpc_adapter''}" and "c \<in> set MEDIA_CASES"
  shows "\<not> skipped_name (media_label backend c @ ''.json'')
    \<and> engine_title (media_label backend c @ ''.json'') = (if backend = ''nginx'' then ''NGINX disk cache'' else ''gRPC HTTP adapter'')
    \<and> skipped_name (media_label backend c @ ''.command.json'') \<and> skipped_name (name @ ''.server-command.json'') \<and> skipped_name ''manifest.json''"
proof -
  obtain bytes objects requests concurrency pattern where c: "c = (bytes, objects, requests, concurrency, pattern)" by (cases c)
  define label where "label = media_label backend c"
  have pattern: "pattern = ''repeated'' \<or> pattern = ''one_pass''" using assms(2) by (auto simp: c MEDIA_CASES_def)
  have "\<not> suffix ''.command.json'' (label @ ''.json'')" "\<not> suffix ''.server-command.json'' (label @ ''.json'')"
    using pattern by (auto simp: label_def media_label_def c suffix_to_prefix)
  moreover have "label @ ''.json'' \<noteq> ''manifest.json''" using assms(1) by (auto simp: label_def media_label_def c)
  moreover have "prefix ''nginx-'' label \<longleftrightarrow> backend = ''nginx''" using assms(1) by (auto simp: label_def media_label_def c)
  moreover have "suffix ''.command.json'' (label @ ''.command.json'')" "suffix ''.server-command.json'' (name @ ''.server-command.json'')"
    by (rule suffixI refl)+
  ultimately show ?thesis unfolding label_def [symmetric] by (simp add: skipped_name_def engine_title_def)
qed

theorem http_summary_reads_results_witness:
  "engine_title (media_label ''grpc_adapter'' (262144, 64, 400, 8, ''repeated'') @ ''.json'') = ''gRPC HTTP adapter''"
proof -
  have "(262144, 64, 400, 8, ''repeated'') \<in> set MEDIA_CASES" by (simp add: MEDIA_CASES_def)
  from http_summary_reads_results [of "''grpc_adapter''", OF _ this] show ?thesis by simp
qed

end
