(* ===== verification/Cache_Atomic.thy ===== *)
theory Cache_Atomic
  imports Cache_Batch
begin

text \<open>
  The read-modify-write calls of the server: \<open>setNX\<close>, \<open>increment\<close>, \<open>decrement\<close>, \<open>incr\<close>, \<open>compareAndSwap\<close>, \<open>getTTL\<close> and
  \<open>touch\<close> of \<open>CacheManager.cc\<close> with their handlers. Counters are signed 64-bit integers stored as decimal
  text. The mutex of the manager orders these calls, so each is one step here. Expiry times are the
  32-bit numbers of \<open>expiry_time\<close>, with their wrap-around.
\<close>

section \<open>Counters as text\<close>

definition to_string :: "64 word \<Rightarrow> byte list" where
  "to_string w = map of_char (str_int (sint w))"

text \<open>\<open>from_chars\<close> reads an optional minus sign and digits; the whole text has to be read and the number has to fit.\<close>

definition parseWholeInt64 :: "byte list \<Rightarrow> 64 word option" where
  "parseWholeInt64 v =
     (let s = map (\<lambda>b. char_of (unat b)) v;
          neg = (s \<noteq> [] \<and> hd s = CHR ''-'');
          ds = (if neg then tl s else s);
          i = (if neg then - int (nat_of_digits ds) else int (nat_of_digits ds))
      in if ds \<noteq> [] \<and> list_all is_digit ds \<and> - (2 ^ 63) \<le> i \<and> i < 2 ^ 63 then Some (word_of_int i) else None)"

definition int64_max :: "64 word" where
  "int64_max = word_of_int (2 ^ 63 - 1)"

definition int64_min :: "64 word" where
  "int64_min = word_of_int (- (2 ^ 63))"

definition checkedAdd :: "64 word \<Rightarrow> 64 word \<Rightarrow> 64 word option" where
  "checkedAdd base delta =
     (if 0 <s delta \<and> int64_max - delta <s base then None
      else if delta <s 0 \<and> base <s int64_min - delta then None
      else Some (base + delta))"

definition checkedNegate :: "64 word \<Rightarrow> 64 word option" where
  "checkedNegate delta = (if delta = int64_min then None else Some (- delta))"

section \<open>CacheManager\<close>

text \<open>A creation time of 0, at 32 bits, asks CacheLib for the current time.\<close>

definition cm_setWithCreationTime ::
  "nat \<Rightarrow> bool \<Rightarrow> string \<Rightarrow> byte list \<Rightarrow> 32 word \<Rightarrow> nat \<Rightarrow> server \<Rightarrow> bool \<times> server"
where
  "cm_setWithCreationTime now room key v ttl creation s =
     (let s = s\<lparr>sv_set_count := sv_set_count s + 1\<rparr> in
      if \<not> sv_ready s then (False, s)
      else if length v > sv_max_item_size s then (False, s)
      else if \<not> room then (False, s)
      else (True, s\<lparr>sv_items := (sv_items s)(key \<mapsto> (v, if clock32 creation = 0 then now else creation, ttl))\<rparr>))"

definition kept_ttl :: "citem \<Rightarrow> 32 word" where
  "kept_ttl i = (case i of (v, created, ttl) \<Rightarrow> if expiry_time i = 0 then 0 else expiry_time i - clock32 created)"

record set_nx_result =
  nx_was_set :: bool
  nx_existing_value :: "byte list"

definition cm_setNX :: "nat \<Rightarrow> allocator \<Rightarrow> string \<Rightarrow> byte list \<Rightarrow> 32 word \<Rightarrow> server \<Rightarrow> set_nx_result \<times> server" where
  "cm_setNX now room key v ttl s =
     (if \<not> sv_ready s then (\<lparr>nx_was_set = False, nx_existing_value = []\<rparr>, s)
      else case find_item now key s of
        Some (w, created, t) \<Rightarrow> (\<lparr>nx_was_set = False, nx_existing_value = w\<rparr>, s)
      | None \<Rightarrow> (case cm_set now (room key v s) key v ttl s of (ok, s') \<Rightarrow>
          (\<lparr>nx_was_set = ok, nx_existing_value = []\<rparr>, s')))"

record incr_decr_result =
  id_success :: bool
  id_new_value :: "64 word"
  id_message :: string

definition failed_add :: "string \<Rightarrow> incr_decr_result" where
  "failed_add m = \<lparr>id_success = False, id_new_value = 0, id_message = m\<rparr>"

definition cm_atomicAddValue :: "nat \<Rightarrow> allocator \<Rightarrow> string \<Rightarrow> 64 word \<Rightarrow> 32 word \<Rightarrow> server \<Rightarrow> incr_decr_result \<times> server" where
  "cm_atomicAddValue now room key delta ttl s =
     (if \<not> sv_ready s then (failed_add ''Cache not initialized'', s)
      else case (case find_item now key s of
          None \<Rightarrow> Some (0, ttl, 0)
        | Some (v, created, t) \<Rightarrow> (case parseWholeInt64 v of None \<Rightarrow> None
            | Some n \<Rightarrow> Some (n, if ttl = 0 then kept_ttl (v, created, t) else ttl, if ttl = 0 then created else 0)))
      of None \<Rightarrow> (failed_add ''Value is not a valid integer'', s)
       | Some (current, existing_ttl, creation) \<Rightarrow>
           (case checkedAdd current delta of
              None \<Rightarrow> (failed_add ''Counter would overflow'', s)
            | Some new \<Rightarrow>
                (case cm_setWithCreationTime now (room key (to_string new) s) key (to_string new) existing_ttl creation s of
                   (ok, s') \<Rightarrow> (if ok then \<lparr>id_success = True, id_new_value = new, id_message = []\<rparr>
                               else failed_add ''Failed to store new value'', s'))))"

definition cm_increment :: "nat \<Rightarrow> allocator \<Rightarrow> string \<Rightarrow> 64 word \<Rightarrow> 32 word \<Rightarrow> server \<Rightarrow> incr_decr_result \<times> server" where
  "cm_increment now room key delta ttl s = cm_atomicAddValue now room key (if delta = 0 then 1 else delta) ttl s"

definition cm_decrement :: "nat \<Rightarrow> allocator \<Rightarrow> string \<Rightarrow> 64 word \<Rightarrow> 32 word \<Rightarrow> server \<Rightarrow> incr_decr_result \<times> server" where
  "cm_decrement now room key delta ttl s =
     (case checkedNegate (if delta = 0 then 1 else delta) of
        None \<Rightarrow> (failed_add ''Delta cannot be negated without overflow'', s)
      | Some negated \<Rightarrow> cm_atomicAddValue now room key negated ttl s)"

record incr_result =
  in_success :: bool
  in_value :: "64 word"
  in_ttl_set :: bool
  in_message :: string

definition failed_incr :: "string \<Rightarrow> incr_result" where
  "failed_incr m = \<lparr>in_success = False, in_value = 0, in_ttl_set = False, in_message = m\<rparr>"

definition still_live :: "nat \<Rightarrow> citem \<Rightarrow> bool" where
  "still_live now i \<longleftrightarrow> expiry_time i = 0 \<or> clock32 now < expiry_time i"

definition cm_incr :: "nat \<Rightarrow> allocator \<Rightarrow> string \<Rightarrow> 64 word \<Rightarrow> 32 word \<Rightarrow> server \<Rightarrow> incr_result \<times> server" where
  "cm_incr now room key delta ttl s =
     (if \<not> sv_ready s then (failed_incr ''Cache not initialized'', s)
      else
        let delta = (if delta = 0 then 1 else delta) in
        case (case find_item now key s of
            None \<Rightarrow> Some (0, ttl, 0, True)
          | Some (v, created, t) \<Rightarrow>
              if still_live now (v, created, t)
              then (case parseWholeInt64 v of None \<Rightarrow> None
                | Some n \<Rightarrow> Some (n, kept_ttl (v, created, t), created, False))
              else Some (0, ttl, 0, True))
        of None \<Rightarrow> (failed_incr ''Value is not a valid integer'', s)
         | Some (base, write_ttl, creation, created_new) \<Rightarrow>
             (case checkedAdd base delta of
                None \<Rightarrow> (failed_incr ''Counter would overflow'', s)
              | Some new \<Rightarrow>
                  (case cm_setWithCreationTime now (room key (to_string new) s) key (to_string new) write_ttl creation s of
                     (ok, s') \<Rightarrow> (if ok then \<lparr>in_success = True, in_value = new, in_ttl_set = created_new, in_message = []\<rparr>
                                 else failed_incr ''Failed to store new value'', s'))))"

record cas_result =
  cas_success :: bool
  cas_actual_value :: "byte list"

definition cm_compareAndSwap ::
  "nat \<Rightarrow> allocator \<Rightarrow> string \<Rightarrow> byte list \<Rightarrow> byte list \<Rightarrow> 32 word \<Rightarrow> bool \<Rightarrow> server \<Rightarrow> cas_result \<times> server"
where
  "cm_compareAndSwap now room key expected new ttl keep s =
     (if \<not> sv_ready s then (\<lparr>cas_success = False, cas_actual_value = []\<rparr>, s)
      else case find_item now key s of
        None \<Rightarrow> (\<lparr>cas_success = False, cas_actual_value = []\<rparr>, s)
      | Some (v, created, t) \<Rightarrow>
          if v \<noteq> expected then (\<lparr>cas_success = False, cas_actual_value = v\<rparr>, s)
          else (case cm_setWithCreationTime now (room key new s) key new (if keep then kept_ttl (v, created, t) else ttl)
                      (if keep then created else 0) s of
            (ok, s') \<Rightarrow> (\<lparr>cas_success = ok, cas_actual_value = (if ok then new else v)\<rparr>, s')))"

definition cm_getTTL :: "nat \<Rightarrow> string \<Rightarrow> server \<Rightarrow> int" where
  "cm_getTTL now key s =
     (if \<not> sv_ready s then -2
      else case find_item now key s of None \<Rightarrow> -2
      | Some i \<Rightarrow> if expiry_time i = 0 then -1
          else if clock32 now < expiry_time i then int (unat (expiry_time i - clock32 now)) else 0)"

record touch_result =
  to_success :: bool
  to_message :: string

definition cm_touch :: "nat \<Rightarrow> allocator \<Rightarrow> string \<Rightarrow> 32 word \<Rightarrow> server \<Rightarrow> touch_result \<times> server" where
  "cm_touch now room key ttl s =
     (if \<not> sv_ready s then (\<lparr>to_success = False, to_message = ''Cache not initialized''\<rparr>, s)
      else case find_item now key s of
        None \<Rightarrow> (\<lparr>to_success = False, to_message = ''Key not found''\<rparr>, s)
      | Some (v, created, t) \<Rightarrow> (case cm_set now (room key v s) key v ttl s of (ok, s') \<Rightarrow>
          (\<lparr>to_success = ok, to_message = (if ok then ''TTL updated'' else ''Failed to update TTL'')\<rparr>, s')))"

section \<open>CacheServiceImpl\<close>

text \<open>Every handler first asks whether the cache is ready and whether the key is empty.\<close>

definition guarded :: "string \<Rightarrow> (server \<Rightarrow> (rpc_error + 'a) \<times> server) \<Rightarrow> server \<Rightarrow> (rpc_error + 'a) \<times> server" where
  "guarded key f s =
     (if \<not> sv_ready s then (Inl UNAVAILABLE, s) else if key = [] then (Inl INVALID_ARGUMENT, s) else f s)"

record set_nx_response =
  nr_was_set :: bool
  nr_message :: string
  nr_existing_value :: "byte list"

definition service_SetNX :: "nat \<Rightarrow> allocator \<Rightarrow> string \<Rightarrow> byte list \<Rightarrow> 64 word \<Rightarrow> server \<Rightarrow> (rpc_error + set_nx_response) \<times> server" where
  "service_SetNX now room key v ttl = guarded key (\<lambda>s.
     case cm_setNX now room key v (narrow_ttl ttl) s of (r, s') \<Rightarrow>
       (Inr (if nx_was_set r
             then \<lparr>nr_was_set = True, nr_message = ''Key set successfully'', nr_existing_value = []\<rparr>
             else \<lparr>nr_was_set = False, nr_message = ''Key already exists'', nr_existing_value = nx_existing_value r\<rparr>), s'))"

definition service_Increment :: "nat \<Rightarrow> allocator \<Rightarrow> string \<Rightarrow> 64 word \<Rightarrow> 64 word \<Rightarrow> server \<Rightarrow> (rpc_error + incr_decr_result) \<times> server" where
  "service_Increment now room key delta ttl = guarded key (\<lambda>s.
     case cm_increment now room key (if delta = 0 then 1 else delta) (narrow_ttl ttl) s of (r, s') \<Rightarrow> (Inr r, s'))"

definition service_Decrement :: "nat \<Rightarrow> allocator \<Rightarrow> string \<Rightarrow> 64 word \<Rightarrow> 64 word \<Rightarrow> server \<Rightarrow> (rpc_error + incr_decr_result) \<times> server" where
  "service_Decrement now room key delta ttl = guarded key (\<lambda>s.
     case cm_decrement now room key (if delta = 0 then 1 else delta) (narrow_ttl ttl) s of (r, s') \<Rightarrow> (Inr r, s'))"

definition service_Incr :: "nat \<Rightarrow> allocator \<Rightarrow> string \<Rightarrow> 64 word \<Rightarrow> 64 word \<Rightarrow> server \<Rightarrow> (rpc_error + 64 word \<times> bool) \<times> server" where
  "service_Incr now room key delta ttl = guarded key (\<lambda>s.
     case cm_incr now room key (if delta = 0 then 1 else delta) (narrow_ttl ttl) s of (r, s') \<Rightarrow>
       (if \<not> in_success r then Inl (INTERNAL (if in_message r = [] then ''Incr failed'' else in_message r))
        else Inr (in_value r, in_ttl_set r), s'))"

record cas_response =
  cr_success :: bool
  cr_actual_value :: "byte list"
  cr_message :: string

definition service_CompareAndSwap ::
  "nat \<Rightarrow> allocator \<Rightarrow> string \<Rightarrow> byte list \<Rightarrow> byte list \<Rightarrow> 32 word \<Rightarrow> bool \<Rightarrow> server \<Rightarrow> (rpc_error + cas_response) \<times> server"
where
  "service_CompareAndSwap now room key expected new ttl keep = guarded key (\<lambda>s.
     case cm_compareAndSwap now room key expected new ttl keep s of (r, s') \<Rightarrow>
       (Inr \<lparr>cr_success = cas_success r, cr_actual_value = cas_actual_value r,
          cr_message = (if cas_success r then ''Value swapped successfully'' else ''Value mismatch or key not found'')\<rparr>, s'))"

text \<open>The reply of \<open>GetTTL\<close> is \<open>found\<close> and the seconds.\<close>

definition service_GetTTL :: "nat \<Rightarrow> string \<Rightarrow> server \<Rightarrow> (rpc_error + bool \<times> int) \<times> server" where
  "service_GetTTL now key = guarded key (\<lambda>s. (Inr (cm_getTTL now key s \<noteq> -2, cm_getTTL now key s), s))"

definition service_Touch :: "nat \<Rightarrow> allocator \<Rightarrow> string \<Rightarrow> 64 word \<Rightarrow> server \<Rightarrow> (rpc_error + touch_result) \<times> server" where
  "service_Touch now room key ttl = guarded key (\<lambda>s.
     case cm_touch now room key (narrow_ttl ttl) s of (r, s') \<Rightarrow> (Inr r, s'))"

section \<open>Arithmetic at 64 bits\<close>

lemma cm_set_creation: "cm_set now room key v ttl s = cm_setWithCreationTime now room key v ttl 0 s"
  by (simp add: cm_set_def cm_setWithCreationTime_def)

lemma sint_int64 [simp]: "sint int64_max = 2 ^ 63 - 1" "sint int64_min = - (2 ^ 63)"
  by (simp_all add: int64_max_def int64_min_def)

lemma sint_range: "- (2 ^ 63) \<le> sint (w :: 64 word)" "sint (w :: 64 word) < 2 ^ 63"
  using sint_ge [of w] sint_lt [of w] by simp_all

lemma sint_word_of_int: "- (2 ^ 63) \<le> i \<Longrightarrow> i < 2 ^ 63 \<Longrightarrow> sint (word_of_int i :: 64 word) = i"
  by (simp add: signed_take_bit_int_eq_self sint_sbintrunc')

lemma sint_add_exact:
  "- (2 ^ 63) \<le> sint a + sint b \<Longrightarrow> sint a + sint b < 2 ^ 63 \<Longrightarrow> sint (a + b :: 64 word) = sint a + sint b"
  using sint_word_of_int [of "sint a + sint b"] by simp

lemma sint_diff_exact:
  "- (2 ^ 63) \<le> sint a - sint b \<Longrightarrow> sint a - sint b < 2 ^ 63 \<Longrightarrow> sint (a - b :: 64 word) = sint a - sint b"
  using sint_word_of_int [of "sint a - sint b"] by simp

lemma checkedAdd_exact:
  "checkedAdd base delta =
     (if - (2 ^ 63) \<le> sint base + sint delta \<and> sint base + sint delta < 2 ^ 63 then Some (base + delta) else None)"
proof -
  note r = sint_range [of base] sint_range [of delta]
  consider "0 < sint delta" | "sint delta < 0" | "sint delta = 0" by linarith
  then show ?thesis
  proof cases
    case 1
    then have "sint (int64_max - delta) = 2 ^ 63 - 1 - sint delta" using sint_diff_exact [of int64_max delta] r by simp
    with 1 r show ?thesis by (auto simp: checkedAdd_def word_sless_alt)
  next
    case 2
    then have "sint (int64_min - delta) = - (2 ^ 63) - sint delta" using sint_diff_exact [of int64_min delta] r by simp
    with 2 r show ?thesis by (auto simp: checkedAdd_def word_sless_alt)
  next
    case 3
    with r show ?thesis by (auto simp: checkedAdd_def word_sless_alt)
  qed
qed

lemma checkedNegate_exact:
  "checkedNegate delta = (if sint delta = - (2 ^ 63) then None else Some (- delta))"
  "checkedNegate delta = Some n \<Longrightarrow> sint n = - sint delta"
proof -
  have eq: "delta = int64_min \<longleftrightarrow> sint delta = - (2 ^ 63)"
    using word_eq_iff_signed [where 'a = int, of delta int64_min] by simp
  then show "checkedNegate delta = (if sint delta = - (2 ^ 63) then None else Some (- delta))"
    by (simp add: checkedNegate_def)
  assume "checkedNegate delta = Some n"
  then have "n = - delta" "sint delta \<noteq> - (2 ^ 63)" using eq by (auto simp: checkedNegate_def split: if_splits)
  then show "sint n = - sint delta" using sint_word_of_int [of "- sint delta"] sint_range [of delta] by simp
qed

lemma char_byte [simp]: "char_of (unat (of_char c :: byte)) = c"
proof -
  have "of_char c < (256 :: nat)" by simp
  moreover have "(of_char c :: byte) = word_of_nat (of_char c)" by (simp add: of_nat_of_char)
  ultimately have "unat (of_char c :: byte) = of_char c" by (simp add: unat_of_nat)
  then show ?thesis by simp
qed

text \<open>A counter is read back as it was written.\<close>

lemma parse_to_string [simp]: "parseWholeInt64 (to_string w) = Some w"
proof -
  note r = sint_range [of w]
  have s: "map (\<lambda>b. char_of (unat b)) (to_string w) = str_int (sint w)" by (simp add: to_string_def comp_def)
  show ?thesis
  proof (cases "sint w < 0")
    case True
    with r show ?thesis by (simp add: parseWholeInt64_def s str_int_def)
  next
    case False
    have "hd (str_nat (nat (sint w))) \<noteq> CHR ''-''" using hd_in_set [OF str_nat_ne] str_nat_not(3) by metis
    with False r show ?thesis by (simp add: parseWholeInt64_def s str_int_def)
  qed
qed

lemma to_string_inject: "to_string v = to_string w \<longleftrightarrow> v = w"
  by (metis option.inject parse_to_string)

lemma length_to_string: "length (to_string w) \<le> 20"
proof -
  have "nat \<bar>sint w\<bar> < 10 ^ 19" using sint_range [of w] by simp
  then have "length (str_nat (nat \<bar>sint w\<bar>)) \<le> 19" by (rule length_str_nat) simp
  then show ?thesis by (auto simp: to_string_def str_int_def abs_if split: if_splits)
qed

text \<open>The time to live that is kept is the one of the item, unless its expiry has wrapped to 0, which is none.\<close>

lemma kept_ttl_eq [simp]: "kept_ttl (v, created, ttl) = (if expiry_time (v, created, ttl) = 0 then 0 else ttl)"
  by (simp add: kept_ttl_def) (simp add: expiry_time_def split: if_splits)

lemma still_live_exact:
  assumes "created + unat ttl < 2 ^ 32" and "now < 2 ^ 32"
  shows "still_live now (v, created, ttl) \<longleftrightarrow> ttl = 0 \<or> now < created + unat ttl"
  using assms expiry_time_nonzero [OF assms(1)] unat_expiry_time [OF assms(1)]
  by (auto simp: still_live_def word_less_nat_alt unat_clock32)

section \<open>Counters\<close>

text \<open>The number a key counts: 0 without an item, nothing if the item is no number.\<close>

definition counter_value :: "nat \<Rightarrow> string \<Rightarrow> server \<Rightarrow> int option" where
  "counter_value now key s = (case find_item now key s of None \<Rightarrow> Some 0
     | Some (v, created, ttl) \<Rightarrow> map_option sint (parseWholeInt64 v))"

text \<open>
  Creation time and time to live of the item an increment leaves: a positive time starts a new period, 0
  keeps the one of an existing item (no expiry if that has wrapped to 0; the current time if the creation time
  is 0 at 32 bits, which asks CacheLib for it).
\<close>

definition stamp :: "nat \<Rightarrow> 32 word \<Rightarrow> citem option \<Rightarrow> nat \<times> 32 word" where
  "stamp now ttl found = (case found of None \<Rightarrow> (now, ttl)
     | Some (v, created, t) \<Rightarrow> if ttl = 0 then (if clock32 created = 0 then now else created, if expiry_time (v, created, t) = 0 then 0 else t)
       else (now, ttl))"

text \<open>What \<open>atomicAddValue\<close> promises of a key and its number.\<close>

definition added :: "nat \<Rightarrow> string \<Rightarrow> int \<Rightarrow> 32 word \<Rightarrow> server \<Rightarrow> incr_decr_result \<Rightarrow> server \<Rightarrow> bool" where
  "added now key d ttl s r s' \<longleftrightarrow>
     (if id_success r
      then counter_value now key s = Some (sint (id_new_value r) - d)
        \<and> sv_items s' = (sv_items s)(key \<mapsto> (to_string (id_new_value r), stamp now ttl (find_item now key s)))
      else sv_items s' = sv_items s
        \<and> (case counter_value now key s of None \<Rightarrow> True
           | Some n \<Rightarrow> - (2 ^ 63) \<le> n + d \<and> n + d < 2 ^ 63 \<longrightarrow> id_message r = ''Failed to store new value''))"

lemma atomicAddValue_added:
  assumes "sv_ready s" and "cm_atomicAddValue now room key delta ttl s = (r, s')"
  shows "added now key (sint delta) ttl s r s'"
proof -
  have failed: "\<not> id_success (failed_add m)" "id_message (failed_add m) = m" for m by (simp_all add: failed_add_def)
  note defs = added_def stamp_def counter_value_def cm_atomicAddValue_def cm_setWithCreationTime_def checkedAdd_exact Let_def failed
  show ?thesis
  proof (cases "find_item now key s")
    case None
    with assms show ?thesis by (auto simp: defs sint_range not_le dest: sint_add_exact split: if_splits)
  next
    case (Some i)
    obtain v c t where i: "i = (v, c, t)" by (cases i)
    show ?thesis
    proof (cases "parseWholeInt64 v")
      case None
      with assms Some i show ?thesis by (auto simp: defs)
    next
      case n: (Some n)
      with assms Some i show ?thesis using sint_add_exact [of n delta] by (auto simp: defs split: if_splits)
    qed
  qed
qed

text \<open>
  C30. Increments and decrements are exact or refused: on a ready server with a nonempty key the call is
  answered. If it reports success, the new value is the old number (0 for a new key) plus or minus the
  amount (1 if it is 0), computed without wrapping; the key holds its decimal text, with the expiry it
  had if the request named none. If not, no item has changed, and a result that fits 64 bits was refused only
  because it could not be stored (or, for a decrement, because the amount cannot be negated).
\<close>

theorem increment_exact:
  assumes "sv_ready s" and "key \<noteq> []"
  shows "(\<exists>r s'. service_Increment now room key delta ttl s = (Inr r, s')
      \<and> added now key (if delta = 0 then 1 else sint delta) (narrow_ttl ttl) s r s')
    \<and> (\<exists>r s'. service_Decrement now room key delta ttl s = (Inr r, s')
      \<and> (if sint delta = - (2 ^ 63) then \<not> id_success r \<and> s' = s
         else added now key (if delta = 0 then - 1 else - sint delta) (narrow_ttl ttl) s r s'))"
proof -
  let ?d = "if delta = 0 then 1 else delta"
  have d: "sint ?d = (if delta = 0 then 1 else sint delta)" "?d \<noteq> 0" by simp_all
  obtain r s' where r: "cm_atomicAddValue now room key ?d (narrow_ttl ttl) s = (r, s')" by fastforce
  have inc: "added now key (sint ?d) (narrow_ttl ttl) s r s'" by (rule atomicAddValue_added [OF assms(1) r])
  have "\<exists>r s'. service_Decrement now room key delta ttl s = (Inr r, s')
      \<and> (if sint ?d = - (2 ^ 63) then \<not> id_success r \<and> s' = s else added now key (- sint ?d) (narrow_ttl ttl) s r s')"
  proof (cases "checkedNegate ?d")
    case None
    then have "sint ?d = - (2 ^ 63)" using checkedNegate_exact(1) [of ?d] by (metis option.distinct(1))
    with None assms d(2) show ?thesis by (simp add: service_Decrement_def guarded_def cm_decrement_def failed_add_def)
  next
    case (Some m)
    obtain q u where q: "cm_atomicAddValue now room key m (narrow_ttl ttl) s = (q, u)" by fastforce
    have "sint ?d \<noteq> - (2 ^ 63)" "sint m = - sint ?d"
      using Some checkedNegate_exact(1) [of ?d] checkedNegate_exact(2) [OF Some] by (auto split: if_splits)
    moreover have "added now key (sint m) (narrow_ttl ttl) s q u" by (rule atomicAddValue_added [OF assms(1) q])
    moreover have "service_Decrement now room key delta ttl s = (Inr q, u)"
      using Some q assms d(2) by (simp add: service_Decrement_def guarded_def cm_decrement_def)
    ultimately show ?thesis by auto
  qed
  moreover have "service_Increment now room key delta ttl s = (Inr r, s')"
    using r assms d(2) by (simp add: service_Increment_def guarded_def cm_increment_def)
  ultimately show ?thesis using inc by (auto simp: d(1) split: if_splits)
qed

theorem increment_exact_witness:
  "\<exists>r s'. service_Increment 5 (\<lambda>_ _ _. True) ''k'' 0 0 (empty_server\<lparr>sv_items := [''k'' \<mapsto> (to_string 41, 3, 60)]\<rparr>) = (Inr r, s')
    \<and> added 5 ''k'' 1 (narrow_ttl 0) (empty_server\<lparr>sv_items := [''k'' \<mapsto> (to_string 41, 3, 60)]\<rparr>) r s'"
  using increment_exact [of "empty_server\<lparr>sv_items := [''k'' \<mapsto> (to_string 41, 3, 60)]\<rparr>" "''k''" 5 "\<lambda>_ _ _. True" 0 0]
  by (simp add: empty_server_def)

section \<open>The fixed window of Incr\<close>

text \<open>A bucket: the key holds the number \<open>n\<close> with the creation time and the time to live of the window.\<close>

definition bucket :: "string \<Rightarrow> int \<Rightarrow> nat \<Rightarrow> 32 word \<Rightarrow> server \<Rightarrow> bool" where
  "bucket key n t0 ttl s \<longleftrightarrow> sv_ready s \<and> 20 \<le> sv_max_item_size s
     \<and> (\<exists>w. sint w = n \<and> sv_items s key = Some (to_string w, t0, ttl))"

abbreviation amount :: "64 word \<Rightarrow> int" where
  "amount delta \<equiv> (if delta = 0 then 1 else sint delta)"

lemma cm_incr_bucket:
  assumes "bucket key n t0 ttl s" and "0 < t0" and "t0 + unat ttl < 2 ^ 32" and "ttl = 0 \<or> now < t0 + unat ttl"
    and "- (2 ^ 63) \<le> n + amount delta" and "n + amount delta < 2 ^ 63" and "\<And>k v s. room k v s"
  shows "\<exists>w s'. cm_incr now room key delta ttl' s = (\<lparr>in_success = True, in_value = w, in_ttl_set = False, in_message = []\<rparr>, s')
    \<and> sint w = n + amount delta \<and> bucket key (n + amount delta) t0 ttl s'"
proof -
  obtain v where v: "sint v = n" "sv_items s key = Some (to_string v, t0, ttl)" "sv_ready s" "20 \<le> sv_max_item_size s"
    using assms(1) by (auto simp: bucket_def)
  let ?d = "if delta = 0 then 1 else delta"
  have d: "sint ?d = amount delta" by simp
  have live: "still_live now (to_string v, t0, ttl)" "\<not> expired now (to_string v, t0, ttl)"
    using still_live_exact [OF assms(3), of now "to_string v"] expired_exact [OF assms(3), of now "to_string v"] assms(3,4)
    by (cases "ttl = 0"; auto simp: still_live_def)+
  have t0: "clock32 t0 \<noteq> 0" using assms(2,3) unat_clock32 [of t0] by (metis add_lessD1 not_gr_zero unat_0)
  have kept: "expiry_time (to_string v, t0, ttl) = 0 \<longleftrightarrow> ttl = 0" by (rule expiry_time_nonzero [OF assms(3)])
  have f: "find_item now key s = Some (to_string v, t0, ttl)" "still_live now (to_string v, t0, ttl)"
    using v(2) live by (auto simp: find_item_def)
  have w: "checkedAdd v ?d = Some (v + ?d)" "sint (v + ?d) = n + amount delta"
    unfolding checkedAdd_exact using sint_add_exact [of v ?d] assms(5,6) v(1) d by simp_all
  have l: "\<not> sv_max_item_size s < length (to_string (v + ?d))" using length_to_string [of "v + ?d"] v(4) by linarith
  show ?thesis using v(3,4) f w l t0 kept assms(7)
    by (auto simp: cm_incr_def Let_def cm_setWithCreationTime_def bucket_def simp del: split_paired_Ex)
qed

text \<open>The results of a sequence of calls for one key.\<close>

fun incr_calls :: "allocator \<Rightarrow> string \<Rightarrow> (nat \<times> 64 word \<times> 64 word) list \<Rightarrow> server \<Rightarrow> (rpc_error + 64 word \<times> bool) list \<times> server" where
  "incr_calls room key [] s = ([], s)"
| "incr_calls room key ((now, delta, ttl) # calls) s =
     (let (r, s) = service_Incr now room key delta ttl s; (rs, s) = incr_calls room key calls s in (r # rs, s))"

definition in_window :: "nat \<Rightarrow> 32 word \<Rightarrow> nat \<times> 64 word \<times> 64 word \<Rightarrow> bool" where
  "in_window t0 ttl call \<longleftrightarrow> ttl = 0 \<or> fst call < t0 + unat ttl"

definition running_sums :: "int \<Rightarrow> (nat \<times> 64 word \<times> 64 word) list \<Rightarrow> int list" where
  "running_sums n calls = map (\<lambda>j. n + sum_list (map (\<lambda>(now, delta, ttl). amount delta) (take (Suc j) calls))) [0..<length calls]"

lemma running_sums_Cons:
  "running_sums n ((now, delta, ttl) # calls) = (n + amount delta) # running_sums (n + amount delta) calls"
  by (simp add: running_sums_def upt_rec [of 0] map_Suc_upt [symmetric] del: upt_Suc map_Suc_upt)

lemma incr_calls_bucket:
  assumes "key \<noteq> []" and "0 < t0" and "t0 + unat ttl < 2 ^ 32" and "\<And>k v s. room k v s"
  shows "bucket key n t0 ttl s \<Longrightarrow> list_all (in_window t0 ttl) calls \<Longrightarrow>
    list_all (\<lambda>x. - (2 ^ 63) \<le> x \<and> x < 2 ^ 63) (running_sums n calls) \<Longrightarrow>
    \<exists>ws s'. incr_calls room key calls s = (map (\<lambda>w. Inr (w, False)) ws, s') \<and> map sint ws = running_sums n calls
      \<and> bucket key (last (n # running_sums n calls)) t0 ttl s'"
proof (induction calls arbitrary: n s)
  case Nil
  then show ?case by (simp add: running_sums_def)
next
  case (Cons c calls)
  obtain now delta ttl' where c: "c = (now, delta, ttl')" by (cases c)
  let ?n = "n + amount delta"
  have sums: "running_sums n (c # calls) = ?n # running_sums ?n calls" unfolding c by (rule running_sums_Cons)
  have "amount (if delta = 0 then 1 else delta) = amount delta" by simp
  then obtain w s' where w: "cm_incr now room key (if delta = 0 then 1 else delta) (narrow_ttl ttl') s =
      (\<lparr>in_success = True, in_value = w, in_ttl_set = False, in_message = []\<rparr>, s')"
      "sint w = ?n" "bucket key ?n t0 ttl s'"
    using cm_incr_bucket [OF Cons.prems(1) assms(2,3), of now "if delta = 0 then 1 else delta" room "narrow_ttl ttl'"]
      Cons.prems(2,3) assms(4) sums c by (auto simp: in_window_def)
  have "sv_ready s" using Cons.prems(1) by (simp add: bucket_def)
  then have call: "service_Incr now room key delta ttl' s = (Inr (w, False), s')"
    using w(1) assms(1) by (simp add: service_Incr_def guarded_def)
  have "list_all (in_window t0 ttl) calls" "list_all (\<lambda>x. - (2 ^ 63) \<le> x \<and> x < 2 ^ 63) (running_sums ?n calls)"
    using Cons.prems(2,3) sums by simp_all
  from Cons.IH [OF w(3) this] obtain ws u where "incr_calls room key calls s' = (map (\<lambda>w. Inr (w, False)) ws, u)"
    "map sint ws = running_sums ?n calls" "bucket key (last (?n # running_sums ?n calls)) t0 ttl u" by blast
  with call w(2) c sums show ?case by (intro exI [of _ "w # ws"] exI [of _ u]) simp
qed

text \<open>
  C12. The window of a rate limiter does not slide and counts exactly: once \<open>Incr\<close> has opened a bucket, any
  number of further calls before its deadline, whatever time to live they ask for, return the running sums of their
  amounts, report that no time was stamped, and leave the bucket with the creation time and the time to
  live it was opened with, as long as the sums fit 64 bits, allocations succeed, and the deadline fits the 32 bits
  the server keeps times in.
\<close>

theorem incr_fixed_window:
  assumes "sv_ready s" and "key \<noteq> []" and "find_item t0 key s = None" and "0 < t0" and "t0 + unat (narrow_ttl ttl) < 2 ^ 32" and "20 \<le> sv_max_item_size s"
    and "\<forall>k v s. room k v s" and "list_all (in_window t0 (narrow_ttl ttl)) calls"
    and "list_all (\<lambda>x. - (2 ^ 63) \<le> x \<and> x < 2 ^ 63) (running_sums (amount delta) calls)"
  shows "\<exists>w s1 ws s'. service_Incr t0 room key delta ttl s = (Inr (w, True), s1) \<and> sint w = amount delta
    \<and> incr_calls room key calls s1 = (map (\<lambda>w. Inr (w, False)) ws, s') \<and> map sint ws = running_sums (amount delta) calls
    \<and> bucket key (last (amount delta # running_sums (amount delta) calls)) t0 (narrow_ttl ttl) s'"
proof -
  let ?d = "if delta = 0 then 1 else delta"
  let ?s = "s\<lparr>sv_set_count := sv_set_count s + 1, sv_items := (sv_items s)(key \<mapsto> (to_string ?d, t0, narrow_ttl ttl))\<rparr>"
  have d: "sint ?d = amount delta" "?d \<noteq> 0" by simp_all
  have "checkedAdd 0 ?d = Some ?d" using sint_range [of ?d] by (simp add: checkedAdd_exact)
  moreover have "\<not> sv_max_item_size s < length (to_string ?d)" using length_to_string [of ?d] assms(6) by linarith
  ultimately have first: "service_Incr t0 room key delta ttl s = (Inr (?d, True), ?s)"
    using assms(1-3,7) d(2) by (simp add: service_Incr_def guarded_def cm_incr_def Let_def cm_setWithCreationTime_def)
  have "bucket key (amount delta) t0 (narrow_ttl ttl) ?s"
    unfolding bucket_def using assms(1,6) d(1) by (intro conjI exI [of _ ?d]) simp_all
  from incr_calls_bucket [OF assms(2,4,5) _ this assms(8,9), of room] assms(7) first d(1) show ?thesis by blast
qed

theorem incr_fixed_window_witness:
  "\<exists>w s1 ws s'. service_Incr 100 (\<lambda>_ _ _. True) ''rl'' 0 60 empty_server = (Inr (w, True), s1) \<and> sint w = 1
    \<and> incr_calls (\<lambda>_ _ _. True) ''rl'' [(120, 2, 60), (159, 3, 0)] s1 = (map (\<lambda>w. Inr (w, False)) ws, s')
    \<and> map sint ws = [3, 6] \<and> bucket ''rl'' 6 100 60 s'"
proof -
  have n: "narrow_ttl 60 = 60" by (simp add: narrow_ttl_def word_sless_alt)
  have r: "running_sums 1 [(120, 2, 60), (159, 3, 0)] = [3, 6]" by (simp add: running_sums_Cons) (simp add: running_sums_def)
  show ?thesis
    using incr_fixed_window [of empty_server "''rl''" 100 60 "\<lambda>_ _ _. True" "[(120, 2, 60), (159, 3, 0)]" 0]
    by (simp add: n r find_item_def empty_server_def in_window_def)
qed

section \<open>Locks and conditional writes\<close>

text \<open>
  \<open>SetNX\<close> works as a lock: after one that succeeded at time \<open>t\<close>, and as long as nothing else writes the key,
  every other \<open>SetNX\<close> up to the expiry is refused, shows the value of the holder and changes nothing;
  after the expiry the next one gets the lock if its value can be stored; the clock and the expiry have to fit 32 bits.
\<close>

theorem setnx_lock:
  assumes "service_SetNX t room key owner ttl s = (Inr r, s1)" and "nr_was_set r" and "t \<le> now" and "sv_ready s"
    and "now < 2 ^ 32" and "t + unat (narrow_ttl ttl) < 2 ^ 32"
  shows "if narrow_ttl ttl = 0 \<or> now \<le> t + unat (narrow_ttl ttl)
    then service_SetNX now room key other ttl' s1 = (Inr \<lparr>nr_was_set = False, nr_message = ''Key already exists'', nr_existing_value = owner\<rparr>, s1)
    else \<exists>r' s2. service_SetNX now room key other ttl' s1 = (Inr r', s2)
      \<and> nr_was_set r' = (length other \<le> sv_max_item_size s1 \<and> room key other s1)"
proof -
  have s1: "sv_ready s1" "key \<noteq> []" "sv_items s1 key = Some (owner, t, narrow_ttl ttl)"
    using assms by (auto simp: service_SetNX_def guarded_def cm_setNX_def cm_set_def Let_def split: if_splits option.splits prod.splits)
  have f: "find_item now key s1 = (if narrow_ttl ttl = 0 \<or> now \<le> t + unat (narrow_ttl ttl) then Some (owner, t, narrow_ttl ttl) else None)"
    using s1(3) expired_exact [OF assms(6,5)] by (auto simp: find_item_def)
  show ?thesis using s1(1,2) f
    by (auto simp: service_SetNX_def guarded_def cm_setNX_def cm_set_def Let_def)
qed

theorem setnx_lock_witness:
  "\<exists>r s1. service_SetNX 5 (\<lambda>_ _ _. True) ''lock'' [1] 30 empty_server = (Inr r, s1)
    \<and> service_SetNX 35 (\<lambda>_ _ _. True) ''lock'' [2] 30 s1
       = (Inr \<lparr>nr_was_set = False, nr_message = ''Key already exists'', nr_existing_value = [1]\<rparr>, s1)"
proof -
  have n: "narrow_ttl 30 = 30" by (simp add: narrow_ttl_def word_sless_alt)
  obtain r s1 where r: "service_SetNX 5 (\<lambda>_ _ _. True) ''lock'' [1] 30 empty_server = (Inr r, s1)" "nr_was_set r"
    by (simp add: service_SetNX_def guarded_def cm_setNX_def cm_set_def find_item_def empty_server_def)
  from setnx_lock [OF r, of 35 "[2]" 30] r(1) show ?thesis by (simp add: n empty_server_def)
qed

text \<open>
  A refused \<open>SetNX\<close> does not mean that the key exists: when the value is too large or cannot be allocated the
  handler still answers "Key already exists", with an empty value, although the key has no item.
\<close>

theorem setnx_failure_claims_existence:
  assumes "sv_ready s" and "key \<noteq> []" and "find_item now key s = None" and "sv_max_item_size s < length v \<or> \<not> room key v s"
  shows "\<exists>s'. service_SetNX now room key v ttl s
      = (Inr \<lparr>nr_was_set = False, nr_message = ''Key already exists'', nr_existing_value = []\<rparr>, s')
    \<and> find_item now key s' = None"
  using assms by (auto simp: service_SetNX_def guarded_def cm_setNX_def cm_set_def find_item_def Let_def split: option.splits if_splits)

theorem setnx_failure_claims_existence_witness:
  "\<exists>s'. service_SetNX 5 (\<lambda>_ _ _. False) ''k'' [1] 0 empty_server
      = (Inr \<lparr>nr_was_set = False, nr_message = ''Key already exists'', nr_existing_value = []\<rparr>, s') \<and> find_item 5 ''k'' s' = None"
  using setnx_failure_claims_existence [of empty_server "''k''" 5 "[1]" "\<lambda>_ _ _. False" 0] by (simp add: find_item_def empty_server_def)

text \<open>
  \<open>CompareAndSwap\<close> writes only over what the caller has seen: it reports success exactly when the key
  holds the expected bytes and the new ones can be stored; then the key holds the new bytes, with the
  creation time and time to live it had if asked to keep them (a wrapped expiry of 0 stays none); in every other case no item changes, and
  the reply shows the bytes the key holds (none without an item).
\<close>

theorem compare_and_swap:
  assumes "sv_ready s" and "key \<noteq> []"
  shows "\<exists>r s'. service_CompareAndSwap now room key expected new ttl keep s = (Inr r, s')
    \<and> (case find_item now key s of
         None \<Rightarrow> \<not> cr_success r \<and> cr_actual_value r = [] \<and> s' = s
       | Some (v, created, t) \<Rightarrow>
           cr_success r = (v = expected \<and> length new \<le> sv_max_item_size s \<and> room key new s)
           \<and> cr_actual_value r = (if cr_success r then new else v)
           \<and> sv_items s' = (if cr_success r
               then (sv_items s)(key \<mapsto> (new, if keep \<and> clock32 created \<noteq> 0 then created else now,
                 if keep then if expiry_time (v, created, t) = 0 then 0 else t else ttl)) else sv_items s))"
  using assms
  by (auto simp: service_CompareAndSwap_def guarded_def cm_compareAndSwap_def cm_setWithCreationTime_def Let_def
      split: option.splits prod.splits)

theorem compare_and_swap_witness:
  "\<exists>r s'. service_CompareAndSwap 9 (\<lambda>_ _ _. True) ''k'' [1] [2] 0 True (empty_server\<lparr>sv_items := [''k'' \<mapsto> ([1], 5, 60)]\<rparr>) = (Inr r, s')
    \<and> cr_success r \<and> sv_items s' ''k'' = Some ([2], 5, 60)"
  using compare_and_swap [of "empty_server\<lparr>sv_items := [''k'' \<mapsto> ([1], 5, 60)]\<rparr>" "''k''" 9 "\<lambda>_ _ _. True" "[1]" "[2]" 0 True]
  by (auto simp: find_item_def expired_exact expiry_time_def clock32_def empty_server_def)

end
