(* ===== verification/Cache_Scan.thy ===== *)
theory Cache_Scan
  imports Cache_Server
begin

text \<open>
  Key scanning: \<open>matchesPattern\<close>, \<open>scan\<close> and \<open>flush\<close> of \<open>CacheManager.cc\<close> and the handlers \<open>Scan\<close> and \<open>Flush\<close>.
  The order in which CacheLib's iterator visits the table is third-party behaviour: what it yields
  is the argument \<open>entries\<close>, the keys with their items. The matching loop is bounded by fuel; the bound
  is the product of the lengths that the comment of the source names as its worst case, and is
  proved to be enough.
\<close>

section \<open>The wildcard matcher\<close>

text \<open>
  The loop of \<open>matchesPattern\<close>: positions \<open>k\<close> in the key and \<open>p\<close> in the pattern, and \<open>(starPos, starKey)\<close>, which is
  \<open>None\<close> while \<open>starPos == kNone\<close>. After the loop trailing stars are skipped.
\<close>

fun match_loop :: "nat \<Rightarrow> string \<Rightarrow> string \<Rightarrow> nat \<Rightarrow> nat \<Rightarrow> (nat \<times> nat) option \<Rightarrow> bool option" where
  "match_loop 0 key pat k p star = None"
| "match_loop (Suc n) key pat k p star =
     (if k < length key then
        if p < length pat \<and> (pat ! p = CHR ''?'' \<or> pat ! p = key ! k) then match_loop n key pat (k + 1) (p + 1) star
        else if p < length pat \<and> pat ! p = CHR ''*'' then match_loop n key pat k (p + 1) (Some (p, k))
        else (case star of
          Some (starPos, starKey) \<Rightarrow> match_loop n key pat (starKey + 1) (starPos + 1) (Some (starPos, starKey + 1))
        | None \<Rightarrow> Some False)
      else Some (dropWhile (\<lambda>c. c = CHR ''*'') (drop p pat) = []))"

definition match_bound :: "string \<Rightarrow> string \<Rightarrow> nat" where
  "match_bound key pat = length key * (length pat + 1) + length pat + 1"

definition matchesPattern :: "string \<Rightarrow> string \<Rightarrow> bool option" where
  "matchesPattern key pat =
     (if pat = [] \<or> pat = ''*'' then Some True else match_loop (match_bound key pat) key pat 0 0 None)"

text \<open>The meaning of a pattern: \<open>?\<close> is any character, \<open>*\<close> any text, everything else is itself.\<close>

fun glob :: "string \<Rightarrow> string \<Rightarrow> bool" where
  "glob [] s = (s = [])"
| "glob (x # pat) [] = (x = CHR ''*'' \<and> glob pat [])"
| "glob (x # pat) (c # s) =
     (if x = CHR ''*'' then glob pat (c # s) \<or> glob (x # pat) s
      else (x = CHR ''?'' \<or> x = c) \<and> glob pat s)"

text \<open>The loop ends: between two retries the pattern position grows, and every retry moves \<open>starKey\<close>.\<close>

definition match_measure :: "string \<Rightarrow> string \<Rightarrow> nat \<Rightarrow> (nat \<times> nat) option \<Rightarrow> nat" where
  "match_measure key pat p star =
     (length key - (case star of None \<Rightarrow> 0 | Some (starPos, starKey) \<Rightarrow> starKey)) * (length pat + 1) + (length pat - p)"

definition star_before :: "nat \<Rightarrow> nat \<Rightarrow> (nat \<times> nat) option \<Rightarrow> bool" where
  "star_before k p star = (case star of None \<Rightarrow> True | Some (starPos, starKey) \<Rightarrow> starKey \<le> k \<and> starPos < p)"

lemma match_loop_returns:
  "star_before k p star \<Longrightarrow> p \<le> length pat \<Longrightarrow> match_measure key pat p star < n \<Longrightarrow> match_loop n key pat k p star \<noteq> None"
proof (induction n key pat k p star rule: match_loop.induct)
  case (2 n key pat k p star)
  have retry: "match_measure key pat (sp + 1) (Some (sp, sk + 1)) < match_measure key pat p (Some (sp, sk))"
    if "sk \<le> k" "k < length key" "sp < p" for sp sk
  proof -
    have "sk < length key" using that by simp
    then obtain d where "length key = Suc (sk + d)" using less_imp_Suc_add by blast
    then show ?thesis by (simp add: match_measure_def)
  qed
  have push: "match_measure key pat (p + 1) (Some (p, k)) < match_measure key pat p star"
    if "p < length pat"
  proof -
    have "length key - k \<le> length key - (case star of None \<Rightarrow> 0 | Some (sp, sk) \<Rightarrow> sk)"
      using "2.prems"(1) by (auto simp: star_before_def split: option.splits)
    then have "(length key - k) * (length pat + 1) \<le> (length key - (case star of None \<Rightarrow> 0 | Some (sp, sk) \<Rightarrow> sk)) * (length pat + 1)"
      by (rule mult_le_mono1)
    moreover have "length pat - (p + 1) < length pat - p" using that by simp
    ultimately show ?thesis by (simp only: match_measure_def option.case prod.case add_le_less_mono)
  qed
  have adv: "match_measure key pat (p + 1) star < match_measure key pat p star" if "p < length pat"
    using that by (simp add: match_measure_def)
  show ?case
  proof (cases "k < length key")
    case k: True
    consider (eq) "p < length pat" "pat ! p = CHR ''?'' \<or> pat ! p = key ! k"
      | (st) "p < length pat" "\<not> (pat ! p = CHR ''?'' \<or> pat ! p = key ! k)" "pat ! p = CHR ''*''"
      | (no) "\<not> (p < length pat \<and> (pat ! p = CHR ''?'' \<or> pat ! p = key ! k))" "\<not> (p < length pat \<and> pat ! p = CHR ''*'')"
      by blast
    then show ?thesis
    proof cases
      case eq
      have "star_before (k + 1) (p + 1) star" using "2.prems"(1) by (auto simp: star_before_def split: option.splits)
      with 2 eq k adv show ?thesis by simp
    next
      case st
      have "star_before k (p + 1) (Some (p, k))" by (simp add: star_before_def)
      with 2 st k push show ?thesis by simp
    next
      case no
      show ?thesis
      proof (cases star)
        case (Some x)
        obtain sp sk where x: "x = (sp, sk)" by fastforce
        have s: "sk \<le> k" "sp < p" using "2.prems"(1) Some x by (simp_all add: star_before_def)
        have "star_before (sk + 1) (sp + 1) (Some (sp, sk + 1))" by (simp add: star_before_def)
        with 2 no k Some x s retry [OF s(1) k s(2)] show ?thesis by auto
      qed (use k no in auto)
    qed
  qed simp
qed simp

text \<open>
  The meaning of a state of the loop: the rest of the pattern matches the rest of the key, or the last
  star can swallow more. Only the last star is ever retried.
\<close>

definition alternative :: "string \<Rightarrow> string \<Rightarrow> (nat \<times> nat) option \<Rightarrow> bool" where
  "alternative key pat star = (case star of None \<Rightarrow> False
     | Some (sp, sk) \<Rightarrow> \<exists>j > sk. glob (drop (sp + 1) pat) (drop j key))"

lemma glob_star: "glob (CHR ''*'' # pat) s \<longleftrightarrow> (\<exists>j. glob pat (drop j s))"
proof (induction s)
  case (Cons c s)
  have "(\<exists>j. glob pat (drop j (c # s))) \<longleftrightarrow> glob pat (c # s) \<or> (\<exists>j. glob pat (drop j s))"
    by (metis (no_types, lifting) drop0 drop_Suc_Cons not0_implies_Suc)
  with Cons show ?case by simp
qed simp

lemma glob_Nil: "glob pat [] \<longleftrightarrow> dropWhile (\<lambda>c. c = CHR ''*'') pat = []"
  by (induction pat) auto

lemma glob_at:
  assumes "k < length key" and "p < length pat"
  shows "pat ! p \<noteq> CHR ''*'' \<Longrightarrow> glob (drop p pat) (drop k key)
      \<longleftrightarrow> (pat ! p = CHR ''?'' \<or> pat ! p = key ! k) \<and> glob (drop (p + 1) pat) (drop (k + 1) key)"
    and "pat ! p = CHR ''*'' \<Longrightarrow> glob (drop p pat) (drop k key) \<longleftrightarrow> (\<exists>j \<ge> k. glob (drop (p + 1) pat) (drop j key))"
proof -
  have d: "drop p pat = pat ! p # drop (p + 1) pat" "drop k key = key ! k # drop (k + 1) key"
    using assms by (simp_all add: Cons_nth_drop_Suc)
  then show "pat ! p \<noteq> CHR ''*'' \<Longrightarrow> glob (drop p pat) (drop k key)
      \<longleftrightarrow> (pat ! p = CHR ''?'' \<or> pat ! p = key ! k) \<and> glob (drop (p + 1) pat) (drop (k + 1) key)"
    by simp
  assume star: "pat ! p = CHR ''*''"
  have "glob (drop p pat) (drop k key) \<longleftrightarrow> (\<exists>j. glob (drop (p + 1) pat) (drop (j + k) key))"
    using d(1) star glob_star [of "drop (p + 1) pat" "drop k key"] by simp
  then show "glob (drop p pat) (drop k key) \<longleftrightarrow> (\<exists>j \<ge> k. glob (drop (p + 1) pat) (drop j key))"
    by (metis le_add2 le_add_diff_inverse2)
qed

lemma glob_star_literal:
  assumes "k < length key" and "p < length pat" and "pat ! p = CHR ''?'' \<or> pat ! p = key ! k"
    and "glob (drop (p + 1) pat) (drop (k + 1) key)"
  shows "glob (drop p pat) (drop k key)"
  using assms glob_at [OF assms(1,2)] by (cases "pat ! p = CHR ''*''") (auto intro: exI [of _ "k + 1"])

lemma glob_mismatch:
  assumes "k < length key" and "\<not> (p < length pat \<and> (pat ! p = CHR ''?'' \<or> pat ! p = key ! k))"
    and "\<not> (p < length pat \<and> pat ! p = CHR ''*'')"
  shows "\<not> glob (drop p pat) (drop k key)"
  using assms glob_at(1) [OF assms(1), of p pat] by (cases "p < length pat") auto

lemma alternative_retry:
  "glob (drop (sp + 1) pat) (drop (sk + 1) key) \<or> alternative key pat (Some (sp, sk + 1)) \<longleftrightarrow> alternative key pat (Some (sp, sk))"
  unfolding alternative_def by simp (metis Suc_lessI Suc_lessD lessI)

lemma match_loop_sound:
  "match_loop n key pat k p star = Some True \<Longrightarrow> glob (drop p pat) (drop k key) \<or> alternative key pat star"
proof (induction n key pat k p star rule: match_loop.induct)
  case (2 n key pat k p star)
  show ?case
  proof (cases "k < length key")
    case k: True
    consider (eq) "p < length pat" "pat ! p = CHR ''?'' \<or> pat ! p = key ! k"
      | (st) "p < length pat" "\<not> (pat ! p = CHR ''?'' \<or> pat ! p = key ! k)" "pat ! p = CHR ''*''"
      | (no) "\<not> (p < length pat \<and> (pat ! p = CHR ''?'' \<or> pat ! p = key ! k))" "\<not> (p < length pat \<and> pat ! p = CHR ''*'')"
      by blast
    then show ?thesis
    proof cases
      case eq
      with 2 k glob_star_literal [OF k eq] show ?thesis by auto
    next
      case st
      have "glob (drop (p + 1) pat) (drop k key) \<or> alternative key pat (Some (p, k))" using 2 st k by simp
      then have "\<exists>j \<ge> k. glob (drop (p + 1) pat) (drop j key)" by (auto simp: alternative_def intro: less_imp_le)
      then show ?thesis using glob_at(2) [OF k st(1,3)] by blast
    next
      case no
      then obtain sp sk where s: "star = Some (sp, sk)" using 2 k by (auto split: option.splits)
      with 2 no k have "glob (drop (sp + 1) pat) (drop (sk + 1) key) \<or> alternative key pat (Some (sp, sk + 1))"
        by simp
      then show ?thesis using s alternative_retry by blast
    qed
  next
    case False
    with 2 show ?thesis by (simp add: glob_Nil)
  qed
qed simp

text \<open>
  Completeness for keys without a star: since the last star the pattern has none, so that a match from a
  later start of the same star yields a match of what follows.
\<close>

definition since_star :: "string \<Rightarrow> nat \<Rightarrow> nat \<Rightarrow> (nat \<times> nat) option \<Rightarrow> bool" where
  "since_star pat k p star = (case star of None \<Rightarrow> True
     | Some (sp, sk) \<Rightarrow> sk \<le> k \<and> p = sp + 1 + (k - sk) \<and> p \<le> length pat
         \<and> (\<forall>i. sp < i \<and> i < p \<longrightarrow> pat ! i \<noteq> CHR ''*''))"

lemma glob_literal_prefix:
  "CHR ''*'' \<notin> set seg \<Longrightarrow> glob (seg @ rest) s \<Longrightarrow> glob rest (drop (length seg) s)"
proof (induction seg arbitrary: s)
  case (Cons x seg)
  then show ?case by (cases s) auto
qed simp

lemma alternative_later:
  assumes "since_star pat k p star" and "alternative key pat star"
  shows "\<exists>j > k. glob (drop p pat) (drop j key)"
proof -
  obtain sp sk j where s: "star = Some (sp, sk)" "j > sk" "glob (drop (sp + 1) pat) (drop j key)"
    using assms(2) by (auto simp: alternative_def split: option.splits)
  have i: "sk \<le> k" "p = sp + 1 + (k - sk)" "p \<le> length pat" "\<And>i. sp < i \<Longrightarrow> i < p \<Longrightarrow> pat ! i \<noteq> CHR ''*''"
    using assms(1) s(1) by (auto simp: since_star_def)
  let ?seg = "take (k - sk) (drop (sp + 1) pat)"
  have "CHR ''*'' \<notin> set ?seg" using i by (auto simp: in_set_conv_nth)
  moreover have "drop (sp + 1) pat = ?seg @ drop p pat"
    using i(2) by (metis append_take_drop_id drop_drop add.commute)
  ultimately have "glob (drop p pat) (drop (length ?seg) (drop j key))" using glob_literal_prefix s(3) by metis
  moreover have "length ?seg = k - sk" using i(2,3) by simp
  ultimately have "glob (drop p pat) (drop (j + (k - sk)) key)" by (simp add: add.commute)
  moreover have "k < j + (k - sk)" using i(1) s(2) by simp
  ultimately show ?thesis by blast
qed

lemma match_loop_complete:
  "CHR ''*'' \<notin> set key \<Longrightarrow> k \<le> length key \<Longrightarrow> since_star pat k p star \<Longrightarrow>
    glob (drop p pat) (drop k key) \<or> alternative key pat star \<Longrightarrow> match_loop n key pat k p star \<noteq> Some False"
proof (induction n key pat k p star rule: match_loop.induct)
  case (2 n key pat k p star)
  show ?case
  proof (cases "k < length key")
    case k: True
    have kn: "key ! k \<noteq> CHR ''*''" using "2.prems"(1) k nth_mem by metis
    consider (eq) "p < length pat" "pat ! p = CHR ''?'' \<or> pat ! p = key ! k"
      | (st) "p < length pat" "\<not> (pat ! p = CHR ''?'' \<or> pat ! p = key ! k)" "pat ! p = CHR ''*''"
      | (no) "\<not> (p < length pat \<and> (pat ! p = CHR ''?'' \<or> pat ! p = key ! k))" "\<not> (p < length pat \<and> pat ! p = CHR ''*'')"
      by blast
    then show ?thesis
    proof cases
      case eq
      have ps: "pat ! p \<noteq> CHR ''*''" using eq kn by auto
      then have "glob (drop p pat) (drop k key) \<longleftrightarrow> glob (drop (p + 1) pat) (drop (k + 1) key)"
        using glob_at(1) [OF k eq(1)] eq(2) by blast
      moreover have "since_star pat (k + 1) (p + 1) star"
        using "2.prems"(3) ps eq(1) by (auto simp: since_star_def less_Suc_eq split: option.splits)
      ultimately show ?thesis using 2 eq k by auto
    next
      case st
      have "\<exists>j \<ge> k. glob (drop (p + 1) pat) (drop j key)"
      proof (cases "alternative key pat star")
        case True
        then obtain j where "k < j" "glob (drop p pat) (drop j key)"
          using alternative_later [OF "2.prems"(3)] by blast
        then have "glob (CHR ''*'' # drop (p + 1) pat) (drop j key)" using st by (metis Cons_nth_drop_Suc Suc_eq_plus1)
        then obtain i where "glob (drop (p + 1) pat) (drop (i + j) key)" using glob_star by auto
        with \<open>k < j\<close> show ?thesis by (metis le_add2 less_imp_le order_trans)
      qed (use glob_at(2) [OF k st(1,3)] "2.prems"(4) in blast)
      then have "glob (drop (p + 1) pat) (drop k key) \<or> alternative key pat (Some (p, k))"
        unfolding alternative_def by (auto simp: le_less)
      moreover have "since_star pat k (p + 1) (Some (p, k))" using st(1) by (auto simp: since_star_def)
      ultimately show ?thesis using 2 st k by simp
    next
      case no
      have "alternative key pat star" using "2.prems"(4) glob_mismatch [OF k no] by blast
      then obtain sp sk where s: "star = Some (sp, sk)" by (auto simp: alternative_def split: option.splits)
      have "since_star pat (sk + 1) (sp + 1) (Some (sp, sk + 1))" and "sk + 1 \<le> length key"
        using "2.prems"(3) s k by (auto simp: since_star_def)
      moreover have "glob (drop (sp + 1) pat) (drop (sk + 1) key) \<or> alternative key pat (Some (sp, sk + 1))"
        using alternative_retry s \<open>alternative key pat star\<close> by blast
      ultimately show ?thesis using 2 no k s by auto
    qed
  next
    case False
    have "drop j key = []" if "j \<ge> k" for j using False that by simp
    then have "glob (drop p pat) []"
      using "2.prems"(4) alternative_later [OF "2.prems"(3), of key] by (metis less_imp_le order_refl)
    with False show ?thesis by (simp add: glob_Nil)
  qed
qed simp

lemma glob_only_star: "glob ''*'' s"
  using glob_star [of "[]" s] by (auto intro: exI [of _ "length s"])

lemma matchesPattern_glob:
  assumes "pat \<noteq> []"
  shows "\<exists>b. matchesPattern key pat = Some b \<and> (b \<longrightarrow> glob pat key) \<and> (CHR ''*'' \<notin> set key \<longrightarrow> b = glob pat key)"
proof (cases "pat = ''*''")
  case True
  then show ?thesis using glob_only_star by (auto simp: matchesPattern_def)
next
  case False
  have "match_loop (match_bound key pat) key pat 0 0 None \<noteq> None"
    by (rule match_loop_returns) (simp_all add: star_before_def match_measure_def match_bound_def)
  then obtain b where b: "match_loop (match_bound key pat) key pat 0 0 None = Some b" by blast
  have "b \<longrightarrow> glob pat key" using match_loop_sound [of _ key pat 0 0 None] b by (cases b) (auto simp: alternative_def)
  moreover have "CHR ''*'' \<notin> set key \<longrightarrow> glob pat key \<longrightarrow> b"
    using match_loop_complete [of key 0 pat 0 None] b by (cases b) (auto simp: since_star_def)
  ultimately show ?thesis using b False assms by (auto simp: matchesPattern_def)
qed



text \<open>
  A key with a star can be missed: the loop compares characters before it looks for a star, so that a
  star of the pattern is consumed as a literal when the key has a star in its place, without becoming
  the point of return. The pattern matches, and the matcher says no.
\<close>

theorem literal_star_is_missed:
  "glob ''*b'' ''*ab'' \<and> matchesPattern ''*ab'' ''*b'' = Some False"
  by (simp add: matchesPattern_def match_bound_def)

section \<open>Scan and flush\<close>

record key_info =
  ki_key :: string
  ki_ttl_remaining :: int
  ki_size_bytes :: int

record scan_result =
  sc_keys :: "string list"
  sc_key_details :: "key_info list"
  sc_next_cursor :: string
  sc_has_more :: bool

definition no_keys :: scan_result where
  "no_keys = \<lparr>sc_keys = [], sc_key_details = [], sc_next_cursor = [], sc_has_more = False\<rparr>"

definition key_info_of :: "nat \<Rightarrow> string \<Rightarrow> citem \<Rightarrow> key_info" where
  "key_info_of now key i =
     \<lparr>ki_key = key, ki_ttl_remaining = ttl_remaining now i, ki_size_bytes = int (length (fst i))\<rparr>"

definition clamp_count :: "32 word \<Rightarrow> nat" where
  "clamp_count cnt = (let c = (if sint cnt \<le> 0 then 100 else sint cnt) in nat (if c > 10000 then 10000 else c))"

text \<open>What the iterator yields: the items in the order in which it visits the keys.\<close>

definition entries_of :: "string list \<Rightarrow> server \<Rightarrow> (string \<times> citem) list" where
  "entries_of order s = List.map_filter (\<lambda>k. map_option (Pair k) (sv_items s k)) order"

fun scan_loop ::
  "nat \<Rightarrow> string \<Rightarrow> string \<Rightarrow> nat \<Rightarrow> bool \<Rightarrow> nat \<Rightarrow> bool \<Rightarrow> (string \<times> citem) list \<Rightarrow> scan_result \<Rightarrow> scan_result"
where
  "scan_loop now pat cursor limit details matched past [] r = r"
| "scan_loop now pat cursor limit details matched past ((key, i) # rest) r =
     (if \<not> past then scan_loop now pat cursor limit details matched (key = cursor) rest r
      else if matchesPattern key pat = Some True then
        (let r = r\<lparr>sc_keys := sc_keys r @ [key],
                  sc_key_details := sc_key_details r @ (if details then [key_info_of now key i] else [])\<rparr> in
         if matched + 1 \<ge> limit
         then (if rest \<noteq> [] then r\<lparr>sc_has_more := True, sc_next_cursor := key\<rparr> else r)
         else scan_loop now pat cursor limit details (matched + 1) past rest r)
      else scan_loop now pat cursor limit details matched past rest r)"

definition cm_scan :: "nat \<Rightarrow> string list \<Rightarrow> string \<Rightarrow> string \<Rightarrow> 32 word \<Rightarrow> bool \<Rightarrow> server \<Rightarrow> scan_result" where
  "cm_scan now order pat cursor cnt details s =
     (if \<not> sv_ready s then no_keys
      else scan_loop now pat cursor (clamp_count cnt) details 0 (cursor = []) (entries_of order s) no_keys)"

definition service_Scan :: "nat \<Rightarrow> string list \<Rightarrow> string \<Rightarrow> string \<Rightarrow> 32 word \<Rightarrow> bool \<Rightarrow> server \<Rightarrow> rpc_error + scan_result" where
  "service_Scan now order pat cursor cnt details s =
     (if \<not> sv_ready s then Inl UNAVAILABLE else Inr (cm_scan now order pat cursor cnt details s))"

text \<open>The loop of \<open>flush\<close> counts the removals that succeed.\<close>

fun flush_loop :: "nat \<Rightarrow> string list \<Rightarrow> int \<Rightarrow> server \<Rightarrow> int \<times> server" where
  "flush_loop now [] n s = (n, s)"
| "flush_loop now (k # ks) n s =
     flush_loop now ks (if find_item now k s \<noteq> None then n + 1 else n) (s\<lparr>sv_items := (sv_items s)(k := None)\<rparr>)"

definition cm_flush :: "nat \<Rightarrow> string list \<Rightarrow> server \<Rightarrow> int \<times> server" where
  "cm_flush now order s = (if \<not> sv_ready s then (0, s) else flush_loop now (map fst (entries_of order s)) 0 s)"

definition service_Flush :: "nat \<Rightarrow> string list \<Rightarrow> server \<Rightarrow> (rpc_error + int) \<times> server" where
  "service_Flush now order s =
     (if \<not> sv_ready s then (Inl UNAVAILABLE, s) else case cm_flush now order s of (n, s') \<Rightarrow> (Inr n, s'))"

section \<open>Paging\<close>

abbreviation key_matches :: "string \<Rightarrow> string \<times> citem \<Rightarrow> bool" where
  "key_matches pat e \<equiv> matchesPattern (fst e) pat = Some True"

text \<open>A page either exhausts the entries or stops at the last key it returns, with entries left.\<close>

definition page_end :: "string \<Rightarrow> nat \<Rightarrow> nat \<Rightarrow> string list \<Rightarrow> (string \<times> citem) list \<Rightarrow> scan_result \<Rightarrow> bool" where
  "page_end pat limit matched ks xs r \<longleftrightarrow>
     (\<not> sc_has_more r \<and> sc_keys r = ks @ map fst (filter (key_matches pat) xs)
       \<and> matched + length (filter (key_matches pat) xs) \<le> limit)
   \<or> (\<exists>ys e zs. xs = ys @ e # zs \<and> sc_has_more r \<and> sc_next_cursor r = fst e
       \<and> sc_keys r = ks @ map fst (filter (key_matches pat) (ys @ [e]))
       \<and> matched + length (filter (key_matches pat) (ys @ [e])) = limit)"

lemma page_end_Cons:
  assumes "page_end pat limit (if key_matches pat e then matched + 1 else matched)
    (if key_matches pat e then ks @ [fst e] else ks) xs r"
  shows "page_end pat limit matched ks (e # xs) r"
  using assms unfolding page_end_def
proof (elim disjE exE conjE)
  fix ys e' zs
  assume "xs = ys @ e' # zs" "sc_has_more r" "sc_next_cursor r = fst e'"
    "sc_keys r = (if key_matches pat e then ks @ [fst e] else ks) @ map fst (filter (key_matches pat) (ys @ [e']))"
    "(if key_matches pat e then matched + 1 else matched) + length (filter (key_matches pat) (ys @ [e'])) = limit"
  then have "e # xs = (e # ys) @ e' # zs \<and> sc_has_more r \<and> sc_next_cursor r = fst e'
      \<and> sc_keys r = ks @ map fst (filter (key_matches pat) ((e # ys) @ [e']))
      \<and> matched + length (filter (key_matches pat) ((e # ys) @ [e'])) = limit"
    by (auto split: if_splits)
  then show "(\<not> sc_has_more r \<and> sc_keys r = ks @ map fst (filter (key_matches pat) (e # xs))
       \<and> matched + length (filter (key_matches pat) (e # xs)) \<le> limit)
   \<or> (\<exists>ys e' zs. e # xs = ys @ e' # zs \<and> sc_has_more r \<and> sc_next_cursor r = fst e'
       \<and> sc_keys r = ks @ map fst (filter (key_matches pat) (ys @ [e']))
       \<and> matched + length (filter (key_matches pat) (ys @ [e'])) = limit)"
    by blast
qed (simp split: if_splits)

lemma page_end_more:
  "sc_has_more r \<Longrightarrow> sc_next_cursor r = fst e \<Longrightarrow> key_matches pat e \<Longrightarrow> sc_keys r = ks @ [fst e] \<Longrightarrow> matched + 1 = limit
    \<Longrightarrow> page_end pat limit matched ks (e # xs) r"
  unfolding page_end_def by (intro disjI2 exI [of _ "[]"] exI [of _ e] exI [of _ xs]) simp

lemma scan_loop_page:
  "matched < limit \<Longrightarrow> \<not> sc_has_more r \<Longrightarrow>
   page_end pat limit matched (sc_keys r) xs (scan_loop now pat cursor limit details matched True xs r)"
proof (induction xs arbitrary: matched r)
  case Nil
  then show ?case by (simp add: page_end_def)
next
  case (Cons e xs)
  obtain k i where e: "e = (k, i)" by (cases e)
  let ?r = "r\<lparr>sc_keys := sc_keys r @ [k], sc_key_details := sc_key_details r @ (if details then [key_info_of now k i] else [])\<rparr>"
  show ?case
  proof (cases "matchesPattern k pat = Some True")
    case True
    show ?thesis
    proof (cases "matched + 1 \<ge> limit")
      case full: True
      let ?r' = "scan_loop now pat cursor limit details matched True (e # xs) r"
      have r': "?r' = (if xs \<noteq> [] then ?r\<lparr>sc_has_more := True, sc_next_cursor := k\<rparr> else ?r)"
        using full True e by (simp add: Let_def)
      have lim: "matched + 1 = limit" using full Cons.prems by simp
      show ?thesis
      proof (cases "xs = []")
        case False
        then show ?thesis unfolding r' using True e lim by (intro page_end_more) simp_all
      qed (use True e lim Cons.prems in \<open>simp add: r' page_end_def\<close>)
    next
      case False
      have "page_end pat limit (matched + 1) (sc_keys ?r) xs (scan_loop now pat cursor limit details (matched + 1) True xs ?r)"
        by (rule Cons.IH) (use False Cons.prems in simp_all)
      with False True e show ?thesis by (intro page_end_Cons) (simp add: Let_def)
    qed
  next
    case False
    have "page_end pat limit matched (sc_keys r) xs (scan_loop now pat cursor limit details matched True xs r)"
      by (rule Cons.IH) (use Cons.prems in simp_all)
    with False e show ?thesis by (intro page_end_Cons) simp
  qed
qed

lemma scan_loop_skip:
  "cursor \<notin> fst ` set ys \<Longrightarrow>
    scan_loop now pat cursor limit details matched False (ys @ (cursor, i) # zs) r
    = scan_loop now pat cursor limit details matched True zs r"
  by (induction ys) auto

lemma clamp_count_pos: "0 < clamp_count cnt"
  by (auto simp: clamp_count_def Let_def)

text \<open>The documented use of the cursor: ask for the next page while there is more.\<close>

fun scan_pages :: "nat \<Rightarrow> (string \<Rightarrow> scan_result) \<Rightarrow> string \<Rightarrow> string list list option" where
  "scan_pages 0 f cursor = None"
| "scan_pages (Suc n) f cursor =
     (let r = f cursor in
      if sc_has_more r then map_option ((#) (sc_keys r)) (scan_pages n f (sc_next_cursor r)) else Some [sc_keys r])"

lemma scan_pages_from:
  fixes now pat details order s cnt
  defines "f \<equiv> \<lambda>c. cm_scan now order pat c cnt details s"
  assumes "\<And>c. f c = scan_loop now pat c (clamp_count cnt) details 0 (c = []) es no_keys"
    and "distinct (map fst es)" and "[] \<notin> fst ` set es"
  shows "es = pre @ suf \<Longrightarrow> cursor = (if pre = [] then [] else fst (last pre)) \<Longrightarrow> length suf < n \<Longrightarrow>
    \<exists>pages. scan_pages n f cursor = Some pages \<and> concat pages = map fst (filter (key_matches pat) suf)
      \<and> list_all (\<lambda>p. length p \<le> clamp_count cnt) pages"
proof (induction n arbitrary: pre suf cursor)
  case (Suc n)
  have page: "f cursor = scan_loop now pat cursor (clamp_count cnt) details 0 True suf no_keys"
  proof (cases "pre = []")
    case False
    then obtain ys i where ys: "pre = ys @ [(cursor, i)]" using Suc.prems(2) by (metis append_butlast_last_id surjective_pairing)
    have "distinct (map fst (ys @ (cursor, i) # suf))" "[] \<notin> fst ` set (ys @ (cursor, i) # suf)"
      using assms(3,4) Suc.prems(1) ys by simp_all
    then have "cursor \<notin> fst ` set ys" "cursor \<noteq> []" by auto
    then show ?thesis using assms(2) [of cursor] Suc.prems(1) ys scan_loop_skip [of cursor ys] by simp
  qed (use Suc.prems assms(2) in simp)
  have "page_end pat (clamp_count cnt) 0 [] suf (f cursor)"
    using scan_loop_page [of 0 "clamp_count cnt" no_keys] clamp_count_pos page by (simp add: no_keys_def)
  then show ?case
  proof (unfold page_end_def, elim disjE exE conjE)
    fix ys e zs
    assume e: "suf = ys @ e # zs" "sc_has_more (f cursor)" "sc_next_cursor (f cursor) = fst e"
      "sc_keys (f cursor) = [] @ map fst (filter (key_matches pat) (ys @ [e]))"
      "0 + length (filter (key_matches pat) (ys @ [e])) = clamp_count cnt"
    have "es = (pre @ ys @ [e]) @ zs" "fst e = (if pre @ ys @ [e] = [] then [] else fst (last (pre @ ys @ [e])))" "length zs < n"
      using Suc.prems e(1) by simp_all
    from Suc.IH [OF this] obtain pages where "scan_pages n f (fst e) = Some pages"
      "concat pages = map fst (filter (key_matches pat) zs)" "list_all (\<lambda>p. length p \<le> clamp_count cnt) pages" by blast
    with e show ?thesis by (auto simp: Let_def split: if_splits)
  qed (simp add: Let_def)
qed simp

lemma entries_of_keys: "map fst (entries_of order s) = filter (\<lambda>k. sv_items s k \<noteq> None) order"
  by (induction order) (auto simp: entries_of_def List.map_filter_def)

text \<open>
  Paging is complete on a cache that does not change: following the cursor from the empty one ends, no
  page is longer than the (clamped) count, and the pages together are exactly the keys the matcher
  accepts, each once, in the order of the iterator.
\<close>

lemma scan_paging_complete:
  assumes "sv_ready s" and "distinct order" and "sv_items s [] = None"
  shows "\<exists>pages. scan_pages (Suc (length order)) (\<lambda>c. cm_scan now order pat c cnt details s) [] = Some pages
    \<and> concat pages = filter (\<lambda>k. sv_items s k \<noteq> None \<and> matchesPattern k pat = Some True) order
    \<and> list_all (\<lambda>p. length p \<le> clamp_count cnt) pages"
proof -
  let ?es = "entries_of order s"
  have keys: "map fst ?es = filter (\<lambda>k. sv_items s k \<noteq> None) order" by (rule entries_of_keys)
  have "fst ` set ?es = set (filter (\<lambda>k. sv_items s k \<noteq> None) order)" using arg_cong [OF keys, of set] by simp
  then have d: "distinct (map fst ?es)" "[] \<notin> fst ` set ?es" unfolding keys using assms(2,3) by simp_all
  have n: "length ?es < Suc (length order)" using keys by (metis length_filter_le length_map less_Suc_eq_le)
  have "cm_scan now order pat c cnt details s = scan_loop now pat c (clamp_count cnt) details 0 (c = []) ?es no_keys" for c
    using assms(1) by (simp add: cm_scan_def)
  from scan_pages_from [OF this d, of "[]", simplified, OF refl refl n] obtain pages where p:
      "scan_pages (Suc (length order)) (\<lambda>c. cm_scan now order pat c cnt details s) [] = Some pages"
      "concat pages = map fst (filter (key_matches pat) ?es)" "list_all (\<lambda>p. length p \<le> clamp_count cnt) pages"
    by blast
  have "map fst (filter (key_matches pat) ?es) = filter (\<lambda>k. matchesPattern k pat = Some True) (map fst ?es)"
    by (simp add: filter_map comp_def)
  with p keys show ?thesis by (auto simp: conj_commute)
qed

end
