(* ===== verification/Cache_Service.thy ===== *)
theory Cache_Service
  imports Cache_Atomic Cache_Scan
begin

text \<open>
  The server as a state machine: any sequence of calls, each with its own time and its own luck with
  allocations, interleaved with evictions. The invariant of its reachable states covers every call that
  the other theories model, and gives the hypotheses under which paging through the keys is complete.
\<close>

datatype rpc =
    Get string
  | Set string "byte list" "64 word"
  | Delete string
  | Exists string
  | MultiGet "string list"
  | MultiSet "(string \<times> byte list \<times> 64 word) list"
  | MultiDelete "string list"
  | SetNX string "byte list" "64 word"
  | Increment string "64 word" "64 word"
  | Decrement string "64 word" "64 word"
  | Incr string "64 word" "64 word"
  | CompareAndSwap string "byte list" "byte list" "32 word" bool
  | GetTTL string
  | Touch string "64 word"
  | Pipeline "pipeline_request list"
  | Scan "string list" string string "32 word" bool
  | Flush "string list"

definition serve :: "nat \<Rightarrow> allocator \<Rightarrow> rpc \<Rightarrow> server \<Rightarrow> server" where
  "serve now room call s = (case call of
     Get k \<Rightarrow> snd (service_Get now k s)
   | Set k v ttl \<Rightarrow> snd (service_Set now (room k v s) k v ttl s)
   | Delete k \<Rightarrow> snd (service_Delete now k s)
   | Exists k \<Rightarrow> s
   | MultiGet ks \<Rightarrow> snd (service_MultiGet now ks s)
   | MultiSet items \<Rightarrow> snd (service_MultiSet now room items s)
   | MultiDelete ks \<Rightarrow> snd (service_MultiDelete now ks s)
   | SetNX k v ttl \<Rightarrow> snd (service_SetNX now room k v ttl s)
   | Increment k d ttl \<Rightarrow> snd (service_Increment now room k d ttl s)
   | Decrement k d ttl \<Rightarrow> snd (service_Decrement now room k d ttl s)
   | Incr k d ttl \<Rightarrow> snd (service_Incr now room k d ttl s)
   | CompareAndSwap k e v ttl keep \<Rightarrow> snd (service_CompareAndSwap now room k e v ttl keep s)
   | GetTTL k \<Rightarrow> snd (service_GetTTL now k s)
   | Touch k ttl \<Rightarrow> snd (service_Touch now room k ttl s)
   | Pipeline reqs \<Rightarrow> snd (service_Pipeline room reqs s)
   | Scan order pat cursor n details \<Rightarrow> s
   | Flush order \<Rightarrow> snd (service_Flush now order s))"

inductive reachable :: "nat \<Rightarrow> server \<Rightarrow> bool" for limit where
  started: "reachable limit (empty_server\<lparr>sv_max_item_size := limit\<rparr>)"
| called: "reachable limit s \<Longrightarrow> reachable limit (serve now room call s)"
| dropped: "reachable limit s \<Longrightarrow> reachable limit (evict k s)"

section \<open>The invariant\<close>

definition sound :: "nat \<Rightarrow> server \<Rightarrow> bool" where
  "sound limit s \<longleftrightarrow> sv_ready s \<and> sv_max_item_size s = limit \<and> counters_ok s \<and> sv_items s [] = None
     \<and> (\<forall>k v created ttl. sv_items s k = Some (v, created, ttl) \<longrightarrow> length v \<le> limit)"

named_theorems keeps \<open>operations of the manager that keep the invariant\<close>

lemma sound_get [keeps]: "sound n s \<Longrightarrow> sound n (snd (cm_get now k s))"
  by (auto simp: sound_def cm_get_def counters_ok_def Let_def split: option.splits)

lemma sound_setWithCreationTime [keeps]:
  "sound n s \<Longrightarrow> k \<noteq> [] \<Longrightarrow> sound n (snd (cm_setWithCreationTime now room k v ttl creation s))"
  by (auto simp: sound_def cm_setWithCreationTime_def counters_ok_def Let_def)

lemma sound_set [keeps]: "sound n s \<Longrightarrow> k \<noteq> [] \<Longrightarrow> sound n (snd (cm_set now room k v ttl s))"
  unfolding cm_set_creation by (rule sound_setWithCreationTime)

lemma sound_without: "sound n s \<Longrightarrow> sound n (s\<lparr>sv_items := (sv_items s)(k := None)\<rparr>)"
  by (auto simp: sound_def counters_ok_def)

lemma sound_remove [keeps]: "sound n s \<Longrightarrow> sound n (snd (cm_remove now k s))"
  by (auto simp: sound_def cm_remove_def counters_ok_def Let_def)

lemma sound_multiGet [keeps]: "sound n s \<Longrightarrow> sound n (snd (cm_multiGet now ks s))"
proof (induction ks arbitrary: s)
  case (Cons k ks)
  then show ?case using Cons.IH [OF sound_get [OF Cons.prems]] by (simp add: case_prod_beta Let_def)
qed simp

lemma sound_multiSet [keeps]:
  "sound n s \<Longrightarrow> list_all (\<lambda>(k, v, ttl). k \<noteq> []) items \<Longrightarrow> sound n (snd (cm_multiSet now room items s))"
proof (induction items arbitrary: s)
  case (Cons i items)
  obtain k v ttl where i: "i = (k, v, ttl)" by (cases i)
  then show ?case using Cons.IH [OF sound_set [OF Cons.prems(1)]] Cons.prems(2) by (simp add: case_prod_beta Let_def)
qed simp

lemma attempted_keys: "list_all (\<lambda>(k, v, ttl). k \<noteq> []) (attempted items)"
  by (auto simp: attempted_def list_all_iff)

lemma sound_multiDelete [keeps]: "sound n s \<Longrightarrow> sound n (snd (cm_multiDelete now ks c s))"
proof (induction ks arbitrary: c s)
  case (Cons k ks)
  then show ?case using Cons.IH [OF sound_remove [OF Cons.prems]] by (simp add: case_prod_beta Let_def)
qed simp

lemma sound_setNX [keeps]: "sound n s \<Longrightarrow> k \<noteq> [] \<Longrightarrow> sound n (snd (cm_setNX now room k v ttl s))"
  using sound_set [of n s k] by (auto simp: cm_setNX_def case_prod_beta split: option.splits)

lemma sound_atomicAddValue [keeps]: "sound n s \<Longrightarrow> k \<noteq> [] \<Longrightarrow> sound n (snd (cm_atomicAddValue now room k d ttl s))"
  using sound_setWithCreationTime [of n s k] by (auto simp: cm_atomicAddValue_def case_prod_beta split: option.splits)

lemma sound_decrement [keeps]: "sound n s \<Longrightarrow> k \<noteq> [] \<Longrightarrow> sound n (snd (cm_decrement now room k d ttl s))"
  using sound_atomicAddValue by (auto simp: cm_decrement_def split: option.splits)

lemma sound_incr [keeps]: "sound n s \<Longrightarrow> k \<noteq> [] \<Longrightarrow> sound n (snd (cm_incr now room k d ttl s))"
  using sound_setWithCreationTime [of n s k] by (auto simp: cm_incr_def Let_def case_prod_beta split: option.splits)

lemma sound_compareAndSwap [keeps]: "sound n s \<Longrightarrow> k \<noteq> [] \<Longrightarrow> sound n (snd (cm_compareAndSwap now room k e v ttl keep s))"
  using sound_setWithCreationTime [of n s k] by (auto simp: cm_compareAndSwap_def case_prod_beta split: option.splits)

lemma sound_touch [keeps]: "sound n s \<Longrightarrow> k \<noteq> [] \<Longrightarrow> sound n (snd (cm_touch now room k ttl s))"
  using sound_set [of n s k] by (auto simp: cm_touch_def case_prod_beta split: option.splits)

lemma sound_pipeline_step [keeps]: "sound n s \<Longrightarrow> sound n (snd (pipeline_step now room op s))"
  by (cases op) (auto simp: pipeline_step_def case_prod_beta intro: keeps)

lemma sound_pipeline_loop [keeps]: "sound n s \<Longrightarrow> sound n (snd (pipeline_loop room reqs s))"
proof (induction reqs arbitrary: s)
  case (Cons r reqs)
  obtain now i op where r: "r = (now, i, op)" by (cases r)
  then show ?case using Cons.IH [OF sound_pipeline_step [OF Cons.prems]] by (simp add: case_prod_beta Let_def)
qed simp

lemma sound_flush_loop [keeps]: "sound n s \<Longrightarrow> sound n (snd (flush_loop now ks c s))"
  by (induction now ks c s rule: flush_loop.induct) (simp_all add: sound_without)

lemma sound_serve: "sound n s \<Longrightarrow> sound n (serve now room call s)"
proof (cases call)
  case (MultiSet items)
  assume s: "sound n s"
  with MultiSet show ?thesis using sound_multiSet [OF s attempted_keys] by (auto simp: serve_def service_MultiSet_def case_prod_beta Let_def)
qed (auto simp: serve_def service_Get_def service_Set_def service_Delete_def service_MultiGet_def
      service_MultiDelete_def service_SetNX_def service_Increment_def service_Decrement_def service_Incr_def
      service_CompareAndSwap_def service_GetTTL_def service_Touch_def service_Pipeline_def service_Flush_def cm_flush_def
      cm_increment_def case_prod_beta Let_def guarded_def intro: keeps)

lemma reachable_sound: "reachable limit s \<Longrightarrow> sound limit s"
proof (induction rule: reachable.induct)
  case started
  show ?case by (simp add: sound_def empty_server_def counters_ok_def)
next
  case (called s now room call)
  from called.IH show ?case by (rule sound_serve)
next
  case (dropped s k)
  then show ?case unfolding evict_def by (intro sound_without)
qed

text \<open>
  C3. The invariant of the server: whatever calls arrive, in whatever order, at whatever times and with whatever
  allocation failures, and whatever is evicted in between, hits and misses sum to the gets, no item is
  stored under the empty key, and no stored value is larger than the configured limit.
\<close>

theorem server_invariant:
  assumes "reachable limit s"
  shows "sv_get_count s = sv_hit_count s + sv_miss_count s \<and> sv_items s [] = None
    \<and> (\<forall>k v created ttl. sv_items s k = Some (v, created, ttl) \<longrightarrow> length v \<le> limit)"
  using reachable_sound [OF assms] by (simp add: sound_def counters_ok_def)

definition sample_served :: server where
  "sample_served = serve 9 (\<lambda>_ _ _. True) (Get ''k'') (serve 5 (\<lambda>_ _ _. True) (MultiSet [(''k'', [1], 0), ([], [2], 0)])
     (empty_server\<lparr>sv_max_item_size := 100\<rparr>))"

lemma sample_served_reachable: "reachable 100 sample_served"
  unfolding sample_served_def by (intro reachable.intros)

theorem server_invariant_witness:
  "sv_get_count sample_served = sv_hit_count sample_served + sv_miss_count sample_served \<and> sv_items sample_served [] = None"
  using server_invariant [OF sample_served_reachable] by simp

text \<open>What a pattern asks for: every key if it is empty, and otherwise the keys it matches.\<close>

definition wanted :: "string \<Rightarrow> string \<Rightarrow> bool" where
  "wanted pat k \<longleftrightarrow> pat = [] \<or> glob pat k"

text \<open>
  C10. Scanning a server: in a reachable state that does not change, with an iterator that visits every key
  once, following the cursor from the empty one ends, for every pattern and count. No page is longer than the clamped count, no
  key is listed twice, and every listed key is held and is one the pattern asks for. Conversely every held
  key the pattern asks for is listed, unless the key itself contains a star; with the empty pattern and the pattern \<open>*\<close> those are listed too.
\<close>

theorem scan_finds_every_key:
  assumes "reachable limit s" and "distinct order" and "dom (sv_items s) \<subseteq> set order"
  shows "\<exists>pages. scan_pages (Suc (length order)) (\<lambda>c. cm_scan now order pat c cnt details s) [] = Some pages
    \<and> list_all (\<lambda>p. length p \<le> clamp_count cnt) pages \<and> distinct (concat pages)
    \<and> set (concat pages) \<subseteq> {k \<in> dom (sv_items s). wanted pat k}
    \<and> {k \<in> dom (sv_items s). wanted pat k \<and> (CHR ''*'' \<notin> set k \<or> pat = [] \<or> pat = ''*'')} \<subseteq> set (concat pages)"
proof -
  have s: "sv_ready s" "sv_items s [] = None" using reachable_sound [OF assms(1)] by (simp_all add: sound_def)
  obtain pages where p: "scan_pages (Suc (length order)) (\<lambda>c. cm_scan now order pat c cnt details s) [] = Some pages"
      "concat pages = filter (\<lambda>k. sv_items s k \<noteq> None \<and> matchesPattern k pat = Some True) order"
      "list_all (\<lambda>p. length p \<le> clamp_count cnt) pages"
    using scan_paging_complete [OF s(1) assms(2) s(2)] by blast
  have listed: "k \<in> set (concat pages) \<longleftrightarrow> k \<in> dom (sv_items s) \<and> matchesPattern k pat = Some True" for k
    unfolding p(2) using assms(3) by auto
  have all: "matchesPattern k pat = Some True" if "pat = [] \<or> pat = ''*''" for k using that by (simp add: matchesPattern_def)
  have "matchesPattern k pat = Some True \<longrightarrow> wanted pat k"
    and "wanted pat k \<and> (CHR ''*'' \<notin> set k \<or> pat = [] \<or> pat = ''*'') \<longrightarrow> matchesPattern k pat = Some True" for k
    using matchesPattern_glob [of pat k] all [of k] unfolding wanted_def by (metis option.inject)+
  then have "set (concat pages) \<subseteq> {k \<in> dom (sv_items s). wanted pat k}"
    and "{k \<in> dom (sv_items s). wanted pat k \<and> (CHR ''*'' \<notin> set k \<or> pat = [] \<or> pat = ''*'')} \<subseteq> set (concat pages)"
    using listed by blast+
  moreover have "distinct (concat pages)" using p(2) assms(2) by simp
  ultimately show ?thesis using p by blast
qed

theorem scan_finds_every_key_witness:
  "\<exists>pages. scan_pages 3 (\<lambda>c. cm_scan 9 [''j'', ''k''] ''?'' c 1 False sample_served) [] = Some pages
    \<and> set (concat pages) = {''k''}"
proof -
  have "attempted [(''k'', [1], 0), ([], [2], 0)] = [(''k'', [1], 0)]" by (simp add: attempted_def narrow_ttl_def)
  then have "sv_items sample_served = [''k'' \<mapsto> ([1], 5, 0)]"
    by (simp add: sample_served_def serve_def service_MultiSet_def cm_set_def service_Get_def cm_get_def find_item_def
        expired_def empty_server_def Let_def)
  then have d: "dom (sv_items sample_served) = {''k''}" by simp
  have "{k \<in> {''k''}. wanted ''?'' k \<and> (CHR ''*'' \<notin> set k \<or> ''?'' = [] \<or> ''?'' = ''*'')} = {''k''}"
    "{k \<in> {''k''}. wanted ''?'' k} = {''k''}" by (auto simp: wanted_def)
  with d scan_finds_every_key [OF sample_served_reachable, of "[''j'', ''k'']" 9 "''?''" 1 False]
  show ?thesis by (auto simp: numeral_3_eq_3 simp del: scan_pages.simps)
qed

end
