(* ===== verification/Spec2Isabelle.thy ===== *)
theory Spec2Isabelle
  imports Campaign_Run Campaign_Tables Matrix_Run Limits_Run Investigation_Http Release_Report Landscape_Report Http_Run Http_Client
    Render Preview Client_Verify Client_Limits Flash_Smoke Strong_Output Matrix_Summary Cache_Service
begin

text \<open>
  This development verifies the programs that measure the cache server of this repository, and the server calls
  they rely on. The repository holds a gRPC cache server over CacheLib (\<open>src/CacheManager.cc\<close>, \<open>src/CacheServiceImpl.cc\<close>,
  \<open>src/proto/cache.proto\<close>) and, in Python under \<open>src/bench\<close>, everything from the load a benchmark applies to
  the sentences the README prints about it. The numbers the project publishes pass through all of these
  programs, and the theorems follow them: a campaign plans its runs, a harness runs them in containers and leaves evidence,
  a check decides whether the evidence is sound, a summary reduces it, and a report may state only what the summary and the check support.

  \<^bold>\<open>The parts and their theories\<close>

  \<^item> \<^emph>\<open>Shared material.\<close> \<open>Prelude\<close> has the Python exceptions, the result type (\<open>Inl\<close> the exception) and the string operations of
    the sources; \<open>Json\<close> the values of \<open>json.loads\<close> with Python's operations on them; \<open>Floats\<close> the rounding to binary64, half to even, so that every float
    operation of the sources is a rounded real one; \<open>Py_Random\<close> a random generator as a parameter; \<open>Statistics\<close> the
    medians, percentiles and quantiles of all programs with the locale \<open>location\<close> of what a report relies on; \<open>Effects\<close> the actions of a program that runs processes, writes files, sleeps and
    raises, as functions on a trace of events against an environment, with rules for what an action may do (\<open>emits\<close>), has
    done (\<open>leaves\<close>) and that it returns (\<open>returns\<close>).
  \<^item> \<^emph>\<open>The cache server.\<close> \<open>Cache_Server\<close> (Get, Set, Delete), \<open>Cache_Atomic\<close> (SetNX, Increment, Decrement, Incr, CompareAndSwap,
    GetTTL, Touch, with 64-bit arithmetic), \<open>Cache_Batch\<close> (batch calls and the streaming pipeline), \<open>Cache_Scan\<close> (the wildcard matcher, Scan, Flush) and
    \<open>Cache_Service\<close>, the server as a step relation over all calls and evictions. The locale \<open>cache_contract\<close> is what a client relies on, and the server interprets it.
  \<^item> \<^emph>\<open>Objects, origin and clients.\<close> \<open>Media\<close> has the generators of the binary objects (locale \<open>keyed_objects\<close>: an object tells its index);
    \<open>Http_Service\<close> the origin and the HTTP adapter of \<open>http_service.py\<close> in its three versions, with a step relation for concurrent requests;
    \<open>Trace_Client\<close>, \<open>Client_Verify\<close> and \<open>Client_Limits\<close> the KV client \<open>bench/investigation/client.py\<close> on an abstract backend and on the server, the last behind a transport with message limits;
    \<open>Flash_Smoke\<close> the test of the flash tier \<open>bench/strong/flash_smoke.py\<close>, its conclusions in the locale \<open>flash_counters\<close>, interpreted on the server with any policy of its tier;
    \<open>Http_Client\<close> the HTTP client \<open>bench/investigation/http_client.py\<close>, its lemmas in the locale \<open>object_service\<close>, interpreted on the composition
    of adapter, origin and cache.
  \<^item> \<^emph>\<open>Campaigns.\<close> \<open>Campaign\<close> models the groups, the check of the evidence and the command lines of \<open>bench/strong/release_campaign.py\<close>,
    \<open>Campaign_Run\<close> the resumable run over the groups with crashes between any two actions, \<open>Campaign_Tables\<close> the two tables of groups (also \<open>landscape_campaign.py\<close>).
  \<^item> \<^emph>\<open>Harnesses.\<close> \<open>Strong_Harness\<close> and \<open>Strong_Run\<close> (\<open>bench/strong/run_strong.py\<close>), \<open>Http_Harness\<close> and \<open>Http_Run\<close> (\<open>bench/strong/run_http.py\<close>),
    \<open>Matrix_Run\<close>, \<open>Limits_Run\<close> and \<open>Investigation_Http\<close> (\<open>run_matrix.py\<close>, \<open>run_limits.py\<close> and \<open>run_http.py\<close> of \<open>bench/investigation\<close>). The locale \<open>trace_property\<close> of the last
    carries a property of stretches of a trace through all control structures.
  \<^item> \<^emph>\<open>Summaries.\<close> \<open>Report\<close> (\<open>bench/report.py\<close>, \<open>aggregate.py\<close>, \<open>summarize.py\<close>), \<open>Strong_Summary\<close> and \<open>Strong_Output\<close> (\<open>bench/strong/summarize.py\<close>),
    \<open>Matrix_Summary\<close> (the two summaries of the investigation) and \<open>Charts\<close> (the SVG charts of both); \<open>Preview\<close> is the card of \<open>bench/social_preview.py\<close>.
  \<^item> \<^emph>\<open>Reports.\<close> \<open>Blocks\<close> and \<open>Render\<close> (\<open>bench/render.py\<close>), \<open>Figures\<close> and \<open>Report_Tables\<close> (\<open>render_report_tables.py\<close>), \<open>Readme_Block\<close> (the marked block of the README, as the locale \<open>block_marks\<close>,
    interpreted for both reports), \<open>Release_Report\<close> (\<open>render_release_report.py\<close>) and \<open>Landscape_Report\<close> (\<open>render_landscape_report.py\<close>).

  Records stand for the sources' argument objects, rows and states; a dictionary read from JSON is an association list, since the order
  of its keys is the order of the columns written. Functions carry the names of the sources, with a prefix where two programs use
  one name (\<open>matrix_\<close>, \<open>media_\<close>, \<open>limits_\<close>, \<open>http_\<close>; \<open>cm_\<close> and \<open>service_\<close> for the two layers of the server).

  \<^bold>\<open>What is shown\<close>

  \<^item> \<^emph>\<open>Evidence.\<close> The check of a group accepts it exactly when every expected run left sound evidence; the schedule of a harness is a permutation of the expected runs, and the command line built for a group, parsed by the
    harness, gives back the group. Every harness comes back whatever its containers do, leaves a result or an error for every
    run, and removes what it started, under the stated conditions on docker's own commands; where the code does not, that is a theorem too (a cleanup that times out abandons the server).
    The probe of the limits, which sets no timeouts, ends when every command it waits for ends. The theorem of this theory composes them: what the check expects of a group, the harness leaves.
  \<^item> \<^emph>\<open>Campaigns.\<close> Over any sequence of crashes and resumptions no group is started twice, a group that was interrupted blocks the campaign, and a recorded verdict \<open>valid\<close> means
    that every step exited 0 and all evidence is sound.
  \<^item> \<^emph>\<open>Clients.\<close> The counts of a run add up; on the server with room, a hit run reports hits only; the HTTP client, on adapter, origin and cache, reports hits and misses that are what the cache did, with
    the requests in any order; the adapter never serves other bytes than the origin's and never hides an origin request; the version that reuses
    connections gives the replies of its predecessor over any session in which the origin may drop the kept connection, and opens at most one connection more than were dropped. A passed flash test accounts for its flash hits, and it passes on a tier that takes every write; the limits command reports where the
    boundaries of transport and server are.
  \<^item> \<^emph>\<open>Server.\<close> An invariant of all reachable states; exact 64-bit counters and fixed windows; the pipeline refines the sequence of single calls; Scan yields only keys the pattern asks for, each once, and all of them but, possibly, keys that contain a star;
    the iterative wildcard matcher agrees with the recursive one on keys without a star, and ends.
  \<^item> \<^emph>\<open>Summaries.\<close> Quantiles are ordered and lie between samples, with all roundings; every run is a row or a failure; groups partition the rows and intervals lie in their range; the
    tables written have distinct columns holding all fields; a later run replaces an earlier one of the same engine and case; bars keep to their chart.
  \<^item> \<^emph>\<open>Reports.\<close> Tables appear only from five sound repetitions; headlines appear only when their groups are qualified; a report is rendered only from a finished campaign with unchanged evidence and has a line for every planned
    mode; the order of the engines is the measured one; checking accepts what rendering wrote, and rendering twice changes nothing.

  \<^bold>\<open>Bounds\<close>

  Loops that poll a clock are actions that may not return (\<open>None\<close>), and that they return is proved for advancing clocks. Loops with a bound in the source recurse on it: \<open>wait_healthy\<close> 30, \<open>await_target\<close> 40.
  \<open>wait_expiry\<close> of the client takes its number of polls, and 33 suffice because each sleeps at least 1/16 s and an item of one second is gone after two; the waits of the flash test likewise, with 327 polls.
  The wildcard matcher has a quadratic bound \<open>match_bound\<close> that is proved to suffice, and paging through the keys needs at most one page more than there are keys.
  The server's times are \<open>uint32_t\<close>, with their wrap-around (\<open>clock32\<close>, \<open>expiry_time\<close>): theorems about an expiry carry the condition that it fits 32 bits, and \<open>long_ttl_expires_at_once\<close> says what happens otherwise.

  \<^bold>\<open>Parameters\<close>

  Code outside the repository is an argument: the processes, clock, file system and JSON decoder of a harness (\<open>env\<close>), CacheLib's allocator (\<open>room\<close>) and flash tier (\<open>tier\<close>), the framing of messages (\<open>tp_wire\<close>), the logarithm of the C library, evictions and iteration order, the random generator
  (with the documented range of its draws as hypothesis), \<open>repr\<close> of floats and \<open>str\<close> of numbers, SHA-256 values and the images docker reports (\<open>world\<close>), and the rows the CSV reader yields. Every theorem with a hypothesis on one of them has a witness on a
  concrete instance.

  \<^bold>\<open>Not modelled\<close>

  \<open>bench/strong/main.go\<close> and \<open>httpbench.go\<close>, the Go load generators, are known by the result files the harness model reads. Initialisation, shutdown, Stats and Ping of the server
  only configure or query CacheLib and read clocks; what its flash tier moves is CacheLib's decision and a parameter of \<open>Flash_Smoke\<close>. Argument parsing is modelled where a program builds a command
  line for another (\<open>strong_cli\<close>); elsewhere the parsed record is the argument. Progress lines on standard output are left out; where printing one can raise, the model raises.
  Numbers are finite: the overflow of a float to infinity and the values \<open>NaN\<close> and \<open>Infinity\<close> of Python's JSON decoder are left out, and \<open>comparison_sentence\<close> has the defaults of two parameters all its callers omit.
  Unit tests, shell scripts and workflows are not part of the programs.
\<close>

section \<open>A group of a campaign, from its definition to its evidence\<close>

text \<open>
  The schedule the harness walks holds, up to the name of the repetition, the runs the campaign check
  expects.
\<close>

lemma scheduled_expected:
  assumes "in_range_rng g"
  shows "(\<exists>r. (c, r, e) \<in> set (schedule g (sp_cases spec) (sp_reps spec) (sp_engines spec)) \<and> n = rep_name r)
    \<longleftrightarrow> (c, n, e) \<in> set (expected_runs spec)"
proof -
  have "set (shuffle g seed xs) = set xs" for seed and xs :: "string list"
    using mset_shuffle [OF assms, of seed xs] by (metis set_mset_mset)
  then show ?thesis by (auto simp: schedule_def expected_runs_def)
qed

text \<open>
  C6. Every run a group expects leaves evidence: the harness, walking the shuffled schedule of a group, comes back
  whatever the containers do, and then every run the campaign check expects and the harness measures
  has a \<open>result.json\<close> or an \<open>error.txt\<close> in its directory, and the network of the group is removed.
\<close>

theorem group_leaves_evidence:
  assumes "in_range_rng g" and "advancing env" and "quiet_cleanup env"
    and "list_all (\<lambda>c. map_of CASES c \<noteq> None) (sp_cases spec)"
  shows "\<exists>r es. run_schedule env network output args (schedule g (sp_cases spec) (sp_reps spec) (sp_engines spec)) tr = Some (r, tr @ es)
    \<and> Exec [''docker'', ''network'', ''rm'', network] 300 \<in> set es
    \<and> (\<forall>(c, n, e) \<in> set (expected_runs spec). \<exists>i. n = rep_name i \<and> (measured (c, i, e) \<longrightarrow> has_evidence output es (c, i, e)))"
proof -
  let ?runs = "schedule g (sp_cases spec) (sp_reps spec) (sp_engines spec)"
  have "map_of CASES c \<noteq> None" if "(c, i, e) \<in> set ?runs" for c i e
    using assms(4) that by (auto simp: schedule_def list_all_iff)
  then obtain r es where es: "run_schedule env network output args ?runs tr = Some (r, tr @ es)"
      "\<And>run. run \<in> set ?runs \<Longrightarrow> measured run \<Longrightarrow> has_evidence output es run"
      "Exec [''docker'', ''network'', ''rm'', network] 300 \<in> set es"
    using run_schedule_complete [OF assms(2,3), of ?runs] by metis
  have "\<exists>i. n = rep_name i \<and> (measured (c, i, e) \<longrightarrow> has_evidence output es (c, i, e))"
    if "(c, n, e) \<in> set (expected_runs spec)" for c n e
    using that scheduled_expected [OF assms(1)] es(2) by metis
  with es(1,3) show ?thesis by (intro exI [of _ r] exI [of _ es]) auto
qed

theorem group_leaves_evidence_witness:
  "\<exists>r es. run_schedule idle_env ''cstrong-net'' ''out'' strong_defaults (schedule zero_rng [''hit_1k_c8''] 1 [''redis'']) [] = Some (r, es)
    \<and> Exec [''docker'', ''network'', ''rm'', ''cstrong-net''] 300 \<in> set es"
proof -
  have "list_all (\<lambda>c. map_of CASES c \<noteq> None) (sp_cases sample_spec)" using CASES_lookup(4) by (simp del: not_None_eq)
  from group_leaves_evidence [OF zero_rng_in_range idle_advancing idle_quiet this, of "''cstrong-net''" "''out''" strong_defaults "[]"]
  show ?thesis by auto
qed

end
